(* ===== verification/Prelude.thy ===== *)
theory Prelude
  imports Main "HOL-Library.Char_ord" "HOL-Library.List_Lexorder"
begin

section \<open>Shared vocabulary of the models\<close>

text \<open>
  What every component uses: the errors a service raises, results, database
  transactions, the string operations of the language that the code calls, and the
  lemma collections. A raise of the source is a value \<open>Inl\<close>; a message text is not
  modelled, only the code and the HTTP status a client can observe.
\<close>

subsection \<open>Errors, results and transactions\<close>

text \<open>\<open>ServiceError code status\<close> is \<open>src/utils/service-error.ts\<close> (and the identically
  shaped \<open>AppError\<close>); \<open>JsError\<close> stands for the plain \<open>Error\<close>, \<open>RangeError\<close> and
  \<open>SyntaxError\<close> values the code or the language raises.\<close>

datatype error = ServiceError string nat | JsError string

type_synonym 'a result = "error + 'a"

text \<open>\<open>new ServiceError(code, message)\<close> has status 400 unless one is given.\<close>

definition service_error :: "string \<Rightarrow> error" where
  "service_error c = ServiceError c 400"

fun and_then :: "'a result \<Rightarrow> ('a \<Rightarrow> 'b result) \<Rightarrow> 'b result" where
  "and_then (Inl e) f = Inl e"
| "and_then (Inr x) f = f x"

text \<open>\<open>require c e\<close> is \<open>if (!c) throw e\<close>.\<close>

definition require :: "bool \<Rightarrow> error \<Rightarrow> unit result" where
  "require c e = (if c then Inr () else Inl e)"

text \<open>\<open>dataSource.transaction(f)\<close>: the writes of \<open>f\<close> are kept when it returns and dropped
  when it raises.\<close>

definition run_tx :: "('db \<Rightarrow> error + ('a \<times> 'db)) \<Rightarrow> 'db \<Rightarrow> 'a result \<times> 'db" where
  "run_tx f db = (case f db of Inl e \<Rightarrow> (Inl e, db) | Inr (a, db') \<Rightarrow> (Inr a, db'))"

named_theorems result_simps "elimination of the result combinators"
named_theorems frame_simps "what an operation leaves unchanged"

lemma and_then_Inr [result_simps]:
  "and_then m f = Inr y \<longleftrightarrow> (\<exists>x. m = Inr x \<and> f x = Inr y)"
  by (cases m) auto

lemma and_then_Inl [result_simps]:
  "and_then m f = Inl e \<longleftrightarrow> m = Inl e \<or> (\<exists>x. m = Inr x \<and> f x = Inl e)"
  by (cases m) auto

lemma require_Inr [result_simps]: "require c e = Inr u \<longleftrightarrow> c"
  by (simp add: require_def)

lemma require_Inl [result_simps]: "require c e = Inl e' \<longleftrightarrow> \<not> c \<and> e' = e"
  by (auto simp: require_def)

lemma require_True [simp]: "require True e = Inr ()"
  by (simp add: require_def)

lemma require_False [simp]: "require False e = Inl e"
  by (simp add: require_def)

lemma run_tx_Inl [result_simps]: "run_tx f db = (Inl e, db') \<longleftrightarrow> f db = Inl e \<and> db' = db"
  by (auto simp: run_tx_def split: sum.splits)

lemma run_tx_Inr [result_simps]: "run_tx f db = (Inr a, db') \<longleftrightarrow> f db = Inr (a, db')"
  by (auto simp: run_tx_def split: sum.splits)

subsection \<open>Loops over lists\<close>

text \<open>A loop that stops at the first error, collecting the results in order.\<close>

fun map_result :: "('a \<Rightarrow> 'b result) \<Rightarrow> 'a list \<Rightarrow> 'b list result" where
  "map_result f [] = Inr []"
| "map_result f (x # xs) =
     and_then (f x) (\<lambda>y. and_then (map_result f xs) (\<lambda>ys. Inr (y # ys)))"

lemma map_result_Inr: "(\<And>x. x \<in> set xs \<Longrightarrow> f x = Inr (g x)) \<Longrightarrow> map_result f xs = Inr (map g xs)"
  by (induction xs) auto

lemma map_result_length: "map_result f xs = Inr ys \<Longrightarrow> length ys = length xs"
  by (induction xs arbitrary: ys) (auto simp: result_simps)

lemma sum_list_nonneg_int: "(\<And>x. x \<in> set xs \<Longrightarrow> (0::int) \<le> f x) \<Longrightarrow> 0 \<le> sum_list (map f xs)"
  by (induction xs) auto

lemma member_le_sum_list_int:
  "x \<in> set xs \<Longrightarrow> (\<And>y. y \<in> set xs \<Longrightarrow> (0::int) \<le> f y) \<Longrightarrow> f x \<le> sum_list (map f xs)"
proof (induction xs)
  case (Cons y ys)
  have "0 \<le> f y" and "0 \<le> sum_list (map f ys)"
    using Cons.prems(2) by (auto intro: sum_list_nonneg_int)
  then show ?case using Cons.IH Cons.prems by fastforce
qed simp

lemma foldl_plus_sum_list: "foldl (\<lambda>s x. s + f x) a xs = a + sum_list (map f xs)"
  for f :: "'a \<Rightarrow> 'b::monoid_add"
  by (induction xs arbitrary: a) (auto simp: add.assoc)

text \<open>The sum over the rows a query selects.\<close>

definition total_if :: "('r \<Rightarrow> bool) \<Rightarrow> ('r \<Rightarrow> int) \<Rightarrow> 'r list \<Rightarrow> int" where
  "total_if P f xs = sum_list (map (\<lambda>x. if P x then f x else 0) xs)"

lemma total_if_simps [simp]:
  "total_if P f [] = 0" "total_if P f (x # xs) = (if P x then f x else 0) + total_if P f xs"
  "total_if P f (xs @ ys) = total_if P f xs + total_if P f ys"
  by (simp_all add: total_if_def)

lemma total_if_nonneg: "\<forall>x \<in> set xs. 0 \<le> f x \<Longrightarrow> 0 \<le> total_if P f xs"
  by (induction xs) auto

lemma total_if_mono: "\<forall>x \<in> set xs. 0 \<le> f x \<and> (P x \<longrightarrow> Q x) \<Longrightarrow> total_if P f xs \<le> total_if Q f xs"
  by (induction xs) auto

lemma total_if_member: "\<forall>x \<in> set xs. 0 \<le> f x \<Longrightarrow> x \<in> set xs \<Longrightarrow> P x \<Longrightarrow> f x \<le> total_if P f xs"
  by (induction xs) (auto simp: total_if_nonneg intro: add_increasing)

lemma total_if_filter: "sum_list (map f (filter P xs)) = total_if P f xs"
  by (induction xs) auto

subsection \<open>Strings\<close>

definition is_ws :: "char \<Rightarrow> bool" where
  "is_ws c \<longleftrightarrow> of_char c \<in> {9, 10, 11, 12, 13, 32 :: nat}"

definition js_trim :: "string \<Rightarrow> string" where
  "js_trim s = rev (dropWhile is_ws (rev (dropWhile is_ws s)))"

text \<open>\<open>s.trim() || null\<close> and the truthiness of an optional string.\<close>

definition truthy :: "string option \<Rightarrow> bool" where
  "truthy s = (case s of None \<Rightarrow> False | Some t \<Rightarrow> t \<noteq> [])"

lemma js_trim_id: "(\<forall>c \<in> set s. \<not> is_ws c) \<Longrightarrow> js_trim s = s"
proof -
  assume a: "\<forall>c \<in> set s. \<not> is_ws c"
  then have "dropWhile is_ws s = s" by (cases s) auto
  moreover have "dropWhile is_ws (rev s) = rev s" using a
    by (metis dropWhile_eq_self_iff hd_in_set set_rev)
  ultimately show ?thesis by (simp add: js_trim_def)
qed

definition lower_char :: "char \<Rightarrow> char" where
  "lower_char c = (if 65 \<le> (of_char c :: nat) \<and> (of_char c :: nat) \<le> 90 then char_of ((of_char c :: nat) + 32) else c)"

definition toLowerCase :: "string \<Rightarrow> string" where
  "toLowerCase s = map lower_char s"

text \<open>A value of the language as it comes out of \<open>JSON.parse\<close> or of the chain's SDK.\<close>

datatype native = NStr string | NInt int | NBool bool | NNull | NObj "(string \<times> native) list" | NArr "native list" | NOther string

text \<open>\<open>v[k]\<close> of an object, \<open>a ?? b\<close>, and the truthiness of a value.\<close>

definition nfield :: "native \<Rightarrow> string \<Rightarrow> native option" where
  "nfield v k = (case v of NObj obj \<Rightarrow> map_of obj k | _ \<Rightarrow> None)"

definition non_null_or :: "native option \<Rightarrow> native option \<Rightarrow> native option" where
  "non_null_or a b = (case a of None \<Rightarrow> b | Some NNull \<Rightarrow> b | _ \<Rightarrow> a)"

definition js_truthy :: "native option \<Rightarrow> bool" where
  "js_truthy v = (case v of None \<Rightarrow> False | Some NNull \<Rightarrow> False | Some (NStr s) \<Rightarrow> s \<noteq> [] | Some (NInt n) \<Rightarrow> n \<noteq> 0
     | Some (NBool b) \<Rightarrow> b | Some _ \<Rightarrow> True)"

text \<open>Distinct elements in the order of their first occurrence: \<open>[...new Set(xs)]\<close>.\<close>

definition unique :: "'a list \<Rightarrow> 'a list" where
  "unique xs = rev (remdups (rev xs))"

lemma unique_simps [simp]: "set (unique xs) = set xs" "distinct (unique xs)" "unique xs = [] \<longleftrightarrow> xs = []"
  by (simp_all add: unique_def)

subsection \<open>Invariants of machines driven by events\<close>

lemma find_SomeD: "List.find P xs = Some x \<Longrightarrow> x \<in> set xs \<and> P x"
  by (auto simp: find_Some_iff)

text \<open>The contract several components share: a step function that keeps an invariant.
  What it gives is proved once, for every run of events.\<close>

locale step_invariant =
  fixes step :: "'s \<Rightarrow> 'e \<Rightarrow> 's"
    and inv :: "'s \<Rightarrow> bool"
  assumes step_inv: "inv s \<Longrightarrow> inv (step s e)"
begin

lemma run_inv: "inv s \<Longrightarrow> inv (foldl step s es)"
  by (induction es arbitrary: s) (auto intro: step_inv)

lemma run_prefix_inv: "inv s \<Longrightarrow> inv (foldl step s (take n es))"
  by (rule run_inv)

end

text \<open>Short runs, written out.\<close>

lemma one_more_step: "rtranclp R a b \<Longrightarrow> R b c \<Longrightarrow> rtranclp R a c"
  by (rule rtranclp.rtrancl_into_rtrancl)

lemma three_steps: "R a b \<Longrightarrow> R b c \<Longrightarrow> R c d \<Longrightarrow> rtranclp R a d"
  by (rule one_more_step [of R], rule one_more_step [of R], rule one_more_step [of R], rule rtranclp.rtrancl_refl)

lemma five_steps: "R a b \<Longrightarrow> R b c \<Longrightarrow> R c d \<Longrightarrow> R d e \<Longrightarrow> R e f \<Longrightarrow> rtranclp R a f"
  by (rule one_more_step [of R], rule one_more_step [of R], rule three_steps [of R])

text \<open>The same for a step relation: what its steps keep holds in every state they reach.\<close>

locale kept_by_steps =
  fixes rel :: "'s \<Rightarrow> 's \<Rightarrow> bool"
    and good :: "'s \<Rightarrow> bool"
  assumes keeps: "good s \<Longrightarrow> rel s s' \<Longrightarrow> good s'"
begin

lemma reached_good: "rtranclp rel s s' \<Longrightarrow> good s \<Longrightarrow> good s'"
  by (induction rule: rtranclp_induct) (auto intro: keeps)

end

end
