(* ===== verification/Circuit_Breaker.thy ===== *)
theory Circuit_Breaker
  imports Prelude
begin

section \<open>The circuit breaker\<close>

text \<open>
  \<open>src/lib/circuit-breaker.ts\<close>: the breaker's state, its two callbacks and
  \<open>execute\<close>. The guarded operation is an argument: whether it would succeed. The clock
  of a call is read once when the breaker is open and once when a failure is recorded, so
  \<open>execute\<close> takes both readings. \<open>calls\<close> counts how often the operation was really
  run: it is the observation the properties are about, not a field of the code.
\<close>

datatype breaker_mode = Closed | Open | HalfOpen

record breaker_options =
  failureThreshold :: int
  successThreshold :: int
  timeout :: int

record breaker =
  failures :: int
  successes :: int
  lastFailure :: int
  mode :: breaker_mode

definition breaker_init :: breaker where
  "breaker_init = \<lparr>failures = 0, successes = 0, lastFailure = 0, mode = Closed\<rparr>"

definition createCircuitBreaker ::
    "int option \<Rightarrow> int option \<Rightarrow> int option \<Rightarrow> breaker_options" where
  "createCircuitBreaker f s t =
     \<lparr>failureThreshold = (case f of None \<Rightarrow> 5 | Some x \<Rightarrow> x),
      successThreshold = (case s of None \<Rightarrow> 2 | Some x \<Rightarrow> x),
      timeout = (case t of None \<Rightarrow> 30000 | Some x \<Rightarrow> x)\<rparr>"

definition onSuccess :: "breaker_options \<Rightarrow> breaker \<Rightarrow> breaker" where
  "onSuccess opt b =
     (let b1 = b\<lparr>failures := 0\<rparr>
      in if mode b1 = HalfOpen
         then (let b2 = b1\<lparr>successes := successes b1 + 1\<rparr>
               in if successes b2 \<ge> successThreshold opt
                  then b2\<lparr>mode := Closed, successes := 0\<rparr> else b2)
         else b1)"

definition onFailure :: "breaker_options \<Rightarrow> int \<Rightarrow> breaker \<Rightarrow> breaker" where
  "onFailure opt now b =
     (let b1 = b\<lparr>failures := failures b + 1, lastFailure := now, successes := 0\<rparr>
      in if failures b1 \<ge> failureThreshold opt then b1\<lparr>mode := Open\<rparr> else b1)"

definition reset :: "breaker \<Rightarrow> breaker" where
  "reset b = breaker_init"

datatype call_result = Rejected | Succeeded | Failed

text \<open>\<open>execute\<close>: what the caller sees, and the state after it.\<close>

definition execute ::
    "breaker_options \<Rightarrow> int \<Rightarrow> int \<Rightarrow> bool \<Rightarrow> breaker \<Rightarrow> call_result \<times> breaker" where
  "execute opt now_open now_fail succeeds b =
     (if mode b = Open \<and> \<not> (now_open - lastFailure b \<ge> timeout opt) then (Rejected, b)
      else (let b1 = (if mode b = Open then b\<lparr>mode := HalfOpen\<rparr> else b)
            in if succeeds then (Succeeded, onSuccess opt b1)
               else (Failed, onFailure opt now_fail b1)))"

datatype breaker_event = Call int int bool | Reset

definition breaker_step :: "breaker_options \<Rightarrow> breaker \<Rightarrow> breaker_event \<Rightarrow> breaker" where
  "breaker_step opt b e =
     (case e of Call n1 n2 ok \<Rightarrow> snd (execute opt n1 n2 ok b) | Reset \<Rightarrow> reset b)"

lemmas breaker_defs = execute_def onSuccess_def onFailure_def reset_def breaker_init_def Let_def

subsection \<open>The invariant\<close>

text \<open>A closed breaker has fewer failures than the threshold and counts no successes; a
  half-open one has not yet counted enough successes; the counters are never negative.\<close>

definition breaker_inv :: "breaker_options \<Rightarrow> breaker \<Rightarrow> bool" where
  "breaker_inv opt b \<longleftrightarrow>
     0 \<le> failures b \<and> 0 \<le> successes b \<and>
     (mode b = Closed \<longrightarrow> failures b < failureThreshold opt \<and> successes b = 0) \<and>
     (mode b = Open \<longrightarrow> successes b = 0 \<and> failures b \<ge> failureThreshold opt) \<and>
     (mode b = HalfOpen \<longrightarrow> successes b < successThreshold opt)"

definition options_ok :: "breaker_options \<Rightarrow> bool" where
  "options_ok opt \<longleftrightarrow> 0 < failureThreshold opt \<and> 0 < successThreshold opt"

lemma breaker_init_inv: "options_ok opt \<Longrightarrow> breaker_inv opt breaker_init"
  by (simp add: breaker_inv_def breaker_init_def options_ok_def)

lemma onSuccess_inv:
  assumes "options_ok opt" "breaker_inv opt b" "mode b \<noteq> Open"
  shows "breaker_inv opt (onSuccess opt b)"
  using assms by (cases "mode b") (auto simp: breaker_inv_def onSuccess_def options_ok_def Let_def)

lemma onFailure_inv:
  assumes "options_ok opt" "0 \<le> failures b" "mode b \<noteq> Open"
  shows "breaker_inv opt (onFailure opt now b)"
  using assms by (cases "mode b") (auto simp: breaker_inv_def onFailure_def options_ok_def Let_def)

lemma half_open_inv:
  "options_ok opt \<Longrightarrow> breaker_inv opt b \<Longrightarrow> mode b = Open \<Longrightarrow> breaker_inv opt (b\<lparr>mode := HalfOpen\<rparr>)"
  by (simp add: breaker_inv_def options_ok_def)

lemma breaker_step_inv:
  assumes "options_ok opt" "breaker_inv opt b"
  shows "breaker_inv opt (breaker_step opt b e)"
proof (cases e)
  case (Call n1 n2 ok)
  let ?b1 = "if mode b = Open then b\<lparr>mode := HalfOpen\<rparr> else b"
  have b1: "breaker_inv opt ?b1" "mode ?b1 \<noteq> Open" "0 \<le> failures ?b1"
    using assms half_open_inv by (auto simp: breaker_inv_def)
  show ?thesis
    using assms(2) onSuccess_inv [OF assms(1) b1(1,2)] onFailure_inv [OF assms(1) b1(3,2)] Call
    by (auto simp: breaker_step_def execute_def Let_def)
next
  case Reset
  then show ?thesis using breaker_init_inv [OF assms(1)] by (simp add: breaker_step_def reset_def)
qed

text \<open>The default options of \<open>createCircuitBreaker\<close> satisfy the contract, and the breaker
  is a machine with an invariant for any sane options.\<close>

lemma default_options_ok: "options_ok (createCircuitBreaker None None None)"
  by (simp add: options_ok_def createCircuitBreaker_def)

interpretation breaker_machine:
  step_invariant "breaker_step (createCircuitBreaker None None None)"
    "breaker_inv (createCircuitBreaker None None None)"
  by unfold_locales (rule breaker_step_inv [OF default_options_ok])

subsection \<open>What the breaker guarantees\<close>

lemma closed_failure:
  assumes "mode b = Closed" "failures b + 1 < failureThreshold opt"
  shows "breaker_step opt b (Call n1 n2 False) =
           b\<lparr>failures := failures b + 1, lastFailure := n2, successes := 0\<rparr>"
  using assms by (simp add: breaker_step_def execute_def onFailure_def Let_def)

lemma closed_last_failure:
  assumes "mode b = Closed" "failures b + 1 \<ge> failureThreshold opt"
  shows "breaker_step opt b (Call n1 n2 False) =
           b\<lparr>failures := failures b + 1, lastFailure := n2, successes := 0, mode := Open\<rparr>"
  using assms by (simp add: breaker_step_def execute_def onFailure_def Let_def)

lemma failing_run:
  assumes "mode b = Closed" "length ts = nat (failureThreshold opt - failures b)" "ts \<noteq> []"
  shows "foldl (breaker_step opt) b (map (\<lambda>(n1, n2). Call n1 n2 False) ts) =
           \<lparr>failures = failureThreshold opt, successes = 0, lastFailure = snd (last ts), mode = Open\<rparr>"
  using assms
proof (induction ts arbitrary: b)
  case (Cons t ts)
  obtain n1 n2 where t: "t = (n1, n2)" by force
  show ?case
  proof (cases "ts = []")
    case True
    then have one: "failures b + 1 = failureThreshold opt" using Cons.prems(2) by simp
    then show ?thesis using closed_last_failure [of b opt n1 n2] Cons.prems(1) t True by simp
  next
    case False
    then obtain k where "length ts = Suc k" by (cases ts) auto
    then have lt: "failures b + 1 < failureThreshold opt" using Cons.prems(2) by simp
    let ?b1 = "b\<lparr>failures := failures b + 1, lastFailure := n2, successes := 0\<rparr>"
    have "length ts = nat (failureThreshold opt - failures ?b1)" using Cons.prems(2) by simp
    from Cons.IH [of ?b1, OF _ this False] show ?thesis
      using closed_failure [OF Cons.prems(1) lt] Cons.prems(1) t False by simp
  qed
qed simp

text \<open>From any state with the mode Closed, as many failing calls in a row as are missing to
  the threshold open the breaker, and while it is open and the timeout since the last failure has
  not passed, a further call is rejected without running the operation and changes nothing.\<close>

theorem breaker_trips_and_rejects:
  assumes "mode b = Closed" "ts \<noteq> []" "length ts = nat (failureThreshold opt - failures b)"
    and "now < snd (last ts) + timeout opt"
  shows "mode (foldl (breaker_step opt) b (map (\<lambda>(n1, n2). Call n1 n2 False) ts)) = Open \<and>
    execute opt now nf ok (foldl (breaker_step opt) b (map (\<lambda>(n1, n2). Call n1 n2 False) ts)) =
      (Rejected, foldl (breaker_step opt) b (map (\<lambda>(n1, n2). Call n1 n2 False) ts))"
  using failing_run [OF assms(1,3,2)] assms(4) by (simp add: execute_def)

theorem breaker_trips_and_rejects_witness:
  "mode (foldl (breaker_step (createCircuitBreaker (Some 2) None None)) breaker_init
      (map (\<lambda>(n1, n2). Call n1 n2 False) [(10, 11), (20, 25)])) = Open \<and>
   execute (createCircuitBreaker (Some 2) None None) 100 100 True
      (foldl (breaker_step (createCircuitBreaker (Some 2) None None)) breaker_init
        (map (\<lambda>(n1, n2). Call n1 n2 False) [(10, 11), (20, 25)])) =
     (Rejected, foldl (breaker_step (createCircuitBreaker (Some 2) None None)) breaker_init
        (map (\<lambda>(n1, n2). Call n1 n2 False) [(10, 11), (20, 25)]))"
  by (rule breaker_trips_and_rejects) (simp_all add: breaker_init_def createCircuitBreaker_def)

text \<open>Whatever calls and resets a breaker with the default options has seen, a closed one
  holds fewer failures than the threshold and no half-open success, an open one has reached the
  threshold, and a half-open one still misses successes.\<close>

theorem breaker_reachable_inv:
  "breaker_inv (createCircuitBreaker None None None)
     (foldl (breaker_step (createCircuitBreaker None None None)) breaker_init es)"
  by (rule breaker_machine.run_inv) (rule breaker_init_inv [OF default_options_ok])

end
