(* ===== verification/Decimal_Lib.thy ===== *)
theory Decimal_Lib
  imports Prelude Complex_Main
begin

section \<open>Money: stored amounts and the decimal library\<close>

text \<open>
  Amount columns are \<open>decimal(18,4)\<close>: the model keeps a stored amount as the integer number
  of ten-thousandths it holds (type \<open>amt\<close>). Working values are \<open>Decimal\<close> objects of
  the decimal.js package, which is not part of the repository, so its rounding is a
  parameter: \<open>sig\<close> rounds the exact result of an operation to the configured precision
  (20 significant digits) and \<open>fixd n\<close> is the value \<open>toFixed(n)\<close> prints. A
  \<open>Decimal\<close> itself is the rational number it denotes. Comparisons are exact.

  What the proofs use of the package is \<open>decimal_ok\<close>, its documented behaviour: a result
  that has at most 20 significant digits is returned as it is, rounding is monotone, and
  \<open>toFixed(n)\<close> returns a number with at most \<open>n\<close> decimals, the same one if the value
  has no more.
\<close>

type_synonym amt = int
type_synonym decimal = rat

record decimal_lib =
  sig :: "rat \<Rightarrow> rat"
  fixd :: "nat \<Rightarrow> rat \<Rightarrow> rat"

definition dec :: "amt \<Rightarrow> decimal" where
  "dec a = of_int a / 10000"

definition dplus :: "decimal_lib \<Rightarrow> decimal \<Rightarrow> decimal \<Rightarrow> decimal" where
  "dplus D x y = sig D (x + y)"

definition dminus :: "decimal_lib \<Rightarrow> decimal \<Rightarrow> decimal \<Rightarrow> decimal" where
  "dminus D x y = sig D (x - y)"

definition dtimes :: "decimal_lib \<Rightarrow> decimal \<Rightarrow> decimal \<Rightarrow> decimal" where
  "dtimes D x y = sig D (x * y)"

text \<open>\<open>dividedBy\<close>; the callers never divide by zero where a theorem speaks of the result.\<close>

definition ddiv :: "decimal_lib \<Rightarrow> decimal \<Rightarrow> decimal \<Rightarrow> decimal" where
  "ddiv D x y = sig D (x / y)"

text \<open>The ten-thousandths of \<open>x.toFixed(4)\<close>, which is what a \<open>decimal(18,4)\<close> column or
  \<open>decimalStringToScaledBigInt\<close> receives.\<close>

definition toFixed4 :: "decimal_lib \<Rightarrow> decimal \<Rightarrow> amt" where
  "toFixed4 D x = \<lfloor>fixd D 4 x * 10000\<rfloor>"

definition toFixed2 :: "decimal_lib \<Rightarrow> decimal \<Rightarrow> int" where
  "toFixed2 D x = \<lfloor>fixd D 2 x * 100\<rfloor>"

text \<open>\<open>list.reduce((sum, x) => sum.plus(f x), new Decimal(0))\<close>\<close>

definition dsum :: "decimal_lib \<Rightarrow> decimal list \<Rightarrow> decimal" where
  "dsum D xs = foldl (dplus D) 0 xs"

definition decimals_at_most :: "nat \<Rightarrow> rat \<Rightarrow> bool" where
  "decimals_at_most n x \<longleftrightarrow> x * 10 ^ n \<in> \<int>"

definition sig20 :: "rat \<Rightarrow> bool" where
  "sig20 x \<longleftrightarrow> (\<exists>(m::int) k. \<bar>m\<bar> \<le> 10 ^ 20 \<and> x * 10 ^ k = of_int m)"

definition decimal_ok :: "decimal_lib \<Rightarrow> bool" where
  "decimal_ok D \<longleftrightarrow>
     (\<forall>x. sig20 x \<longrightarrow> sig D x = x) \<and>
     (\<forall>x y. x \<le> y \<longrightarrow> sig D x \<le> sig D y) \<and>
     (\<forall>n x. decimals_at_most n (fixd D n x)) \<and>
     (\<forall>n x. decimals_at_most n x \<longrightarrow> fixd D n x = x) \<and>
     (\<forall>n x y. x \<le> y \<longrightarrow> fixd D n x \<le> fixd D n y)"

text \<open>A concrete library that behaves so: exact results, and \<open>toFixed\<close> rounding half up.\<close>

definition exact_decimal :: decimal_lib where
  "exact_decimal = \<lparr>sig = (\<lambda>x. x), fixd = (\<lambda>n x. of_int \<lfloor>x * 10 ^ n + 1 / 2\<rfloor> / 10 ^ n)\<rparr>"

lemma decimal_ok_sig: "decimal_ok D \<Longrightarrow> sig20 x \<Longrightarrow> sig D x = x"
  by (simp add: decimal_ok_def)

lemma decimal_ok_mono: "decimal_ok D \<Longrightarrow> x \<le> y \<Longrightarrow> sig D x \<le> sig D y"
  by (simp add: decimal_ok_def)

lemma decimal_ok_fixd: "decimal_ok D \<Longrightarrow> decimals_at_most n x \<Longrightarrow> fixd D n x = x"
  by (simp add: decimal_ok_def)

lemma decimal_ok_fixd_mono: "decimal_ok D \<Longrightarrow> x \<le> y \<Longrightarrow> fixd D n x \<le> fixd D n y"
  by (simp add: decimal_ok_def)

lemma decimal_ok_fixd_int: "decimal_ok D \<Longrightarrow> fixd D n x * 10 ^ n \<in> \<int>"
  by (simp add: decimal_ok_def decimals_at_most_def)

lemma exact_decimal_ok: "decimal_ok exact_decimal"
proof -
  have fix_int: "fixd exact_decimal n x = x" if "decimals_at_most n x" for n x
  proof -
    from that obtain i :: int where i: "x * 10 ^ n = of_int i"
      by (auto simp: decimals_at_most_def Ints_def)
    have fl: "\<lfloor>x * 10 ^ n + 1 / 2\<rfloor> = i" unfolding i by (simp add: floor_unique)
    have "fixd exact_decimal n x = of_int i / 10 ^ n" by (simp add: exact_decimal_def fl)
    also have "\<dots> = x" by (simp add: i [symmetric])
    finally show ?thesis .
  qed
  moreover have "fixd exact_decimal n x \<le> fixd exact_decimal n y" if "x \<le> y" for n x y
  proof -
    have "x * 10 ^ n + 1 / 2 \<le> y * 10 ^ n + 1 / 2" using that by (simp add: mult_right_mono)
    then have "\<lfloor>x * 10 ^ n + 1 / 2\<rfloor> \<le> \<lfloor>y * 10 ^ n + 1 / 2\<rfloor>" by (rule floor_mono)
    then show ?thesis by (simp add: exact_decimal_def divide_right_mono)
  qed
  moreover have "decimals_at_most n (fixd exact_decimal n x)" for n x
    by (simp add: exact_decimal_def decimals_at_most_def)
  ultimately show ?thesis
    by (auto simp: decimal_ok_def) (simp_all add: exact_decimal_def)
qed

subsection \<open>Stored amounts are exact\<close>

text \<open>Sums and differences of stored amounts stay within 20 significant digits, so the library
  computes them exactly.\<close>

definition amt_ok :: "amt \<Rightarrow> bool" where
  "amt_ok a \<longleftrightarrow> \<bar>a\<bar> \<le> 10 ^ 20"

lemma sig20_dec: "amt_ok a \<Longrightarrow> sig20 (dec a)"
  unfolding sig20_def dec_def amt_ok_def by (intro exI [of _ a] exI [of _ 4]) simp

lemma dec_simps [simp]:
  "dec a + dec b = dec (a + b)" "dec a - dec b = dec (a - b)" "dec 0 = 0"
  "dec a \<le> dec b \<longleftrightarrow> a \<le> b" "dec a < dec b \<longleftrightarrow> a < b" "dec a = dec b \<longleftrightarrow> a = b"
  "0 \<le> dec a \<longleftrightarrow> 0 \<le> a" "0 < dec a \<longleftrightarrow> 0 < a" "dec a \<le> 0 \<longleftrightarrow> a \<le> 0" "dec a < 0 \<longleftrightarrow> a < 0"
  "dec a = 0 \<longleftrightarrow> a = 0"
  by (simp_all add: dec_def add_divide_distrib diff_divide_distrib divide_le_cancel
      divide_less_cancel zero_le_divide_iff zero_less_divide_iff divide_le_0_iff divide_less_0_iff)

lemma max_dec: "max (dec a) 0 = dec (max a 0)"
  by (simp add: max_def)

lemma dplus_dec: "decimal_ok D \<Longrightarrow> amt_ok (a + b) \<Longrightarrow> dplus D (dec a) (dec b) = dec (a + b)"
  by (simp add: dplus_def decimal_ok_sig sig20_dec)

lemma dminus_dec: "decimal_ok D \<Longrightarrow> amt_ok (a - b) \<Longrightarrow> dminus D (dec a) (dec b) = dec (a - b)"
  by (simp add: dminus_def decimal_ok_sig sig20_dec)

lemma toFixed4_dec: "decimal_ok D \<Longrightarrow> toFixed4 D (dec a) = a"
proof -
  assume D: "decimal_ok D"
  have "decimals_at_most 4 (dec a)" by (simp add: decimals_at_most_def dec_def)
  then have "fixd D 4 (dec a) = dec a" by (rule decimal_ok_fixd [OF D])
  then show ?thesis by (simp add: toFixed4_def dec_def)
qed

lemma dec_toFixed4: "decimal_ok D \<Longrightarrow> dec (toFixed4 D x) = fixd D 4 x"
proof -
  assume D: "decimal_ok D"
  from decimal_ok_fixd_int [OF D, of 4 x] have "fixd D 4 x * 10000 \<in> \<int>" by simp
  then obtain i where "fixd D 4 x * 10000 = of_int i" by (auto simp: Ints_def)
  then show ?thesis by (simp add: toFixed4_def dec_def field_simps)
qed

lemma toFixed4_mono: "decimal_ok D \<Longrightarrow> x \<le> y \<Longrightarrow> toFixed4 D x \<le> toFixed4 D y"
  unfolding toFixed4_def by (rule floor_mono) (simp add: decimal_ok_fixd_mono)

lemma dsum_step:
  assumes "decimal_ok D" "amt_ok b" "0 \<le> b" "\<forall>a \<in> set as. 0 \<le> a" "amt_ok (b + sum_list as)"
  shows "foldl (dplus D) (dec b) (map dec as) = dec (b + sum_list as)"
  using assms
proof (induction as arbitrary: b)
  case (Cons a as)
  have pos: "0 \<le> a" "0 \<le> sum_list as"
    using Cons.prems(4) by (auto intro: sum_list_nonneg)
  have "amt_ok (b + a)" using Cons.prems(3,5) pos by (simp add: amt_ok_def)
  then show ?case
    using Cons.IH [of "b + a"] Cons.prems pos by (simp add: dplus_dec add.assoc)
qed simp

text \<open>The sum of non-negative stored amounts.\<close>

lemma dsum_dec:
  assumes "decimal_ok D" "\<forall>a \<in> set as. 0 \<le> a" "amt_ok (sum_list as)"
  shows "dsum D (map dec as) = dec (sum_list as)"
  using dsum_step [of D 0 as] assms by (simp add: dsum_def amt_ok_def)

lemma sig_nonneg: "decimal_ok D \<Longrightarrow> 0 \<le> x \<Longrightarrow> 0 \<le> sig D x"
proof -
  assume D: "decimal_ok D" and x: "0 \<le> x"
  have "sig20 0" by (auto simp: sig20_def)
  then have "sig D 0 = 0" by (rule decimal_ok_sig [OF D])
  then show ?thesis using decimal_ok_mono [OF D x] by simp
qed

lemma sig_le_dec: "decimal_ok D \<Longrightarrow> amt_ok a \<Longrightarrow> x \<le> dec a \<Longrightarrow> sig D x \<le> dec a"
  using decimal_ok_mono [of D x "dec a"] by (simp add: decimal_ok_sig sig20_dec)

lemma dec_le_sig: "decimal_ok D \<Longrightarrow> amt_ok a \<Longrightarrow> dec a \<le> x \<Longrightarrow> dec a \<le> sig D x"
  using decimal_ok_mono [of D "dec a" x] by (simp add: decimal_ok_sig sig20_dec)

end
