(* ===== verification/Units.thy ===== *)
theory Units
  imports Prelude
begin

section \<open>Integer money: scaled amounts, stroops and pro-rata shares\<close>

text \<open>
  \<open>src/lib/decimal-bigint.ts\<close>, \<open>src/lib/stellar-format.ts\<close>, \<open>src/lib/investor-return.ts\<close>,
  \<open>src/utils/compute-investor-return.ts\<close> and \<open>src/utils/investment-share-calculator.utils.ts\<close>.
  A \<open>bigint\<close> is an \<open>int\<close>; its printing and \<open>BigInt(string)\<close> are written out. A
  \<open>bigint\<close> division of non-negative numbers is \<open>div\<close>.
\<close>

subsection \<open>Printing and reading integers\<close>

definition digit_char :: "nat \<Rightarrow> char" where
  "digit_char d = char_of (48 + d)"

fun nat_str :: "nat \<Rightarrow> string" where
  "nat_str n = (if n < 10 then [digit_char n] else nat_str (n div 10) @ [digit_char (n mod 10)])"

declare nat_str.simps [simp del]

text \<open>\<open>n.toString()\<close> of a \<open>bigint\<close>.\<close>

definition int_str :: "int \<Rightarrow> string" where
  "int_str n = (if n < 0 then CHR ''-'' # nat_str (nat (- n)) else nat_str (nat n))"

definition digit_of :: "char \<Rightarrow> nat option" where
  "digit_of c =
     (let n = of_char c :: nat
      in if 48 \<le> n \<and> n \<le> 57 then Some (n - 48)
         else if 97 \<le> n \<and> n \<le> 122 then Some (n - 87)
         else if 65 \<le> n \<and> n \<le> 90 then Some (n - 55) else None)"

fun digits_val :: "nat \<Rightarrow> nat \<Rightarrow> string \<Rightarrow> nat option" where
  "digits_val r acc [] = Some acc"
| "digits_val r acc (c # cs) =
     (case digit_of c of None \<Rightarrow> None
      | Some d \<Rightarrow> if d < r then digits_val r (acc * r + d) cs else None)"

definition digits1 :: "nat \<Rightarrow> string \<Rightarrow> int option" where
  "digits1 r s = (if s = [] then None else map_option int (digits_val r 0 s))"

text \<open>\<open>BigInt(s)\<close>: white space around the number, an optional sign in base 10, the prefixes
  of bases 16, 8 and 2, and the empty string as zero; anything else is a \<open>SyntaxError\<close>.\<close>

definition bigint_of_string :: "string \<Rightarrow> int result" where
  "bigint_of_string s =
     (let t = js_trim s;
          v = (case t of
                 [] \<Rightarrow> Some 0
               | [c] \<Rightarrow> digits1 10 [c]
               | c # x # r \<Rightarrow>
                   if c = CHR ''0'' \<and> (x = CHR ''x'' \<or> x = CHR ''X'') then digits1 16 r
                   else if c = CHR ''0'' \<and> (x = CHR ''o'' \<or> x = CHR ''O'') then digits1 8 r
                   else if c = CHR ''0'' \<and> (x = CHR ''b'' \<or> x = CHR ''B'') then digits1 2 r
                   else if c = CHR ''-'' then map_option uminus (digits1 10 (x # r))
                   else if c = CHR ''+'' then digits1 10 (x # r)
                   else digits1 10 (c # x # r))
      in case v of None \<Rightarrow> Inl (JsError ''SyntaxError'') | Some n \<Rightarrow> Inr n)"

definition padStart :: "nat \<Rightarrow> char \<Rightarrow> string \<Rightarrow> string" where
  "padStart n c s = replicate (n - length s) c @ s"

text \<open>\<open>s.split(".")\<close>, of which the callers read the first two parts.\<close>

definition split_dot :: "string \<Rightarrow> string \<times> string" where
  "split_dot s =
     (takeWhile (\<lambda>c. c \<noteq> CHR ''.'') s,
      takeWhile (\<lambda>c. c \<noteq> CHR ''.'') (drop 1 (dropWhile (\<lambda>c. c \<noteq> CHR ''.'') s)))"

subsection \<open>Scaled amounts (\<open>decimal-bigint.ts\<close>)\<close>

definition SCALE :: nat where "SCALE = 4"

definition SCALE_FACTOR :: int where "SCALE_FACTOR = 10 ^ SCALE"

definition decimalStringToScaledBigInt :: "string \<Rightarrow> int result" where
  "decimalStringToScaledBigInt value =
     (let normalized = js_trim value;
          isNegative = (case normalized of c # _ \<Rightarrow> c = CHR ''-'' | [] \<Rightarrow> False);
          unsigned = (if isNegative then drop 1 normalized else normalized);
          (wholePart, fractionalPart) = split_dot unsigned;
          paddedFraction = take SCALE (fractionalPart @ replicate SCALE (CHR ''0''))
      in and_then (bigint_of_string ((if wholePart = [] then ''0'' else wholePart) @ paddedFraction))
           (\<lambda>scaled. Inr (if isNegative then - scaled else scaled)))"

definition scaledBigIntToDecimalString :: "int \<Rightarrow> string" where
  "scaledBigIntToDecimalString value =
     (let isNegative = value < 0;
          absolute = (if isNegative then - value else value);
          whole = absolute div SCALE_FACTOR;
          fraction = padStart SCALE (CHR ''0'') (int_str (absolute mod SCALE_FACTOR))
      in (if isNegative then ''-'' else '''') @ int_str whole @ ''.'' @ fraction)"

subsection \<open>Stroops (\<open>stellar-format.ts\<close>)\<close>

definition STROOP_DECIMALS :: nat where "STROOP_DECIMALS = 7"

definition stroopsToXlm :: "int \<Rightarrow> nat \<Rightarrow> string" where
  "stroopsToXlm stroops decimals =
     (let negative = stroops < 0;
          absv = (if negative then - stroops else stroops);
          divisor = 10 ^ STROOP_DECIMALS;
          whole = absv div divisor;
          remainderStroops = absv mod divisor;
          fullFraction = padStart STROOP_DECIMALS (CHR ''0'') (int_str remainderStroops);
          fraction = (if decimals \<le> STROOP_DECIMALS then take decimals fullFraction
                      else fullFraction @ replicate (decimals - length fullFraction) (CHR ''0''));
          sign = (if negative then ''-'' else '''')
      in if decimals > 0 then sign @ int_str whole @ ''.'' @ fraction else sign @ int_str whole)"

subsection \<open>Pro-rata returns\<close>

text \<open>\<open>computeInvestorReturn\<close> of \<open>src/lib/investor-return.ts\<close>, which settlement uses.\<close>

definition computeInvestorReturn :: "int \<Rightarrow> int \<Rightarrow> int \<Rightarrow> int result" where
  "computeInvestorReturn investedAmount totalFunded settledProceeds =
     (if totalFunded \<le> 0 then Inl (JsError ''RangeError'')
      else if investedAmount < 0 then Inl (JsError ''RangeError'')
      else if settledProceeds < 0 then Inl (JsError ''RangeError'')
      else Inr ((investedAmount * settledProceeds) div totalFunded))"

text \<open>The variant of \<open>src/utils/compute-investor-return.ts\<close>, with its own checks.\<close>

definition computeInvestorReturn_util :: "int \<Rightarrow> int \<Rightarrow> int \<Rightarrow> int result" where
  "computeInvestorReturn_util investorFunded totalFunded settledProceeds =
     (if totalFunded = 0 then Inl (JsError ''Error'')
      else if investorFunded < 0 \<or> totalFunded < 0 \<or> settledProceeds < 0 then Inl (JsError ''Error'')
      else if investorFunded > totalFunded then Inl (JsError ''Error'')
      else Inr ((investorFunded * settledProceeds) div totalFunded))"

subsection \<open>Percentage shares\<close>

text \<open>The scan for the largest amount: index and value of the first maximum, starting from -1.\<close>

fun max_scan :: "int list \<Rightarrow> nat \<Rightarrow> int \<Rightarrow> nat \<Rightarrow> nat" where
  "max_scan [] i m k = k"
| "max_scan (a # as) i m k = (if a > m then max_scan as (Suc i) a i else max_scan as (Suc i) m k)"

definition trunc_div :: "int \<Rightarrow> int \<Rightarrow> int" where
  "trunc_div a b = sgn a * sgn b * (\<bar>a\<bar> div \<bar>b\<bar>)"

definition calculateInvestmentShares :: "(string \<times> int) list \<Rightarrow> (string \<times> int) list" where
  "calculateInvestmentShares investments =
     (if investments = [] then []
      else
        let totalAmount = sum_list (map snd investments)
        in if totalAmount = 0 then map (\<lambda>inv. (fst inv, 0)) investments
           else
             let results = map (\<lambda>inv. (fst inv, trunc_div (snd inv * 100) totalAmount)) investments;
                 currentSum = sum_list (map snd results);
                 remainder = 100 - currentSum
             in if remainder > 0
                then let maxIndex = max_scan (map snd investments) 0 (- 1) 0
                     in results[maxIndex := (fst (results ! maxIndex), snd (results ! maxIndex) + remainder)]
                else results)"

subsection \<open>Printing then reading gives the number back\<close>

definition is_digit :: "char \<Rightarrow> bool" where
  "is_digit c \<longleftrightarrow> 48 \<le> (of_char c :: nat) \<and> (of_char c :: nat) \<le> 57"

lemma digit_char_props:
  assumes "d < 10"
  shows "is_digit (digit_char d)" "digit_of (digit_char d) = Some d"
proof -
  have v: "of_char (digit_char d) = (48 + d :: nat)"
    using assms by (simp add: digit_char_def of_char_of)
  show "is_digit (digit_char d)" using assms by (simp add: is_digit_def v)
  show "digit_of (digit_char d) = Some d" using assms by (simp add: digit_of_def v Let_def)
qed

lemma digit_of_digit: "is_digit c \<Longrightarrow> \<exists>d < 10. digit_of c = Some d"
  by (auto simp: is_digit_def digit_of_def Let_def)

lemma digit_not_special:
  assumes "is_digit c"
  shows "\<not> is_ws c" "c \<noteq> CHR ''.''" "c \<noteq> CHR ''-''" "c \<noteq> CHR ''+''"
    "c \<noteq> CHR ''x''" "c \<noteq> CHR ''X''" "c \<noteq> CHR ''o''" "c \<noteq> CHR ''O''" "c \<noteq> CHR ''b''" "c \<noteq> CHR ''B''"
  using assms by (auto simp: is_digit_def is_ws_def)

lemma nat_str_digits: "\<forall>c \<in> set (nat_str n). is_digit c"
proof (induction n rule: nat_str.induct)
  case (1 n)
  then show ?case by (subst nat_str.simps) (auto simp: digit_char_props)
qed

lemma nat_str_ne [simp]: "nat_str n \<noteq> []"
  by (subst nat_str.simps) simp

lemma digits_val_append:
  "digits_val r a (xs @ ys) = (case digits_val r a xs of None \<Rightarrow> None | Some v \<Rightarrow> digits_val r v ys)"
  by (induction xs arbitrary: a) (auto split: option.splits)

lemma digits_val_nat_str: "digits_val 10 a (nat_str n) = Some (a * 10 ^ length (nat_str n) + n)"
proof (induction n arbitrary: a rule: nat_str.induct)
  case (1 n)
  show ?case
  proof (cases "n < 10")
    case True
    then show ?thesis by (simp add: nat_str.simps [of n] digit_char_props)
  next
    case False
    then have "digits_val 10 a (nat_str n) =
        Some ((a * 10 ^ length (nat_str (n div 10)) + n div 10) * 10 + n mod 10)"
      by (simp add: nat_str.simps [of n] digits_val_append 1 digit_char_props)
    then show ?thesis using False by (simp add: nat_str.simps [of n] algebra_simps)
  qed
qed

lemma digits_val_zeros: "digits_val 10 a (replicate k (CHR ''0'')) = Some (a * 10 ^ k)"
  by (induction k arbitrary: a) (auto simp: digit_of_def)

lemma length_nat_str: "0 < k \<Longrightarrow> n < 10 ^ k \<Longrightarrow> length (nat_str n) \<le> k"
proof (induction n arbitrary: k rule: nat_str.induct)
  case (1 n)
  show ?case
  proof (cases "n < 10")
    case True
    then show ?thesis using 1 by (simp add: nat_str.simps [of n])
  next
    case False
    then have "k \<noteq> Suc 0" using "1.prems" by auto
    then obtain j where k: "k = Suc j" "0 < j" using "1.prems"
      by (cases k) (auto intro: gr0I)
    then have "length (nat_str (n div 10)) \<le> j" using 1 False by auto
    then show ?thesis using False k by (simp add: nat_str.simps [of n])
  qed
qed

lemma zero_digit: "is_digit (CHR ''0'')"
  by (simp add: is_digit_def)

lemma padStart_digits: "\<forall>c \<in> set s. is_digit c \<Longrightarrow> \<forall>c \<in> set (padStart k (CHR ''0'') s). is_digit c"
  by (auto simp: padStart_def zero_digit)

lemma length_padStart: "length s \<le> k \<Longrightarrow> length (padStart k c s) = k"
  by (simp add: padStart_def)

lemma digits_val_padStart:
  "length (nat_str n) \<le> k \<Longrightarrow>
     digits_val 10 a (padStart k (CHR ''0'') (nat_str n)) = Some (a * 10 ^ k + n)"
  by (simp add: padStart_def digits_val_append digits_val_zeros digits_val_nat_str power_add [symmetric])

lemma bigint_of_digits:
  assumes "s \<noteq> []" "\<forall>c \<in> set s. is_digit c" "digits_val 10 0 s = Some v"
  shows "bigint_of_string s = Inr (int v)"
proof -
  have t: "js_trim s = s" using assms(2) by (intro js_trim_id) (auto simp: digit_not_special)
  have d: "digits1 10 s = Some (int v)" using assms(1,3) by (simp add: digits1_def)
  show ?thesis
  proof (cases s)
    case (Cons c s')
    note c = this
    show ?thesis
    proof (cases s')
      case Nil
      then show ?thesis using t d c by (simp add: bigint_of_string_def)
    next
      case (Cons x r)
      then have "is_digit c" "is_digit x" using assms(2) c by auto
      then show ?thesis using t d c Cons by (simp add: bigint_of_string_def digit_not_special)
    qed
  qed (use assms in simp)
qed

lemma split_dot_digits:
  assumes "\<forall>c \<in> set a. is_digit c" "\<forall>c \<in> set b. is_digit c"
  shows "split_dot (a @ CHR ''.'' # b) = (a, b)"
proof -
  have "takeWhile (\<lambda>c. c \<noteq> CHR ''.'') (a @ CHR ''.'' # b) = a"
    using assms(1) digit_not_special(2) by (subst takeWhile_append2) auto
  moreover have "dropWhile (\<lambda>c. c \<noteq> CHR ''.'') (a @ CHR ''.'' # b) = CHR ''.'' # b"
    using assms(1) digit_not_special(2) by (subst dropWhile_append2) auto
  moreover have "takeWhile (\<lambda>c. c \<noteq> CHR ''.'') b = b"
    using assms(2) digit_not_special(2) by (subst takeWhile_eq_all_conv) auto
  ultimately show ?thesis by (simp add: split_dot_def)
qed

lemma read_unsigned:
  assumes "\<forall>c \<in> set a. is_digit c" "a \<noteq> []" "\<forall>c \<in> set b. is_digit c" "length b = 4"
    and "digits_val 10 0 (a @ b) = Some v"
  shows "decimalStringToScaledBigInt (a @ CHR ''.'' # b) = Inr (int v)"
    and "decimalStringToScaledBigInt (CHR ''-'' # a @ CHR ''.'' # b) = Inr (- int v)"
proof -
  let ?u = "a @ CHR ''.'' # b"
  have "\<not> is_ws (CHR ''.'')" by (simp add: is_ws_def)
  then have nows: "\<forall>c \<in> set ?u. \<not> is_ws c"
    using assms(1,3) by (auto simp: digit_not_special)
  have trims: "js_trim ?u = ?u" "js_trim (CHR ''-'' # ?u) = CHR ''-'' # ?u"
    using nows by (auto intro!: js_trim_id simp: is_ws_def [of "CHR ''-''"])
  have first: "(case ?u of c # _ \<Rightarrow> c = CHR ''-'' | [] \<Rightarrow> False) = False"
    using assms(1,2) by (cases a) (auto simp: digit_not_special)
  have big: "bigint_of_string (a @ b) = Inr (int v)"
    by (rule bigint_of_digits) (use assms in auto)
  show "decimalStringToScaledBigInt ?u = Inr (int v)"
    unfolding decimalStringToScaledBigInt_def Let_def trims first
    using assms(2) by (simp add: split_dot_digits [OF assms(1,3)] SCALE_def assms(4) big)
  show "decimalStringToScaledBigInt (CHR ''-'' # ?u) = Inr (- int v)"
    unfolding decimalStringToScaledBigInt_def Let_def trims
    using assms(2) by (simp add: split_dot_digits [OF assms(1,3)] SCALE_def assms(4) big)
qed

lemma int_str_nonneg: "0 \<le> n \<Longrightarrow> int_str n = nat_str (nat n)"
  by (simp add: int_str_def)

text \<open>The two parts of a printed non-negative amount, and what they read as.\<close>

lemma scaled_parts:
  assumes "0 \<le> n"
  defines "a \<equiv> int_str (n div SCALE_FACTOR)"
    and "b \<equiv> padStart SCALE (CHR ''0'') (int_str (n mod SCALE_FACTOR))"
  shows "\<forall>c \<in> set a. is_digit c" "a \<noteq> []" "\<forall>c \<in> set b. is_digit c" "length b = 4"
    "digits_val 10 0 (a @ b) = Some (nat n)"
proof -
  have a: "a = nat_str (nat (n div 10000))" and b0: "int_str (n mod 10000) = nat_str (nat (n mod 10000))"
    using assms(1) by (auto simp: a_def SCALE_FACTOR_def SCALE_def int_str_nonneg pos_imp_zdiv_nonneg_iff)
  have b: "b = padStart 4 (CHR ''0'') (nat_str (nat (n mod 10000)))"
    by (simp add: b_def SCALE_FACTOR_def SCALE_def b0)
  have len: "length (nat_str (nat (n mod 10000))) \<le> 4"
    by (rule length_nat_str) (auto simp: nat_less_iff)
  show "\<forall>c \<in> set a. is_digit c" "a \<noteq> []" by (auto simp: a nat_str_digits)
  show "\<forall>c \<in> set b. is_digit c" unfolding b by (rule padStart_digits [OF nat_str_digits])
  show "length b = 4" unfolding b by (rule length_padStart [OF len])
  have "nat (n div 10000) * 10000 + nat (n mod 10000) = nat n"
    using assms(1) by (simp add: nat_div_distrib nat_mod_distrib)
  then show "digits_val 10 0 (a @ b) = Some (nat n)"
    by (simp add: a b digits_val_append digits_val_nat_str digits_val_padStart [OF len])
qed

lemma decimalString_scaled [simp]:
  "decimalStringToScaledBigInt (scaledBigIntToDecimalString n) = Inr n"
proof (cases "n < 0")
  case True
  then have "0 \<le> - n" by simp
  from read_unsigned(2) [OF scaled_parts [OF this]] True
  show ?thesis by (simp add: scaledBigIntToDecimalString_def Let_def)
next
  case False
  then have "0 \<le> n" by simp
  from read_unsigned(1) [OF scaled_parts [OF this]] False
  show ?thesis by (simp add: scaledBigIntToDecimalString_def Let_def)
qed

text \<open>The string an amount is stored as reads back as the same scaled integer, for every
  integer, negative ones included: \<open>decimalStringToScaledBigInt\<close> undoes
  \<open>scaledBigIntToDecimalString\<close>.\<close>

theorem scaled_bigint_roundtrip:
  "decimalStringToScaledBigInt (scaledBigIntToDecimalString n) = Inr n"
  by (rule decimalString_scaled)

subsection \<open>Stroops and scaled amounts print the same number\<close>

lemma digit_char_0: "digit_char 0 = CHR ''0''"
  by code_simp

lemma nat_str_times10: "0 < m \<Longrightarrow> nat_str (10 * m) = nat_str m @ ''0''"
  by (simp add: nat_str.simps [of "10 * m"] digit_char_0)

lemma nat_str_times1000: "0 < m \<Longrightarrow> nat_str (1000 * m) = nat_str m @ ''000''"
  using nat_str_times10 [of m] nat_str_times10 [of "10 * m"] nat_str_times10 [of "100 * m"] by simp

lemma padStart_append: "length s \<le> k \<Longrightarrow> padStart (k + length z) c (s @ z) = padStart k c s @ z"
  by (simp add: padStart_def)

lemma stroop_fraction:
  assumes "0 \<le> m" "m < 10000"
  shows "padStart 7 (CHR ''0'') (int_str (1000 * m)) = padStart 4 (CHR ''0'') (int_str m) @ ''000''"
proof (cases "m = 0")
  case True
  have "padStart 7 (CHR ''0'') (int_str 0) = padStart 4 (CHR ''0'') (int_str 0) @ ''000''"
    by code_simp
  with True show ?thesis by simp
next
  case False
  then have m: "int_str (1000 * m) = int_str m @ ''000''"
    using assms nat_str_times1000 [of "nat m"] by (simp add: int_str_nonneg nat_mult_distrib)
  have "length (int_str m) \<le> 4"
    using assms length_nat_str [of 4 "nat m"] by (simp add: int_str_nonneg nat_less_iff)
  then show ?thesis using padStart_append [of "int_str m" 4 "''000''"] by (simp add: m)
qed

lemma stroops_scaled_nonneg:
  fixes n :: int
  assumes "0 \<le> n"
  shows "(1000 * n) div 10000000 = n div 10000" "(1000 * n) mod 10000000 = 1000 * (n mod 10000)"
  using div_mult_mult1 [of 1000 n 10000] mult_mod_right [of 1000 n 10000] by simp_all

lemma length_padded: "length (int_str m) \<le> k \<Longrightarrow> length (padStart k c (int_str m)) = k"
  by (rule length_padStart)

text \<open>the factor \<open>10n ** 3n\<close> of \<open>settlement.service.ts\<close> loses nothing: an amount scaled by
  10^4, multiplied by it and printed as stroops with full precision is the stored decimal string with
  three more zeros.\<close>

theorem scaled_amount_as_stroops:
  "stroopsToXlm (n * 1000) 7 = scaledBigIntToDecimalString n @ ''000''"
proof -
  let ?a = "\<bar>n\<bar>"
  have a: "0 \<le> ?a" by simp
  have r: "0 \<le> ?a mod 10000" "?a mod 10000 < 10000" by simp_all
  have len: "length (padStart 4 (CHR ''0'') (int_str (?a mod 10000))) = 4"
    using length_nat_str [of 4 "nat (?a mod 10000)"] r
    by (intro length_padded) (simp add: int_str_nonneg nat_less_iff)
  have e: "(if n * 1000 < 0 then - (n * 1000) else n * 1000) = 1000 * ?a" by simp
  have s: "(if n < 0 then - n else n) = ?a" by simp
  show ?thesis
    unfolding stroopsToXlm_def scaledBigIntToDecimalString_def Let_def e s
    by (simp add: STROOP_DECIMALS_def SCALE_def SCALE_FACTOR_def stroops_scaled_nonneg [OF a]
        stroop_fraction [OF r] len)
qed

subsection \<open>Pro-rata division never pays out more than there is\<close>

text \<open>What settlement needs of a share function: for non-negative inputs within the total it
  returns the floor of the exact share.\<close>

locale pro_rata =
  fixes share :: "int \<Rightarrow> int \<Rightarrow> int \<Rightarrow> int result"
  assumes share_floor: "0 < t \<Longrightarrow> 0 \<le> a \<Longrightarrow> a \<le> t \<Longrightarrow> 0 \<le> p \<Longrightarrow> share a t p = Inr ((a * p) div t)"
begin

lemma shares_result:
  assumes "0 < t" "0 \<le> p" "\<forall>a \<in> set as. 0 \<le> a \<and> a \<le> t"
  shows "map_result (\<lambda>a. share a t p) as = Inr (map (\<lambda>a. (a * p) div t) as)"
  by (rule map_result_Inr) (use assms in \<open>auto intro: share_floor\<close>)

lemma share_le: "0 < t \<Longrightarrow> 0 \<le> p \<Longrightarrow> 0 \<le> a \<Longrightarrow> a \<le> t \<Longrightarrow> share a t p = Inr r \<Longrightarrow> 0 \<le> r \<and> r \<le> p"
proof -
  assume h: "0 < t" "0 \<le> p" "0 \<le> a" "a \<le> t" "share a t p = Inr r"
  then have r: "r = (a * p) div t" by (simp add: share_floor)
  have "a * p \<le> p * t" using h by (metis mult.commute mult_right_mono)
  then have "(a * p) div t \<le> (p * t) div t" using h(1) by (rule zdiv_mono1)
  then show ?thesis using h r by (simp add: pos_imp_zdiv_nonneg_iff)
qed

end

lemma floor_div_bounds: "0 < t \<Longrightarrow> (x div t) * t \<le> x \<and> x < (x div t + 1) * t" for x t :: int
  by (simp add: distrib_right minus_mod_eq_div_mult [symmetric])

text \<open>The sum of the floors, against the floor of the sum.\<close>

lemma sum_floors:
  fixes p t :: int
  assumes "0 < t"
  shows "t * sum_list (map (\<lambda>a. (a * p) div t) as) \<le> sum_list as * p"
    and "as \<noteq> [] \<Longrightarrow> sum_list as * p < t * (sum_list (map (\<lambda>a. (a * p) div t) as) + int (length as))"
proof -
  have one: "t * ((a * p) div t) \<le> a * p" "a * p < t * ((a * p) div t) + t" for a
    using assms by (simp_all add: mult.commute [of t] minus_mod_eq_div_mult [symmetric])
  show "t * sum_list (map (\<lambda>a. (a * p) div t) as) \<le> sum_list as * p"
  proof (induction as)
    case (Cons a as)
    show ?case using one(1) [of a] Cons by (simp add: distrib_left distrib_right)
  qed simp
  show "as \<noteq> [] \<Longrightarrow> sum_list as * p < t * (sum_list (map (\<lambda>a. (a * p) div t) as) + int (length as))"
  proof (induction as)
    case (Cons a as)
    then show ?case using one(2) [of a] by (cases "as = []") (simp_all add: algebra_simps)
  qed simp
qed

lemma floors_bounds:
  fixes p :: int
  assumes "0 < sum_list as" "0 \<le> p" "as \<noteq> []"
  defines "s \<equiv> sum_list (map (\<lambda>a. (a * p) div sum_list as) as)"
  shows "s \<le> p" "p - s < int (length as)"
proof -
  let ?t = "sum_list as"
  have "?t * s \<le> ?t * p" using sum_floors(1) [OF assms(1), of p as] by (simp add: s_def mult.commute)
  then show "s \<le> p" using assms(1) by simp
  have "?t * p < ?t * (s + int (length as))"
    using sum_floors(2) [OF assms(1,3), of p] by (simp add: s_def mult.commute)
  then show "p - s < int (length as)" using assms(1) by simp
qed

interpretation settle_share: pro_rata computeInvestorReturn
  by unfold_locales (simp add: computeInvestorReturn_def)

interpretation util_share: pro_rata computeInvestorReturn_util
  by unfold_locales (simp add: computeInvestorReturn_util_def)

text \<open>the two implementations of an investor's return agree on every input both are meant for
  (a positive total and non-negative amounts within it), and there each pays the floor of the exact
  share, never more than the proceeds.\<close>

theorem investor_return_variants_agree:
  assumes "0 < t" "0 \<le> a" "a \<le> t" "0 \<le> p"
  shows "computeInvestorReturn a t p = computeInvestorReturn_util a t p \<and>
    (\<exists>r. computeInvestorReturn a t p = Inr r \<and> 0 \<le> r \<and> r \<le> p \<and> r * t \<le> a * p \<and> a * p < (r + 1) * t)"
proof -
  have e: "computeInvestorReturn a t p = Inr ((a * p) div t)"
    by (rule settle_share.share_floor [OF assms])
  moreover have "computeInvestorReturn_util a t p = Inr ((a * p) div t)"
    by (rule util_share.share_floor [OF assms])
  moreover have "0 \<le> (a * p) div t \<and> (a * p) div t \<le> p"
    by (rule settle_share.share_le [OF assms(1,4,2,3) e])
  ultimately show ?thesis using floor_div_bounds [OF assms(1), of "a * p"] by simp
qed

theorem investor_return_variants_agree_witness:
  "computeInvestorReturn 1 3 100 = computeInvestorReturn_util 1 3 100 \<and>
   (\<exists>r. computeInvestorReturn 1 3 100 = Inr r \<and> 0 \<le> r \<and> r \<le> 100 \<and> r * 3 \<le> 1 * 100 \<and> 1 * 100 < (r + 1) * 3)"
  by (rule investor_return_variants_agree) simp_all

subsection \<open>Shares add up to one hundred percent\<close>

lemma max_scan_index: "max_scan as i m k = k \<or> (i \<le> max_scan as i m k \<and> max_scan as i m k < i + length as)"
proof (induction as arbitrary: i m k)
  case (Cons a as)
  show ?case using Cons.IH [of "Suc i" a i] Cons.IH [of "Suc i" m k] by auto
qed simp

lemma max_scan_start: "as \<noteq> [] \<Longrightarrow> max_scan as 0 m 0 < length as"
  using max_scan_index [of as 0 m 0] by auto

lemma sum_list_update_int:
  "i < length xs \<Longrightarrow> sum_list (map snd (xs[i := (k, snd (xs ! i) + (r::int))])) = sum_list (map snd xs) + r"
  by (induction xs arbitrary: i) (auto split: nat.splits)

lemma trunc_div_nonneg: "0 \<le> a \<Longrightarrow> 0 < b \<Longrightarrow> trunc_div a b = a div b"
  by (cases "a = 0") (auto simp: trunc_div_def sgn_if)

lemma map_fst_update: "i < length xs \<Longrightarrow> map fst (xs[i := (fst (xs ! i), v)]) = map fst xs"
  by (simp add: map_update list_update_same_conv)

lemma add_remainder:
  assumes "i < length rs" "\<forall>p \<in> set rs. 0 \<le> snd p" "(0::int) \<le> r"
  shows "sum_list (map snd (rs[i := (fst (rs ! i), snd (rs ! i) + r)])) = sum_list (map snd rs) + r"
    and "map fst (rs[i := (fst (rs ! i), snd (rs ! i) + r)]) = map fst rs"
    and "\<forall>p \<in> set (rs[i := (fst (rs ! i), snd (rs ! i) + r)]). 0 \<le> snd p"
proof -
  have "0 \<le> snd (rs ! i)" using assms(1,2) nth_mem by blast
  then show "\<forall>p \<in> set (rs[i := (fst (rs ! i), snd (rs ! i) + r)]). 0 \<le> snd p"
    using assms(2,3) set_update_subset_insert [of rs i] by fastforce
qed (use assms in \<open>simp_all add: sum_list_update_int map_fst_update\<close>)

lemma distribute_remainder:
  assumes "i < length rs" "\<forall>p \<in> set rs. 0 \<le> snd p" "sum_list (map snd rs) \<le> (100::int)"
    and "out = (if 100 - sum_list (map snd rs) > 0
      then rs[i := (fst (rs ! i), snd (rs ! i) + (100 - sum_list (map snd rs)))] else rs)"
  shows "sum_list (map snd out) = 100 \<and> map fst out = map fst rs \<and> (\<forall>p \<in> set out. 0 \<le> snd p)"
proof (cases "100 - sum_list (map snd rs) > 0")
  case True
  then have "0 \<le> 100 - sum_list (map snd rs)" by simp
  note r = add_remainder [OF assms(1,2) this]
  have out: "out = rs[i := (fst (rs ! i), snd (rs ! i) + (100 - sum_list (map snd rs)))]"
    using assms(4) True by simp
  show ?thesis unfolding out using r by linarith
qed (use assms in auto)

lemma floors_of_shares:
  assumes "\<forall>p \<in> set invs. 0 \<le> snd p" "0 < sum_list (map snd invs)"
  shows "map (\<lambda>inv. (fst inv, trunc_div (snd inv * 100) (sum_list (map snd invs)))) invs =
         map (\<lambda>inv. (fst inv, (snd inv * 100) div sum_list (map snd invs))) invs"
  using assms by (auto simp: trunc_div_nonneg)

text \<open>For non-negative amounts that are not all zero, the percentages add up to exactly 100,
  none is negative, and every investment keeps its identifier and place.\<close>

theorem investment_shares_sum:
  assumes "\<forall>p \<in> set invs. 0 \<le> snd p" "0 < sum_list (map snd invs)"
  shows "sum_list (map snd (calculateInvestmentShares invs)) = 100 \<and>
    map fst (calculateInvestmentShares invs) = map fst invs \<and>
    (\<forall>p \<in> set (calculateInvestmentShares invs). 0 \<le> snd p)"
proof -
  let ?t = "sum_list (map snd invs)"
  let ?rs = "map (\<lambda>inv. (fst inv, (snd inv * 100) div ?t)) invs"
  let ?s = "sum_list (map snd ?rs)"
  let ?i = "max_scan (map snd invs) 0 (- 1) 0"
  have ne: "invs \<noteq> []" "?t \<noteq> 0" using assms(2) by auto
  have s: "?s \<le> 100"
    using floors_bounds(1) [of "map snd invs" 100] assms(2) ne by (simp add: o_def)
  have i: "?i < length ?rs" using max_scan_start [of "map snd invs"] ne by simp
  have nn: "\<forall>p \<in> set ?rs. 0 \<le> snd p"
    using assms by (auto simp: pos_imp_zdiv_nonneg_iff)
  have eq: "calculateInvestmentShares invs =
      (if 100 - ?s > 0 then ?rs[?i := (fst (?rs ! ?i), snd (?rs ! ?i) + (100 - ?s))] else ?rs)"
    unfolding calculateInvestmentShares_def Let_def floors_of_shares [OF assms] using ne by simp
  have "map fst ?rs = map fst invs" by simp
  with distribute_remainder [OF i nn s eq] show ?thesis by (elim conjE) (intro conjI, assumption, erule (1) trans, assumption)
qed

theorem investment_shares_sum_witness:
  "sum_list (map snd (calculateInvestmentShares [(''a'', 1), (''b'', 1), (''c'', 1)])) = 100 \<and>
    map fst (calculateInvestmentShares [(''a'', 1), (''b'', 1), (''c'', 1)]) = [''a'', ''b'', ''c'']"
  using investment_shares_sum [of "[(''a'', 1), (''b'', 1), (''c'', 1)]"] by simp

end
