(* ===== verification/Keyset.thy ===== *)
theory Keyset
  imports Prelude "HOL-Library.Multiset"
begin

section \<open>Keyset order and paging\<close>

text \<open>
  What the list endpoints share: an \<open>ORDER BY\<close> over a key, a cursor that filters strictly
  past the last key seen, and one row more than the page holds to learn whether another
  page follows. \<open>isort_by\<close> is the meaning of \<open>ORDER BY\<close>; the locale is the contract a
  key order has to keep for paging to be exact.
\<close>

fun insert_by :: "('a \<Rightarrow> 'a \<Rightarrow> bool) \<Rightarrow> 'a \<Rightarrow> 'a list \<Rightarrow> 'a list" where
  "insert_by lt x [] = [x]"
| "insert_by lt x (y # ys) = (if lt y x then y # insert_by lt x ys else x # y # ys)"

fun isort_by :: "('a \<Rightarrow> 'a \<Rightarrow> bool) \<Rightarrow> 'a list \<Rightarrow> 'a list" where
  "isort_by lt [] = []"
| "isort_by lt (x # xs) = insert_by lt x (isort_by lt xs)"

lemma mset_insert_by [simp]: "mset (insert_by lt x ys) = add_mset x (mset ys)"
  by (induction ys) auto

lemma mset_isort_by [simp]: "mset (isort_by lt xs) = mset xs"
  by (induction xs) auto

lemma set_isort_by [simp]: "set (isort_by lt xs) = set xs"
  by (metis mset_isort_by set_mset_mset)

lemma length_isort_by [simp]: "length (isort_by lt xs) = length xs"
  by (metis mset_isort_by size_mset)

lemma distinct_isort_by [simp]: "distinct (isort_by lt xs) = distinct xs"
  by (metis mset_isort_by mset_eq_imp_distinct_iff)

text \<open>A page of an over-fetched query: \<open>rows.slice(0, limit)\<close> and whether a row was cut off.\<close>

definition page_items :: "nat \<Rightarrow> 'a list \<Rightarrow> 'a list" where
  "page_items limit rows = (if length rows > limit then take limit rows else rows)"

definition page_more :: "nat \<Rightarrow> 'a list \<Rightarrow> bool" where
  "page_more limit rows = (length rows > limit)"

lemma page_items_take: "page_items limit (take (limit + 1) xs) = take limit xs"
  by (simp add: page_items_def min_def)

lemma page_more_take: "page_more limit (take (limit + 1) xs) \<longleftrightarrow> length xs > limit"
  by (auto simp: page_more_def min_def)

text \<open>A client that follows the cursors until a page has none.\<close>

fun walk_by :: "nat \<Rightarrow> ('c option \<Rightarrow> ('a list \<times> 'c option) result) \<Rightarrow> 'c option \<Rightarrow> 'a list option" where
  "walk_by 0 page c = None"
| "walk_by (Suc n) page c =
     (case page c of
        Inl e \<Rightarrow> None
      | Inr (items, following) \<Rightarrow>
          (case following of
             None \<Rightarrow> Some items
           | Some c' \<Rightarrow> map_option (\<lambda>rs. items @ rs) (walk_by n page (Some c'))))"

locale keyset_order =
  fixes before :: "'k \<Rightarrow> 'k \<Rightarrow> bool"
  assumes irrefl: "\<not> before k k"
    and trans: "before a b \<Longrightarrow> before b c \<Longrightarrow> before a c"
    and total: "a \<noteq> b \<Longrightarrow> before a b \<or> before b a"
begin

lemma insert_sorted:
  assumes "sorted_wrt (\<lambda>a b. before (key a) (key b)) ys" "\<forall>y \<in> set ys. key y \<noteq> key x"
  shows "sorted_wrt (\<lambda>a b. before (key a) (key b)) (insert_by (\<lambda>a b. before (key a) (key b)) x ys)"
  using assms
proof (induction ys)
  case (Cons y ys)
  have mem: "set (insert_by lt x ys) = insert x (set ys)" for lt
    by (metis mset_insert_by set_mset_add_mset_insert set_mset_mset)
  show ?case
  proof (cases "before (key y) (key x)")
    case True
    then show ?thesis using Cons mem by auto
  next
    case False
    then have "before (key x) (key y)" using total Cons.prems(2) by fastforce
    then show ?thesis using False Cons.prems(1) trans by fastforce
  qed
qed simp

lemma isort_sorted:
  assumes "distinct (map key xs)"
  shows "sorted_wrt (\<lambda>a b. before (key a) (key b)) (isort_by (\<lambda>a b. before (key a) (key b)) xs)"
  using assms
proof (induction xs)
  case (Cons x xs)
  have "\<forall>y \<in> set (isort_by (\<lambda>a b. before (key a) (key b)) xs). key y \<noteq> key x"
    using Cons.prems by (auto simp: image_iff)
  then show ?case
    using Cons insert_sorted [of key "isort_by (\<lambda>a b. before (key a) (key b)) xs" x] by simp
qed simp

lemma sorted_unique:
  assumes "sorted_wrt (\<lambda>a b. before (key a) (key b)) xs" "sorted_wrt (\<lambda>a b. before (key a) (key b)) ys"
    "set xs = set ys"
  shows "xs = ys"
  using assms
proof (induction xs arbitrary: ys)
  case (Cons x xs)
  then obtain y ys' where ys: "ys = y # ys'" by (cases ys) auto
  have "x = y"
  proof (rule ccontr)
    assume "x \<noteq> y"
    then have "before (key x) (key y)" "before (key y) (key x)" using Cons.prems ys by auto
    then show False using trans irrefl by blast
  qed
  moreover have "x \<notin> set xs" "y \<notin> set ys'" using Cons.prems ys irrefl by auto
  ultimately have "set xs = set ys'" using Cons.prems(3) ys by auto
  then show ?case using Cons.IH [of ys'] Cons.prems ys \<open>x = y\<close> by simp
qed simp

lemma isort_filter:
  assumes "distinct (map key xs)"
  shows "isort_by (\<lambda>a b. before (key a) (key b)) (filter P xs) =
         filter P (isort_by (\<lambda>a b. before (key a) (key b)) xs)"
proof (rule sorted_unique [of key])
  show "sorted_wrt (\<lambda>a b. before (key a) (key b)) (isort_by (\<lambda>a b. before (key a) (key b)) (filter P xs))"
    by (rule isort_sorted) (use assms distinct_map_filter in blast)
  show "sorted_wrt (\<lambda>a b. before (key a) (key b)) (filter P (isort_by (\<lambda>a b. before (key a) (key b)) xs))"
    by (rule sorted_wrt_filter [OF isort_sorted [OF assms]])
qed simp

text \<open>The cursor filter of a sorted list keeps exactly what comes after the cursor's row.\<close>

lemma filter_past:
  assumes "sorted_wrt (\<lambda>a b. before (key a) (key b)) (us @ x # vs)"
  shows "filter (\<lambda>y. before (key x) (key y)) (us @ x # vs) = vs"
proof -
  have "\<not> before (key x) (key u)" if "u \<in> set us" for u
  proof -
    from that assms have "before (key u) (key x)" by (auto simp: sorted_wrt_append)
    then show ?thesis using trans irrefl by blast
  qed
  then have "filter (\<lambda>y. before (key x) (key y)) us = []" by (simp add: filter_empty_conv)
  moreover have "filter (\<lambda>y. before (key x) (key y)) vs = vs"
    using assms by (auto simp: sorted_wrt_append filter_id_conv)
  ultimately show ?thesis using irrefl by simp
qed

text \<open>The page after row \<open>x\<close>, when \<open>us @ x # vs\<close> is the whole sorted table.\<close>

lemma page_past:
  assumes "distinct (map key xs)" "isort_by (\<lambda>a b. before (key a) (key b)) xs = us @ x # vs"
  shows "isort_by (\<lambda>a b. before (key a) (key b)) (filter (\<lambda>y. before (key x) (key y)) xs) = vs"
  using isort_filter [OF assms(1)] isort_sorted [OF assms(1)] filter_past assms(2) by metis

text \<open>An endpoint that answers every cursor with the page after it is walked exactly once.\<close>

lemma walk_all:
  assumes "distinct (map key xs)" "0 < limit"
    and page: "\<And>c P. c = None \<and> P = (\<lambda>y. True) \<or> (\<exists>x \<in> set xs. c = Some (code x) \<and> P = (\<lambda>y. before (key x) (key y))) \<Longrightarrow>
      f c = (let vs = isort_by (\<lambda>a b. before (key a) (key b)) (filter P xs)
             in Inr (take limit vs, if length vs > limit then Some (code (last (take limit vs))) else None))"
    and "length xs < fuel"
  shows "walk_by fuel f None = Some (isort_by (\<lambda>a b. before (key a) (key b)) xs)"
proof -
  let ?sort = "isort_by (\<lambda>a b. before (key a) (key b))"
  have "walk_by fuel f c = Some vs"
    if "?sort xs = us @ vs" "?sort (filter P xs) = vs" "length vs < fuel"
      "c = None \<and> P = (\<lambda>y. True) \<or> (\<exists>x \<in> set xs. c = Some (code x) \<and> P = (\<lambda>y. before (key x) (key y)))"
    for us vs c P fuel
    using that
  proof (induction fuel arbitrary: us vs c P)
    case (Suc fuel)
    note eq = page [OF Suc.prems(4), unfolded Suc.prems(2) Let_def]
    show ?case
    proof (cases "length vs > limit")
      case True
      let ?x = "last (take limit vs)" and ?b = "butlast (take limit vs)"
      have ne: "take limit vs \<noteq> []" using True assms(2) by auto
      then have split: "?b @ ?x # drop limit vs = vs"
        by (metis append.assoc append_Cons append_Nil append_butlast_last_id append_take_drop_id)
      then have s: "?sort xs = (us @ ?b) @ ?x # drop limit vs" using Suc.prems(1) by simp
      then have "?x \<in> set (?sort xs)" by simp
      then have x: "?x \<in> set xs" by simp
      have "walk_by fuel f (Some (code ?x)) = Some (drop limit vs)"
      proof (rule Suc.IH [of "us @ ?b @ [?x]" "drop limit vs" "\<lambda>y. before (key ?x) (key y)"])
        show "?sort xs = (us @ ?b @ [?x]) @ drop limit vs" using s by simp
        show "?sort (filter (\<lambda>y. before (key ?x) (key y)) xs) = drop limit vs" by (rule page_past [OF assms(1) s])
        show "length (drop limit vs) < fuel" using True Suc.prems(3) assms(2) by simp
      qed (use x in blast)
      then show ?thesis using True by (simp add: eq)
    qed (simp add: eq)
  qed simp
  then show ?thesis using assms(4) by (metis append_Nil filter_True length_isort_by)
qed

end

text \<open>The orders of the code: primary value descending or ascending, identifier as tiebreak.\<close>

definition desc_asc :: "int \<times> string \<Rightarrow> int \<times> string \<Rightarrow> bool" where
  "desc_asc a b \<longleftrightarrow> fst a > fst b \<or> (fst a = fst b \<and> snd a < snd b)"

definition asc_asc :: "int \<times> string \<Rightarrow> int \<times> string \<Rightarrow> bool" where
  "asc_asc a b \<longleftrightarrow> fst a < fst b \<or> (fst a = fst b \<and> snd a < snd b)"

definition desc_desc :: "int \<times> string \<Rightarrow> int \<times> string \<Rightarrow> bool" where
  "desc_desc a b \<longleftrightarrow> fst a > fst b \<or> (fst a = fst b \<and> snd a > snd b)"

interpretation desc_asc: keyset_order desc_asc
  by unfold_locales (auto simp: desc_asc_def prod_eq_iff)

interpretation asc_asc: keyset_order asc_asc
  by unfold_locales (auto simp: asc_asc_def prod_eq_iff)

interpretation desc_desc: keyset_order desc_desc
  by unfold_locales (auto simp: desc_desc_def prod_eq_iff)

end
