(* ===== verification/Pagination.thy ===== *)
theory Pagination
  imports Keyset
begin

section \<open>Cursor pagination of queries\<close>

text \<open>
  \<open>src/utils/query-pagination.utils.ts\<close> and \<open>src/utils/pagination.ts\<close>. A table is the list
  of the rows the caller's own filters leave, each with the value of the cursor column and
  of the tiebreaker column. A cursor travels as base64 of JSON text: the model starts from
  the parsed value, \<open>None\<close> when the text is not base64-encoded JSON. A date value travels
  as its ISO string and is kept here as its epoch milliseconds.
\<close>

datatype json = JNull | JBool bool | JNum int | JStr string | JArr "json list" | JObj "(string \<times> json) list"

record row =
  r_val :: int
  r_id :: string

datatype sort_dir = ASC | DESC

record decoded_cursor =
  c_field :: string
  c_value :: json
  c_id :: "string option"

definition invalidCursor :: error where
  "invalidCursor = ServiceError ''invalid_cursor'' 400"

definition encodeQueryCursor :: "string \<Rightarrow> json \<Rightarrow> string option \<Rightarrow> json" where
  "encodeQueryCursor field value i =
     JObj ([(''field'', JStr field), (''value'', value)] @
           (case i of None \<Rightarrow> [] | Some s \<Rightarrow> [(''id'', JStr s)]))"

definition decodeQueryCursor :: "json option \<Rightarrow> decoded_cursor result" where
  "decodeQueryCursor cursor =
     (case cursor of
        Some (JObj fs) \<Rightarrow>
          (case (map_of fs ''field'', map_of fs ''value'') of
             (Some (JStr field), Some value) \<Rightarrow>
               (if (case value of JStr _ \<Rightarrow> True | JNum _ \<Rightarrow> True | _ \<Rightarrow> False)
                then (case map_of fs ''id'' of
                        None \<Rightarrow> Inr \<lparr>c_field = field, c_value = value, c_id = None\<rparr>
                      | Some (JStr i) \<Rightarrow> Inr \<lparr>c_field = field, c_value = value, c_id = Some i\<rparr>
                      | _ \<Rightarrow> Inl invalidCursor)
                else Inl invalidCursor)
           | _ \<Rightarrow> Inl invalidCursor)
      | _ \<Rightarrow> Inl invalidCursor)"

fun split_on :: "char \<Rightarrow> string \<Rightarrow> string list" where
  "split_on d [] = [[]]"
| "split_on d (c # cs) =
     (if c = d then [] # split_on d cs
      else (case split_on d cs of [] \<Rightarrow> [[c]] | w # ws \<Rightarrow> (c # w) # ws))"

definition splitCursorField :: "string \<Rightarrow> (string \<times> string) result" where
  "splitCursorField cursorField =
     (case split_on (CHR ''.'') cursorField of
        [a, c] \<Rightarrow> if a = [] \<or> c = [] then Inl invalidCursor else Inr (a, c)
      | _ \<Rightarrow> Inl invalidCursor)"

text \<open>The comparison of a cursor value with a numeric or date column. A string value that
  the database cannot read as such a column is an error of the query.\<close>

fun cursor_num :: "json \<Rightarrow> int result" where
  "cursor_num (JNum n) = Inr n"
| "cursor_num _ = Inl (JsError ''QueryFailedError'')"

definition past_value :: "sort_dir \<Rightarrow> int \<Rightarrow> int \<Rightarrow> bool" where
  "past_value order c v = (case order of DESC \<Rightarrow> v < c | ASC \<Rightarrow> v > c)"

text \<open>The \<open>WHERE\<close> clause the cursor adds.\<close>

definition cursor_filter :: "string \<Rightarrow> sort_dir \<Rightarrow> json option option \<Rightarrow> (row \<Rightarrow> bool) result" where
  "cursor_filter cursorField order cursor =
     (case cursor of
        None \<Rightarrow> Inr (\<lambda>r. True)
      | Some c \<Rightarrow>
          and_then (decodeQueryCursor c) (\<lambda>d.
            if c_field d \<noteq> cursorField then Inl invalidCursor
            else and_then (cursor_num (c_value d)) (\<lambda>v.
              case c_id d of
                None \<Rightarrow> Inr (\<lambda>r. past_value order v (r_val r))
              | Some i \<Rightarrow> Inr (\<lambda>r. past_value order v (r_val r) \<or> (r_val r = v \<and> r_id r > i)))))"

definition row_key :: "row \<Rightarrow> int \<times> string" where
  "row_key r = (r_val r, r_id r)"

text \<open>\<open>ORDER BY cursorField order, tiebreakerField ASC\<close>\<close>

definition row_order :: "sort_dir \<Rightarrow> int \<times> string \<Rightarrow> int \<times> string \<Rightarrow> bool" where
  "row_order order = (case order of DESC \<Rightarrow> desc_asc | ASC \<Rightarrow> asc_asc)"

record page =
  items :: "row list"
  nextCursor :: "json option"
  hasMore :: bool

definition paginateQuery ::
    "row list \<Rightarrow> string \<Rightarrow> sort_dir \<Rightarrow> int \<Rightarrow> json option option \<Rightarrow> string option \<Rightarrow> page result" where
  "paginateQuery table cursorField order limit cursor tiebreakerField =
     and_then (splitCursorField cursorField) (\<lambda>(alias, _).
     and_then (splitCursorField (case tiebreakerField of None \<Rightarrow> alias @ ''.id'' | Some t \<Rightarrow> t)) (\<lambda>_.
     if limit \<le> 0 then Inl (JsError ''Error'')
     else and_then (cursor_filter cursorField order cursor) (\<lambda>past.
       let rows = take (nat limit + 1)
             (isort_by (\<lambda>a b. row_order order (row_key a) (row_key b)) (filter past table));
           its = page_items (nat limit) rows;
           more = page_more (nat limit) rows
       in Inr \<lparr>items = its,
               nextCursor = (if more \<and> its \<noteq> []
                 then Some (encodeQueryCursor cursorField (JNum (r_val (last its))) (Some (r_id (last its))))
                 else None),
               hasMore = more\<rparr>)))"

text \<open>A client that follows \<open>nextCursor\<close> until there is none; the fuel bounds the requests.\<close>

fun walk_pages :: "nat \<Rightarrow> row list \<Rightarrow> string \<Rightarrow> sort_dir \<Rightarrow> int \<Rightarrow> json option option \<Rightarrow> row list option" where
  "walk_pages 0 table f order limit cursor = None"
| "walk_pages (Suc n) table f order limit cursor =
     (case paginateQuery table f order limit cursor None of
        Inl e \<Rightarrow> None
      | Inr p \<Rightarrow>
          (case nextCursor p of
             None \<Rightarrow> Some (items p)
           | Some c \<Rightarrow> map_option (\<lambda>rs. items p @ rs) (walk_pages n table f order limit (Some (Some c)))))"

subsection \<open>Cursors\<close>

text \<open>A cursor the helper encodes is decoded to the same field, value and identifier, whether
  or not it carries one.\<close>

theorem query_cursor_roundtrip:
  "decodeQueryCursor (Some (encodeQueryCursor f (JNum n) i)) =
     Inr \<lparr>c_field = f, c_value = JNum n, c_id = i\<rparr>"
  by (cases i) (simp_all add: decodeQueryCursor_def encodeQueryCursor_def)

lemma decode_encode [simp]:
  "decodeQueryCursor (Some (encodeQueryCursor f (JNum n) (Some i))) =
     Inr \<lparr>c_field = f, c_value = JNum n, c_id = Some i\<rparr>"
  by (simp add: decodeQueryCursor_def encodeQueryCursor_def)

subsection \<open>Paging visits every row once\<close>

lemma row_key_inj: "row_key a = row_key b \<longleftrightarrow> a = b"
  by (cases a; cases b) (auto simp: row_key_def)

interpretation row_keyset: keyset_order "row_order order"
  by (cases order) (simp_all add: row_order_def desc_asc.keyset_order_axioms asc_asc.keyset_order_axioms)

lemma distinct_row_keys: "distinct (map r_id rows) \<Longrightarrow> distinct (map row_key rows)"
  by (auto simp: distinct_map inj_on_def row_key_def)

abbreviation sort_rows :: "sort_dir \<Rightarrow> row list \<Rightarrow> row list" where
  "sort_rows order \<equiv> isort_by (\<lambda>a b. row_order order (row_key a) (row_key b))"

lemma cursor_filter_row:
  "cursor_filter f order (Some (Some (encodeQueryCursor f (JNum (r_val x)) (Some (r_id x))))) =
     Inr (\<lambda>r. row_order order (row_key x) (row_key r))"
  by (cases order)
     (auto simp: cursor_filter_def past_value_def row_order_def desc_asc_def asc_asc_def row_key_def fun_eq_iff)

lemma cursor_filter_none: "cursor_filter f order None = Inr (\<lambda>r. True)"
  by (simp add: cursor_filter_def)

definition field_ok :: "string \<Rightarrow> bool" where
  "field_ok f \<longleftrightarrow> (\<exists>a c. splitCursorField f = Inr (a, c) \<and> CHR ''.'' \<notin> set a)"

lemma split_on_notin: "d \<notin> set s \<Longrightarrow> split_on d s = [s]"
  by (induction s) auto

lemma split_on_append: "d \<notin> set s \<Longrightarrow> split_on d (s @ d # t) = s # split_on d t"
  by (induction s) auto

lemma split_id: "CHR ''.'' \<notin> set a \<Longrightarrow> a \<noteq> [] \<Longrightarrow> splitCursorField (a @ ''.id'') = Inr (a, ''id'')"
  using split_on_append [of "CHR ''.''" a "''id''"] by (simp add: splitCursorField_def)

lemma splitCursorField_ne: "splitCursorField f = Inr (a, c) \<Longrightarrow> a \<noteq> []"
  by (auto simp: splitCursorField_def split: list.splits if_splits)

text \<open>A page over a table, once its cursor filter is known.\<close>

lemma paginateQuery_eq:
  assumes "field_ok f" "0 < limit" "cursor_filter f order cursor = Inr past"
  shows "paginateQuery table f order limit cursor None =
    (let vs = sort_rows order (filter past table); its = take (nat limit) vs; more = length vs > nat limit
     in Inr \<lparr>items = its,
          nextCursor = (if more then Some (encodeQueryCursor f (JNum (r_val (last its))) (Some (r_id (last its)))) else None),
          hasMore = more\<rparr>)"
proof -
  obtain a c where f: "splitCursorField f = Inr (a, c)" "CHR ''.'' \<notin> set a"
    using assms(1) by (auto simp: field_ok_def)
  have i: "splitCursorField (a @ ''.id'') = Inr (a, ''id'')"
    using split_id f splitCursorField_ne by blast
  have take_ne: "length vs > nat limit \<Longrightarrow> take (nat limit) vs \<noteq> []" for vs :: "row list"
    using assms(2) by auto
  show ?thesis
    using assms(2,3) take_ne
    by (simp add: paginateQuery_def f i page_items_take [unfolded Suc_eq_plus1 [symmetric]]
        page_more_take [unfolded Suc_eq_plus1 [symmetric]] Let_def)
qed

lemma walk_suffix:
  assumes "field_ok f" "0 < limit" "distinct (map r_id table)"
    and "sort_rows order table = us @ vs" "cursor_filter f order cursor = Inr past"
    and "sort_rows order (filter past table) = vs" "length vs < fuel"
  shows "walk_pages fuel table f order limit cursor = Some vs"
  using assms(4-)
proof (induction fuel arbitrary: us vs cursor past)
  case (Suc fuel)
  let ?n = "nat limit"
  show ?case
  proof (cases "length vs > ?n")
    case False
    then show ?thesis
      using Suc.prems(3) by (simp add: paginateQuery_eq [OF assms(1,2) Suc.prems(2)] Let_def)
  next
    case True
    then have ne: "take ?n vs \<noteq> []" using assms(2) by auto
    let ?x = "last (take ?n vs)"
    let ?us = "us @ butlast (take ?n vs)"
    have "take ?n vs @ drop ?n vs = vs" by simp
    then have "butlast (take ?n vs) @ ?x # drop ?n vs = vs"
      using ne by (metis append_Cons append_assoc append_butlast_last_id self_append_conv2)
    then have split: "sort_rows order table = ?us @ ?x # drop ?n vs" using Suc.prems(1) by simp
    let ?past = "\<lambda>r. row_order order (row_key ?x) (row_key r)"
    have rest: "sort_rows order (filter ?past table) = drop ?n vs"
      by (rule row_keyset.page_past [OF distinct_row_keys [OF assms(3)] split])
    have "length (drop ?n vs) < fuel" using Suc.prems(4) True assms(2) by auto
    then have "walk_pages fuel table f order limit
        (Some (Some (encodeQueryCursor f (JNum (r_val ?x)) (Some (r_id ?x))))) = Some (drop ?n vs)"
      using Suc.IH [of "?us @ [?x]" "drop ?n vs", OF _ cursor_filter_row rest] split by simp
    then show ?thesis
      using True Suc.prems(3) by (simp add: paginateQuery_eq [OF assms(1,2) Suc.prems(2)] Let_def)
  qed
qed simp

text \<open>For a table whose identifiers are distinct, a client that follows \<open>nextCursor\<close> from the
  first page receives exactly the sorted table, each row once and none left out, also where rows
  share the sort value, and needs at most one request more than there are rows.\<close>

theorem paginate_visits_every_row_once:
  assumes "field_ok f" "0 < limit" "distinct (map r_id table)" "length table < fuel"
  shows "walk_pages fuel table f order limit None = Some (sort_rows order table)"
  using walk_suffix [OF assms(1-3), of order "[]" "sort_rows order table" None "\<lambda>r. True"] assms(4)
  by (simp add: cursor_filter_none)

theorem paginate_visits_every_row_once_witness:
  "walk_pages 4
     [\<lparr>r_val = 5, r_id = ''b''\<rparr>, \<lparr>r_val = 7, r_id = ''c''\<rparr>, \<lparr>r_val = 5, r_id = ''a''\<rparr>]
     ''invoice.createdAt'' DESC 1 None =
   Some (sort_rows DESC [\<lparr>r_val = 5, r_id = ''b''\<rparr>, \<lparr>r_val = 7, r_id = ''c''\<rparr>, \<lparr>r_val = 5, r_id = ''a''\<rparr>])"
  by (rule paginate_visits_every_row_once) (simp_all add: field_ok_def splitCursorField_def)

end
