(* ===== verification/Domain.thy ===== *)
theory Domain
  imports Decimal_Lib
begin

section \<open>Entities and tables\<close>

text \<open>
  The enums of \<open>src/types/enums.ts\<close>, the entities of \<open>src/models/\<close> the modelled services
  read and write, with the columns they use, and the database they live in. Tables looked
  up by primary key are maps; tables that are scanned are lists, whose order stands for
  the order the database returns rows in (no theorem fixes it). Money columns hold
  ten-thousandths (\<open>Decimal_Lib.thy\<close>), instants are epoch milliseconds. An invoice that is
  soft-deleted leaves the map of the rows every query sees for the list of deleted rows.
\<close>

datatype invoice_status = DRAFT | PENDING | PUBLISHED | FUNDED | SETTLED | CANCELLED | REJECTED | FAILED

datatype investment_status = InvPENDING | InvCONFIRMED | InvSETTLED | InvCANCELLED

datatype intent_status = PREPARED | SUBMITTING | DISTRIBUTED | COMPLETED

datatype listing_status = ACTIVE | SOLD | ListingCANCELLED | ListingEXPIRED

datatype actor_role = Seller | Admin | System

text \<open>A \<open>Date | string\<close> value: the bare \<open>YYYY-MM-DD\<close> text of a \<open>date\<close> column (kept as its
  day number since the epoch), or an instant, \<open>None\<close> when the text is not a date.\<close>

datatype date_input = DateOnly int | Instant "int option"

text \<open>What decimal.js makes of a value a caller passes: \<open>Malformed\<close> makes the constructor raise;
  comparisons with \<open>NaN\<close> are false.\<close>

datatype num_input = Malformed | NaN | PosInf | NegInf | Num decimal

datatype kyc_status = KycPENDING | KycINREVIEW | KycAPPROVED | KycREJECTED | KycEXPIRED

datatype user_type = SELLER | INVESTOR | BOTH | ADMIN

text \<open>The columns only the public submission form fills.\<close>

record submission_columns =
  sb_sellerWallet :: "string option"
  sb_title :: "string option"
  sb_faceValue :: "string option"
  sb_fundingTarget :: "string option"
  sb_yieldBps :: "int option"
  sb_ipfsDocumentUrl :: "string option"

record invoice =
  iv_id :: string
  iv_sellerId :: string
  iv_invoiceNumber :: string
  iv_customerName :: string
  iv_issuerName :: "string option"
  iv_description :: "string option"
  iv_discountRate :: int
  iv_amount :: amt
  iv_netAmount :: amt
  iv_fundedAmount :: amt
  iv_settlementRemainder :: amt
  iv_dueDate :: date_input
  iv_fundingDeadline :: "int option"
  iv_ipfsHash :: "string option"
  iv_status :: invoice_status
  iv_rejectionReason :: "string option"
  iv_riskScore :: "string option"
  iv_smartContractId :: "string option"
  iv_submission :: submission_columns
  iv_createdAt :: int
  iv_version :: int

record investment =
  im_id :: string
  im_invoiceId :: string
  im_investorId :: string
  im_amount :: amt
  im_expectedReturn :: amt
  im_actualReturn :: "amt option"
  im_status :: investment_status
  im_wallet :: "string option"
  im_fundingBlock :: "string option"
  im_transactionHash :: "string option"
  im_operationIndex :: "int option"

record user =
  us_id :: string
  us_stellarAddress :: "string option"
  us_userType :: user_type
  us_kycStatus :: kyc_status
  us_isKycVerified :: bool
  us_isSuspended :: bool

record status_history =
  h_invoiceId :: string
  h_from :: invoice_status
  h_to :: invoice_status
  h_role :: actor_role
  h_actorId :: "string option"
  h_trigger :: string
  h_reason :: "string option"

record intent_investment =
  ii_id :: string
  ii_investorId :: string
  ii_amount :: amt
  ii_recipient :: string
  ii_returnStroops :: int

record intent_payload =
  ip_proceeds :: amt
  ip_actorWallet :: string
  ip_sellerId :: "string option"
  ip_trigger :: string
  ip_feeRecipient :: string
  ip_feeBps :: int
  ip_investments :: "intent_investment list"

record intent =
  in_id :: string
  in_invoiceId :: string
  in_status :: intent_status
  in_payload :: intent_payload
  in_transactionHash :: "string option"

record investor_return =
  ir_invoiceId :: string
  ir_investmentId :: string
  ir_investorId :: string
  ir_amount :: amt

record settlement_remainder =
  sr_invoiceId :: string
  sr_remainder :: amt
  sr_total :: amt
  sr_distributed :: amt

record payment =
  tx_userId :: string
  tx_invoiceId :: string
  tx_investmentId :: "string option"
  tx_amount :: amt
  tx_hash :: string

record listing =
  li_id :: string
  li_invoiceId :: string
  li_sellerWallet :: string
  li_sellerId :: "string option"
  li_quantity :: amt
  li_price :: amt
  li_totalPrice :: amt
  li_status :: listing_status
  li_expiresAt :: int
  li_cancellationReason :: "string option"
  li_createdAt :: int

record db =
  invoices :: "string \<rightharpoonup> invoice"
  deleted_invoices :: "invoice list"
  investments :: "investment list"
  users :: "string \<rightharpoonup> user"
  intents :: "intent list"
  history :: "status_history list"
  returns :: "investor_return list"
  remainders :: "settlement_remainder list"
  payments :: "payment list"
  listings :: "listing list"
  acknowledgements :: "(string \<times> string) list"

subsection \<open>Saving rows\<close>

definition save_invoice :: "invoice \<Rightarrow> db \<Rightarrow> db" where
  "save_invoice v d = d\<lparr>invoices := (invoices d)(iv_id v \<mapsto> v)\<rparr>"

text \<open>\<open>save\<close> of a row with a primary key: the row of that key is replaced in its place, or the
  row is appended.\<close>

fun upsert :: "('r \<Rightarrow> string) \<Rightarrow> 'r \<Rightarrow> 'r list \<Rightarrow> 'r list" where
  "upsert k r [] = [r]"
| "upsert k r (x # xs) = (if k x = k r then r # xs else x # upsert k r xs)"

definition save_investment :: "investment \<Rightarrow> db \<Rightarrow> db" where
  "save_investment m d = d\<lparr>investments := upsert im_id m (investments d)\<rparr>"

definition save_listing :: "listing \<Rightarrow> db \<Rightarrow> db" where
  "save_listing l d = d\<lparr>listings := upsert li_id l (listings d)\<rparr>"

definition save_intent :: "intent \<Rightarrow> db \<Rightarrow> db" where
  "save_intent n d = d\<lparr>intents := upsert in_id n (intents d)\<rparr>"

text \<open>The pending settlement of an invoice, which blocks cancelling and trading.\<close>

definition intent_pending :: "intent \<Rightarrow> bool" where
  "intent_pending n \<longleftrightarrow> in_status n \<in> {PREPARED, SUBMITTING, DISTRIBUTED}"

definition settlement_in_progress :: "db \<Rightarrow> string \<Rightarrow> bool" where
  "settlement_in_progress d i \<longleftrightarrow> (\<exists>n \<in> set (intents d). in_invoiceId n = i \<and> intent_pending n)"

lemma save_invoice_simps [frame_simps]:
  "invoices (save_invoice v d) = (invoices d)(iv_id v \<mapsto> v)"
  "investments (save_invoice v d) = investments d" "users (save_invoice v d) = users d"
  "intents (save_invoice v d) = intents d" "history (save_invoice v d) = history d"
  "returns (save_invoice v d) = returns d" "remainders (save_invoice v d) = remainders d"
  "payments (save_invoice v d) = payments d" "listings (save_invoice v d) = listings d"
  "acknowledgements (save_invoice v d) = acknowledgements d" "deleted_invoices (save_invoice v d) = deleted_invoices d"
  by (simp_all add: save_invoice_def)

lemma save_investment_simps [frame_simps]:
  "investments (save_investment m d) = upsert im_id m (investments d)"
  "invoices (save_investment m d) = invoices d" "users (save_investment m d) = users d"
  "intents (save_investment m d) = intents d" "history (save_investment m d) = history d"
  "returns (save_investment m d) = returns d" "remainders (save_investment m d) = remainders d"
  "payments (save_investment m d) = payments d" "listings (save_investment m d) = listings d"
  "acknowledgements (save_investment m d) = acknowledgements d" "deleted_invoices (save_investment m d) = deleted_invoices d"
  by (simp_all add: save_investment_def)

lemma save_intent_simps [frame_simps]:
  "intents (save_intent n d) = upsert in_id n (intents d)"
  "invoices (save_intent n d) = invoices d" "users (save_intent n d) = users d"
  "investments (save_intent n d) = investments d" "history (save_intent n d) = history d"
  "returns (save_intent n d) = returns d" "remainders (save_intent n d) = remainders d"
  "payments (save_intent n d) = payments d" "listings (save_intent n d) = listings d"
  "acknowledgements (save_intent n d) = acknowledgements d" "deleted_invoices (save_intent n d) = deleted_invoices d"
  by (simp_all add: save_intent_def)

lemma save_listing_simps [frame_simps]:
  "listings (save_listing l d) = upsert li_id l (listings d)"
  "invoices (save_listing l d) = invoices d" "users (save_listing l d) = users d"
  "investments (save_listing l d) = investments d" "history (save_listing l d) = history d"
  "returns (save_listing l d) = returns d" "remainders (save_listing l d) = remainders d"
  "payments (save_listing l d) = payments d" "intents (save_listing l d) = intents d"
  "acknowledgements (save_listing l d) = acknowledgements d" "deleted_invoices (save_listing l d) = deleted_invoices d"
  by (simp_all add: save_listing_def)

lemma upsert_new: "k r \<notin> k ` set xs \<Longrightarrow> upsert k r xs = xs @ [r]"
  by (induction xs) auto

lemma set_upsert: "r \<in> set (upsert k r xs)"
  by (induction xs) auto

lemma upsert_keys: "k ` set (upsert k r xs) = insert (k r) (k ` set xs)"
  by (induction xs) auto

lemma distinct_upsert: "distinct (map k xs) \<Longrightarrow> distinct (map k (upsert k r xs))"
proof (induction xs)
  case (Cons x xs)
  have "set (map k (upsert k r xs)) = insert (k r) (k ` set xs)" by (simp add: upsert_keys)
  then show ?case using Cons by auto
qed simp

lemma set_upsert_distinct:
  "distinct (map k xs) \<Longrightarrow> set (upsert k r xs) = insert r {x \<in> set xs. k x \<noteq> k r}"
  by (induction xs) (auto simp: image_iff)

lemma kept_in_upsert: "x \<in> set xs \<Longrightarrow> k x \<noteq> k r \<Longrightarrow> x \<in> set (upsert k r xs)"
  by (induction xs) auto

lemma in_upsertD: "x \<in> set (upsert k r xs) \<Longrightarrow> x = r \<or> x \<in> set xs"
  by (induction xs) (auto split: if_splits)

text \<open>A sum over the rows a query selects, before and after a save.\<close>

lemma sum_upsert_replace:
  fixes f :: "'r \<Rightarrow> int"
  assumes "x \<in> set xs" "k x = k r" "distinct (map k xs)"
  shows "sum_list (map f (upsert k r xs)) = sum_list (map f xs) - f x + f r"
  using assms by (induction xs) (auto simp: image_iff)

end
