(* ===== verification/Invoice_Pages.thy ===== *)
theory Invoice_Pages
  imports Pagination Domain
begin

section \<open>Pages of invoices\<close>

text \<open>
  \<open>queryInvoicesPage\<close> of \<open>src/utils/pagination.ts\<close>, over the generic helper. Its own cursor
  is base64 of \<open>ISO_DATE|id\<close>; the model starts from the parsed parts, the date \<open>None\<close> when it
  is not a date and the identifier \<open>None\<close> when there is no bar. The helper's \<open>orderBy\<close>
  replaces the ordering by \<open>invoice.id\<close> that this function added before, so the effective
  order is the helper's: creation time descending, identifier ascending.
\<close>

record invoice_row = row +
  iw_sellerId :: string
  iw_status :: invoice_status
  iw_deleted :: bool

datatype status_filter = NoStatus | OneStatus invoice_status | Statuses "invoice_status list"

record legacy_cursor =
  lc_createdAt :: "int option"
  lc_id :: "string option"

definition invoice_matches :: "string option \<Rightarrow> status_filter \<Rightarrow> invoice_row \<Rightarrow> bool" where
  "invoice_matches seller st r \<longleftrightarrow>
     \<not> iw_deleted r \<and>
     (truthy seller \<longrightarrow> Some (iw_sellerId r) = seller) \<and>
     (case st of NoStatus \<Rightarrow> True | OneStatus s \<Rightarrow> iw_status r = s
      | Statuses ss \<Rightarrow> ss = [] \<or> iw_status r \<in> set ss)"

definition legacy_past :: "legacy_cursor \<Rightarrow> (row \<Rightarrow> bool) result" where
  "legacy_past c =
     (case lc_createdAt c of
        None \<Rightarrow> Inl (JsError ''RangeError'')
      | Some t \<Rightarrow> Inr (\<lambda>r. r_val r < t \<or>
          (r_val r = t \<and> (case lc_id c of None \<Rightarrow> False | Some i \<Rightarrow> r_id r < i))))"

record invoice_page =
  ip_data :: "row list"
  has_more :: bool
  next_cursor :: "legacy_cursor option"

definition queryInvoicesPage ::
    "invoice_row list \<Rightarrow> string option \<Rightarrow> status_filter \<Rightarrow> legacy_cursor option \<Rightarrow> int \<Rightarrow> invoice_page result" where
  "queryInvoicesPage table seller st cursor limit =
     and_then (case cursor of None \<Rightarrow> Inr (\<lambda>r. True) | Some c \<Rightarrow> legacy_past c) (\<lambda>past.
     and_then (paginateQuery (filter past (map row.truncate (filter (invoice_matches seller st) table)))
                 ''invoice.createdAt'' DESC limit None None) (\<lambda>p.
       Inr \<lparr>ip_data = items p, has_more = hasMore p,
            next_cursor =
              (if items p \<noteq> []
               then Some \<lparr>lc_createdAt = Some (r_val (last (items p))), lc_id = Some (r_id (last (items p)))\<rparr>
               else None)\<rparr>))"

text \<open>A client that asks for the next page as long as \<open>has_more\<close> says there is one.\<close>

fun walk_invoices :: "nat \<Rightarrow> invoice_row list \<Rightarrow> string option \<Rightarrow> status_filter \<Rightarrow> legacy_cursor option \<Rightarrow> int \<Rightarrow> row list option" where
  "walk_invoices 0 table seller st cursor limit = None"
| "walk_invoices (Suc n) table seller st cursor limit =
     (case queryInvoicesPage table seller st cursor limit of
        Inl e \<Rightarrow> None
      | Inr p \<Rightarrow> if \<not> has_more p then Some (ip_data p)
          else map_option (\<lambda>rs. ip_data p @ rs) (walk_invoices n table seller st (next_cursor p) limit))"

definition matching :: "invoice_row list \<Rightarrow> string option \<Rightarrow> status_filter \<Rightarrow> row list" where
  "matching table seller st = map row.truncate (filter (invoice_matches seller st) table)"

lemma field_ok_createdAt: "field_ok ''invoice.createdAt''"
  by (simp add: field_ok_def splitCursorField_def)

lemma page_eq:
  assumes "0 < limit" "(case cursor of None \<Rightarrow> Inr (\<lambda>r. True) | Some c \<Rightarrow> legacy_past c) = Inr past"
  shows "queryInvoicesPage table seller st cursor limit =
    (let vs = sort_rows DESC (filter past (matching table seller st)); its = take (nat limit) vs
     in Inr \<lparr>ip_data = its, has_more = length vs > nat limit,
             next_cursor = (if its \<noteq> []
               then Some \<lparr>lc_createdAt = Some (r_val (last its)), lc_id = Some (r_id (last its))\<rparr>
               else None)\<rparr>)"
  using assms
  by (simp add: queryInvoicesPage_def paginateQuery_eq [OF field_ok_createdAt] cursor_filter_none
      matching_def Let_def)

lemma in_sorted_page: "y \<in> set (take n (sort_rows order rows)) \<Longrightarrow> y \<in> set rows"
  by (metis in_set_takeD set_isort_by)

definition cursor_of :: "row \<Rightarrow> legacy_cursor" where
  "cursor_of x = \<lparr>lc_createdAt = Some (r_val x), lc_id = Some (r_id x)\<rparr>"

lemma past_cursor_of: "legacy_past (cursor_of x) = Inr (\<lambda>r. desc_desc (row_key x) (row_key r))"
  by (auto simp: legacy_past_def cursor_of_def desc_desc_def row_key_def fun_eq_iff)

lemma page_parts:
  assumes "0 < limit" "queryInvoicesPage table seller st cursor limit = Inr p"
    and "(case cursor of None \<Rightarrow> Inr (\<lambda>r. True) | Some c \<Rightarrow> legacy_past c) = Inr past"
  shows "ip_data p = take (nat limit) (sort_rows DESC (filter past (matching table seller st)))"
    and "ip_data p \<noteq> [] \<Longrightarrow> next_cursor p = Some (cursor_of (last (ip_data p)))"
    and "has_more p \<longleftrightarrow> length (filter past (matching table seller st)) > nat limit"
  using assms(2) by (auto simp: page_eq [OF assms(1,3)] Let_def cursor_of_def)

lemma page_rows_past:
  assumes "0 < limit" "queryInvoicesPage table seller st cursor limit = Inr p"
    and "(case cursor of None \<Rightarrow> Inr (\<lambda>r. True) | Some c \<Rightarrow> legacy_past c) = Inr past"
    and "r \<in> set (ip_data p)"
  shows "past r \<and> r \<in> set (matching table seller st)"
proof -
  have "r \<in> set (filter past (matching table seller st))"
    using assms(4) unfolding page_parts(1) [OF assms(1-3)] by (rule in_sorted_page)
  then show ?thesis by simp
qed

text \<open>What the cursor of a row excludes stays excluded on every later page.\<close>

lemma walk_excludes:
  assumes "0 < limit" "\<not> desc_desc (row_key x) (row_key y)"
    and "walk_invoices fuel table seller st (Some (cursor_of x)) limit = Some rs"
  shows "y \<notin> set rs"
  using assms(2,3)
proof (induction fuel arbitrary: x rs)
  case (Suc fuel)
  obtain p where p: "queryInvoicesPage table seller st (Some (cursor_of x)) limit = Inr p"
    using Suc.prems(2) by (auto split: sum.splits)
  have past: "(case Some (cursor_of x) of None \<Rightarrow> Inr (\<lambda>r. True) | Some c \<Rightarrow> legacy_past c) =
      Inr (\<lambda>r. desc_desc (row_key x) (row_key r))" by (simp add: past_cursor_of)
  note parts = page_parts [OF assms(1) p past] and rows = page_rows_past [OF assms(1) p past]
  have y: "y \<notin> set (ip_data p)" using rows Suc.prems(1) by blast
  show ?case
  proof (cases "has_more p")
    case True
    then have "length (ip_data p) > 0" using parts(1,3) assms(1) by simp
    then have ne: "ip_data p \<noteq> []" by simp
    let ?x = "last (ip_data p)"
    have "desc_desc (row_key x) (row_key ?x)" using rows ne by simp
    then have "\<not> desc_desc (row_key ?x) (row_key y)" using Suc.prems(1) desc_desc.trans by blast
    moreover obtain rs' where "walk_invoices fuel table seller st (Some (cursor_of ?x)) limit = Some rs'"
      "rs = ip_data p @ rs'" using Suc.prems(2) p True parts(2) ne by auto
    ultimately show ?thesis using Suc.IH y by auto
  qed (use Suc.prems(2) p y in auto)
qed simp

text \<open>When an invoice shares its creation time with the last invoice of the first page and
  has a larger identifier, no page the client is ever given contains it: the cursor filter
  compares identifiers downwards while the effective order runs upwards.\<close>

theorem invoices_page_skips_equal_times:
  assumes "walk_invoices fuel table seller st None limit = Some rs"
    and "queryInvoicesPage table seller st None limit = Inr p" "has_more p"
    and "y \<in> set (matching table seller st)" "distinct (map r_id (matching table seller st))"
    and "r_val y = r_val (last (ip_data p))" "r_id (last (ip_data p)) < r_id y"
  shows "y \<notin> set rs"
proof -
  have lim: "0 < limit" using assms(2)
    by (auto simp: queryInvoicesPage_def paginateQuery_def splitCursorField_def split: if_splits)
  note parts = page_parts [OF lim assms(2), of "\<lambda>r. True"]
  let ?x = "last (ip_data p)"
  have "length (ip_data p) > 0" using parts(1,3) assms(3) lim by simp
  then have ne: "ip_data p \<noteq> []" by simp
  have sorted: "sorted_wrt (\<lambda>a b. desc_asc (row_key a) (row_key b)) (ip_data p)"
    using row_keyset.isort_sorted [OF distinct_row_keys [OF assms(5)], of DESC] parts(1)
    by (simp add: row_order_def sorted_wrt_take)
  have "y \<notin> set (ip_data p)"
  proof
    assume "y \<in> set (ip_data p)"
    moreover have "ip_data p = butlast (ip_data p) @ [?x]" using ne by simp
    ultimately have "y = ?x \<or> desc_asc (row_key y) (row_key ?x)"
      using sorted by (metis (no_types, lifting) UnE empty_iff empty_set in_set_conv_decomp set_ConsD set_append sorted_wrt_append list.set_intros(1))
    then show False using assms(6,7) by (auto simp: desc_asc_def row_key_def)
  qed
  moreover have "y \<notin> set rs'"
    if "walk_invoices n table seller st (Some (cursor_of ?x)) limit = Some rs'" for n rs'
    by (rule walk_excludes [OF lim _ that]) (use assms(6,7) in \<open>auto simp: desc_desc_def row_key_def\<close>)
  ultimately show ?thesis using assms(1-3) parts(2) ne by (cases fuel) auto
qed

definition two_invoices :: "invoice_row list" where
  "two_invoices = [\<lparr>r_val = 5, r_id = ''a'', iw_sellerId = ''s'', iw_status = DRAFT, iw_deleted = False\<rparr>,
     \<lparr>r_val = 5, r_id = ''b'', iw_sellerId = ''s'', iw_status = DRAFT, iw_deleted = False\<rparr>]"

theorem invoices_page_skips_equal_times_witness:
  "walk_invoices 3 two_invoices None NoStatus None 1 = Some [\<lparr>r_val = 5, r_id = ''a''\<rparr>] \<and>
   \<lparr>r_val = 5, r_id = ''b''\<rparr> \<notin> set [\<lparr>r_val = 5, r_id = ''a''\<rparr>]"
proof -
  have m: "matching two_invoices None NoStatus = [\<lparr>r_val = 5, r_id = ''a''\<rparr>, \<lparr>r_val = 5, r_id = ''b''\<rparr>]"
    by (simp add: matching_def two_invoices_def invoice_matches_def truthy_def row.truncate_def)
  have s: "sort_rows DESC [\<lparr>r_val = 5, r_id = ''a''\<rparr>, \<lparr>r_val = 5, r_id = ''b''\<rparr>] =
      [\<lparr>r_val = 5, r_id = ''a''\<rparr>, \<lparr>r_val = 5, r_id = ''b''\<rparr>]"
    by (simp add: row_order_def desc_asc_def row_key_def)
  have p: "queryInvoicesPage two_invoices None NoStatus None 1 =
     Inr \<lparr>ip_data = [\<lparr>r_val = 5, r_id = ''a''\<rparr>], has_more = True,
          next_cursor = Some (cursor_of \<lparr>r_val = 5, r_id = ''a''\<rparr>)\<rparr>"
    using s by (simp add: page_eq [of _ _ "\<lambda>r. True"] m Let_def cursor_of_def)
  have q: "queryInvoicesPage two_invoices None NoStatus (Some (cursor_of \<lparr>r_val = 5, r_id = ''a''\<rparr>)) 1 =
     Inr \<lparr>ip_data = [], has_more = False, next_cursor = None\<rparr>"
    by (simp add: page_eq [of _ _ "\<lambda>r. desc_desc (row_key \<lparr>r_val = 5, r_id = ''a''\<rparr>) (row_key r)"]
        past_cursor_of m desc_desc_def row_key_def)
  have w: "walk_invoices 3 two_invoices None NoStatus None 1 = Some [\<lparr>r_val = 5, r_id = ''a''\<rparr>]"
    using p q by (simp add: eval_nat_numeral)
  show ?thesis
    using w invoices_page_skips_equal_times [OF w p, of "\<lparr>r_val = 5, r_id = ''b''\<rparr>"] by (simp add: m)
qed

subsection \<open>Distinct creation times\<close>

lemma filter_agree:
  assumes "inj_on r_val (set rows)" "x \<in> set rows"
  shows "filter (\<lambda>r. desc_desc (row_key x) (row_key r)) rows = filter (\<lambda>r. row_order DESC (row_key x) (row_key r)) rows"
proof (rule filter_cong [OF refl])
  fix r
  assume "r \<in> set rows"
  then have "r_val r = r_val x \<Longrightarrow> r = x" using assms by (auto dest: inj_onD)
  then show "desc_desc (row_key x) (row_key r) = row_order DESC (row_key x) (row_key r)"
    by (auto simp: desc_desc_def row_order_def desc_asc_def row_key_def)
qed

lemma walk_invoices_suffix:
  assumes "0 < limit" "distinct (map r_val (matching table seller st))"
    and "sort_rows DESC (matching table seller st) = us @ vs"
    and "(case cursor of None \<Rightarrow> Inr (\<lambda>r. True) | Some c \<Rightarrow> legacy_past c) = Inr past"
    and "sort_rows DESC (filter past (matching table seller st)) = vs" "length vs < fuel"
  shows "walk_invoices fuel table seller st cursor limit = Some vs"
  using assms(3-)
proof (induction fuel arbitrary: us vs cursor past)
  case (Suc fuel)
  let ?n = "nat limit" and ?rows = "matching table seller st"
  have len: "length (filter past ?rows) = length vs" using Suc.prems(3) length_isort_by by metis
  have p: "queryInvoicesPage table seller st cursor limit =
     Inr \<lparr>ip_data = take ?n vs, has_more = length vs > ?n,
          next_cursor = (if take ?n vs \<noteq> [] then Some (cursor_of (last (take ?n vs))) else None)\<rparr>"
    using page_eq [OF assms(1) Suc.prems(2), of table seller st] unfolding Suc.prems(3) Let_def
    by (simp add: len cursor_of_def)
  show ?case
  proof (cases "length vs > ?n")
    case True
    then have ne: "take ?n vs \<noteq> []" using assms(1) by auto
    let ?x = "last (take ?n vs)"
    let ?us = "us @ butlast (take ?n vs)"
    have "take ?n vs @ drop ?n vs = vs" by simp
    then have "butlast (take ?n vs) @ ?x # drop ?n vs = vs"
      using ne by (metis append_Cons append_assoc append_butlast_last_id self_append_conv2)
    then have split: "sort_rows DESC ?rows = ?us @ ?x # drop ?n vs" using Suc.prems(1) by simp
    have keys: "distinct (map row_key ?rows)"
      using assms(2) by (auto simp: distinct_map inj_on_def row_key_def)
    have "?x \<in> set (sort_rows DESC ?rows)" unfolding split by simp
    then have x: "?x \<in> set ?rows" by simp
    have rest: "sort_rows DESC (filter (\<lambda>r. desc_desc (row_key ?x) (row_key r)) ?rows) = drop ?n vs"
      unfolding filter_agree [OF conjunct2 [OF assms(2) [unfolded distinct_map]] x]
      by (rule row_keyset.page_past [OF keys split])
    have "length (drop ?n vs) < fuel" using Suc.prems(4) True assms(1) by auto
    then have "walk_invoices fuel table seller st (Some (cursor_of ?x)) limit = Some (drop ?n vs)"
      using Suc.IH [of "?us @ [?x]" "drop ?n vs", OF _ _ rest] split by (simp add: past_cursor_of)
    then show ?thesis using True ne p by simp
  qed (use p in simp)
qed simp

text \<open>When no two of the invoices the filters select share a creation time, a client that
  follows the pages receives every one of them once, newest first, for every page size.\<close>

theorem invoice_pages_complete_for_distinct_times:
  assumes "0 < limit" "distinct (map r_val (matching table seller st))"
    and "length (matching table seller st) < fuel"
  shows "walk_invoices fuel table seller st None limit = Some (sort_rows DESC (matching table seller st))"
  by (rule walk_invoices_suffix [OF assms(1,2), of "[]" _ None "\<lambda>r. True"]) (use assms(3) in simp_all)

theorem invoice_pages_complete_for_distinct_times_witness:
  "walk_invoices 4 (map (\<lambda>r. r\<lparr>r_val := (if r_id r = ''a'' then 9 else 5)\<rparr>) two_invoices) (Some ''s'') NoStatus None 1 =
     Some (sort_rows DESC (matching (map (\<lambda>r. r\<lparr>r_val := (if r_id r = ''a'' then 9 else 5)\<rparr>) two_invoices) (Some ''s'') NoStatus))"
  by (rule invoice_pages_complete_for_distinct_times)
     (simp_all add: matching_def two_invoices_def invoice_matches_def truthy_def row.truncate_def)

end
