(* ===== verification/Publish_Rules.thy ===== *)
theory Publish_Rules
  imports Domain
begin

section \<open>Due dates and the publish checks\<close>

text \<open>
  \<open>src/utils/date.utils.ts\<close>, \<open>src/lib/validate-invoice-for-publish.ts\<close> and
  \<open>src/lib/invoice-validation.ts\<close>. A date that cannot be parsed is \<open>None\<close>, and every
  comparison with it is false, as with \<open>NaN\<close>. A validation error is its code.
\<close>

definition DAY_MS :: int where "DAY_MS = 86400000"

text \<open>\<open>new Date(value)\<close>: a date-only text is midnight UTC of that day.\<close>

definition date_value :: "date_input \<Rightarrow> int option" where
  "date_value x = (case x of DateOnly d \<Rightarrow> Some (d * DAY_MS) | Instant t \<Rightarrow> t)"

definition endOfDayUTC :: "date_input \<Rightarrow> int option" where
  "endOfDayUTC dueDate =
     (case dueDate of
        DateOnly d \<Rightarrow> Some (d * DAY_MS + (DAY_MS - 1))
      | Instant date \<Rightarrow>
          (case date of
             None \<Rightarrow> None
           | Some t \<Rightarrow> let isMidnightUTC = (t mod DAY_MS = 0)
                       in Some (if isMidnightUTC then t + (DAY_MS - 1) else t)))"

definition isPastDueDate :: "date_input \<Rightarrow> int \<Rightarrow> bool" where
  "isPastDueDate dueDate referenceDate =
     (case endOfDayUTC dueDate of None \<Rightarrow> False | Some t \<Rightarrow> t < referenceDate)"

definition MIN_LEAD_TIME_MS :: int where "MIN_LEAD_TIME_MS = 24 * 60 * 60 * 1000"

definition MIN_FACE_VALUE_XLM :: decimal where "MIN_FACE_VALUE_XLM = 100"

definition validateFundingDeadline :: "date_input \<Rightarrow> int \<Rightarrow> string option" where
  "validateFundingDeadline dueDate now =
     (case date_value dueDate of
        None \<Rightarrow> Some ''DUE_DATE_IN_PAST''
      | Some deadline \<Rightarrow>
          let leadTimeMs = deadline - now
          in if leadTimeMs \<le> 0 then Some ''DUE_DATE_IN_PAST''
             else if leadTimeMs < MIN_LEAD_TIME_MS then Some ''DUE_DATE_TOO_SOON''
             else None)"

definition validateInvoiceForPublish :: "invoice \<Rightarrow> int \<Rightarrow> string list" where
  "validateInvoiceForPublish invoice now =
     (if dec (iv_amount invoice) < MIN_FACE_VALUE_XLM then [''FACE_VALUE_TOO_LOW''] else []) @
     (case validateFundingDeadline (iv_dueDate invoice) now of None \<Rightarrow> [] | Some c \<Rightarrow> [c]) @
     (if \<not> truthy (iv_ipfsHash invoice) then [''MISSING_DOCUMENT''] else [])"

text \<open>The older check of \<open>src/lib/invoice-validation.ts\<close>, on a \<open>Date\<close>.\<close>

definition validateDueDateLead :: "int option \<Rightarrow> int \<Rightarrow> unit result" where
  "validateDueDateLead dueDate now =
     (case dueDate of
        None \<Rightarrow> Inr ()
      | Some t \<Rightarrow> if t - now < MIN_LEAD_TIME_MS then Inl (ServiceError ''invalid_due_date'' 400) else Inr ())"

lemma endOfDay_ge: "date_value x = Some t \<Longrightarrow> \<exists>e. endOfDayUTC x = Some e \<and> t \<le> e"
  by (auto simp: date_value_def endOfDayUTC_def DAY_MS_def Let_def split: date_input.splits option.splits)

lemma deadline_valid_iff:
  "validateFundingDeadline x now = None \<longleftrightarrow> (\<exists>t. date_value x = Some t \<and> t - now \<ge> MIN_LEAD_TIME_MS)"
  by (auto simp: validateFundingDeadline_def MIN_LEAD_TIME_MS_def Let_def split: option.splits if_splits)

text \<open>An invoice that passes the publish checks has a face value of at least 100, a document,
  and is not past its due date at any moment of the following 24 hours, so investors do get the
  full day the check promises.\<close>

theorem publishable_has_a_day_of_runway:
  assumes "validateInvoiceForPublish v now = []" "t \<le> now + MIN_LEAD_TIME_MS"
  shows "\<not> isPastDueDate (iv_dueDate v) t \<and> iv_amount v \<ge> 1000000 \<and> truthy (iv_ipfsHash v)"
proof -
  from assms(1) have c: "validateFundingDeadline (iv_dueDate v) now = None"
    "\<not> dec (iv_amount v) < MIN_FACE_VALUE_XLM" "truthy (iv_ipfsHash v)"
    by (auto simp: validateInvoiceForPublish_def split: option.splits if_splits)
  from c(1) obtain d where d: "date_value (iv_dueDate v) = Some d" "d - now \<ge> MIN_LEAD_TIME_MS"
    by (auto simp: deadline_valid_iff)
  obtain e where e: "endOfDayUTC (iv_dueDate v) = Some e" "d \<le> e" using endOfDay_ge [OF d(1)] by auto
  from c(2) have "of_int (iv_amount v) \<ge> (1000000 :: rat)" by (simp add: dec_def MIN_FACE_VALUE_XLM_def)
  then have "iv_amount v \<ge> 1000000" by (metis of_int_le_iff of_int_numeral)
  then show ?thesis using c(3) d(2) e assms(2) by (simp add: isPastDueDate_def)
qed

definition no_submission :: submission_columns where
  "no_submission = \<lparr>sb_sellerWallet = None, sb_title = None, sb_faceValue = None, sb_fundingTarget = None,
     sb_yieldBps = None, sb_ipfsDocumentUrl = None\<rparr>"

definition sample_invoice :: invoice where
  "sample_invoice = \<lparr>iv_id = ''i1'', iv_sellerId = ''s1'', iv_invoiceNumber = ''N1'', iv_customerName = ''c'', iv_issuerName = None, iv_description = None,
     iv_discountRate = 500, iv_amount = 10000000, iv_netAmount = 9500000, iv_fundedAmount = 0,
     iv_settlementRemainder = 0, iv_dueDate = DateOnly 20000, iv_fundingDeadline = None,
     iv_ipfsHash = Some ''Qm'', iv_status = DRAFT, iv_rejectionReason = None, iv_riskScore = None,
     iv_smartContractId = None, iv_submission = no_submission, iv_createdAt = 0, iv_version = 1\<rparr>"

theorem publishable_has_a_day_of_runway_witness:
  "\<not> isPastDueDate (iv_dueDate sample_invoice) (19990 * 86400000) \<and> iv_amount sample_invoice \<ge> 1000000 \<and>
     truthy (iv_ipfsHash sample_invoice)"
  by (rule publishable_has_a_day_of_runway [where now = "19990 * 86400000"])
     (simp_all add: validateInvoiceForPublish_def validateFundingDeadline_def sample_invoice_def date_value_def
       DAY_MS_def MIN_LEAD_TIME_MS_def MIN_FACE_VALUE_XLM_def dec_def truthy_def)

end
