(* ===== verification/Invoice_Machine.thy ===== *)
theory Invoice_Machine
  imports Publish_Rules
begin

section \<open>The invoice status state machine\<close>

text \<open>
  \<open>src/lib/invoice-state-machine.ts\<close>: the rule table, \<open>assertTransition\<close>, \<open>transition\<close> over a
  store interface, the store over the database, \<open>dispatch\<close> of side effects, and the
  built-in effects. The store is an argument, as in the code; the locale states what a
  store has to do and the database store is its instance. Writes of a transition happen
  inside the caller's transaction.
\<close>

datatype guard = NoGuard | PublishReady | ReasonRequired | FullyFunded

record transition_rule =
  r_from :: invoice_status
  r_to :: invoice_status
  r_roles :: "actor_role list"
  r_guard :: guard
  r_guardCode :: "string option"

record transition_actor =
  a_role :: actor_role
  a_id :: "string option"
  a_wallet :: "string option"

record transition_context =
  x_fundedAmount :: "decimal option"
  x_reason :: "string option"

definition empty_context :: transition_context where
  "empty_context = \<lparr>x_fundedAmount = None, x_reason = None\<rparr>"

definition mk_rule :: "invoice_status \<Rightarrow> invoice_status \<Rightarrow> actor_role list \<Rightarrow> guard \<Rightarrow> string option \<Rightarrow> transition_rule" where
  "mk_rule f t rs g c = \<lparr>r_from = f, r_to = t, r_roles = rs, r_guard = g, r_guardCode = c\<rparr>"

definition TRANSITION_RULES :: "transition_rule list" where
  "TRANSITION_RULES =
    [mk_rule DRAFT PENDING [Seller] PublishReady (Some ''invoice_not_publishable''),
     mk_rule DRAFT PUBLISHED [Seller] PublishReady (Some ''invoice_not_publishable''),
     mk_rule PENDING PUBLISHED [Admin] PublishReady (Some ''invoice_not_publishable''),
     mk_rule DRAFT REJECTED [Admin] ReasonRequired None,
     mk_rule PENDING REJECTED [Admin] ReasonRequired None,
     mk_rule PUBLISHED FUNDED [System] FullyFunded None,
     mk_rule FUNDED SETTLED [Admin, System] NoGuard None,
     mk_rule PUBLISHED FAILED [System] NoGuard None,
     mk_rule DRAFT CANCELLED [Seller, Admin] NoGuard None,
     mk_rule PENDING CANCELLED [Seller, Admin] NoGuard None,
     mk_rule PUBLISHED CANCELLED [Admin] NoGuard None,
     mk_rule FUNDED CANCELLED [Admin] NoGuard None]"

definition allowedTransitionsFrom :: "invoice_status \<Rightarrow> invoice_status list" where
  "allowedTransitionsFrom from = map r_to (filter (\<lambda>rule. r_from rule = from) TRANSITION_RULES)"

definition isTerminalStatus :: "invoice_status \<Rightarrow> bool" where
  "isTerminalStatus status \<longleftrightarrow> length (allowedTransitionsFrom status) = 0"

definition findRule :: "invoice_status \<Rightarrow> invoice_status \<Rightarrow> transition_rule option" where
  "findRule from to = find (\<lambda>rule. r_from rule = from \<and> r_to rule = to) TRANSITION_RULES"

text \<open>\<open>context.reason?.trim() || null\<close>\<close>

definition trimmed_reason :: "transition_context \<Rightarrow> string option" where
  "trimmed_reason context =
     (case x_reason context of
        None \<Rightarrow> None
      | Some r \<Rightarrow> if js_trim r = [] then None else Some (js_trim r))"

text \<open>Whether a guard returns no failure message.\<close>

definition guard_holds :: "guard \<Rightarrow> invoice \<Rightarrow> transition_context \<Rightarrow> int \<Rightarrow> bool" where
  "guard_holds g invoice context now =
     (case g of
        NoGuard \<Rightarrow> True
      | PublishReady \<Rightarrow> validateInvoiceForPublish invoice now = []
      | ReasonRequired \<Rightarrow> trimmed_reason context \<noteq> None
      | FullyFunded \<Rightarrow>
          (case x_fundedAmount context of
             None \<Rightarrow> False
           | Some funded \<Rightarrow> funded \<ge> dec (iv_netAmount invoice)))"

definition assertTransition ::
    "invoice \<Rightarrow> invoice_status \<Rightarrow> transition_actor \<Rightarrow> transition_context \<Rightarrow> int \<Rightarrow> unit result" where
  "assertTransition invoice to actor context now =
     (case findRule (iv_status invoice) to of
        None \<Rightarrow> Inl (ServiceError ''invalid_status_transition'' 422)
      | Some rule \<Rightarrow>
          let ownerMismatch = (a_role actor = Seller \<and> a_id actor \<noteq> Some (iv_sellerId invoice))
          in if a_role actor \<notin> set (r_roles rule) \<or> ownerMismatch
             then Inl (ServiceError ''transition_not_permitted'' 403)
             else if \<not> guard_holds (r_guard rule) invoice context now
             then Inl (ServiceError (case r_guardCode rule of None \<Rightarrow> ''transition_precondition_failed''
                                     | Some c \<Rightarrow> c) 422)
             else Inr ())"

subsection \<open>Stores\<close>

record 'd transition_store =
  saveInvoice :: "invoice \<Rightarrow> 'd \<Rightarrow> error + (invoice option \<times> 'd)"
  recordHistory :: "(status_history \<Rightarrow> 'd \<Rightarrow> error + 'd) option"

text \<open>\<open>manager.save(Invoice, invoice)\<close>; the version column counts the update.\<close>

definition orm_save_invoice :: "invoice \<Rightarrow> db \<Rightarrow> invoice \<times> db" where
  "orm_save_invoice v d =
     (let v' = v\<lparr>iv_version := iv_version v + 1\<rparr> in (v', save_invoice v' d))"

definition append_history :: "status_history \<Rightarrow> db \<Rightarrow> db" where
  "append_history h d = d\<lparr>history := history d @ [h]\<rparr>"

definition entityManagerTransitionStore :: "db transition_store" where
  "entityManagerTransitionStore =
     \<lparr>saveInvoice = (\<lambda>invoice d.
        if iv_status invoice = CANCELLED \<and> settlement_in_progress d (iv_id invoice)
        then Inl (ServiceError ''SETTLEMENT_IN_PROGRESS'' 409)
        else let (v', d') = orm_save_invoice invoice d in Inr (Some v', d')),
      recordHistory = Some (\<lambda>entry d. Inr (append_history entry d))\<rparr>"

subsection \<open>Transitions\<close>

text \<open>\<open>t_ref\<close> is the identity of the transition object, which \<open>dispatch\<close> remembers.\<close>

record invoice_transition =
  t_ref :: nat
  t_invoice :: invoice
  t_from :: invoice_status
  t_to :: invoice_status
  t_actor :: transition_actor
  t_trigger :: string
  t_reason :: "string option"
  t_history :: "status_history option"
  t_occurredAt :: int

definition or_else :: "'a option \<Rightarrow> 'a option \<Rightarrow> 'a option" where
  "or_else a b = (case a of None \<Rightarrow> b | Some _ \<Rightarrow> a)"

text \<open>The entity as \<open>transition\<close> changes it before it is saved.\<close>

definition apply_status :: "invoice_status \<Rightarrow> string option \<Rightarrow> invoice \<Rightarrow> invoice" where
  "apply_status to reason invoice =
     (if to = REJECTED then invoice\<lparr>iv_status := to, iv_rejectionReason := reason\<rparr>
      else invoice\<lparr>iv_status := to\<rparr>)"

definition history_entry ::
    "invoice \<Rightarrow> invoice_status \<Rightarrow> transition_actor \<Rightarrow> string \<Rightarrow> string option \<Rightarrow> status_history" where
  "history_entry invoice to actor trigger reason =
     \<lparr>h_invoiceId = iv_id invoice, h_from = iv_status invoice, h_to = to, h_role = a_role actor,
      h_actorId = or_else (a_id actor) (a_wallet actor), h_trigger = trigger, h_reason = reason\<rparr>"

definition transition ::
    "'d transition_store \<Rightarrow> invoice \<Rightarrow> invoice_status \<Rightarrow> transition_actor \<Rightarrow> string \<Rightarrow>
     transition_context \<Rightarrow> int \<Rightarrow> nat \<Rightarrow> 'd \<Rightarrow> error + (invoice_transition \<times> 'd)" where
  "transition store invoice to actor trigger context now ref d =
     and_then (assertTransition invoice to actor context now) (\<lambda>_.
       let reason = trimmed_reason context;
           invoice' = apply_status to reason invoice;
           entry = history_entry invoice to actor trigger reason
       in and_then (saveInvoice store invoice' d) (\<lambda>(saved, d1).
          and_then (case recordHistory store of
                      None \<Rightarrow> Inr (None, d1)
                    | Some write \<Rightarrow> and_then (write entry d1) (\<lambda>d2. Inr (Some entry, d2))) (\<lambda>(hist, d2).
          Inr (\<lparr>t_ref = ref, t_invoice = (case saved of None \<Rightarrow> invoice' | Some s \<Rightarrow> s),
                t_from = iv_status invoice, t_to = to, t_actor = actor, t_trigger = trigger,
                t_reason = reason, t_history = hist, t_occurredAt = now\<rparr>, d2))))"

subsection \<open>Side effects\<close>

text \<open>An effect changes the outside world and may raise; a raise is logged with the
  effect's position.\<close>

type_synonym 'w effect = "invoice_transition \<Rightarrow> 'w \<Rightarrow> error option \<times> 'w"

fun run_effects :: "'w effect list \<Rightarrow> invoice_transition \<Rightarrow> 'w \<times> error list \<Rightarrow> 'w \<times> error list" where
  "run_effects [] t (w, warns) = (w, warns)"
| "run_effects (f # fs) t (w, warns) =
     (let (err, w') = f t w
      in run_effects fs t (w', case err of None \<Rightarrow> warns | Some e \<Rightarrow> warns @ [e]))"

record 'w machine =
  m_dispatched :: "nat set"
  m_world :: 'w
  m_warnings :: "error list"

definition dispatch :: "'w effect list \<Rightarrow> invoice_transition \<Rightarrow> 'w machine \<Rightarrow> 'w machine" where
  "dispatch effects t m =
     (if t_ref t \<in> m_dispatched m then m
      else let (w, warns) = run_effects effects t (m_world m, m_warnings m)
           in m\<lparr>m_dispatched := insert (t_ref t) (m_dispatched m), m_world := w, m_warnings := warns\<rparr>)"

definition transitionAndDispatch ::
    "'w effect list \<Rightarrow> 'd transition_store \<Rightarrow> invoice \<Rightarrow> invoice_status \<Rightarrow> transition_actor \<Rightarrow> string \<Rightarrow>
     transition_context \<Rightarrow> int \<Rightarrow> nat \<Rightarrow> 'd \<Rightarrow> 'w machine \<Rightarrow> error + (invoice_transition \<times> 'd \<times> 'w machine)" where
  "transitionAndDispatch effects store invoice to actor trigger context now ref d m =
     and_then (transition store invoice to actor trigger context now ref d) (\<lambda>(t, d').
       Inr (t, d', dispatch effects t m))"

datatype notification_type = NInvoice | NInvoiceRejected | NInvoiceFunded | NInvoiceSettled

text \<open>\<open>SELLER_MESSAGES\<close> and \<open>SELLER_NOTIFICATION_TYPES\<close>: title, message and type.\<close>

definition seller_message :: "invoice_status \<Rightarrow> invoice \<Rightarrow> string option \<Rightarrow> (string \<times> string) option" where
  "seller_message to invoice reason =
     (let n = iv_invoiceNumber invoice
      in case to of
        PENDING \<Rightarrow> Some (''Invoice Submitted for Review'',
          ''Your invoice '' @ n @ '' has been submitted and is awaiting review.'')
      | PUBLISHED \<Rightarrow> Some (''Invoice Published'',
          ''Your invoice '' @ n @ '' is now live on the marketplace.'')
      | REJECTED \<Rightarrow> Some (''Invoice Rejected'',
          ''Your invoice '' @ n @ '' has been rejected: '' @
            (case reason of None \<Rightarrow> ''no reason given'' | Some r \<Rightarrow> r))
      | FUNDED \<Rightarrow> Some (''Invoice Funded'', ''Your invoice '' @ n @ '' has been fully funded.'')
      | SETTLED \<Rightarrow> Some (''Invoice Settled'', ''Your invoice '' @ n @ '' has been settled.'')
      | CANCELLED \<Rightarrow> Some (''Invoice Cancelled'', ''Your invoice '' @ n @ '' has been cancelled.'')
      | FAILED \<Rightarrow> Some (''Invoice Failed'',
          ''Your invoice '' @ n @ '' reached maturity without being fully funded.'')
      | DRAFT \<Rightarrow> None)"

definition seller_notification_type :: "invoice_status \<Rightarrow> notification_type" where
  "seller_notification_type to =
     (case to of REJECTED \<Rightarrow> NInvoiceRejected | FUNDED \<Rightarrow> NInvoiceFunded
      | SETTLED \<Rightarrow> NInvoiceSettled | _ \<Rightarrow> NInvoice)"

record notification =
  n_userId :: string
  n_type :: notification_type
  n_title :: string
  n_message :: string

text \<open>\<open>createSellerNotificationEffect\<close>; the sink is an argument.\<close>

definition notifySeller :: "(notification \<Rightarrow> 'w \<Rightarrow> error option \<times> 'w) \<Rightarrow> 'w effect" where
  "notifySeller sink t w =
     (case seller_message (t_to t) (t_invoice t) (t_reason t) of
        None \<Rightarrow> (None, w)
      | Some (title, message) \<Rightarrow>
          sink \<lparr>n_userId = iv_sellerId (t_invoice t), n_type = seller_notification_type (t_to t),
                n_title = title, n_message = message\<rparr> w)"

definition invoiceCacheKeys :: "invoice \<Rightarrow> string list" where
  "invoiceCacheKeys invoice =
     [''invoice:'' @ iv_id invoice, ''seller:'' @ iv_sellerId invoice @ '':invoices'', ''marketplace:listings'']"

definition invalidateCaches :: "(string list \<Rightarrow> 'w \<Rightarrow> error option \<times> 'w) \<Rightarrow> 'w effect" where
  "invalidateCaches invalidate t w = invalidate (invoiceCacheKeys (t_invoice t)) w"

text \<open>\<open>createInvoiceStateMachine\<close>: audit log, cache, seller notification, then the extra
  effects.\<close>

definition machine_effects :: "'w effect \<Rightarrow> 'w effect option \<Rightarrow> 'w effect option \<Rightarrow> 'w effect list \<Rightarrow> 'w effect list" where
  "machine_effects audit cache notify extra =
     [audit] @ (case cache of None \<Rightarrow> [] | Some f \<Rightarrow> [f]) @
     (case notify of None \<Rightarrow> [] | Some f \<Rightarrow> [f]) @ extra"

subsection \<open>The contract of a store\<close>

text \<open>A store keeps the saved entity under its id, does not touch the trail when it saves,
  and appends exactly the entry it is given when it records.\<close>

locale status_store =
  fixes store :: "'d transition_store"
    and row_of :: "'d \<Rightarrow> string \<Rightarrow> invoice option"
    and trail_of :: "'d \<Rightarrow> status_history list"
  assumes save_keeps:
      "saveInvoice store v d = Inr (s, d') \<Longrightarrow>
         \<exists>v'. s = Some v' \<and> iv_id v' = iv_id v \<and> iv_status v' = iv_status v \<and>
              row_of d' = (row_of d)(iv_id v \<mapsto> v') \<and> trail_of d' = trail_of d"
    and record_keeps:
      "\<exists>f. recordHistory store = Some f \<and>
           (\<forall>h d d'. f h d = Inr d' \<longrightarrow> row_of d' = row_of d \<and> trail_of d' = trail_of d @ [h])"
begin

lemma commit_shape:
  assumes "transition store v to actor trigger context now ref d = Inr (t, d')"
  shows "\<exists>v'. iv_id v' = iv_id v \<and> iv_status v' = to \<and> row_of d' = (row_of d)(iv_id v \<mapsto> v') \<and>
     trail_of d' = trail_of d @ [history_entry v to actor trigger (trimmed_reason context)] \<and>
     assertTransition v to actor context now = Inr ()"
proof -
  obtain f where f: "recordHistory store = Some f"
    "\<And>h d d'. f h d = Inr d' \<Longrightarrow> row_of d' = row_of d \<and> trail_of d' = trail_of d @ [h]"
    using record_keeps by auto
  let ?v = "apply_status to (trimmed_reason context) v"
  have id: "iv_id ?v = iv_id v" "iv_status ?v = to" by (simp_all add: apply_status_def)
  obtain s d1 where s: "saveInvoice store ?v d = Inr (s, d1)"
    and h: "f (history_entry v to actor trigger (trimmed_reason context)) d1 = Inr d'"
    and a: "assertTransition v to actor context now = Inr ()"
    using assms f(1) by (auto simp: transition_def result_simps Let_def split: prod.splits)
  show ?thesis using save_keeps [OF s] f(2) [OF h] id a by auto
qed

end

interpretation em: status_store entityManagerTransitionStore invoices history
proof unfold_locales
  fix v d s d'
  assume "saveInvoice entityManagerTransitionStore v d = Inr (s, d')"
  then show "\<exists>v'. s = Some v' \<and> iv_id v' = iv_id v \<and> iv_status v' = iv_status v \<and>
      invoices d' = (invoices d)(iv_id v \<mapsto> v') \<and> history d' = history d"
    by (auto simp: entityManagerTransitionStore_def orm_save_invoice_def Let_def frame_simps
        split: if_splits)
qed (auto simp: entityManagerTransitionStore_def append_history_def)

subsection \<open>Requests\<close>

text \<open>What a caller does: load the invoice, run the transition inside a transaction, keep
  the database of a transition that succeeded.\<close>

record request =
  q_id :: string
  q_to :: invoice_status
  q_actor :: transition_actor
  q_trigger :: string
  q_context :: transition_context
  q_now :: int

definition request_step :: "db \<Rightarrow> request \<Rightarrow> db" where
  "request_step d q =
     (case invoices d (q_id q) of
        None \<Rightarrow> d
      | Some v \<Rightarrow>
          (case transition entityManagerTransitionStore v (q_to q) (q_actor q) (q_trigger q)
                  (q_context q) (q_now q) 0 d of
             Inl e \<Rightarrow> d
           | Inr (t, d') \<Rightarrow> d'))"

text \<open>The status a list of history entries leads to, when they form a path of the rule
  table.\<close>

fun follow :: "invoice_status \<Rightarrow> status_history list \<Rightarrow> invoice_status option" where
  "follow s [] = Some s"
| "follow s (h # hs) =
     (if h_from h = s \<and> findRule s (h_to h) \<noteq> None then follow (h_to h) hs else None)"

definition entries_of :: "string \<Rightarrow> db \<Rightarrow> status_history list" where
  "entries_of i d = filter (\<lambda>h. h_invoiceId h = i) (history d)"

definition trail_ok :: "db \<Rightarrow> bool" where
  "trail_ok d \<longleftrightarrow> (\<forall>i v. invoices d i = Some v \<longrightarrow>
     iv_id v = i \<and> follow DRAFT (entries_of i d) = Some (iv_status v))"

lemma follow_append: "follow s (hs @ [h]) =
   (case follow s hs of None \<Rightarrow> None | Some s' \<Rightarrow> follow s' [h])"
  by (induction hs arbitrary: s) auto

lemma assert_needs_rule:
  "assertTransition v to actor context now = Inr () \<Longrightarrow> \<exists>r. findRule (iv_status v) to = Some r"
  by (auto simp: assertTransition_def split: option.splits)

lemma request_cases:
  obtains "request_step d q = d"
  | v v' where "invoices d (q_id q) = Some v" "findRule (iv_status v) (q_to q) \<noteq> None"
      "iv_id v' = iv_id v" "iv_status v' = q_to q"
      "invoices (request_step d q) = (invoices d)(iv_id v \<mapsto> v')"
      "history (request_step d q) = history d @
         [history_entry v (q_to q) (q_actor q) (q_trigger q) (trimmed_reason (q_context q))]"
proof (cases "invoices d (q_id q)")
  case None
  then show ?thesis using that(1) by (simp add: request_step_def)
next
  case (Some v)
  note v = Some
  show ?thesis
  proof (cases "transition entityManagerTransitionStore v (q_to q) (q_actor q) (q_trigger q)
                  (q_context q) (q_now q) 0 d")
    case (Inl e)
    then show ?thesis using that(1) v by (simp add: request_step_def)
  next
    case (Inr p)
    then obtain t d' where t: "transition entityManagerTransitionStore v (q_to q) (q_actor q)
        (q_trigger q) (q_context q) (q_now q) 0 d = Inr (t, d')" by (cases p) auto
    then have "request_step d q = d'" using v by (simp add: request_step_def)
    then show ?thesis
      using em.commit_shape [OF t] assert_needs_rule [of v "q_to q"] v that(2) [of v] by fastforce
  qed
qed

lemma trail_step: "trail_ok d \<Longrightarrow> trail_ok (request_step d q)"
proof (cases rule: request_cases [of d q])
  case (2 v v')
  assume ok: "trail_ok d"
  have id: "iv_id v = q_id q" using ok 2(1) by (auto simp: trail_ok_def)
  show ?thesis unfolding trail_ok_def
  proof (intro allI impI)
    fix i w
    assume w: "invoices (request_step d q) i = Some w"
    show "iv_id w = i \<and> follow DRAFT (entries_of i (request_step d q)) = Some (iv_status w)"
    proof (cases "i = q_id q")
      case True
      have "follow DRAFT (entries_of i d) = Some (iv_status v)"
        using ok 2(1) True by (auto simp: trail_ok_def)
      then show ?thesis using 2 w True id
        by (auto simp: entries_of_def follow_append history_entry_def)
    next
      case False
      then show ?thesis using 2 w id ok
        by (auto simp: entries_of_def history_entry_def trail_ok_def)
    qed
  qed
qed simp

interpretation trail: step_invariant request_step trail_ok
  by unfold_locales (rule trail_step)

subsection \<open>The lifecycle ends\<close>

text \<open>Every rule moves an invoice to a status of higher rank, so a path has at most four
  steps.\<close>

fun rank :: "invoice_status \<Rightarrow> nat" where
  "rank DRAFT = 0" | "rank PENDING = 1" | "rank PUBLISHED = 2" | "rank FUNDED = 3"
| "rank SETTLED = 4" | "rank CANCELLED = 4" | "rank REJECTED = 4" | "rank FAILED = 4"

lemmas rule_table = TRANSITION_RULES_def mk_rule_def

lemma find_rule_iff: "findRule s t \<noteq> None \<longleftrightarrow> (\<exists>r \<in> set TRANSITION_RULES. r_from r = s \<and> r_to r = t)"
  by (auto simp: findRule_def find_None_iff)

lemma rule_raises_rank: "findRule s t \<noteq> None \<Longrightarrow> rank s < rank t"
  unfolding find_rule_iff by (auto simp: rule_table)

lemma follow_rank: "follow s hs = Some t \<Longrightarrow> rank s + length hs \<le> rank t"
proof (induction hs arbitrary: s)
  case (Cons h hs)
  then show ?case using rule_raises_rank [of s "h_to h"] by (fastforce split: if_splits)
qed simp

lemma rank_le: "rank s \<le> 4"
  by (cases s) auto

lemma terminal_iff: "isTerminalStatus s \<longleftrightarrow> s \<in> {SETTLED, CANCELLED, REJECTED, FAILED}"
  by (cases s) (simp_all add: isTerminalStatus_def allowedTransitionsFrom_def rule_table)

lemma no_rule_from_terminal: "isTerminalStatus s \<Longrightarrow> findRule s t = None"
  by (auto simp: isTerminalStatus_def allowedTransitionsFrom_def filter_empty_conv findRule_def find_None_iff)

definition status_at :: "db \<Rightarrow> string \<Rightarrow> invoice_status option" where
  "status_at d i = map_option iv_status (invoices d i)"

definition keyed :: "db \<Rightarrow> bool" where
  "keyed d \<longleftrightarrow> (\<forall>i v. invoices d i = Some v \<longrightarrow> iv_id v = i)"

lemma trail_keyed: "trail_ok d \<Longrightarrow> keyed d"
  by (auto simp: trail_ok_def keyed_def)

lemma status_step:
  assumes "keyed d"
  shows "keyed (request_step d q) \<and>
     (\<forall>s. status_at d i = Some s \<longrightarrow>
        status_at (request_step d q) i = Some s \<or>
        (q_id q = i \<and> status_at (request_step d q) i = Some (q_to q) \<and> findRule s (q_to q) \<noteq> None))"
proof (cases rule: request_cases [of d q])
  case (2 v v')
  then have "iv_id v = q_id q" using assms by (auto simp: keyed_def)
  then show ?thesis using 2 assms by (auto simp: keyed_def status_at_def)
qed (use assms in auto)

lemma terminal_stays:
  assumes "keyed d" "status_at d i = Some s" "isTerminalStatus s"
  shows "status_at (foldl request_step d qs) i = Some s"
  using assms
proof (induction qs arbitrary: d)
  case (Cons q qs)
  then show ?case using status_step [OF Cons.prems(1), of q i] no_rule_from_terminal [of s "q_to q"]
    by auto
qed simp

lemma transition_effect:
  assumes "transition entityManagerTransitionStore v to actor trigger context now ref d = Inr (t, d')"
  shows "\<exists>r \<in> set TRANSITION_RULES. r_from r = iv_status v \<and> r_to r = to \<and> a_role actor \<in> set (r_roles r) \<and>
       guard_holds (r_guard r) v context now"
    and "a_role actor = Seller \<longrightarrow> a_id actor = Some (iv_sellerId v)"
    and "d' = d\<lparr>invoices := (invoices d)(iv_id v \<mapsto> t_invoice t),
               history := history d @ [history_entry v to actor trigger (trimmed_reason context)]\<rparr>"
    and "t_invoice t = (apply_status to (trimmed_reason context) v)\<lparr>iv_version := iv_version v + 1\<rparr>"
    and "t_from t = iv_status v \<and> t_to t = to"
    and "to = CANCELLED \<longrightarrow> \<not> settlement_in_progress d (iv_id v)"
proof -
  have a: "assertTransition v to actor context now = Inr ()"
    using assms by (auto simp: transition_def result_simps)
  then obtain r where "findRule (iv_status v) to = Some r" "a_role actor \<in> set (r_roles r)"
    "guard_holds (r_guard r) v context now" and own: "a_role actor = Seller \<longrightarrow> a_id actor = Some (iv_sellerId v)"
    by (auto simp: assertTransition_def Let_def split: option.splits if_splits)
  then show "\<exists>r \<in> set TRANSITION_RULES. r_from r = iv_status v \<and> r_to r = to \<and>
      a_role actor \<in> set (r_roles r) \<and> guard_holds (r_guard r) v context now"
    by (auto simp: findRule_def find_Some_iff)
  show "a_role actor = Seller \<longrightarrow> a_id actor = Some (iv_sellerId v)" by (rule own)
  show "d' = d\<lparr>invoices := (invoices d)(iv_id v \<mapsto> t_invoice t),
         history := history d @ [history_entry v to actor trigger (trimmed_reason context)]\<rparr>"
    "t_invoice t = (apply_status to (trimmed_reason context) v)\<lparr>iv_version := iv_version v + 1\<rparr>"
    "t_from t = iv_status v \<and> t_to t = to"
    "to = CANCELLED \<longrightarrow> \<not> settlement_in_progress d (iv_id v)"
    using assms a
    by (auto simp: transition_def entityManagerTransitionStore_def orm_save_invoice_def append_history_def
        save_invoice_def apply_status_def Let_def result_simps split: if_splits)
qed

subsection \<open>Properties\<close>

definition fresh_db :: "invoice list \<Rightarrow> db" where
  "fresh_db vs = \<lparr>invoices = map_of (map (\<lambda>v. (iv_id v, v)) vs), deleted_invoices = [], investments = [], users = Map.empty,
     intents = [], history = [], returns = [], remainders = [], payments = [], listings = [],
     acknowledgements = []\<rparr>"

text \<open>C10: a successful transition follows an edge of the rule table for a role the edge
  allows, by the owner when the actor is a seller, and with its precondition met; it changes
  exactly the invoice's row (status, the rejection reason of a rejection, the version) and
  appends exactly one history row naming the step; no other table and no other invoice
  changes.\<close>

theorem transition_commits_one_step:
  assumes "transition entityManagerTransitionStore v to actor trigger context now ref d = Inr (t, d')"
  shows "(\<exists>r \<in> set TRANSITION_RULES. r_from r = iv_status v \<and> r_to r = to \<and> a_role actor \<in> set (r_roles r) \<and>
       guard_holds (r_guard r) v context now) \<and>
     (a_role actor = Seller \<longrightarrow> a_id actor = Some (iv_sellerId v)) \<and>
     d' = d\<lparr>invoices := (invoices d)(iv_id v \<mapsto> t_invoice t),
            history := history d @ [history_entry v to actor trigger (trimmed_reason context)]\<rparr> \<and>
     t_invoice t = (apply_status to (trimmed_reason context) v)\<lparr>iv_version := iv_version v + 1\<rparr> \<and>
     (to = CANCELLED \<longrightarrow> \<not> settlement_in_progress d (iv_id v))"
  using transition_effect [OF assms] by blast

definition admin_actor :: transition_actor where
  "admin_actor = \<lparr>a_role = Admin, a_id = Some ''adm'', a_wallet = None\<rparr>"

definition system_actor :: transition_actor where
  "system_actor = \<lparr>a_role = System, a_id = None, a_wallet = None\<rparr>"

definition with_reason :: transition_context where
  "with_reason = empty_context\<lparr>x_reason := Some ''fraud''\<rparr>"

lemma reason_fraud: "trimmed_reason with_reason = Some ''fraud''"
  by (simp add: trimmed_reason_def with_reason_def empty_context_def js_trim_def is_ws_def)

definition rejected_sample :: "invoice_transition \<times> db" where
  "rejected_sample = projr (transition entityManagerTransitionStore sample_invoice REJECTED admin_actor
     ''invoice_rejected'' with_reason 5 0 (fresh_db [sample_invoice]))"

lemma sample_rejectable: "assertTransition sample_invoice REJECTED admin_actor with_reason 5 = Inr ()"
  by (simp add: assertTransition_def findRule_def rule_table sample_invoice_def admin_actor_def
      guard_holds_def reason_fraud Let_def)

lemma store_saves: "to \<noteq> CANCELLED \<Longrightarrow> assertTransition v to actor context now = Inr () \<Longrightarrow>
   \<exists>p. transition entityManagerTransitionStore v to actor trigger context now ref d = Inr p"
  by (simp add: transition_def entityManagerTransitionStore_def orm_save_invoice_def Let_def
      apply_status_def)

lemma rejected_sample_ok:
  "transition entityManagerTransitionStore sample_invoice REJECTED admin_actor ''invoice_rejected''
     with_reason 5 0 (fresh_db [sample_invoice]) = Inr rejected_sample"
  using store_saves [OF _ sample_rejectable, of "''invoice_rejected''" 0 "fresh_db [sample_invoice]"]
  by (auto simp: rejected_sample_def)

theorem transition_commits_one_step_witness:
  "history (snd rejected_sample) =
     [history_entry sample_invoice REJECTED admin_actor ''invoice_rejected'' (Some ''fraud'')] \<and>
   iv_rejectionReason (t_invoice (fst rejected_sample)) = Some ''fraud''"
proof -
  have "transition entityManagerTransitionStore sample_invoice REJECTED admin_actor ''invoice_rejected''
     with_reason 5 0 (fresh_db [sample_invoice]) = Inr (fst rejected_sample, snd rejected_sample)"
    by (simp add: rejected_sample_ok)
  from transition_commits_one_step [OF this] show ?thesis
    by (auto simp: fresh_db_def reason_fraud apply_status_def)
qed

lemma fresh_trail_ok:
  "\<forall>v \<in> set vs. iv_status v = DRAFT \<Longrightarrow> trail_ok (fresh_db vs)"
  by (auto simp: trail_ok_def fresh_db_def entries_of_def dest!: map_of_SomeD)


definition reject_request :: request where
  "reject_request = \<lparr>q_id = ''i1'', q_to = REJECTED, q_actor = admin_actor, q_trigger = ''invoice_rejected'',
     q_context = with_reason, q_now = 5\<rparr>"

lemma reject_request_step:
  "invoices (request_step (fresh_db [sample_invoice]) reject_request) ''i1'' = Some (t_invoice (fst rejected_sample)) \<and>
   iv_status (t_invoice (fst rejected_sample)) = REJECTED"
proof -
  have f: "invoices (fresh_db [sample_invoice]) ''i1'' = Some sample_invoice" "iv_id sample_invoice = ''i1''"
    by (simp_all add: fresh_db_def sample_invoice_def)
  have t: "transition entityManagerTransitionStore sample_invoice REJECTED admin_actor ''invoice_rejected''
     with_reason 5 0 (fresh_db [sample_invoice]) = Inr (fst rejected_sample, snd rejected_sample)"
    by (simp add: rejected_sample_ok)
  have "request_step (fresh_db [sample_invoice]) reject_request = snd rejected_sample"
    using f t by (simp add: request_step_def reject_request_def case_prod_beta)
  then show ?thesis using transition_effect(3,4) [OF t] f(2) by (simp add: apply_status_def)
qed


subsection \<open>Settlement blocks cancelling\<close>

lemma request_keeps_intents: "intents (request_step d q) = intents d"
proof (cases "invoices d (q_id q)")
  case (Some v)
  then show ?thesis
    using transition_effect(3) [of v "q_to q" "q_actor q" "q_trigger q" "q_context q" "q_now q" 0 d]
    by (auto simp: request_step_def split: sum.splits prod.splits)
qed (simp add: request_step_def)

lemma cancel_blocked_step:
  assumes "keyed d" "settlement_in_progress d i" "status_at d i \<noteq> Some CANCELLED"
  shows "status_at (request_step d q) i \<noteq> Some CANCELLED"
proof (cases "invoices d (q_id q)")
  case (Some v)
  have id: "iv_id v = q_id q" using assms(1) Some by (auto simp: keyed_def)
  show ?thesis
  proof (cases "transition entityManagerTransitionStore v (q_to q) (q_actor q) (q_trigger q)
                  (q_context q) (q_now q) 0 d")
    case (Inl e)
    then show ?thesis using assms(3) Some by (simp add: request_step_def)
  next
    case (Inr p)
    then obtain t d' where "transition entityManagerTransitionStore v (q_to q) (q_actor q)
        (q_trigger q) (q_context q) (q_now q) 0 d = Inr (t, d')" by (cases p) auto
    from transition_effect(3,4,6) [OF this] this show ?thesis using assms(2,3) Some id
      by (auto simp: request_step_def status_at_def apply_status_def)
  qed
qed (use assms in \<open>simp add: request_step_def\<close>)

lemma cancel_blocked_run:
  assumes "keyed d" "settlement_in_progress d i" "status_at d i \<noteq> Some CANCELLED"
  shows "status_at (foldl request_step d qs) i \<noteq> Some CANCELLED"
  using assms
proof (induction qs arbitrary: d)
  case (Cons q qs)
  have "keyed (request_step d q)" using status_step [OF Cons.prems(1)] by blast
  moreover have "settlement_in_progress (request_step d q) i"
    using Cons.prems(2) by (simp add: settlement_in_progress_def request_keeps_intents)
  ultimately show ?case using Cons.IH cancel_blocked_step [OF Cons.prems] by simp
qed simp


definition cancel_request :: request where
  "cancel_request = \<lparr>q_id = ''i1'', q_to = CANCELLED, q_actor = admin_actor, q_trigger = ''invoice_cancelled'',
     q_context = empty_context, q_now = 5\<rparr>"

definition sample_payload :: intent_payload where
  "sample_payload = \<lparr>ip_proceeds = 0, ip_actorWallet = '''', ip_sellerId = None, ip_trigger = '''',
     ip_feeRecipient = '''', ip_feeBps = 0, ip_investments = []\<rparr>"

definition settling_db :: db where
  "settling_db = (fresh_db [sample_invoice\<lparr>iv_status := FUNDED\<rparr>])
     \<lparr>intents := [\<lparr>in_id = ''n'', in_invoiceId = ''i1'', in_status = SUBMITTING,
                   in_payload = sample_payload, in_transactionHash = None\<rparr>]\<rparr>"


subsection \<open>Dispatch\<close>

text \<open>The first occurrence of each transition in a list of dispatch calls.\<close>

fun first_calls :: "nat set \<Rightarrow> invoice_transition list \<Rightarrow> invoice_transition list" where
  "first_calls seen [] = []"
| "first_calls seen (t # ts) =
     (if t_ref t \<in> seen then first_calls seen ts else t # first_calls (insert (t_ref t) seen) ts)"

definition all_effects :: "'w effect list \<Rightarrow> 'w \<Rightarrow> invoice_transition \<Rightarrow> 'w" where
  "all_effects effects w t = foldl (\<lambda>w f. snd (f t w)) w effects"

definition raised :: "'w effect list \<Rightarrow> 'w \<Rightarrow> invoice_transition \<Rightarrow> nat" where
  "raised effects w t =
     length (filter (\<lambda>k. fst ((effects ! k) t (all_effects (take k effects) w t)) \<noteq> None) [0..<length effects])"

lemma run_effects_world: "fst (run_effects fs t (w, ws)) = all_effects fs w t"
  by (induction fs arbitrary: w ws) (auto simp: all_effects_def split: prod.splits)

lemma run_effects_warnings: "length (snd (run_effects fs t (w, ws))) = length ws + raised fs w t"
proof (induction fs arbitrary: w ws)
  case (Cons f fs)
  obtain e w' where f: "f t w = (e, w')" by force
  have "[0..<length (f # fs)] = 0 # map Suc [0..<length fs]" by (simp add: upt_conv_Cons map_Suc_upt del: upt_Suc)
  then have "raised (f # fs) w t = (if e = None then 0 else 1) + raised fs w' t"
    using f by (simp add: raised_def all_effects_def filter_map o_def)
  then show ?case using Cons.IH [of w'] f by (simp split: option.splits)
qed (simp add: raised_def)

lemma dispatch_calls:
  "m_world (foldl (\<lambda>m t. dispatch fs t m) m ts) =
     foldl (all_effects fs) (m_world m) (first_calls (m_dispatched m) ts)"
proof (induction ts arbitrary: m)
  case (Cons t ts)
  show ?case
  proof (cases "t_ref t \<in> m_dispatched m")
    case False
    then show ?thesis using Cons.IH [of "dispatch fs t m"] run_effects_world [of fs t "m_world m" "m_warnings m"]
      by (auto simp: dispatch_def Let_def split: prod.splits)
  next
    case True
    then have "dispatch fs t m = m" by (simp add: dispatch_def)
    then show ?thesis using Cons.IH [of m] True by simp
  qed
qed simp

text \<open>However often \<open>dispatch\<close> is called with however many transitions, the outside world
  sees every effect of every transition exactly once, in order, also when effects raise; and
  a first dispatch logs one warning per effect that raised.\<close>

theorem dispatch_runs_effects_exactly_once:
  "m_world (foldl (\<lambda>m t. dispatch fs t m) \<lparr>m_dispatched = {}, m_world = w, m_warnings = []\<rparr> ts) =
     foldl (all_effects fs) w (first_calls {} ts) \<and>
   length (m_warnings (dispatch fs t \<lparr>m_dispatched = {}, m_world = w, m_warnings = ws\<rparr>)) = length ws + raised fs w t"
  using dispatch_calls [of fs "\<lparr>m_dispatched = {}, m_world = w, m_warnings = []\<rparr>" ts]
    run_effects_warnings [of fs t w ws]
  by (auto simp: dispatch_def Let_def split: prod.splits)

end
