(* ===== verification/Invoice_Model.thy ===== *)
theory Invoice_Model
  imports Invoice_Machine
begin

section \<open>The invoice entity\<close>

text \<open>
  The rules of \<open>src/models/Invoice.model.ts\<close> and \<open>src/utils/invoice-state.utils.ts\<close>: the
  net amount, normalisation before a save, the entity's own transition table and its
  predicates. A draft holds the fields as a caller passes them: a field may be missing
  (\<open>None\<close>), a text field may also be \<open>null\<close> (\<open>Some None\<close>), an amount is the value its text
  denotes; a net amount is kept in ten-thousandths, so \<open>Some 0\<close> is the text \<open>0.0000\<close>.
\<close>

record draft =
  df_invoiceNumber :: "string option"
  df_customerName :: "string option"
  df_ipfsHash :: "string option option"
  df_smartContractId :: "string option option"
  df_rejectionReason :: "string option option"
  df_amount :: "num_input option"
  df_discountRate :: "num_input option"
  df_netAmount :: "amt option"

definition calculateNetAmount :: "decimal_lib \<Rightarrow> num_input \<Rightarrow> num_input \<Rightarrow> amt result" where
  "calculateNetAmount D amount discountRate =
     (case (amount, discountRate) of
        (Num am, Num disc) \<Rightarrow>
          if am < 0 \<or> disc < 0 \<or> disc > 100
          then Inl (ServiceError ''INVALID_AMOUNT_OR_DISCOUNT'' 400)
          else let net = dminus D am (dtimes D am (ddiv D disc 100))
               in Inr (toFixed4 D net)
      | _ \<Rightarrow> Inl (ServiceError ''INVALID_AMOUNT_OR_DISCOUNT'' 400))"

definition sanitizeString :: "string option \<Rightarrow> nat option \<Rightarrow> string option" where
  "sanitizeString value maxLength =
     (case value of
        None \<Rightarrow> None
      | Some v \<Rightarrow>
          let trimmed = js_trim v
          in if length trimmed > 0
             then Some (case maxLength of None \<Rightarrow> trimmed | Some n \<Rightarrow> take n trimmed) else None)"

definition sanitizeAndNormalize :: "decimal_lib \<Rightarrow> draft \<Rightarrow> draft" where
  "sanitizeAndNormalize D v =
     (let keep = (\<lambda>x n. case x of None \<Rightarrow> None
                  | Some s \<Rightarrow> (case sanitizeString (Some s) (Some n) of None \<Rightarrow> Some s | Some t \<Rightarrow> Some t));
          v1 = v\<lparr>df_invoiceNumber := keep (df_invoiceNumber v) 64,
                 df_customerName := keep (df_customerName v) 255,
                 df_ipfsHash := map_option (\<lambda>x. sanitizeString x (Some 128)) (df_ipfsHash v),
                 df_smartContractId := map_option (\<lambda>x. sanitizeString x (Some 64)) (df_smartContractId v),
                 df_rejectionReason := map_option (\<lambda>x. sanitizeString x None) (df_rejectionReason v)\<rparr>
      in case (df_amount v1, df_discountRate v1) of
           (Some am, Some disc) \<Rightarrow>
             if df_netAmount v1 \<in> {None, Some 0} \<and> am \<noteq> Malformed \<and> disc \<noteq> Malformed
             then (case calculateNetAmount D am disc of
                     Inl e \<Rightarrow> v1
                   | Inr net \<Rightarrow> v1\<lparr>df_netAmount := Some net\<rparr>)
             else v1
         | _ \<Rightarrow> v1)"

definition format_number :: "decimal_lib \<Rightarrow> nat \<Rightarrow> (decimal \<Rightarrow> bool) \<Rightarrow> error \<Rightarrow> num_input option \<Rightarrow> num_input option result" where
  "format_number D places bad err x =
     (case x of
        None \<Rightarrow> Inr None
      | Some Malformed \<Rightarrow> Inl (ServiceError ''CALCULATION_FAILED'' 500)
      | Some (Num n) \<Rightarrow> if bad n then Inl err else Inr (Some (Num (fixd D places n)))
      | Some _ \<Rightarrow> Inl err)"

text \<open>The hook that runs before every insert and update.\<close>

definition calculateAndFormatAmounts :: "decimal_lib \<Rightarrow> draft \<Rightarrow> draft result" where
  "calculateAndFormatAmounts D v =
     and_then (format_number D 4 (\<lambda>n. n < 0) (ServiceError ''INVALID_AMOUNT'' 400) (df_amount v)) (\<lambda>am.
     and_then (format_number D 2 (\<lambda>n. n < 0 \<or> n > 100) (ServiceError ''INVALID_DISCOUNT_RATE'' 400)
                 (df_discountRate v)) (\<lambda>disc.
       let v' = v\<lparr>df_customerName := map_option js_trim (df_customerName v), df_amount := am, df_discountRate := disc\<rparr>
       in case (am, disc) of
            (Some a, Some r) \<Rightarrow>
              and_then (calculateNetAmount D a r) (\<lambda>net. Inr (v'\<lparr>df_netAmount := Some net\<rparr>))
          | _ \<Rightarrow> Inr v'))"

definition processBatch :: "decimal_lib \<Rightarrow> draft list \<Rightarrow> draft list result" where
  "processBatch D vs = map_result (calculateAndFormatAmounts D) vs"

subsection \<open>Transition tables\<close>

fun VALID_INVOICE_TRANSITIONS :: "invoice_status \<Rightarrow> invoice_status list" where
  "VALID_INVOICE_TRANSITIONS DRAFT = [PUBLISHED, CANCELLED, REJECTED]"
| "VALID_INVOICE_TRANSITIONS PENDING = [PUBLISHED, CANCELLED, REJECTED]"
| "VALID_INVOICE_TRANSITIONS PUBLISHED = [FUNDED, CANCELLED, FAILED]"
| "VALID_INVOICE_TRANSITIONS FUNDED = [SETTLED, CANCELLED]"
| "VALID_INVOICE_TRANSITIONS SETTLED = [CANCELLED]"
| "VALID_INVOICE_TRANSITIONS CANCELLED = []"
| "VALID_INVOICE_TRANSITIONS REJECTED = []"
| "VALID_INVOICE_TRANSITIONS FAILED = []"

text \<open>A missing status counts as \<open>draft\<close>.\<close>

definition isValidTransition :: "invoice_status option \<Rightarrow> invoice_status \<Rightarrow> bool" where
  "isValidTransition currentStatus targetStatus =
     (targetStatus \<in> set (VALID_INVOICE_TRANSITIONS (case currentStatus of None \<Rightarrow> DRAFT | Some s \<Rightarrow> s)))"

fun util_transitions :: "invoice_status \<Rightarrow> invoice_status list" where
  "util_transitions DRAFT = [PUBLISHED, CANCELLED]"
| "util_transitions PENDING = [PUBLISHED, CANCELLED, REJECTED]"
| "util_transitions PUBLISHED = [FUNDED, CANCELLED, FAILED]"
| "util_transitions FUNDED = [SETTLED, CANCELLED]"
| "util_transitions SETTLED = [CANCELLED]"
| "util_transitions CANCELLED = []"
| "util_transitions REJECTED = []"
| "util_transitions FAILED = []"

definition isValidInvoiceStateTransition :: "invoice_status \<Rightarrow> invoice_status \<Rightarrow> bool" where
  "isValidInvoiceStateTransition currentStatus targetStatus = (targetStatus \<in> set (util_transitions currentStatus))"

definition transitionTo :: "invoice \<Rightarrow> invoice_status \<Rightarrow> string option \<Rightarrow> invoice result" where
  "transitionTo v targetStatus rejectionReason =
     (if \<not> isValidTransition (Some (iv_status v)) targetStatus
      then Inl (ServiceError ''INVALID_STATUS_TRANSITION'' 400)
      else let v' = v\<lparr>iv_status := targetStatus\<rparr>
           in Inr (if targetStatus = REJECTED \<and> truthy rejectionReason
                   then v'\<lparr>iv_rejectionReason := map_option js_trim rejectionReason\<rparr> else v'))"

text \<open>The batch stops at the first error; entities before it stay changed.\<close>

fun batchUpdateStatus :: "invoice list \<Rightarrow> invoice_status \<Rightarrow> string option \<Rightarrow> invoice list \<times> error option" where
  "batchUpdateStatus [] to reason = ([], None)"
| "batchUpdateStatus (v # vs) to reason =
     (case transitionTo v to reason of
        Inl e \<Rightarrow> (v # vs, Some e)
      | Inr v' \<Rightarrow> let (vs', err) = batchUpdateStatus vs to reason in (v' # vs', err))"

subsection \<open>Predicates\<close>

datatype publish_problem =
  BadStatus invoice_status | AmountNotPositive | NoCustomerName | BadDueDate | TooSoon int | NoDocument

definition isPublishable :: "invoice \<Rightarrow> int \<Rightarrow> int \<Rightarrow> bool \<times> publish_problem list" where
  "isPublishable v now minRunwayHours =
     (let errors =
        (if iv_status v \<noteq> DRAFT \<and> iv_status v \<noteq> PENDING then [BadStatus (iv_status v)] else []) @
        (if dec (iv_amount v) \<le> 0 then [AmountNotPositive] else []) @
        (if js_trim (iv_customerName v) = [] then [NoCustomerName] else []) @
        (case date_value (iv_dueDate v) of
           None \<Rightarrow> [BadDueDate]
         | Some dueTime \<Rightarrow>
             if dueTime < now + minRunwayHours * 60 * 60 * 1000 then [TooSoon minRunwayHours] else []) @
        (case iv_ipfsHash v of None \<Rightarrow> [NoDocument] | Some h \<Rightarrow> if js_trim h = [] then [NoDocument] else [])
      in (length errors = 0, errors))"

definition isOverdue :: "invoice \<Rightarrow> int \<Rightarrow> bool" where
  "isOverdue v referenceDate = isPastDueDate (iv_dueDate v) referenceDate"

definition getFundingRunwayHours :: "invoice \<Rightarrow> int \<Rightarrow> int" where
  "getFundingRunwayHours v referenceDate =
     (case date_value (iv_dueDate v) of
        None \<Rightarrow> 0
      | Some dueTime \<Rightarrow> max 0 ((dueTime - referenceDate) div (1000 * 60 * 60)))"

definition isPublishable_entity :: "invoice \<Rightarrow> int \<Rightarrow> bool" where
  "isPublishable_entity v now \<longleftrightarrow>
     (iv_status v = DRAFT \<or> iv_status v = PENDING) \<and> \<not> isOverdue v now \<and>
     (case iv_ipfsHash v of None \<Rightarrow> False | Some h \<Rightarrow> length (js_trim h) > 0)"

definition canBeCancelled :: "invoice \<Rightarrow> bool" where
  "canBeCancelled v \<longleftrightarrow> iv_status v \<in> {DRAFT, PENDING, PUBLISHED, FUNDED, SETTLED}"

definition canBeRejected :: "invoice \<Rightarrow> bool" where
  "canBeRejected v \<longleftrightarrow> iv_status v \<in> {DRAFT, PENDING}"

definition isFundable :: "invoice \<Rightarrow> int \<Rightarrow> bool" where
  "isFundable v now \<longleftrightarrow> iv_status v = PUBLISHED \<and> \<not> isOverdue v now"

definition isSettlable :: "invoice \<Rightarrow> bool" where
  "isSettlable v \<longleftrightarrow> iv_status v = FUNDED"

definition validateForPublish :: "invoice \<Rightarrow> int \<Rightarrow> unit result" where
  "validateForPublish v now =
     (if (case iv_ipfsHash v of None \<Rightarrow> True | Some h \<Rightarrow> js_trim h = [])
      then Inl (ServiceError ''MISSING_IPFS_HASH'' 400)
      else if isOverdue v now then Inl (ServiceError ''INVOICE_OVERDUE'' 400)
      else Inr ())"

subsection \<open>Properties\<close>

lemma fixd_bounds:
  assumes "decimal_ok D" "0 \<le> x"
  shows "0 \<le> fixd D n x" and "x \<le> of_nat k \<Longrightarrow> fixd D n x \<le> of_nat k"
proof -
  have int: "decimals_at_most n (of_nat m)" for m by (simp add: decimals_at_most_def)
  have z: "fixd D n (of_nat m) = of_nat m" for m by (rule decimal_ok_fixd [OF assms(1) int])
  show "0 \<le> fixd D n x" using decimal_ok_fixd_mono [OF assms, of n] z [of 0] by simp
  show "x \<le> of_nat k \<Longrightarrow> fixd D n x \<le> of_nat k" using decimal_ok_fixd_mono [OF assms(1)] z by metis
qed

lemma fixd_idem: "decimal_ok D \<Longrightarrow> fixd D n (fixd D n x) = fixd D n x"
  by (simp add: decimal_ok_def)

lemma net_bounds:
  assumes "decimal_ok D" "amt_ok a" "0 \<le> a" "0 \<le> r" "r \<le> 100"
    and "calculateNetAmount D (Num (dec a)) (Num r) = Inr net"
  shows "0 \<le> net \<and> net \<le> a"
proof -
  have one: "amt_ok 10000" "dec 10000 = 1" by (simp_all add: amt_ok_def dec_def)
  let ?share = "ddiv D r 100" and ?cut = "dtimes D (dec a) (ddiv D r 100)"
  have share: "0 \<le> ?share" "?share \<le> 1"
    using sig_nonneg [OF assms(1), of "r / 100"] sig_le_dec [OF assms(1) one(1), of "r / 100"] assms(4,5) one
    by (simp_all add: ddiv_def)
  have "0 \<le> dec a * ?share" "dec a * ?share \<le> dec a"
    using share assms(3) by (auto intro: mult_left_le)
  then have cut: "0 \<le> ?cut" "?cut \<le> dec a"
    using sig_nonneg [OF assms(1)] sig_le_dec [OF assms(1,2)] by (simp_all add: dtimes_def)
  have "0 \<le> dminus D (dec a) ?cut" "dminus D (dec a) ?cut \<le> dec a"
    using cut sig_nonneg [OF assms(1), of "dec a - ?cut"] sig_le_dec [OF assms(1,2), of "dec a - ?cut"]
    by (simp_all add: dminus_def)
  then have "toFixed4 D 0 \<le> toFixed4 D (dminus D (dec a) ?cut)"
    "toFixed4 D (dminus D (dec a) ?cut) \<le> toFixed4 D (dec a)"
    by (simp_all add: toFixed4_mono [OF assms(1)])
  then show ?thesis
    using assms(6) toFixed4_dec [OF assms(1), of a] toFixed4_dec [OF assms(1), of 0]
    by (simp add: calculateNetAmount_def Let_def split: if_splits)
qed

text \<open>An amount up to \<open>10^12\<close> and a rate with two decimals leave every intermediate result
  within the working precision.\<close>

lemma net_exact:
  assumes "decimal_ok D" "0 \<le> a" "a \<le> 10 ^ 16" "0 \<le> r" "r \<le> 10000"
  shows "calculateNetAmount D (Num (dec a)) (Num (of_int r / 100)) =
     Inr (toFixed4 D (dec a * (1 - of_int r / 10000)))"
proof -
  have m: "a * r \<le> 10 ^ 20" "a * (10000 - r) \<le> 10 ^ 20"
    using mult_mono [of a "10 ^ 16" r 10000] mult_mono [of a "10 ^ 16" "10000 - r" 10000] assms by simp_all
  have nn: "0 \<le> a * r" "0 \<le> a * (10000 - r)" using assms by simp_all
  have s1: "sig20 (of_int r / 100 / 100)"
    unfolding sig20_def using assms(4,5) by (intro exI [of _ r] exI [of _ 4]) simp
  have s2: "sig20 (dec a * (of_int r / 100 / 100))"
    unfolding sig20_def using m nn
    by (intro exI [of _ "a * r"] exI [of _ 8]) (simp add: dec_def)
  have s3: "sig20 (dec a - dec a * (of_int r / 100 / 100))"
    unfolding sig20_def using m nn
    by (intro exI [of _ "a * (10000 - r)"] exI [of _ 8]) (simp add: dec_def algebra_simps)
  show ?thesis
    using assms s1 s2 s3
    by (simp add: calculateNetAmount_def dminus_def dtimes_def ddiv_def decimal_ok_sig Let_def
        right_diff_distrib)
qed


definition sample_draft :: draft where
  "sample_draft = \<lparr>df_invoiceNumber = Some ''N1'', df_customerName = Some ''acme'', df_ipfsHash = None,
     df_smartContractId = None, df_rejectionReason = None, df_amount = Some (Num 1000),
     df_discountRate = Some (Num 5), df_netAmount = None\<rparr>"

lemma exact_1000: "toFixed4 exact_decimal 1000 = 10000000" "fixd exact_decimal 4 1000 = 1000" "fixd exact_decimal 2 5 = 5"
  by (simp_all add: toFixed4_def exact_decimal_def floor_unique)

lemma sample_draft_saved: "\<exists>v'. calculateAndFormatAmounts exact_decimal sample_draft = Inr v'"
  by (simp add: calculateAndFormatAmounts_def sample_draft_def format_number_def exact_1000 calculateNetAmount_def Let_def)


text \<open>The three transition tables of the code do not describe the same graph. The state
  machine allows exactly the entity's transitions, less \<open>settled\<close> to \<open>cancelled\<close> and with
  \<open>draft\<close> to \<open>pending\<close> in addition; the helper in \<open>invoice-state.utils.ts\<close> allows the
  entity's transitions less \<open>draft\<close> to \<open>rejected\<close>. So \<open>settled\<close> is terminal for the machine
  only, and \<open>canBeCancelled\<close> follows the entity's table.\<close>

theorem transition_tables_differ:
  "(findRule s t \<noteq> None \<longleftrightarrow>
      (isValidTransition (Some s) t \<and> (s, t) \<noteq> (SETTLED, CANCELLED)) \<or> (s, t) = (DRAFT, PENDING)) \<and>
   (isValidInvoiceStateTransition s t \<longleftrightarrow> isValidTransition (Some s) t \<and> (s, t) \<noteq> (DRAFT, REJECTED)) \<and>
   (canBeCancelled v \<longleftrightarrow> isValidTransition (Some (iv_status v)) CANCELLED)"
proof -
  have "findRule s t \<noteq> None \<longleftrightarrow>
      (isValidTransition (Some s) t \<and> (s, t) \<noteq> (SETTLED, CANCELLED)) \<or> (s, t) = (DRAFT, PENDING)"
    by (cases s; cases t) (simp_all add: findRule_def rule_table isValidTransition_def)
  moreover have "isValidInvoiceStateTransition s t \<longleftrightarrow> isValidTransition (Some s) t \<and> (s, t) \<noteq> (DRAFT, REJECTED)"
    by (cases s; cases t) (simp_all add: isValidInvoiceStateTransition_def isValidTransition_def)
  moreover have "canBeCancelled v \<longleftrightarrow> isValidTransition (Some (iv_status v)) CANCELLED"
    by (cases "iv_status v") (simp_all add: canBeCancelled_def isValidTransition_def)
  ultimately show ?thesis by blast
qed

end
