(* ===== verification/Ttl_Cache.thy ===== *)
theory Ttl_Cache
  imports Prelude "HOL-Library.Sublist"
begin

section \<open>The TTL cache\<close>

text \<open>
  \<open>src/lib/ttl-cache.ts\<close>. The in-process \<open>Map\<close> is an association list in insertion order
  (oldest first). Redis is outside the program: its reply is an argument of a read, and the
  writes sent to it, whose failures are swallowed, do not reach the state. A stored text is
  \<open>Some v\<close> when it is the JSON of \<open>v\<close> and \<open>None\<close> when it does not parse. The clock is read
  once per operation. Lifetimes are whole seconds, instants milliseconds.
\<close>

record cache_options =
  ttlSeconds :: int
  maxEntries :: int
  namespace :: string
  enabled :: bool
  sweepIntervalMs :: int

record 'v entry =
  e_value :: "'v option"
  expiresAt :: int

record 'v cache =
  memory :: "(string \<times> 'v entry) list"
  sweeping :: bool

datatype 'v redis_reply = NoRedis | RedisFails | RedisMiss | RedisHit "'v option"

definition DEFAULT_MAX_ENTRIES :: int where "DEFAULT_MAX_ENTRIES = 5000"

definition defaultSweepIntervalMs :: "int \<Rightarrow> int" where
  "defaultSweepIntervalMs ttl = max 1000 (min (ttl * 1000) 60000)"

text \<open>The constructor; an absent option is \<open>None\<close>.\<close>

definition new_cache :: "int \<Rightarrow> int option \<Rightarrow> int option \<Rightarrow> string option \<Rightarrow> bool option \<Rightarrow> (cache_options \<times> 'v cache) result" where
  "new_cache ttl max_opt sweep_opt ns en =
     (let mx = (case max_opt of None \<Rightarrow> DEFAULT_MAX_ENTRIES | Some m \<Rightarrow> m);
          sw = (case sweep_opt of None \<Rightarrow> defaultSweepIntervalMs ttl | Some s \<Rightarrow> s)
      in if ttl \<le> 0 \<or> mx \<le> 0 \<or> sw < 0 then Inl (JsError ''Error'')
         else Inr (\<lparr>ttlSeconds = ttl, maxEntries = mx,
                    namespace = (case ns of None \<Rightarrow> ''cache'' | Some n \<Rightarrow> n),
                    enabled = (en \<noteq> Some False), sweepIntervalMs = sw\<rparr>,
                   \<lparr>memory = [], sweeping = False\<rparr>))"

definition map_delete :: "string \<Rightarrow> (string \<times> 'a) list \<Rightarrow> (string \<times> 'a) list" where
  "map_delete k m = filter (\<lambda>p. fst p \<noteq> k) m"

text \<open>\<open>Map.set\<close> keeps the place of a key that is there; every caller deletes it first.\<close>

fun map_set :: "string \<Rightarrow> 'a \<Rightarrow> (string \<times> 'a) list \<Rightarrow> (string \<times> 'a) list" where
  "map_set k v [] = [(k, v)]"
| "map_set k v (p # m) = (if fst p = k then (k, v) # m else p # map_set k v m)"

definition buildKey :: "cache_options \<Rightarrow> string \<Rightarrow> string" where
  "buildKey o' key = namespace o' @ '':'' @ key"

definition pruneExpired :: "int \<Rightarrow> (string \<times> 'v entry) list \<Rightarrow> (string \<times> 'v entry) list \<times> nat" where
  "pruneExpired now m =
     (let kept = filter (\<lambda>p. \<not> now > expiresAt (snd p)) m in (kept, length m - length kept))"

function evictToCapacity :: "int \<Rightarrow> (string \<times> 'a) list \<Rightarrow> (string \<times> 'a) list" where
  "evictToCapacity mx m =
     (if int (length m) > mx
      then (case m of [] \<Rightarrow> m | oldest # rest \<Rightarrow> evictToCapacity mx rest) else m)"
  by auto
termination by (relation "measure (\<lambda>(mx, m). length m)") auto

declare evictToCapacity.simps [simp del]

definition ensureSweeper :: "cache_options \<Rightarrow> bool \<Rightarrow> bool" where
  "ensureSweeper o' timer = (if timer \<or> sweepIntervalMs o' = 0 \<or> \<not> enabled o' then timer else True)"

definition remember :: "cache_options \<Rightarrow> string \<Rightarrow> 'v option \<Rightarrow> int \<Rightarrow> 'v cache \<Rightarrow> 'v cache" where
  "remember o' key raw now c =
     \<lparr>memory = evictToCapacity (maxEntries o')
        (map_set key \<lparr>e_value = raw, expiresAt = now + ttlSeconds o' * 1000\<rparr> (map_delete key (memory c))),
      sweeping = ensureSweeper o' (sweeping c)\<rparr>"

text \<open>The part of \<open>get\<close> that reads the in-process copy.\<close>

definition get_memory :: "string \<Rightarrow> int \<Rightarrow> 'v cache \<Rightarrow> 'v option \<times> 'v cache" where
  "get_memory key now c =
     (case map_of (memory c) key of
        None \<Rightarrow> (None, c)
      | Some e \<Rightarrow>
          if now > expiresAt e then (None, c\<lparr>memory := map_delete key (memory c)\<rparr>)
          else (case e_value e of
                  None \<Rightarrow> (None, c\<lparr>memory := map_delete key (memory c)\<rparr>)
                | Some v \<Rightarrow> (Some v, c\<lparr>memory := map_set key e (map_delete key (memory c))\<rparr>)))"

definition cache_get :: "cache_options \<Rightarrow> 'v redis_reply \<Rightarrow> string \<Rightarrow> int \<Rightarrow> 'v cache \<Rightarrow> 'v option \<times> 'v cache" where
  "cache_get o' reply key now c =
     (if \<not> enabled o' then (None, c)
      else let k = buildKey o' key
           in case reply of
                NoRedis \<Rightarrow> get_memory k now c
              | RedisFails \<Rightarrow> get_memory k now c
              | RedisMiss \<Rightarrow> (None, c)
              | RedisHit raw \<Rightarrow>
                  let c' = remember o' k raw now c
                  in (case raw of Some v \<Rightarrow> (Some v, c') | None \<Rightarrow> get_memory k now c'))"

definition cache_set :: "cache_options \<Rightarrow> string \<Rightarrow> 'v \<Rightarrow> int option \<Rightarrow> int \<Rightarrow> 'v cache \<Rightarrow> 'v cache" where
  "cache_set o' key value ttl_opt now c =
     (if \<not> enabled o' then c
      else let k = buildKey o' key;
               ttl = (case ttl_opt of None \<Rightarrow> ttlSeconds o' | Some t \<Rightarrow> t);
               m = map_set k \<lparr>e_value = Some value, expiresAt = now + ttl * 1000\<rparr> (map_delete k (memory c))
           in \<lparr>memory = evictToCapacity (maxEntries o') (fst (pruneExpired now m)),
               sweeping = ensureSweeper o' (sweeping c)\<rparr>)"

definition cache_delete :: "cache_options \<Rightarrow> string \<Rightarrow> 'v cache \<Rightarrow> 'v cache" where
  "cache_delete o' key c =
     (if \<not> enabled o' then c else c\<lparr>memory := map_delete (buildKey o' key) (memory c)\<rparr>)"

definition invalidatePrefix :: "cache_options \<Rightarrow> string \<Rightarrow> 'v cache \<Rightarrow> 'v cache" where
  "invalidatePrefix o' pre c = c\<lparr>memory := filter (\<lambda>p. \<not> prefix (buildKey o' pre) (fst p)) (memory c)\<rparr>"

text \<open>The timer callback of the sweeper.\<close>

definition sweep_tick :: "int \<Rightarrow> 'v cache \<Rightarrow> 'v cache" where
  "sweep_tick now c =
     (if \<not> sweeping c then c
      else if length (memory c) = 0 then c\<lparr>sweeping := False\<rparr>
      else c\<lparr>memory := fst (pruneExpired now (memory c))\<rparr>)"

datatype 'v cache_op =
  OpGet "'v redis_reply" string | OpSet string 'v "int option" | OpDelete string | OpInvalidate string
| OpClear | OpPrune | OpTick | OpClose

fun cache_step :: "cache_options \<Rightarrow> 'v cache \<Rightarrow> 'v cache_op \<times> int \<Rightarrow> 'v cache" where
  "cache_step o' c (OpGet reply key, now) = snd (cache_get o' reply key now c)"
| "cache_step o' c (OpSet key v ttl, now) = cache_set o' key v ttl now c"
| "cache_step o' c (OpDelete key, now) = cache_delete o' key c"
| "cache_step o' c (OpInvalidate pre, now) = invalidatePrefix o' pre c"
| "cache_step o' c (OpClear, now) = c\<lparr>memory := []\<rparr>"
| "cache_step o' c (OpPrune, now) = c\<lparr>memory := fst (pruneExpired now (memory c))\<rparr>"
| "cache_step o' c (OpTick, now) = sweep_tick now c"
| "cache_step o' c (OpClose, now) = c\<lparr>sweeping := False\<rparr>"

subsection \<open>The bound\<close>

definition bounded :: "int \<Rightarrow> (string \<times> 'a) list \<Rightarrow> bool" where
  "bounded mx m \<longleftrightarrow> distinct (map fst m) \<and> int (length m) \<le> mx"

definition limits_ok :: "cache_options \<Rightarrow> bool" where
  "limits_ok o' \<longleftrightarrow> ttlSeconds o' > 0 \<and> maxEntries o' > 0 \<and> sweepIntervalMs o' \<ge> 0"

definition cache_inv :: "cache_options \<Rightarrow> 'v cache \<Rightarrow> bool" where
  "cache_inv o' c \<longleftrightarrow> limits_ok o' \<and> bounded (maxEntries o') (memory c)"

lemma evict_drop: "0 \<le> mx \<Longrightarrow> evictToCapacity mx m = drop (length m - nat mx) m"
proof (induction m)
  case (Cons p m)
  show ?case
  proof (cases "int (length (p # m)) > mx")
    case True
    then have "length (p # m) - nat mx = Suc (length m - nat mx)" using Cons.prems by simp
    then show ?thesis using True Cons by (simp add: evictToCapacity.simps [of mx "p # m"])
  qed (simp add: evictToCapacity.simps)
qed (simp add: evictToCapacity.simps)

lemma map_set_new: "k \<notin> fst ` set m \<Longrightarrow> map_set k v m = m @ [(k, v)]"
  by (induction m) auto

lemma set_after_delete: "map_set k v (map_delete k m) = map_delete k m @ [(k, v)]"
  by (rule map_set_new) (auto simp: map_delete_def)

lemma bounded_filter: "bounded mx m \<Longrightarrow> bounded mx (filter P m)"
  using length_filter_le [of P m] by (auto simp: bounded_def distinct_map_filter simp del: length_filter_le)

lemma bounded_evict: "0 \<le> mx \<Longrightarrow> distinct (map fst m) \<Longrightarrow> bounded mx (evictToCapacity mx m)"
  by (simp add: bounded_def evict_drop drop_map [symmetric])

lemma distinct_moved: "distinct (map fst m) \<Longrightarrow> distinct (map fst (map_delete k m @ [(k, v)]))"
  by (auto simp: map_delete_def distinct_map_filter)

lemma bounded_touch:
  assumes "bounded mx m" "map_of m k = Some e"
  shows "bounded mx (map_delete k m @ [(k, e)])"
proof -
  have "length (map_delete k m) < length m"
    unfolding map_delete_def by (rule length_filter_less [of "(k, e)"]) (use assms(2) in \<open>auto dest: map_of_SomeD\<close>)
  then show ?thesis using assms(1) distinct_moved [of m k e] by (simp add: bounded_def)
qed

lemma get_memory_inv: "cache_inv o' c \<Longrightarrow> cache_inv o' (snd (get_memory k now c))"
  by (auto simp: cache_inv_def get_memory_def set_after_delete bounded_touch split: option.splits)
     (simp_all add: map_delete_def bounded_filter)

lemma remember_inv: "cache_inv o' c \<Longrightarrow> cache_inv o' (remember o' k raw now c)"
  unfolding cache_inv_def remember_def set_after_delete
  by (auto simp: limits_ok_def bounded_def [of _ "memory c"] simp del: map_append intro!: bounded_evict distinct_moved)

lemma set_inv: "cache_inv o' c \<Longrightarrow> cache_inv o' (cache_set o' k v ttl now c)"
  unfolding cache_inv_def cache_set_def set_after_delete Let_def pruneExpired_def
  by (auto simp: limits_ok_def bounded_def [of _ "memory c"] simp del: map_append filter_append
      intro!: bounded_evict distinct_map_filter distinct_moved)

lemma cache_step_inv: "cache_inv o' c \<Longrightarrow> cache_inv o' (cache_step o' c op)"
proof (induction o' c op rule: cache_step.induct)
  case (1 o' c reply key now)
  then show ?case
    by (auto simp: cache_get_def Let_def remember_inv get_memory_inv split: redis_reply.splits option.splits)
next
  case (2 o' c key v ttl now)
  then show ?case by (simp add: set_inv)
next
  case (5 o' c now)
  then show ?case by (simp add: cache_inv_def bounded_def limits_ok_def)
qed (auto simp: cache_delete_def map_delete_def invalidatePrefix_def pruneExpired_def Let_def
    sweep_tick_def cache_inv_def bounded_filter)

interpretation bounded_cache: step_invariant "cache_step o'" "cache_inv o'"
  by unfold_locales (rule cache_step_inv)

text \<open>A cache built by the constructor holds, after any sequence of reads (with any answers of
  Redis), writes, deletions, sweeps and timer ticks at any times, at most \<open>maxEntries\<close> entries
  and each key once.\<close>

theorem cache_stays_bounded:
  assumes "new_cache ttl max_opt sweep_opt ns en = Inr (o', c)"
  shows "int (length (memory (foldl (cache_step o') c ops))) \<le> maxEntries o' \<and>
     distinct (map fst (memory (foldl (cache_step o') c ops)))"
proof -
  have "cache_inv o' c"
    using assms by (auto simp: new_cache_def Let_def cache_inv_def limits_ok_def bounded_def split: if_splits)
  then have "cache_inv o' (foldl (cache_step o') c ops)" by (rule bounded_cache.run_inv)
  then show ?thesis by (simp add: cache_inv_def bounded_def)
qed

definition small_options :: cache_options where
  "small_options = \<lparr>ttlSeconds = 10, maxEntries = 2, namespace = ''n'', enabled = True, sweepIntervalMs = 10000\<rparr>"

definition empty_cache :: "nat cache" where
  "empty_cache = \<lparr>memory = [], sweeping = False\<rparr>"

lemma small_new: "new_cache 10 (Some 2) None (Some ''n'') None = Inr (small_options, empty_cache)"
  by (simp add: new_cache_def defaultSweepIntervalMs_def small_options_def empty_cache_def)

theorem cache_stays_bounded_witness:
  "int (length (memory (foldl (cache_step small_options) empty_cache
     [(OpSet ''a'' 1 None, 0), (OpSet ''b'' 2 None, 1), (OpSet ''c'' 3 None, 2)]))) \<le> 2"
  using cache_stays_bounded [OF small_new, of "[(OpSet ''a'' 1 None, 0), (OpSet ''b'' 2 None, 1), (OpSet ''c'' 3 None, 2)]"]
  unfolding small_options_def by (simp only: cache_options.simps)

subsection \<open>What a read returns\<close>

text \<open>Operations that do not remove or overwrite an entry of another key.\<close>

fun spares :: "cache_options \<Rightarrow> string \<Rightarrow> 'v cache_op \<Rightarrow> bool" where
  "spares o' k (OpGet reply key) = (reply \<in> {NoRedis, RedisFails, RedisMiss})"
| "spares o' k (OpSet key v ttl) = (buildKey o' key \<noteq> k)"
| "spares o' k (OpDelete key) = (buildKey o' key \<noteq> k)"
| "spares o' k (OpInvalidate pre) = (\<not> prefix (buildKey o' pre) k)"
| "spares o' k OpClear = False"
| "spares o' k OpPrune = True"
| "spares o' k OpTick = True"
| "spares o' k OpClose = True"

definition placed :: "string \<Rightarrow> 'a \<Rightarrow> nat \<Rightarrow> (string \<times> 'a) list \<Rightarrow> bool" where
  "placed k e n m \<longleftrightarrow> (\<exists>us vs. m = us @ (k, e) # vs \<and> length vs \<le> n \<and> k \<notin> fst ` set us \<and> k \<notin> fst ` set vs)"

lemma placedI:
  "m = us @ (k, e) # vs \<Longrightarrow> length vs \<le> n \<Longrightarrow> k \<notin> fst ` set us \<Longrightarrow> k \<notin> fst ` set vs \<Longrightarrow> placed k e n m"
  by (auto simp: placed_def)

lemma placed_lookup: "placed k e n m \<Longrightarrow> map_of m k = Some e"
  by (auto simp: placed_def map_add_def split: option.splits dest!: map_of_SomeD)
    (metis fst_conv image_eqI)

lemma placed_weaken: "placed k e n m \<Longrightarrow> n \<le> n' \<Longrightarrow> placed k e n' m"
  by (auto simp: placed_def intro: order_trans)

lemma placed_filter: "placed k e n m \<Longrightarrow> P (k, e) \<Longrightarrow> placed k e n (filter P m)"
proof -
  assume "placed k e n m" and P: "P (k, e)"
  then obtain us vs where "m = us @ (k, e) # vs" "length vs \<le> n" "k \<notin> fst ` set us" "k \<notin> fst ` set vs"
    by (auto simp: placed_def)
  moreover have "length (filter P vs) \<le> n" using \<open>length vs \<le> n\<close> length_filter_le le_trans by blast
  ultimately show ?thesis using P by (intro placedI [of _ "filter P us" _ _ "filter P vs"]) auto
qed

lemma placed_append: "placed k e n m \<Longrightarrow> k' \<noteq> k \<Longrightarrow> placed k e (Suc n) (m @ [(k', e')])"
proof -
  assume "placed k e n m" and k': "k' \<noteq> k"
  then obtain us vs where "m = us @ (k, e) # vs" "length vs \<le> n" "k \<notin> fst ` set us" "k \<notin> fst ` set vs"
    by (auto simp: placed_def)
  then show ?thesis using k' by (intro placedI [of _ us _ _ "vs @ [(k', e')]"]) auto
qed

lemma placed_evict: "placed k e n m \<Longrightarrow> int n < mx \<Longrightarrow> placed k e n (evictToCapacity mx m)"
proof -
  assume "placed k e n m" and n: "int n < mx"
  then obtain us vs where m: "m = us @ (k, e) # vs" "length vs \<le> n" "k \<notin> fst ` set us" "k \<notin> fst ` set vs"
    by (auto simp: placed_def)
  let ?d = "length m - nat mx"
  have "?d \<le> length us" using m(1,2) n by auto
  then have "evictToCapacity mx m = drop ?d us @ (k, e) # vs" using n m(1) by (simp add: evict_drop)
  then show ?thesis using m(2-4) by (intro placedI [of _ "drop ?d us" _ _ vs]) (auto dest: in_set_dropD)
qed

lemma placed_touched: "placed k e n m \<Longrightarrow> placed k e 0 (map_delete k m @ [(k, e)])"
  by (intro placedI [of _ "map_delete k m" _ _ "[]"]) (auto simp: map_delete_def)

lemma placed_delete: "placed k e n m \<Longrightarrow> k' \<noteq> k \<Longrightarrow> placed k e n (map_delete k' m)"
  unfolding map_delete_def by (rule placed_filter) simp_all

lemma placed_get:
  assumes "placed k e n (memory c)" "now \<le> expiresAt e" "e_value e = Some v"
  shows "placed k e (Suc n) (memory (snd (get_memory k' now c)))"
proof (cases "k' = k")
  case True
  then show ?thesis
    using placed_lookup [OF assms(1)] assms(2,3) placed_weaken [OF placed_touched [OF assms(1)]]
    by (simp add: get_memory_def set_after_delete)
next
  case False
  note del = placed_delete [OF assms(1) False]
  show ?thesis
    using placed_weaken [OF assms(1), of "Suc n"] placed_weaken [OF del, of "Suc n"] placed_append [OF del False]
    by (auto simp: get_memory_def set_after_delete split: option.splits)
qed

lemma placed_set:
  assumes "placed k e n (memory c)" "now \<le> expiresAt e" "int (Suc n) < maxEntries o'" "buildKey o' key \<noteq> k"
  shows "placed k e (Suc n) (memory (cache_set o' key x ttl now c))"
proof -
  let ?new = "\<lparr>e_value = Some x, expiresAt = now + (case ttl of None \<Rightarrow> ttlSeconds o' | Some t \<Rightarrow> t) * 1000\<rparr>"
  have "placed k e (Suc n) (map_delete (buildKey o' key) (memory c) @ [(buildKey o' key, ?new)])"
    by (rule placed_append [OF placed_delete [OF assms(1,4)] assms(4)])
  then have "placed k e (Suc n) (filter (\<lambda>p. \<not> now > expiresAt (snd p))
      (map_delete (buildKey o' key) (memory c) @ [(buildKey o' key, ?new)]))"
    by (rule placed_filter) (use assms(2) in simp)
  from placed_evict [OF this assms(3)] show ?thesis
    using placed_weaken [OF assms(1), of "Suc n"]
    by (simp add: cache_set_def Let_def set_after_delete pruneExpired_def)
qed

lemma placed_step:
  assumes "placed k e n (memory c)" "snd op \<le> expiresAt e" "e_value e = Some v" "int (Suc n) < maxEntries o'"
    and "spares o' k (fst op)"
  shows "placed k e (Suc n) (memory (cache_step o' c op))"
proof (cases op)
  case (Pair x now)
  note keep = placed_weaken [OF assms(1), of "Suc n"]
  have flt: "placed k e (Suc n) (filter P (memory c))" if "P (k, e)" for P
    using placed_weaken [OF placed_filter [of k e n "memory c" P, OF assms(1) that]] by simp
  have now: "\<not> now > expiresAt e" using assms(2) Pair by simp
  show ?thesis
  proof (cases x)
    case (OpGet reply key)
    then show ?thesis
      using Pair assms(5) keep placed_get [OF assms(1) _ assms(3)] assms(2)
      by (auto simp: cache_get_def Let_def split: redis_reply.splits)
  next
    case (OpSet key y ttl)
    then show ?thesis using Pair assms placed_set [OF assms(1)] by simp
  next
    case (OpDelete key)
    then show ?thesis using Pair assms(5) keep flt by (simp add: cache_delete_def map_delete_def)
  next
    case (OpInvalidate pre)
    then show ?thesis using Pair assms(5) flt by (simp add: invalidatePrefix_def)
  next
    case OpPrune
    then show ?thesis using Pair now flt by (simp add: pruneExpired_def Let_def)
  next
    case OpTick
    have "memory c \<noteq> []" using assms(1) by (auto simp: placed_def)
    moreover have "placed k e (Suc n) (filter (\<lambda>p. \<not> now > expiresAt (snd p)) (memory c))"
      by (rule flt) (use now in simp)
    ultimately show ?thesis using OpTick Pair keep by (simp add: pruneExpired_def Let_def sweep_tick_def)
  qed (use Pair assms(5) keep in simp_all)
qed

lemma placed_run:
  assumes "placed k e n (memory c)" "\<forall>op \<in> set ops. snd op \<le> expiresAt e \<and> spares o' k (fst op)"
    "e_value e = Some v" "int (n + length ops) < maxEntries o'"
  shows "placed k e (n + length ops) (memory (foldl (cache_step o') c ops))"
  using assms
proof (induction ops arbitrary: c n)
  case (Cons op ops)
  have "placed k e (Suc n) (memory (cache_step o' c op))"
    by (rule placed_step [OF Cons.prems(1) _ Cons.prems(3)]) (use Cons.prems(2,4) in simp_all)
  then show ?case using Cons.IH [of "Suc n" "cache_step o' c op"] Cons.prems by simp
qed simp

lemma placed_after_set:
  assumes "limits_ok o'" "enabled o'" "0 \<le> ttl"
  shows "placed (buildKey o' key) \<lparr>e_value = Some v, expiresAt = now + ttl * 1000\<rparr> 0
     (memory (cache_set o' key v (Some ttl) now c))"
proof -
  let ?e = "\<lparr>e_value = Some v, expiresAt = now + ttl * 1000\<rparr>" and ?k = "buildKey o' key"
  have "placed ?k ?e 0 (map_delete ?k (memory c) @ [(?k, ?e)])"
    by (intro placedI [of _ "map_delete ?k (memory c)" _ _ "[]"]) (auto simp: map_delete_def)
  then have "placed ?k ?e 0 (filter (\<lambda>p. \<not> now > expiresAt (snd p)) (map_delete ?k (memory c) @ [(?k, ?e)]))"
    by (rule placed_filter) (use assms(3) in simp)
  from placed_evict [OF this, of "maxEntries o'"] show ?thesis
    using assms(1,2) by (simp add: cache_set_def Let_def set_after_delete pruneExpired_def limits_ok_def)
qed

text \<open>An entry outlives any burst of fewer than \<open>maxEntries\<close> other operations: after a write, and
  any such operations none of which deletes, overwrites or invalidates the key (reads of any
  keys, writes of other keys, sweeps), a read within the lifetime that Redis does not answer
  returns the value written, and a read after the lifetime returns nothing.\<close>

theorem cache_serves_recent_writes:
  assumes "limits_ok o'" "enabled o'" "0 \<le> ttl" "reply \<in> {NoRedis, RedisFails}"
    and "\<forall>op \<in> set ops. snd op \<le> now + ttl * 1000 \<and> spares o' (buildKey o' key) (fst op)"
    and "int (length ops) < maxEntries o'"
  shows "fst (cache_get o' reply key t (foldl (cache_step o') (cache_set o' key v (Some ttl) now c) ops)) =
     (if t \<le> now + ttl * 1000 then Some v else None)"
proof -
  have "placed (buildKey o' key) \<lparr>e_value = Some v, expiresAt = now + ttl * 1000\<rparr> (0 + length ops)
     (memory (foldl (cache_step o') (cache_set o' key v (Some ttl) now c) ops))"
    by (rule placed_run [OF placed_after_set [OF assms(1-3)]]) (use assms(5,6) in simp_all)
  from placed_lookup [OF this] show ?thesis
    using assms(2,4) by (auto simp: cache_get_def Let_def get_memory_def)
qed

theorem cache_serves_recent_writes_witness:
  "fst (cache_get small_options NoRedis ''a'' 9000
     (foldl (cache_step small_options) (cache_set small_options ''a'' 7 (Some 9) 0 empty_cache)
        [(OpSet ''b'' 8 None, 5)])) = Some 7"
  using cache_serves_recent_writes [of small_options 9 NoRedis "[(OpSet ''b'' 8 None, 5)]" 0 "''a''" 9000 7 empty_cache]
  by (simp add: small_options_def limits_ok_def buildKey_def)

subsection \<open>What a cache can hold\<close>

lemma buildKey_inj: "buildKey o' i = buildKey o' j \<longleftrightarrow> i = j"
  by (simp add: buildKey_def)

lemma map_delete_subset: "set (map_delete k m) \<subseteq> set m"
  by (auto simp: map_delete_def)

lemma get_subset: "set (memory (snd (cache_get o' NoRedis i now c))) \<subseteq> set (memory c)"
proof -
  note d = map_delete_subset [THEN subsetD]
  then show ?thesis
    by (auto simp: cache_get_def get_memory_def set_after_delete Let_def dest: map_of_SomeD split: option.splits)
qed

lemma get_hit:
  assumes "fst (cache_get o' NoRedis i now c) = Some v"
  shows "\<exists>e. (buildKey o' i, e) \<in> set (memory c) \<and> e_value e = Some v \<and> now \<le> expiresAt e"
  using assms by (auto simp: cache_get_def get_memory_def Let_def split: option.splits if_splits dest: map_of_SomeD)

lemma cache_set_subset:
  assumes "0 \<le> maxEntries o'"
  shows "set (memory (cache_set o' i v ttl now c)) \<subseteq>
     insert (buildKey o' i, \<lparr>e_value = Some v, expiresAt = now + (case ttl of None \<Rightarrow> ttlSeconds o' | Some t \<Rightarrow> t) * 1000\<rparr>) (set (memory c))"
proof -
  let ?x = "(buildKey o' i, \<lparr>e_value = Some v, expiresAt = now + (case ttl of None \<Rightarrow> ttlSeconds o' | Some t \<Rightarrow> t) * 1000\<rparr>)"
  let ?m = "map_delete (buildKey o' i) (memory c) @ [?x]"
  have "set (evictToCapacity (maxEntries o') (fst (pruneExpired now ?m))) \<subseteq> set ?m"
    unfolding evict_drop [OF assms] pruneExpired_def Let_def fst_conv by (meson filter_is_subset set_drop_subset subset_trans)
  moreover have "set (map_delete (buildKey o' i) (memory c)) \<subseteq> set (memory c)" by (rule map_delete_subset)
  ultimately show ?thesis by (auto simp: cache_set_def set_after_delete Let_def)
qed

lemmas set_subset = cache_set_subset [of _ _ _ None, simplified]

lemma cache_delete_entries: "enabled o' \<Longrightarrow> set (memory (cache_delete o' k c)) = {p \<in> set (memory c). fst p \<noteq> buildKey o' k}"
  by (auto simp: cache_delete_def map_delete_def)

lemma map_of_map_set: "map_of (map_set k v m) = (map_of m)(k \<mapsto> v)"
  by (induction m) auto

lemma map_of_map_delete: "map_of (map_delete k m) = (map_of m)(k := None)"
  by (induction m) (auto simp: map_delete_def fun_eq_iff)

end
