(* ===== verification/Sliding_Window.thy ===== *)
theory Sliding_Window
  imports Prelude
begin

section \<open>The Redis sliding window\<close>

text \<open>
  \<open>src/lib/redis-sliding-window.ts\<close>: the Lua script, which Redis runs as one step, and the
  reading of its reply. The key is a sorted set of members with scores, kept as the list of
  its members, and the instant at which Redis drops it. \<open>now\<close> is the caller's clock (the
  script's argument), \<open>srv\<close> the clock of the Redis server that drives the expiry.
\<close>

record window_key =
  zset :: "(string \<times> int) list"
  drop_at :: int

definition zadd :: "string \<Rightarrow> int \<Rightarrow> (string \<times> int) list \<Rightarrow> (string \<times> int) list" where
  "zadd member score zs = filter (\<lambda>p. fst p \<noteq> member) zs @ [(member, score)]"

fun min_score :: "(string \<times> int) list \<Rightarrow> int option" where
  "min_score [] = None"
| "min_score (p # zs) = (case min_score zs of None \<Rightarrow> Some (snd p) | Some s \<Rightarrow> Some (min (snd p) s))"

text \<open>\<open>SLIDING_WINDOW_LUA_SCRIPT\<close>; \<open>None\<close> is a key that does not exist.\<close>

definition sliding_window_script ::
    "int \<Rightarrow> int \<Rightarrow> int \<Rightarrow> int \<Rightarrow> string \<Rightarrow> window_key option \<Rightarrow> (int \<times> int \<times> int) \<times> window_key option" where
  "sliding_window_script srv now windowMs maxRequests member key =
     (let live = (case key of None \<Rightarrow> [] | Some k \<Rightarrow> if drop_at k \<le> srv then [] else zset k);
          clearBefore = now - windowMs;
          kept = filter (\<lambda>p. snd p > clearBefore) live;
          currentCount = int (length kept);
          key' = (case key of None \<Rightarrow> None
                  | Some k \<Rightarrow> if kept = [] then None else Some (k\<lparr>zset := kept\<rparr>))
      in if currentCount \<ge> maxRequests
         then let retryAfterMs =
                (case min_score kept of
                   None \<Rightarrow> windowMs
                 | Some oldestScore \<Rightarrow>
                     let r = windowMs - (now - oldestScore) in if r < 0 then 0 else r)
              in ((0, currentCount, retryAfterMs), key')
         else ((1, currentCount + 1, 0),
               Some \<lparr>zset = zadd member now kept, drop_at = srv + (windowMs + 2000)\<rparr>))"

record window_result =
  allowed :: bool
  wr_currentCount :: int
  remaining :: int
  retryAfterSeconds :: int
  wr_fallback :: bool

definition ceil_seconds :: "int \<Rightarrow> int" where
  "ceil_seconds ms = - ((- ms) div 1000)"

text \<open>\<open>None\<close> is an evaluation that Redis refuses or does not answer.\<close>

definition window_reply :: "int \<Rightarrow> (int \<times> int \<times> int) option \<Rightarrow> window_result" where
  "window_reply maxRequests reply =
     (case reply of
        Some (flag, currentCount, retryAfterMs) \<Rightarrow>
          let ok = (flag = 1);
              secs = max 1 (ceil_seconds retryAfterMs)
          in \<lparr>allowed = ok, wr_currentCount = currentCount,
              remaining = (if ok then max 0 (maxRequests - currentCount) else 0),
              retryAfterSeconds = (if ok then 0 else secs), wr_fallback = False\<rparr>
      | None \<Rightarrow> \<lparr>allowed = True, wr_currentCount = 0, remaining = maxRequests, retryAfterSeconds = 0,
                wr_fallback = True\<rparr>)"

definition checkSlidingWindow ::
    "bool \<Rightarrow> int \<Rightarrow> int \<Rightarrow> int \<Rightarrow> int \<Rightarrow> string \<Rightarrow> window_key option \<Rightarrow> window_result \<times> window_key option" where
  "checkSlidingWindow up srv now windowMs maxRequests member key =
     (if up then let (reply, key') = sliding_window_script srv now windowMs maxRequests member key
                 in (window_reply maxRequests (Some reply), key')
      else (window_reply maxRequests None, key))"

text \<open>A run of requests against one key; a request is the caller's clock, the server's clock
  and the member. The result lists the requests that were admitted, in order.\<close>

fun admit :: "int \<Rightarrow> int \<Rightarrow> (int \<times> int \<times> string) list \<Rightarrow> (string \<times> int) list \<times> window_key option" where
  "admit w mx [] = ([], None)"
| "admit w mx (r # earlier) =
     (let (adm, key) = admit w mx earlier; (now, srv, member) = r;
          (res, key') = checkSlidingWindow True srv now w mx member key
      in (if allowed res then (member, now) # adm else adm, key'))"

text \<open>The requests are listed latest first: \<open>clocks_ok\<close> says that the caller's clock and the
  server's clock do not run backwards and are at most one second apart.\<close>

fun clocks_ok :: "(int \<times> int \<times> string) list \<Rightarrow> bool" where
  "clocks_ok [] = True"
| "clocks_ok ((now, srv, m) # earlier) =
     (\<bar>srv - now\<bar> \<le> 1000 \<and> (\<forall>(n, s, m') \<in> set earlier. n \<le> now \<and> s \<le> srv \<and> m' \<noteq> m) \<and> clocks_ok earlier)"

definition live_set :: "int \<Rightarrow> window_key option \<Rightarrow> (string \<times> int) list" where
  "live_set srv key = (case key of None \<Rightarrow> [] | Some k \<Rightarrow> if drop_at k \<le> srv then [] else zset k)"

text \<open>The state after a run: the set holds every admission that is still in the window.\<close>

definition window_inv :: "int \<Rightarrow> int \<Rightarrow> (int \<times> int \<times> string) list \<Rightarrow> bool" where
  "window_inv w mx rs \<longleftrightarrow>
     (\<forall>now srv. \<bar>srv - now\<bar> \<le> 1000 \<and> (\<forall>(n, s, m) \<in> set rs. n \<le> now \<and> s \<le> srv) \<longrightarrow>
        (\<forall>p \<in> set (fst (admit w mx rs)). snd p > now - w \<longrightarrow> p \<in> set (live_set srv (snd (admit w mx rs))))) \<and>
     distinct (map fst (fst (admit w mx rs))) \<and>
     fst ` set (fst (admit w mx rs)) \<subseteq> (\<lambda>(n, s, m). m) ` set rs"

definition clocks_after :: "(int \<times> int \<times> string) list \<Rightarrow> int \<Rightarrow> int \<Rightarrow> bool" where
  "clocks_after rs now srv \<longleftrightarrow> \<bar>srv - now\<bar> \<le> 1000 \<and> (\<forall>(n, s, m) \<in> set rs. n \<le> now \<and> s \<le> srv)"

lemma window_live:
  assumes "window_inv w mx rs" "clocks_after rs now srv" "p \<in> set (fst (admit w mx rs))" "snd p > now - w"
  shows "p \<in> set (live_set srv (snd (admit w mx rs)))"
  using assms unfolding window_inv_def clocks_after_def by blast

lemma clocks_after_later:
  "\<forall>(n, s, m') \<in> set rs. n \<le> now \<and> s \<le> srv \<and> m' \<noteq> m \<Longrightarrow> now \<le> now' \<Longrightarrow> srv \<le> srv' \<Longrightarrow>
   \<bar>srv' - now'\<bar> \<le> 1000 \<Longrightarrow> clocks_after rs now' srv'"
  unfolding clocks_after_def by auto

lemma admitted_time: "p \<in> set (fst (admit w mx rs)) \<Longrightarrow> \<exists>s. (snd p, s, fst p) \<in> set rs"
proof (induction rs)
  case (Cons r rs)
  then show ?case by (cases r) (auto split: prod.splits if_splits simp: Let_def)
qed simp

definition script_kept :: "int \<Rightarrow> int \<Rightarrow> int \<Rightarrow> window_key option \<Rightarrow> (string \<times> int) list" where
  "script_kept srv now w key = filter (\<lambda>p. snd p > now - w) (live_set srv key)"

definition denied_key :: "(string \<times> int) list \<Rightarrow> window_key option \<Rightarrow> window_key option" where
  "denied_key kept key =
     (case key of None \<Rightarrow> None | Some k \<Rightarrow> if kept = [] then None else Some (k\<lparr>zset := kept\<rparr>))"

lemma script_cases:
  "sliding_window_script srv now w mx m key =
     (if int (length (script_kept srv now w key)) \<ge> mx
      then ((0, int (length (script_kept srv now w key)),
             (case min_score (script_kept srv now w key) of None \<Rightarrow> w
              | Some s \<Rightarrow> max 0 (w - (now - s)))),
            denied_key (script_kept srv now w key) key)
      else ((1, int (length (script_kept srv now w key)) + 1, 0),
            Some \<lparr>zset = zadd m now (script_kept srv now w key), drop_at = srv + (w + 2000)\<rparr>))"
  by (auto simp: sliding_window_script_def script_kept_def live_set_def denied_key_def Let_def max_def split: option.splits)

lemma live_denied:
  assumes "p \<in> set (live_set srv' key)" "srv \<le> srv'" "snd p > now - w"
  shows "p \<in> set (live_set srv' (denied_key (script_kept srv now w key) key))"
proof (cases key)
  case (Some k)
  then have k: "\<not> drop_at k \<le> srv'" "p \<in> set (zset k)" using assms(1) by (auto simp: live_set_def split: if_splits)
  then have "p \<in> set (script_kept srv now w key)" using Some assms(2,3) by (simp add: script_kept_def live_set_def)
  then show ?thesis using Some k(1) by (auto simp: live_set_def denied_key_def)
qed (use assms in \<open>simp add: live_set_def\<close>)

lemma admit_step:
  "admit w mx ((now, srv, m) # rs) =
     (if int (length (script_kept srv now w (snd (admit w mx rs)))) \<ge> mx
      then (fst (admit w mx rs),
            denied_key (script_kept srv now w (snd (admit w mx rs))) (snd (admit w mx rs)))
      else ((m, now) # fst (admit w mx rs),
            Some \<lparr>zset = zadd m now (script_kept srv now w (snd (admit w mx rs))), drop_at = srv + (w + 2000)\<rparr>))"
  by (cases "admit w mx rs") (simp add: checkSlidingWindow_def script_cases window_reply_def Let_def)

declare admit.simps(2) [simp del]

lemma window_inv_run: "clocks_ok rs \<Longrightarrow> window_inv w mx rs"
proof (induction rs)
  case Nil
  then show ?case by (simp add: window_inv_def)
next
  case (Cons r rs)
  obtain now srv m where r: "r = (now, srv, m)" by (cases r) auto
  let ?A = "fst (admit w mx rs)" and ?K = "snd (admit w mx rs)" and ?kept = "script_kept srv now w (snd (admit w mx rs))"
  have ok: "\<bar>srv - now\<bar> \<le> 1000" "\<forall>(n, s, m') \<in> set rs. n \<le> now \<and> s \<le> srv \<and> m' \<noteq> m" "clocks_ok rs"
    using Cons.prems r by auto
  have inv: "window_inv w mx rs" by (rule Cons.IH [OF ok(3)])
  have live: "p \<in> set (live_set srv' ?K)"
    if "p \<in> set ?A" "snd p > now' - w" "\<bar>srv' - now'\<bar> \<le> 1000" "now \<le> now'" "srv \<le> srv'" for p now' srv'
    by (rule window_live [OF inv clocks_after_later [OF ok(2) that(4,5,3)] that(1,2)])
  have dist: "distinct (map fst ?A)" "fst ` set ?A \<subseteq> (\<lambda>(n, s, m). m) ` set rs"
    using inv by (auto simp: window_inv_def)
  have m: "m \<notin> fst ` set ?A" using dist(2) ok(2) by fastforce
  have old: "snd p \<le> now" if p: "p \<in> set ?A" for p
  proof -
    obtain s where "(snd p, s, fst p) \<in> set rs" using admitted_time [OF p] by auto
    then show ?thesis using ok(2) by auto
  qed
  show ?case
  proof (cases "int (length ?kept) \<ge> mx")
    case True
    have "p \<in> set (live_set srv' (snd (admit w mx (r # rs))))"
      if "p \<in> set ?A" "snd p > now' - w" "\<bar>srv' - now'\<bar> \<le> 1000" "now \<le> now'" "srv \<le> srv'" for p now' srv'
      using live_denied [OF live [OF that] that(5), of now w] that True by (simp add: r admit_step)
    then show ?thesis using True dist unfolding window_inv_def by (auto simp: r admit_step)
  next
    case False
    have kept: "p \<in> set ?kept" if "p \<in> set ?A" "snd p > now - w" for p
      using live [OF that ok(1)] that by (simp add: script_kept_def)
    have "p \<in> set (live_set srv' (snd (admit w mx (r # rs))))"
      if "p = (m, now) \<or> p \<in> set ?A" "snd p > now' - w" "\<bar>srv' - now'\<bar> \<le> 1000" "now \<le> now'" "srv \<le> srv'" for p now' srv'
    proof -
      have "snd p \<le> now" using that(1) old [of p] by auto
      then have "\<not> srv + (w + 2000) \<le> srv'" using that(2,3) ok(1) by linarith
      moreover have "p \<in> set (zadd m now ?kept)" using that kept [of p] m by (auto simp: zadd_def)
      ultimately show ?thesis using False by (simp add: r admit_step live_set_def)
    qed
    then show ?thesis using False dist m unfolding window_inv_def by (auto simp: r admit_step)
  qed
qed

text \<open>The admissions in a window that ends at \<open>t\<close>.\<close>

definition in_window :: "int \<Rightarrow> int \<Rightarrow> (string \<times> int) list \<Rightarrow> (string \<times> int) list" where
  "in_window w t adm = filter (\<lambda>p. t - w < snd p \<and> snd p \<le> t) adm"

lemma window_bound:
  assumes "clocks_ok rs" "0 \<le> mx" "0 < w"
  shows "int (length (in_window w t (fst (admit w mx rs)))) \<le> mx"
  using assms(1)
proof (induction rs)
  case Nil
  then show ?case using assms(2) by (simp add: in_window_def)
next
  case (Cons r rs)
  obtain now srv m where r: "r = (now, srv, m)" by (cases r) auto
  let ?A = "fst (admit w mx rs)" and ?kept = "script_kept srv now w (snd (admit w mx rs))"
  have ok: "\<bar>srv - now\<bar> \<le> 1000" "\<forall>(n, s, m') \<in> set rs. n \<le> now \<and> s \<le> srv \<and> m' \<noteq> m" "clocks_ok rs"
    using Cons.prems r by auto
  note IH = Cons.IH [OF ok(3)] and inv = window_inv_run [OF ok(3), of w mx]
  show ?case
  proof (cases "int (length ?kept) \<ge> mx \<or> \<not> (t - w < now \<and> now \<le> t)")
    case True
    then show ?thesis using IH by (auto simp: r admit_step in_window_def)
  next
    case False
    have sub: "set (in_window w t ?A) \<subseteq> set ?kept"
    proof
      fix p
      assume p: "p \<in> set (in_window w t ?A)"
      then have "p \<in> set ?A" "snd p > now - w" using False by (auto simp: in_window_def)
      moreover have "p \<in> set (live_set srv (snd (admit w mx rs)))"
        by (rule window_live [OF inv clocks_after_later [OF ok(2) order_refl order_refl ok(1)] calculation])
      ultimately show "p \<in> set ?kept" by (simp add: script_kept_def)
    qed
    have "distinct ?A" using inv by (auto simp: window_inv_def distinct_map)
    then have "length (in_window w t ?A) \<le> length ?kept"
      using card_mono [OF _ sub] card_length [of ?kept] by (simp add: in_window_def distinct_card [symmetric])
    then show ?thesis using False by (auto simp: r admit_step in_window_def)
  qed
qed



lemma min_score_le: "min_score zs = Some s \<Longrightarrow> (\<exists>p \<in> set zs. snd p = s)"
  by (induction zs arbitrary: s) (auto split: option.splits simp: min_def split: if_splits)

lemma min_score_none: "min_score zs = None \<longleftrightarrow> zs = []"
  by (cases zs) (auto split: option.splits)

lemma ceil_seconds_ge: "ms \<le> ceil_seconds ms * 1000"
  unfolding ceil_seconds_def by (simp add: algebra_simps)

lemma set_never_overfull: "0 \<le> mx \<Longrightarrow> int (length (live_set srv (snd (admit w mx rs)))) \<le> mx"
proof (induction rs arbitrary: srv)
  case Nil
  then show ?case by (simp add: live_set_def)
next
  case (Cons r rs)
  obtain now srv0 m where r: "r = (now, srv0, m)" by (cases r) auto
  let ?K = "snd (admit w mx rs)" and ?kept = "script_kept srv0 now w (snd (admit w mx rs))"
  have "length ?kept \<le> length (live_set srv0 ?K)" by (simp add: script_kept_def)
  then have len: "int (length ?kept) \<le> mx" using Cons.IH [OF Cons.prems, of srv0] by linarith
  have "length (zadd m now ?kept) \<le> Suc (length ?kept)" by (simp add: zadd_def)
  then show ?case using len Cons.prems by (auto simp: r admit_step live_set_def denied_key_def split: option.splits)
qed

text \<open>A refused request is told a delay of at least one second after which the next request is
  admitted, if none comes in between: the delay is never too short.\<close>

theorem retry_after_suffices:
  assumes "checkSlidingWindow True srv now w mx m (snd (admit w mx rs)) = (res, key')" "\<not> allowed res" "0 < mx"
    and "now + 1000 * retryAfterSeconds res \<le> now'"
  shows "retryAfterSeconds res \<ge> 1 \<and> allowed (fst (checkSlidingWindow True srv' now' w mx m' key'))"
proof -
  let ?K = "snd (admit w mx rs)" and ?kept = "script_kept srv now w (snd (admit w mx rs))"
  have full: "int (length ?kept) \<ge> mx" and key': "key' = denied_key ?kept ?K"
    and res: "retryAfterSeconds res = max 1 (ceil_seconds (case min_score ?kept of None \<Rightarrow> w | Some s \<Rightarrow> max 0 (w - (now - s))))"
    using assms(1,2) by (auto simp: checkSlidingWindow_def script_cases window_reply_def Let_def split: if_splits)
  have "length ?kept \<le> length (live_set srv ?K)" by (simp add: script_kept_def)
  then have le: "int (length ?kept) \<le> mx" using set_never_overfull [of mx srv w rs] assms(3) by linarith
  have "?kept \<noteq> []" using full assms(3) by auto
  then obtain s where s: "min_score ?kept = Some s" using min_score_none by (cases "min_score ?kept") auto
  obtain p where p: "p \<in> set ?kept" "snd p = s" using min_score_le [OF s] by auto
  have "w - (now - s) \<le> 1000 * retryAfterSeconds res"
    using ceil_seconds_ge [of "max 0 (w - (now - s))"] res s by auto
  then have late: "s \<le> now' - w" using assms(4) by linarith
  have "length (filter (\<lambda>p. snd p > now' - w) ?kept) < length ?kept"
    by (rule length_filter_less [OF p(1)]) (use late p(2) in simp)
  then have "length (script_kept srv' now' w key') < nat mx"
    using le assms(3) by (auto simp: key' denied_key_def script_kept_def live_set_def split: option.splits)
  then have "\<not> int (length (script_kept srv' now' w key')) \<ge> mx" using assms(3) by linarith
  then show ?thesis using res by (simp add: checkSlidingWindow_def script_cases window_reply_def Let_def)
qed

theorem retry_after_suffices_witness:
  "\<exists>res key'. checkSlidingWindow True 12 12 1000 1 ''b'' (snd (admit 1000 1 [(10, 10, ''a'')])) = (res, key') \<and>
     \<not> allowed res \<and> allowed (fst (checkSlidingWindow True 1012 1012 1000 1 ''c'' key'))"
proof -
  obtain res key' where c: "checkSlidingWindow True 12 12 1000 1 ''b'' (snd (admit 1000 1 [(10, 10, ''a'')])) = (res, key')"
    by force
  then have "\<not> allowed res" "retryAfterSeconds res = 1"
    by (auto simp: checkSlidingWindow_def script_cases window_reply_def admit_step script_kept_def live_set_def
        zadd_def ceil_seconds_def Let_def)
  then show ?thesis using retry_after_suffices [OF c, of 1012 1012 "''c''"] c by simp
qed

end
