(* ===== verification/Settlement.thy ===== *)
theory Settlement
  imports Units Keyset Invoice_Machine
begin

section \<open>Settlement\<close>

text \<open>
  \<open>src/services/settlement.service.ts\<close>. A settlement with a payment distributor runs in
  five separate steps: a transaction that prepares an intent, one that claims it, the
  submission of the payout to the chain, a transaction that records its hash, and the
  transaction that settles the books. The distributor is outside the program: it is an
  argument that answers a payout and changes its own state \<open>'c\<close>. An amount in a text column
  is its ten-thousandths (\<open>Units.thy\<close>); row identifiers are lower-case UUIDs, which
  \<open>localeCompare\<close> orders as \<open><\<close> does.
\<close>

definition SYSTEM_SETTLEMENT_ACTOR :: string where "SYSTEM_SETTLEMENT_ACTOR = ''system''"

definition DECIMAL_SCALE_TO_STROOP_FACTOR :: int where "DECIMAL_SCALE_TO_STROOP_FACTOR = 10 ^ 3"

definition starts_with :: "string \<Rightarrow> string \<Rightarrow> bool" where
  "starts_with p s \<longleftrightarrow> take (length p) s = p"

definition isSystemSettlementActor :: "string option \<Rightarrow> bool" where
  "isSystemSettlementActor actorWallet =
     (case actorWallet of
        None \<Rightarrow> False
      | Some w \<Rightarrow> w \<noteq> [] \<and>
          (w = SYSTEM_SETTLEMENT_ACTOR \<or> starts_with (SYSTEM_SETTLEMENT_ACTOR @ '':'') w))"

record settle_input =
  si_invoiceId :: string
  si_proceeds :: decimal
  si_actorWallet :: string
  si_txHash :: "string option"
  si_trigger :: "string option"
  si_systemTrigger :: bool
  si_sellerId :: "string option"

record distributor_config =
  dc_feeRecipient :: string
  dc_feeBps :: int

record payout =
  po_invoiceId :: string
  po_totalAmountStroops :: int
  po_feeRecipient :: string
  po_feeBps :: int
  po_recipients :: "(string \<times> int) list"

type_synonym 'c distributor = "payout \<Rightarrow> 'c \<Rightarrow> string result \<times> 'c"

record return_row =
  rr_investmentId :: string
  rr_investorId :: string
  rr_amount :: amt
  rr_return :: amt

record returns_summary =
  rs_totalFunded :: amt
  rs_distributable :: amt
  rs_fee :: amt
  rs_totalDistributed :: amt
  rs_remainder :: amt
  rs_returns :: "return_row list"

subsection \<open>Shares\<close>

text \<open>The loop of \<open>calculateInvestorReturns\<close> over (id, investor, amount).\<close>

fun return_rows :: "int \<Rightarrow> int \<Rightarrow> (string \<times> string \<times> amt) list \<Rightarrow> return_row list result" where
  "return_rows t p [] = Inr []"
| "return_rows t p ((i, investor, a) # invs) =
     and_then (computeInvestorReturn a t p) (\<lambda>r.
     and_then (return_rows t p invs) (\<lambda>rows.
       Inr (\<lparr>rr_investmentId = i, rr_investorId = investor, rr_amount = a, rr_return = r\<rparr> # rows)))"

definition calculateInvestorReturns ::
    "decimal_lib \<Rightarrow> (string \<times> string \<times> amt) list \<Rightarrow> decimal \<Rightarrow> int \<Rightarrow> returns_summary result" where
  "calculateInvestorReturns D invs proceeds feeBps =
     (if proceeds \<le> 0 then Inl (service_error ''INVALID_PROCEEDS'')
      else let totalFunded = dsum D (map (\<lambda>(i, investor, a). dec a) invs)
           in if totalFunded \<le> 0 then Inl (service_error ''INVALID_FUNDED_AMOUNT'')
           else let totalFundedScaled = toFixed4 D totalFunded;
                    proceedsScaled = toFixed4 D proceeds;
                    feeScaled = (if feeBps > 0 then trunc_div (proceedsScaled * feeBps) 10000 else 0);
                    distributableScaled = proceedsScaled - feeScaled
                in and_then (return_rows totalFundedScaled distributableScaled invs) (\<lambda>rows.
                     let sumOfReturnsScaled = sum_list (map rr_return rows)
                     in Inr \<lparr>rs_totalFunded = totalFundedScaled, rs_distributable = distributableScaled,
                             rs_fee = feeScaled, rs_totalDistributed = sumOfReturnsScaled,
                             rs_remainder = distributableScaled - sumOfReturnsScaled, rs_returns = rows\<rparr>))"

subsection \<open>The intent\<close>

definition confirmed_investments :: "string \<Rightarrow> db \<Rightarrow> investment list" where
  "confirmed_investments i d = filter (\<lambda>m. im_invoiceId m = i \<and> im_status m = InvCONFIRMED) (investments d)"

text \<open>\<open>investment.investor?.stellarAddress ?? investment.investorId\<close>\<close>

definition recipient_of :: "db \<Rightarrow> investment \<Rightarrow> string" where
  "recipient_of d m =
     (case users d (im_investorId m) of
        None \<Rightarrow> im_investorId m
      | Some u \<Rightarrow> (case us_stellarAddress u of None \<Rightarrow> im_investorId m | Some a \<Rightarrow> a))"

definition total_invested :: "decimal_lib \<Rightarrow> investment list \<Rightarrow> decimal" where
  "total_invested D ms = dsum D (map (\<lambda>m. dec (im_amount m)) ms)"

text \<open>Whether the actor's wallet is somebody else's: the seller has an address and it differs.\<close>

definition wallet_mismatch :: "db \<Rightarrow> invoice \<Rightarrow> string \<Rightarrow> bool" where
  "wallet_mismatch d v actorWallet \<longleftrightarrow>
     actorWallet \<noteq> [] \<and> iv_sellerId v \<noteq> [] \<and>
     (case users d (iv_sellerId v) of
        None \<Rightarrow> False
      | Some u \<Rightarrow> truthy (us_stellarAddress u) \<and> us_stellarAddress u \<noteq> Some actorWallet)"

definition seller_mismatch :: "invoice \<Rightarrow> string option \<Rightarrow> bool" where
  "seller_mismatch v sellerId \<longleftrightarrow> truthy sellerId \<and> iv_sellerId v \<noteq> [] \<and> Some (iv_sellerId v) \<noteq> sellerId"

definition intent_line :: "db \<Rightarrow> int \<Rightarrow> int \<Rightarrow> investment \<Rightarrow> intent_investment result" where
  "intent_line d t p m =
     and_then (computeInvestorReturn (im_amount m) t p) (\<lambda>r.
       Inr \<lparr>ii_id = im_id m, ii_investorId = im_investorId m, ii_amount = im_amount m,
            ii_recipient = recipient_of d m, ii_returnStroops = r * DECIMAL_SCALE_TO_STROOP_FACTOR\<rparr>)"

text \<open>The parameters \<open>payload\<close> fixes, with an empty list of investments.\<close>

definition intent_terms :: "decimal_lib \<Rightarrow> settle_input \<Rightarrow> distributor_config \<Rightarrow> intent_payload" where
  "intent_terms D inp cfg =
     \<lparr>ip_proceeds = toFixed4 D (si_proceeds inp), ip_actorWallet = si_actorWallet inp,
      ip_sellerId = si_sellerId inp,
      ip_trigger = (case si_trigger inp of None \<Rightarrow> ''admin_settled''
                    | Some t \<Rightarrow> if t = ''system_matured'' then ''maturity_settled'' else t),
      ip_feeRecipient = dc_feeRecipient cfg, ip_feeBps = dc_feeBps cfg, ip_investments = []\<rparr>"

definition prepareSettlementIntent ::
    "decimal_lib \<Rightarrow> string \<Rightarrow> intent_payload \<Rightarrow> string \<Rightarrow> db \<Rightarrow> error + (intent \<times> db)" where
  "prepareSettlementIntent D invoiceId terms new_id d =
     (if ip_feeBps terms < 0 \<or> ip_feeBps terms > 10000
      then Inl (ServiceError ''INVALID_DISTRIBUTOR_FEE'' 400)
      else case invoices d invoiceId of
        None \<Rightarrow> Inl (ServiceError ''INVOICE_NOT_FOUND'' 404)
      | Some v \<Rightarrow>
          if seller_mismatch v (ip_sellerId terms) then Inl (ServiceError ''FORBIDDEN'' 403)
          else if wallet_mismatch d v (ip_actorWallet terms) then Inl (ServiceError ''FORBIDDEN'' 403)
          else if iv_status v \<noteq> FUNDED
          then Inl (if iv_status v = SETTLED then ServiceError ''invoice_already_settled'' 409
                    else ServiceError ''INVALID_INVOICE_STATUS'' 400)
          else case find (\<lambda>n. in_invoiceId n = iv_id v) (intents d) of
            Some n \<Rightarrow>
              if (in_payload n)\<lparr>ip_investments := []\<rparr> \<noteq> terms\<lparr>ip_investments := []\<rparr>
              then Inl (ServiceError ''SETTLEMENT_INTENT_CONFLICT'' 409)
              else Inr (n, d)
          | None \<Rightarrow>
              let ms = confirmed_investments (iv_id v) d
              in if ms = [] then Inl (service_error ''NO_CONFIRMED_INVESTMENTS'')
              else let totalFundedScaled = toFixed4 D (total_invested D ms);
                       proceedsScaled = ip_proceeds terms;
                       feeScaled = trunc_div (proceedsScaled * ip_feeBps terms) 10000;
                       distributableScaled = proceedsScaled - feeScaled
                   in and_then (map_result (intent_line d totalFundedScaled distributableScaled) ms) (\<lambda>lines.
                        let n = \<lparr>in_id = new_id, in_invoiceId = iv_id v, in_status = PREPARED,
                                 in_payload = terms\<lparr>ip_investments := isort_by (\<lambda>a b. ii_id a < ii_id b) lines\<rparr>,
                                 in_transactionHash = None\<rparr>
                        in Inr (n, save_intent n d)))"

definition find_intent :: "string \<Rightarrow> db \<Rightarrow> intent option" where
  "find_intent i d = find (\<lambda>n. in_id n = i) (intents d)"

definition claimSettlementIntent :: "string \<Rightarrow> db \<Rightarrow> error + (intent \<times> db)" where
  "claimSettlementIntent i d =
     (case find_intent i d of
        None \<Rightarrow> Inl (ServiceError ''SETTLEMENT_INTENT_NOT_FOUND'' 404)
      | Some n \<Rightarrow>
          if in_status n \<noteq> PREPARED then Inl (ServiceError ''SETTLEMENT_RECONCILIATION_REQUIRED'' 409)
          else let n' = n\<lparr>in_status := SUBMITTING\<rparr> in Inr (n', save_intent n' d))"

definition markSettlementDistributed :: "string \<Rightarrow> string \<Rightarrow> db \<Rightarrow> error + (intent \<times> db)" where
  "markSettlementDistributed i h d =
     (case find_intent i d of
        None \<Rightarrow> Inl (ServiceError ''SETTLEMENT_INTENT_INVALID'' 409)
      | Some n \<Rightarrow>
          if in_status n \<noteq> SUBMITTING then Inl (ServiceError ''SETTLEMENT_INTENT_INVALID'' 409)
          else let n' = n\<lparr>in_status := DISTRIBUTED, in_transactionHash := Some h\<rparr>
               in Inr (n', save_intent n' d))"

text \<open>The payout submitted for a claimed intent.\<close>

definition intent_payout :: "string \<Rightarrow> intent_payload \<Rightarrow> payout" where
  "intent_payout invoiceId p =
     \<lparr>po_invoiceId = invoiceId,
      po_totalAmountStroops = ip_proceeds p * DECIMAL_SCALE_TO_STROOP_FACTOR,
      po_feeRecipient = ip_feeRecipient p, po_feeBps = ip_feeBps p,
      po_recipients = map (\<lambda>l. (ii_recipient l, ii_returnStroops l)) (ip_investments p)\<rparr>"

subsection \<open>Settling the books\<close>

record settle_result =
  so_invoiceId :: string
  so_sellerId :: string
  so_proceeds :: amt
  so_totalDistributed :: amt
  so_remainder :: amt
  so_settlements :: "return_row list"
  so_transactionHash :: "string option"

text \<open>The loop over the investments: each row is saved as settled and its return recorded.\<close>

fun settle_investments :: "int \<Rightarrow> int \<Rightarrow> string \<Rightarrow> investment list \<Rightarrow> db \<Rightarrow> error + (return_row list \<times> db)" where
  "settle_investments t p i [] d = Inr ([], d)"
| "settle_investments t p i (m # ms) d =
     and_then (computeInvestorReturn (im_amount m) t p) (\<lambda>r.
       let d1 = save_investment (m\<lparr>im_actualReturn := Some r, im_status := InvSETTLED\<rparr>) d;
           d2 = d1\<lparr>returns := returns d1 @ [\<lparr>ir_invoiceId = i, ir_investmentId = im_id m,
                                              ir_investorId = im_investorId m, ir_amount = r\<rparr>]\<rparr>
       in and_then (settle_investments t p i ms d2) (\<lambda>(rows, d3).
            Inr (\<lparr>rr_investmentId = im_id m, rr_investorId = im_investorId m, rr_amount = im_amount m,
                   rr_return = r\<rparr> # rows, d3)))"

definition snapshot :: "(string \<times> amt) list \<Rightarrow> (string \<times> amt) list" where
  "snapshot ls = isort_by (\<lambda>a b. fst a < fst b) ls"

definition complete_intent :: "intent option \<Rightarrow> string option \<Rightarrow> db \<Rightarrow> db result" where
  "complete_intent settlementIntent h d =
     (case settlementIntent of
        None \<Rightarrow> Inr d
      | Some n0 \<Rightarrow>
          (case find_intent (in_id n0) d of
             None \<Rightarrow> Inl (ServiceError ''SETTLEMENT_INTENT_INVALID'' 409)
           | Some n \<Rightarrow>
               if in_status n \<noteq> DISTRIBUTED \<or> in_transactionHash n \<noteq> h
               then Inl (ServiceError ''SETTLEMENT_INTENT_INVALID'' 409)
               else Inr (save_intent (n\<lparr>in_status := COMPLETED\<rparr>) d)))"

text \<open>The checks at the start of the settling transaction: the invoice and its confirmed
  investments.\<close>

definition settle_checks :: "settle_input \<Rightarrow> intent_payload option \<Rightarrow> db \<Rightarrow> (invoice \<times> investment list) result" where
  "settle_checks inp payload d =
     (case invoices d (si_invoiceId inp) of
        None \<Rightarrow> Inl (ServiceError ''INVOICE_NOT_FOUND'' 404)
      | Some v \<Rightarrow>
          let authorizedForAutomatedSettlement =
                isSystemSettlementActor (Some (si_actorWallet inp)) \<or> si_systemTrigger inp
          in if seller_mismatch v (si_sellerId inp) then Inl (ServiceError ''FORBIDDEN'' 403)
          else if \<not> authorizedForAutomatedSettlement \<and> wallet_mismatch d v (si_actorWallet inp)
          then Inl (ServiceError ''FORBIDDEN'' 403)
          else if iv_status v = SETTLED then Inl (ServiceError ''invoice_already_settled'' 409)
          else if iv_status v \<noteq> FUNDED then Inl (service_error ''INVALID_INVOICE_STATUS'')
          else let ms = confirmed_investments (iv_id v) d
               in if ms = [] then Inl (service_error ''NO_CONFIRMED_INVESTMENTS'')
               else if (case payload of
                          None \<Rightarrow> False
                        | Some p \<Rightarrow> snapshot (map (\<lambda>m. (im_id m, im_amount m)) ms) \<noteq>
                                    snapshot (map (\<lambda>l. (ii_id l, ii_amount l)) (ip_investments p)))
               then Inl (ServiceError ''SETTLEMENT_SNAPSHOT_CHANGED'' 409)
               else Inr (v, ms))"

text \<open>The amounts: total funded, fee and distributable, in ten-thousandths.\<close>

definition settle_amounts :: "decimal_lib \<Rightarrow> distributor_config option \<Rightarrow> decimal \<Rightarrow> investment list \<Rightarrow> int \<times> int \<times> int" where
  "settle_amounts D cfg proceeds ms =
     (let totalFundedScaled = toFixed4 D (total_invested D ms);
          proceedsScaled = toFixed4 D proceeds;
          feeScaled = (case cfg of None \<Rightarrow> 0 | Some k \<Rightarrow> trunc_div (proceedsScaled * dc_feeBps k) 10000)
      in (totalFundedScaled, feeScaled, proceedsScaled - feeScaled))"

text \<open>What the transaction writes once the checks have passed and the hash is known.\<close>

definition settle_writes ::
    "decimal_lib \<Rightarrow> distributor_config option \<Rightarrow> settle_input \<Rightarrow> intent option \<Rightarrow> string option \<Rightarrow>
     int \<Rightarrow> nat \<Rightarrow> invoice \<Rightarrow> investment list \<Rightarrow> db \<Rightarrow> error + ((settle_result \<times> invoice_transition) \<times> db)" where
  "settle_writes D cfg inp settlementIntent h now ref v ms d =
     (let (t, fee, distributable) = settle_amounts D cfg (si_proceeds inp) ms;
          d0 = (if truthy h
                then d\<lparr>payments := payments d @ [\<lparr>tx_userId = iv_sellerId v, tx_invoiceId = iv_id v,
                         tx_investmentId = None, tx_amount = toFixed4 D (si_proceeds inp),
                         tx_hash = (case h of None \<Rightarrow> [] | Some x \<Rightarrow> x)\<rparr>]\<rparr>
                else d)
      in and_then (settle_investments t distributable (iv_id v) ms d0) (\<lambda>(rows, d1).
         let distributed = sum_list (map rr_return rows);
             remainder = distributable - distributed;
             v' = v\<lparr>iv_settlementRemainder := remainder\<rparr>;
             d2 = d1\<lparr>remainders := remainders d1 @ [\<lparr>sr_invoiceId = iv_id v, sr_remainder = remainder,
                      sr_total = toFixed4 D (si_proceeds inp), sr_distributed = distributed\<rparr>]\<rparr>;
             reason = (case si_trigger inp of None \<Rightarrow> ''admin_settled''
                       | Some tr \<Rightarrow> if tr = ''system_matured'' then ''maturity_settled'' else tr)
         in and_then (transition entityManagerTransitionStore v' SETTLED
                        \<lparr>a_role = System, a_id = None, a_wallet = Some (si_actorWallet inp)\<rparr>
                        reason empty_context now ref d2) (\<lambda>(tr, d3).
            and_then (complete_intent settlementIntent h d3) (\<lambda>d4.
              Inr ((\<lparr>so_invoiceId = iv_id v, so_sellerId = iv_sellerId v,
                     so_proceeds = toFixed4 D (si_proceeds inp), so_totalDistributed = distributed,
                     so_remainder = remainder, so_settlements = rows, so_transactionHash = h\<rparr>, tr), d4)))))"

definition or_hash :: "string option \<Rightarrow> string option \<Rightarrow> string option" where
  "or_hash a b = (case a of None \<Rightarrow> b | Some _ \<Rightarrow> a)"

text \<open>The transaction itself. With a distributor and still no hash it submits a payout from
  inside the transaction.\<close>

definition settle_tx ::
    "decimal_lib \<Rightarrow> 'c distributor option \<Rightarrow> distributor_config option \<Rightarrow> settle_input \<Rightarrow> intent option \<Rightarrow>
     intent_payload option \<Rightarrow> string option \<Rightarrow> int \<Rightarrow> nat \<Rightarrow> db \<Rightarrow> 'c \<Rightarrow>
     (error + ((settle_result \<times> invoice_transition) \<times> db)) \<times> 'c" where
  "settle_tx D distr cfg inp settlementIntent payload dist_hash now ref d c =
     (case settle_checks inp payload d of
        Inl e \<Rightarrow> (Inl e, c)
      | Inr (v, ms) \<Rightarrow>
          let h = or_hash (si_txHash inp) dist_hash
          in case distr of
               None \<Rightarrow> (settle_writes D cfg inp settlementIntent h now ref v ms d, c)
             | Some send \<Rightarrow>
                 if truthy h then (settle_writes D cfg inp settlementIntent h now ref v ms d, c)
                 else (case cfg of
                   None \<Rightarrow> (Inl (service_error ''DISTRIBUTOR_CONFIGURATION_MISSING''), c)
                 | Some k \<Rightarrow>
                     let (t, fee, distributable) = settle_amounts D cfg (si_proceeds inp) ms
                     in case map_result (\<lambda>m. and_then (computeInvestorReturn (im_amount m) t distributable) (\<lambda>r.
                                Inr (recipient_of d m, r * DECIMAL_SCALE_TO_STROOP_FACTOR))) ms of
                          Inl e \<Rightarrow> (Inl e, c)
                        | Inr rs \<Rightarrow>
                            (case send \<lparr>po_invoiceId = iv_id v,
                                       po_totalAmountStroops = toFixed4 D (si_proceeds inp) * DECIMAL_SCALE_TO_STROOP_FACTOR,
                                       po_feeRecipient = dc_feeRecipient k, po_feeBps = dc_feeBps k,
                                       po_recipients = rs\<rparr> c of
                               (Inl e, c') \<Rightarrow> (Inl e, c')
                             | (Inr x, c') \<Rightarrow>
                                 (settle_writes D cfg inp settlementIntent (Some x) now ref v ms d, c'))))"

subsection \<open>The whole call\<close>

text \<open>A transaction that also talks to the chain: on an error the database is rolled back, the
  chain is not.\<close>

definition run_settle_tx :: "(db \<Rightarrow> 'c \<Rightarrow> (error + ('a \<times> db)) \<times> 'c) \<Rightarrow> db \<Rightarrow> 'c \<Rightarrow> 'a result \<times> db \<times> 'c" where
  "run_settle_tx f d c =
     (case f d c of (Inl e, c') \<Rightarrow> (Inl e, d, c') | (Inr (a, d'), c') \<Rightarrow> (Inr a, d', c'))"

text \<open>The payout part of \<open>settleInvoice\<close>: what it returns are the intent, its payload and the
  hash; every step commits on its own.\<close>

definition pay_out ::
    "decimal_lib \<Rightarrow> 'c distributor \<Rightarrow> distributor_config \<Rightarrow> settle_input \<Rightarrow> string \<Rightarrow> db \<Rightarrow> 'c \<Rightarrow>
     (intent \<times> intent_payload \<times> string) result \<times> db \<times> 'c" where
  "pay_out D send cfg inp new_id d c =
     (case run_tx (prepareSettlementIntent D (si_invoiceId inp) (intent_terms D inp cfg) new_id) d of
        (Inl e, d1) \<Rightarrow> (Inl e, d1, c)
      | (Inr n, d1) \<Rightarrow>
          (case in_status n of
             SUBMITTING \<Rightarrow> (Inl (ServiceError ''SETTLEMENT_RECONCILIATION_REQUIRED'' 409), d1, c)
           | PREPARED \<Rightarrow>
               (case run_tx (claimSettlementIntent (in_id n)) d1 of
                  (Inl e, d2) \<Rightarrow> (Inl e, d2, c)
                | (Inr n2, d2) \<Rightarrow>
                    (case send (intent_payout (si_invoiceId inp) (in_payload n)) c of
                       (Inl e, c') \<Rightarrow> (Inl e, d2, c')
                     | (Inr h, c') \<Rightarrow>
                         (case run_tx (markSettlementDistributed (in_id n2) h) d2 of
                            (Inl e, d3) \<Rightarrow> (Inl e, d3, c')
                          | (Inr n3, d3) \<Rightarrow> (Inr (n3, in_payload n, h), d3, c'))))
           | DISTRIBUTED \<Rightarrow>
               (case in_transactionHash n of
                  None \<Rightarrow> (Inl (ServiceError ''SETTLEMENT_RECONCILIATION_REQUIRED'' 409), d1, c)
                | Some h \<Rightarrow>
                    if h = [] then (Inl (ServiceError ''SETTLEMENT_RECONCILIATION_REQUIRED'' 409), d1, c)
                    else (Inr (n, in_payload n, h), d1, c))
           | COMPLETED \<Rightarrow> (Inl (ServiceError ''SETTLEMENT_RECONCILIATION_REQUIRED'' 409), d1, c)))"

definition settleInvoice ::
    "decimal_lib \<Rightarrow> 'c distributor option \<Rightarrow> distributor_config option \<Rightarrow> settle_input \<Rightarrow> string \<Rightarrow>
     int \<Rightarrow> nat \<Rightarrow> db \<Rightarrow> 'c \<Rightarrow> (settle_result \<times> invoice_transition) result \<times> db \<times> 'c" where
  "settleInvoice D distr cfg inp new_id now ref d c =
     (if si_proceeds inp \<le> 0 then (Inl (service_error ''INVALID_PROCEEDS''), d, c)
      else case distr of
        None \<Rightarrow> run_settle_tx (settle_tx D distr cfg inp None None None now ref) d c
      | Some send \<Rightarrow>
          (case cfg of
             None \<Rightarrow> (Inl (service_error ''DISTRIBUTOR_CONFIGURATION_MISSING''), d, c)
           | Some k \<Rightarrow>
               (case pay_out D send k inp new_id d c of
                  (Inl e, d1, c1) \<Rightarrow> (Inl e, d1, c1)
                | (Inr (n, p, h), d1, c1) \<Rightarrow>
                    run_settle_tx (settle_tx D distr cfg inp (Some n) (Some p) (Some h) now ref) d1 c1)))"

text \<open>What follows the commit: the notifications sent to the holders.\<close>

record holder_notification =
  hn_userId :: string
  hn_investmentId :: string
  hn_amount :: amt

definition settlement_notifications :: "settle_result \<Rightarrow> holder_notification list" where
  "settlement_notifications result =
     map (\<lambda>s. \<lparr>hn_userId = rr_investorId s, hn_investmentId = rr_investmentId s, hn_amount = rr_return s\<rparr>)
       (so_settlements result)"

subsection \<open>Returns add up\<close>

lemma return_rows_shares:
  assumes "0 < t" "0 \<le> p" "\<forall>(i, v, a) \<in> set invs. 0 \<le> a"
  shows "\<exists>rows. return_rows t p invs = Inr rows \<and>
     map rr_return rows = map (\<lambda>a. (a * p) div t) (map (\<lambda>(i, v, a). a) invs) \<and>
     map rr_amount rows = map (\<lambda>(i, v, a). a) invs \<and> map rr_investmentId rows = map fst invs"
  using assms(3)
proof (induction invs)
  case (Cons x invs)
  obtain i v a where x: "x = (i, v, a)" by (cases x) auto
  then show ?case using Cons assms(1,2) by (auto simp: computeInvestorReturn_def)
qed simp

text \<open>The amounts: what the investors put in, when no sum exceeds the working precision.\<close>

lemma total_dec:
  assumes "decimal_ok D" "\<forall>a \<in> set as. 0 \<le> a" "amt_ok (sum_list as)"
  shows "toFixed4 D (dsum D (map dec as)) = sum_list as"
  by (simp add: dsum_dec [OF assms] toFixed4_dec [OF assms(1)])

lemma fee_bounds:
  assumes "0 \<le> p" "0 \<le> bps" "bps \<le> 10000"
  shows "trunc_div (p * bps) 10000 = p * bps div 10000 \<and> 0 \<le> p * bps div 10000 \<and> p * bps div 10000 \<le> p"
proof -
  have "p * bps \<le> p * 10000" using assms by (simp add: mult_left_mono)
  then have "p * bps div 10000 \<le> p * 10000 div 10000" by (rule zdiv_mono1) simp
  then show ?thesis using assms by (simp add: trunc_div_nonneg pos_imp_zdiv_nonneg_iff)
qed

text \<open>The numbers every settlement rests on, for the amounts \<open>as\<close> of the investors.\<close>

lemma pro_rata_books:
  fixes p :: int
  assumes "0 < sum_list as" "0 \<le> p"
  shows "sum_list (map (\<lambda>a. (a * p) div sum_list as) as) \<le> p"
    and "p - sum_list (map (\<lambda>a. (a * p) div sum_list as) as) < int (length as)"
proof -
  have "as \<noteq> []" using assms(1) by auto
  then show "sum_list (map (\<lambda>a. (a * p) div sum_list as) as) \<le> p"
    "p - sum_list (map (\<lambda>a. (a * p) div sum_list as) as) < int (length as)"
    using floors_bounds [OF assms] by blast+
qed

text \<open>C4: the split of proceeds is exact to the ten-thousandth: fee and distributable add up to the
  proceeds, returns and remainder add up to the distributable, the remainder is
  never negative and smaller than one unit per investor, and every investor gets the floor of
  the pro-rata share.\<close>

theorem returns_conserve_proceeds:
  assumes "decimal_ok D" "0 < proceeds" "0 \<le> feeBps" "feeBps \<le> 10000"
    and "\<forall>(i, v, a) \<in> set invs. 0 \<le> a" "0 < sum_list (map (\<lambda>(i, v, a). a) invs)"
    and "amt_ok (sum_list (map (\<lambda>(i, v, a). a) invs))"
  shows "\<exists>s. calculateInvestorReturns D invs proceeds feeBps = Inr s \<and>
     rs_fee s + rs_distributable s = toFixed4 D proceeds \<and>
     rs_totalDistributed s + rs_remainder s = rs_distributable s \<and>
     sum_list (map rr_return (rs_returns s)) = rs_totalDistributed s \<and>
     0 \<le> rs_fee s \<and> 0 \<le> rs_remainder s \<and> rs_remainder s < int (length invs) \<and>
     map rr_return (rs_returns s) =
       map (\<lambda>(i, v, a). (a * rs_distributable s) div sum_list (map (\<lambda>(i, v, a). a) invs)) invs"
proof -
  let ?as = "map (\<lambda>(i, v, a). a) invs" and ?p = "toFixed4 D proceeds"
  let ?fee = "?p * feeBps div 10000"
  have p: "0 \<le> ?p" using toFixed4_mono [OF assms(1), of 0 proceeds] toFixed4_dec [OF assms(1), of 0] assms(2) by simp
  note fee = fee_bounds [OF p assms(3,4)]
  have nn: "\<forall>a \<in> set ?as. 0 \<le> a" using assms(5) by auto
  have dm: "map (\<lambda>(i, v, a). dec a) invs = map dec ?as" by auto
  have tot: "dsum D (map (\<lambda>(i, v, a). dec a) invs) = dec (sum_list ?as)"
    unfolding dm by (rule dsum_dec [OF assms(1) nn assms(7)])
  have d: "0 \<le> ?p - ?fee" using fee by simp
  obtain rows where rows: "return_rows (sum_list ?as) (?p - ?fee) invs = Inr rows"
    "map rr_return rows = map (\<lambda>a. (a * (?p - ?fee)) div sum_list ?as) ?as"
    using return_rows_shares [OF assms(6) d assms(5)] by auto
  have f: "(if feeBps > 0 then trunc_div (?p * feeBps) 10000 else 0) = ?fee" using fee assms(3) by auto
  have calc: "calculateInvestorReturns D invs proceeds feeBps = Inr \<lparr>rs_totalFunded = sum_list ?as,
      rs_distributable = ?p - ?fee, rs_fee = ?fee, rs_totalDistributed = sum_list (map rr_return rows),
      rs_remainder = ?p - ?fee - sum_list (map rr_return rows), rs_returns = rows\<rparr>"
    using assms(2,6) rows(1) f by (simp add: calculateInvestorReturns_def tot toFixed4_dec [OF assms(1)] Let_def)
  show ?thesis
    using pro_rata_books [OF assms(6) d] fee rows(2)
    unfolding calc by (auto simp: o_def case_prod_beta)
qed

theorem returns_conserve_proceeds_witness:
  "\<exists>s. calculateInvestorReturns exact_decimal [(''a'', ''x'', 1), (''b'', ''y'', 2)] 1 100 = Inr s \<and>
     rs_fee s + rs_distributable s = toFixed4 exact_decimal 1 \<and> rs_remainder s < 2"
  using returns_conserve_proceeds [OF exact_decimal_ok, of 1 100 "[(''a'', ''x'', 1), (''b'', ''y'', 2)]"]
  by (auto simp: amt_ok_def)

subsection \<open>What a settlement writes\<close>

definition settled_row :: "int \<Rightarrow> int \<Rightarrow> investment \<Rightarrow> investment" where
  "settled_row t p m = m\<lparr>im_actualReturn := Some ((im_amount m * p) div t), im_status := InvSETTLED\<rparr>"

definition return_record :: "int \<Rightarrow> int \<Rightarrow> string \<Rightarrow> investment \<Rightarrow> investor_return" where
  "return_record t p i m = \<lparr>ir_invoiceId = i, ir_investmentId = im_id m, ir_investorId = im_investorId m,
     ir_amount = (im_amount m * p) div t\<rparr>"

lemma investor_return_Inr: "computeInvestorReturn a t p = Inr r \<Longrightarrow> r = (a * p) div t"
  by (auto simp: computeInvestorReturn_def split: if_splits)

lemma settle_investments_effect:
  assumes "settle_investments t p i ms d = Inr (rows, d')"
  shows "map rr_return rows = map (\<lambda>m. (im_amount m * p) div t) ms \<and>
     d' = d\<lparr>investments := foldl (\<lambda>xs m. upsert im_id (settled_row t p m) xs) (investments d) ms,
            returns := returns d @ map (return_record t p i) ms\<rparr>"
  using assms
proof (induction ms arbitrary: d rows)
  case (Cons m ms)
  then obtain r rows' d2 where r: "computeInvestorReturn (im_amount m) t p = Inr r"
    and s: "settle_investments t p i ms
       (save_investment (m\<lparr>im_actualReturn := Some r, im_status := InvSETTLED\<rparr>) d
          \<lparr>returns := returns d @ [\<lparr>ir_invoiceId = i, ir_investmentId = im_id m, ir_investorId = im_investorId m, ir_amount = r\<rparr>]\<rparr>)
       = Inr (rows', d')" and rows: "map rr_return rows = r # map rr_return rows'"
    by (auto simp: result_simps frame_simps Let_def)
  show ?case using Cons.IH [OF s] investor_return_Inr [OF r] rows
    by (simp add: save_investment_def settled_row_def return_record_def)
qed simp

lemma upsert_map:
  "r' \<in> set xs \<Longrightarrow> k r' = k r \<Longrightarrow> distinct (map k xs) \<Longrightarrow> upsert k r xs = map (\<lambda>y. if k y = k r then r else y) xs"
proof (induction xs)
  case (Cons x xs)
  show ?case
  proof (cases "k x = k r")
    case True
    then have "\<forall>y \<in> set xs. k y \<noteq> k r" using Cons.prems(3) by (auto simp: image_iff)
    then have "map (\<lambda>y. if k y = k r then r else y) xs = xs" by (simp add: map_idI)
    then show ?thesis using True by simp
  next
    case False
    then show ?thesis using Cons by auto
  qed
qed simp

lemma upsert_all:
  assumes "distinct (map k xs)" "\<forall>m \<in> set ms. k m \<in> k ` set xs \<and> k (f m) = k m" "distinct (map k ms)"
  shows "foldl (\<lambda>xs m. upsert k (f m) xs) xs ms =
     map (\<lambda>y. case map_of (map (\<lambda>m. (k m, f m)) ms) (k y) of None \<Rightarrow> y | Some z \<Rightarrow> z) xs"
  using assms
proof (induction ms arbitrary: xs)
  case (Cons m ms)
  obtain r' where r': "r' \<in> set xs" "k r' = k (f m)" using Cons.prems(2) by auto
  let ?xs = "map (\<lambda>y. if k y = k m then f m else y) xs"
  have u: "upsert k (f m) xs = ?xs"
    using upsert_map [OF r' Cons.prems(1)] Cons.prems(2) by simp
  have k: "map k ?xs = map k xs" using Cons.prems(2) by auto
  have "k m \<notin> k ` set ms" using Cons.prems(3) by auto
  then have no: "map_of (map (\<lambda>m. (k m, f m)) ms) (k m) = None" by (auto simp: map_of_eq_None_iff o_def image_iff)
  have km: "k (f m) = k m" using Cons.prems(2) by simp
  have "foldl (\<lambda>xs m. upsert k (f m) xs) ?xs ms =
      map (\<lambda>y. case map_of (map (\<lambda>m. (k m, f m)) ms) (k y) of None \<Rightarrow> y | Some z \<Rightarrow> z) ?xs"
  proof (rule Cons.IH)
    show "distinct (map k ?xs)" by (simp only: k Cons.prems(1))
    have "k ` set ?xs = k ` set xs" using k by (metis set_map)
    then show "\<forall>m \<in> set ms. k m \<in> k ` set ?xs \<and> k (f m) = k m" using Cons.prems(2) by auto
    show "distinct (map k ms)" using Cons.prems(3) by simp
  qed
  then show ?case using no km by (auto simp: u)
qed simp

lemma settled_investments:
  assumes "distinct (map im_id (investments d))" "ms = confirmed_investments i d"
  shows "foldl (\<lambda>xs m. upsert im_id (settled_row t p m) xs) (investments d) ms =
     map (\<lambda>m. if m \<in> set ms then settled_row t p m else m) (investments d)"
proof -
  have sub: "set ms \<subseteq> set (investments d)" by (auto simp: assms(2) confirmed_investments_def)
  have dm: "distinct (map im_id ms)" unfolding assms(2) confirmed_investments_def
    by (rule distinct_map_filter [OF assms(1)])
  have id: "im_id (settled_row t p m) = im_id m" for m by (simp add: settled_row_def)
  have "foldl (\<lambda>xs m. upsert im_id (settled_row t p m) xs) (investments d) ms =
     map (\<lambda>y. case map_of (map (\<lambda>m. (im_id m, settled_row t p m)) ms) (im_id y) of None \<Rightarrow> y | Some z \<Rightarrow> z) (investments d)"
    by (rule upsert_all) (use assms(1) sub dm id in auto)
  also have "\<dots> = map (\<lambda>m. if m \<in> set ms then settled_row t p m else m) (investments d)"
  proof (rule map_cong [OF refl])
    fix m
    assume m: "m \<in> set (investments d)"
    show "(case map_of (map (\<lambda>m. (im_id m, settled_row t p m)) ms) (im_id m) of None \<Rightarrow> m | Some z \<Rightarrow> z) =
        (if m \<in> set ms then settled_row t p m else m)"
    proof (cases "m \<in> set ms")
      case True
      have "map_of (map (\<lambda>m. (im_id m, settled_row t p m)) ms) (im_id m) = Some (settled_row t p m)"
        by (rule map_of_is_SomeI) (use dm True in \<open>auto simp: o_def\<close>)
      then show ?thesis using True by simp
    next
      case False
      then have "im_id m \<notin> im_id ` set ms" using m sub assms(1) by (auto simp: distinct_map inj_on_def subset_iff)
      then have "map_of (map (\<lambda>m. (im_id m, settled_row t p m)) ms) (im_id m) = None"
        by (auto simp: map_of_eq_None_iff image_iff)
      then show ?thesis using False by simp
    qed
  qed
  finally show ?thesis .
qed

lemma settle_writes_effect:
  assumes "settle_writes D cfg inp settlementIntent h now ref v ms d = Inr ((res, tr), d')"
    and "settle_amounts D cfg (si_proceeds inp) ms = (t, fee, p)"
  shows "\<exists>d3. complete_intent settlementIntent h d3 = Inr d' \<and>
     so_totalDistributed res = sum_list (map (\<lambda>m. (im_amount m * p) div t) ms) \<and>
     so_remainder res = p - so_totalDistributed res \<and> so_transactionHash res = h \<and>
     so_proceeds res = toFixed4 D (si_proceeds inp) \<and>
     investments d3 = foldl (\<lambda>xs m. upsert im_id (settled_row t p m) xs) (investments d) ms \<and>
     returns d3 = returns d @ map (return_record t p (iv_id v)) ms \<and> intents d3 = intents d \<and>
     invoices d3 = (invoices d)(iv_id v \<mapsto> t_invoice tr) \<and> iv_status (t_invoice tr) = SETTLED \<and>
     iv_settlementRemainder (t_invoice tr) = so_remainder res \<and> iv_status v = FUNDED \<and>
     iv_id (t_invoice tr) = iv_id v"
proof -
  define d0 where "d0 = (if truthy h then d\<lparr>payments := payments d @ [\<lparr>tx_userId = iv_sellerId v, tx_invoiceId = iv_id v,
     tx_investmentId = None, tx_amount = toFixed4 D (si_proceeds inp), tx_hash = (case h of None \<Rightarrow> [] | Some x \<Rightarrow> x)\<rparr>]\<rparr> else d)"
  have d0: "investments d0 = investments d" "returns d0 = returns d" "intents d0 = intents d" "invoices d0 = invoices d"
    by (simp_all add: d0_def)
  obtain rows d1 where s: "settle_investments t p (iv_id v) ms d0 = Inr (rows, d1)"
    using assms by (auto simp: settle_writes_def Let_def result_simps d0_def)
  note eff = settle_investments_effect [OF s]
  let ?sum = "sum_list (map rr_return rows)"
  let ?d2 = "d1\<lparr>remainders := remainders d1 @ [\<lparr>sr_invoiceId = iv_id v, sr_remainder = p - ?sum,
      sr_total = toFixed4 D (si_proceeds inp), sr_distributed = ?sum\<rparr>]\<rparr>"
  let ?reason = "case si_trigger inp of None \<Rightarrow> ''admin_settled''
      | Some tr \<Rightarrow> if tr = ''system_matured'' then ''maturity_settled'' else tr"
  obtain d3 where t: "transition entityManagerTransitionStore (v\<lparr>iv_settlementRemainder := p - ?sum\<rparr>) SETTLED
      \<lparr>a_role = System, a_id = None, a_wallet = Some (si_actorWallet inp)\<rparr> ?reason empty_context now ref ?d2 = Inr (tr, d3)"
    and c: "complete_intent settlementIntent h d3 = Inr d'"
    and res: "so_totalDistributed res = ?sum" "so_remainder res = p - ?sum" "so_transactionHash res = h"
      "so_proceeds res = toFixed4 D (si_proceeds inp)"
    using assms s unfolding settle_writes_def d0_def [symmetric]
    by (auto simp: Let_def result_simps d0_def [symmetric])
  note te = transition_effect [OF t]
  obtain r where "r \<in> set TRANSITION_RULES" "r_from r = iv_status v" "r_to r = SETTLED" using te(1) by auto
  then have "iv_status v = FUNDED" by (auto simp: rule_table)
  then show ?thesis using c res eff d0 te(3,4)
    by (intro exI [of _ d3]) (simp add: apply_status_def)
qed

lemma complete_intent_frame: "complete_intent n h d = Inr d' \<Longrightarrow> d' = d\<lparr>intents := intents d'\<rparr>"
  by (auto simp: complete_intent_def save_intent_def split: option.splits if_splits)

lemma settle_tx_success:
  assumes "settle_tx D distr cfg inp settlementIntent payload h0 now ref d c = (Inr ((res, tr), d'), c')"
  shows "\<exists>v ms h. settle_checks inp payload d = Inr (v, ms) \<and>
     settle_writes D cfg inp settlementIntent h now ref v ms d = Inr ((res, tr), d') \<and>
     (truthy (or_hash (si_txHash inp) h0) \<longrightarrow> h = or_hash (si_txHash inp) h0 \<and> c' = c)"
  using assms unfolding settle_tx_def Let_def
  by (auto split: sum.splits prod.splits option.splits if_splits simp: truthy_def)

lemma checks_found:
  assumes "settle_checks inp payload d = Inr (v, ms)"
  shows "invoices d (si_invoiceId inp) = Some v \<and> iv_status v = FUNDED \<and> ms = confirmed_investments (iv_id v) d \<and> ms \<noteq> []"
  using assms by (auto simp: settle_checks_def Let_def split: option.splits if_splits)

text \<open>C3: a settlement that succeeds moves a funded invoice to settled, settles every confirmed
  investment of it and no other, records one return per investment and the remainder on the
  invoice so that returns, remainder and fee add up to the proceeds, and any later settlement of
  the same invoice is refused.\<close>

theorem settlement_settles_once:
  assumes "settle_tx D distr cfg inp settlementIntent payload h0 now ref d c = (Inr ((res, tr), d'), c')"
    and "distinct (map im_id (investments d))" "keyed d"
    and "settle_amounts D cfg (si_proceeds inp) (confirmed_investments (si_invoiceId inp) d) = (t, fee, p)"
  shows "status_at d (si_invoiceId inp) = Some FUNDED \<and> status_at d' (si_invoiceId inp) = Some SETTLED \<and>
     investments d' = map (\<lambda>m. if im_invoiceId m = si_invoiceId inp \<and> im_status m = InvCONFIRMED
                              then settled_row t p m else m) (investments d) \<and>
     returns d' = returns d @ map (return_record t p (si_invoiceId inp)) (confirmed_investments (si_invoiceId inp) d) \<and>
     so_totalDistributed res = sum_list (map (\<lambda>m. (im_amount m * p) div t) (confirmed_investments (si_invoiceId inp) d)) \<and>
     map_option iv_settlementRemainder (invoices d' (si_invoiceId inp)) = Some (so_remainder res) \<and>
     so_totalDistributed res + so_remainder res + fee = so_proceeds res \<and>
     (si_invoiceId inp' = si_invoiceId inp \<longrightarrow>
        (\<exists>e. fst (settle_tx D' distr' cfg' inp' n' payload' h1 now' ref' d' c2) = Inl e \<and>
             e \<in> {ServiceError ''FORBIDDEN'' 403, ServiceError ''invoice_already_settled'' 409}))"
proof -
  obtain v ms h where chk: "settle_checks inp payload d = Inr (v, ms)"
    and w: "settle_writes D cfg inp settlementIntent h now ref v ms d = Inr ((res, tr), d')"
    using settle_tx_success [OF assms(1)] by auto
  note f = checks_found [OF chk]
  have id: "iv_id v = si_invoiceId inp" using f assms(3) by (auto simp: keyed_def)
  have am: "settle_amounts D cfg (si_proceeds inp) ms = (t, fee, p)" using assms(4) f id by simp
  have fee: "p = toFixed4 D (si_proceeds inp) - fee" using am by (auto simp: settle_amounts_def Let_def)
  obtain d3 where e: "complete_intent settlementIntent h d3 = Inr d'"
    "so_totalDistributed res = sum_list (map (\<lambda>m. (im_amount m * p) div t) ms)"
    "so_remainder res = p - so_totalDistributed res" "so_proceeds res = toFixed4 D (si_proceeds inp)"
    "investments d3 = foldl (\<lambda>xs m. upsert im_id (settled_row t p m) xs) (investments d) ms"
    "returns d3 = returns d @ map (return_record t p (iv_id v)) ms"
    "invoices d3 = (invoices d)(iv_id v \<mapsto> t_invoice tr)" "iv_status (t_invoice tr) = SETTLED"
    "iv_settlementRemainder (t_invoice tr) = so_remainder res"
    using settle_writes_effect [OF w am] by blast
  obtain ns where d': "d' = d3\<lparr>intents := ns\<rparr>" using complete_intent_frame [OF e(1)] by auto
  have ms: "ms = confirmed_investments (si_invoiceId inp) d" using f id by simp
  have inv: "investments d' = map (\<lambda>m. if im_invoiceId m = si_invoiceId inp \<and> im_status m = InvCONFIRMED
      then settled_row t p m else m) (investments d)"
    unfolding d' using e(5) settled_investments [OF assms(2) ms, of t p] ms
    by (auto simp: confirmed_investments_def)
  have st: "invoices d' (si_invoiceId inp) = Some (t_invoice tr)" using d' e(7) id by simp
  have "\<exists>e. fst (settle_tx D' distr' cfg' inp' n' payload' h1 now' ref' d' c2) = Inl e \<and>
      e \<in> {ServiceError ''FORBIDDEN'' 403, ServiceError ''invoice_already_settled'' 409}"
    if "si_invoiceId inp' = si_invoiceId inp"
    using st e(8) that by (auto simp: settle_tx_def settle_checks_def Let_def)
  then show ?thesis using f id inv st e d' ms fee by (auto simp: status_at_def)
qed

lemma settle_investments_total:
  assumes "0 < t" "0 \<le> p" "\<forall>m \<in> set ms. 0 \<le> im_amount m"
  shows "\<exists>x. settle_investments t p i ms d = Inr x"
  using assms(3)
proof (induction ms arbitrary: d)
  case (Cons m ms)
  have r: "computeInvestorReturn (im_amount m) t p = Inr ((im_amount m * p) div t)"
    using assms(1,2) Cons.prems by (simp add: computeInvestorReturn_def)
  let ?d = "save_investment (m\<lparr>im_actualReturn := Some ((im_amount m * p) div t), im_status := InvSETTLED\<rparr>) d"
  let ?d2 = "?d\<lparr>returns := returns ?d @ [\<lparr>ir_invoiceId = i, ir_investmentId = im_id m,
      ir_investorId = im_investorId m, ir_amount = (im_amount m * p) div t\<rparr>]\<rparr>"
  obtain rows d3 where "settle_investments t p i ms ?d2 = Inr (rows, d3)"
    using Cons.IH [of ?d2] Cons.prems by auto
  then show ?case using r by (simp add: Let_def)
qed simp

lemma funded_to_settled: "iv_status v = FUNDED \<Longrightarrow>
   \<exists>tr d'. transition entityManagerTransitionStore v SETTLED \<lparr>a_role = System, a_id = None, a_wallet = w\<rparr>
      reason empty_context now ref d = Inr (tr, d')"
  using store_saves [of SETTLED v "\<lparr>a_role = System, a_id = None, a_wallet = w\<rparr>" empty_context now reason ref d]
  by (simp add: assertTransition_def findRule_def rule_table guard_holds_def Let_def)

lemma settle_writes_total:
  assumes "settle_amounts D cfg (si_proceeds inp) ms = (t, fee, p)" "0 < t" "0 \<le> p"
    "\<forall>m \<in> set ms. 0 \<le> im_amount m" "iv_status v = FUNDED"
  shows "\<exists>res tr d'. settle_writes D cfg inp None h now ref v ms d = Inr ((res, tr), d')"
proof -
  define d0 where "d0 = (if truthy h then d\<lparr>payments := payments d @ [\<lparr>tx_userId = iv_sellerId v, tx_invoiceId = iv_id v,
     tx_investmentId = None, tx_amount = toFixed4 D (si_proceeds inp), tx_hash = (case h of None \<Rightarrow> [] | Some x \<Rightarrow> x)\<rparr>]\<rparr> else d)"
  obtain rows d1 where s: "settle_investments t p (iv_id v) ms d0 = Inr (rows, d1)"
    using settle_investments_total [OF assms(2-4)] by fastforce
  let ?sum = "sum_list (map rr_return rows)"
  let ?d2 = "d1\<lparr>remainders := remainders d1 @ [\<lparr>sr_invoiceId = iv_id v, sr_remainder = p - ?sum,
      sr_total = toFixed4 D (si_proceeds inp), sr_distributed = ?sum\<rparr>]\<rparr>"
  let ?reason = "case si_trigger inp of None \<Rightarrow> ''admin_settled''
      | Some tr \<Rightarrow> if tr = ''system_matured'' then ''maturity_settled'' else tr"
  have "iv_status (v\<lparr>iv_settlementRemainder := p - ?sum\<rparr>) = FUNDED" using assms(5) by simp
  from funded_to_settled [OF this, of "Some (si_actorWallet inp)" ?reason now ref ?d2]
  show ?thesis using assms(1) s unfolding settle_writes_def d0_def [symmetric]
    by (auto simp: Let_def complete_intent_def)
qed

definition funded_invoice :: invoice where
  "funded_invoice = sample_invoice\<lparr>iv_status := FUNDED\<rparr>"

definition funded_db :: db where
  "funded_db = (fresh_db [funded_invoice])
     \<lparr>investments := [\<lparr>im_id = ''m1'', im_invoiceId = ''i1'', im_investorId = ''u1'', im_amount = 9500000,
        im_expectedReturn = 0, im_actualReturn = None, im_status = InvCONFIRMED, im_wallet = None,
        im_fundingBlock = None, im_transactionHash = None, im_operationIndex = None\<rparr>],
      users := [''s1'' \<mapsto> \<lparr>us_id = ''s1'', us_stellarAddress = Some ''GSELLER'', us_userType = SELLER,
        us_kycStatus = KycAPPROVED, us_isKycVerified = True, us_isSuspended = False\<rparr>]\<rparr>"

definition sample_settlement :: settle_input where
  "sample_settlement = \<lparr>si_invoiceId = ''i1'', si_proceeds = 1000, si_actorWallet = ''system'', si_txHash = None,
     si_trigger = None, si_systemTrigger = True, si_sellerId = None\<rparr>"

lemma funded_facts:
  "invoices funded_db ''i1'' = Some funded_invoice" "iv_id funded_invoice = ''i1''" "iv_status funded_invoice = FUNDED"
  "iv_sellerId funded_invoice = ''s1''" "confirmed_investments ''i1'' funded_db = investments funded_db"
  "intents funded_db = []" "distinct (map im_id (investments funded_db))" "\<forall>m \<in> set (investments funded_db). 0 \<le> im_amount m"
  "users funded_db ''s1'' = Some \<lparr>us_id = ''s1'', us_stellarAddress = Some ''GSELLER'', us_userType = SELLER,
        us_kycStatus = KycAPPROVED, us_isKycVerified = True, us_isSuspended = False\<rparr>" "investments funded_db \<noteq> []"
  by (simp_all add: funded_db_def fresh_db_def funded_invoice_def sample_invoice_def confirmed_investments_def)

lemma funded_keyed: "keyed funded_db"
  by (auto simp: keyed_def funded_db_def fresh_db_def)

lemma exact_values:
  "toFixed4 exact_decimal 1000 = 10000000" "toFixed4 exact_decimal 950 = 9500000"
  by (simp_all add: toFixed4_def exact_decimal_def floor_unique)

lemma funded_total: "total_invested exact_decimal (investments funded_db) = 950"
  by (simp add: total_invested_def funded_db_def dsum_def dplus_def exact_decimal_def dec_def)

lemma funded_amounts:
  "settle_amounts exact_decimal cfg 1000 (investments funded_db) =
     (9500000, case cfg of None \<Rightarrow> 0 | Some k \<Rightarrow> trunc_div (10000000 * dc_feeBps k) 10000,
      10000000 - (case cfg of None \<Rightarrow> 0 | Some k \<Rightarrow> trunc_div (10000000 * dc_feeBps k) 10000))"
  by (simp add: settle_amounts_def funded_total exact_values Let_def)

lemma sample_checks: "settle_checks sample_settlement None funded_db = Inr (funded_invoice, investments funded_db)"
  using funded_facts by (simp add: settle_checks_def sample_settlement_def seller_mismatch_def truthy_def Let_def)

lemma sample_settles:
  "\<exists>res tr d'. settle_tx exact_decimal None None sample_settlement None None None 5 0 funded_db () = (Inr ((res, tr), d'), ())"
  using settle_writes_total [of exact_decimal None sample_settlement "investments funded_db" 9500000 0 10000000 funded_invoice None 5 0 funded_db]
    funded_amounts [of None] funded_facts sample_checks
  by (auto simp: settle_tx_def or_hash_def sample_settlement_def)

theorem settlement_settles_once_witness:
  "\<exists>res tr d'. settle_tx exact_decimal None None sample_settlement None None None 5 0 funded_db () = (Inr ((res, tr), d'), ()) \<and>
     status_at d' ''i1'' = Some SETTLED \<and> so_totalDistributed res + so_remainder res = so_proceeds res"
proof -
  obtain res tr d' where s: "settle_tx exact_decimal None None sample_settlement None None None 5 0 funded_db () = (Inr ((res, tr), d'), ())"
    using sample_settles by auto
  have "settle_amounts exact_decimal None (si_proceeds sample_settlement)
      (confirmed_investments (si_invoiceId sample_settlement) funded_db) = (9500000, 0, 10000000)"
    using funded_amounts [of None] funded_facts by (simp add: sample_settlement_def)
  from settlement_settles_once [OF s funded_facts(7) funded_keyed this, where inp' = sample_settlement and D' = exact_decimal
      and distr' = "None :: unit distributor option" and cfg' = None and n' = None and payload' = None and ?h1.0 = None
      and now' = 0 and ref' = 0 and ?c2.0 = "()"] s
  show ?thesis by (auto simp: sample_settlement_def)
qed

subsection \<open>Failures\<close>

definition only_intents :: "db \<Rightarrow> db \<Rightarrow> bool" where
  "only_intents d d' \<longleftrightarrow> d' = d\<lparr>intents := intents d'\<rparr>"

lemma only_intents_refl: "only_intents d d"
  by (simp add: only_intents_def)

lemma only_intents_trans: "only_intents d d1 \<Longrightarrow> only_intents d1 d2 \<Longrightarrow> only_intents d d2"
  by (cases d; cases d1; cases d2) (simp add: only_intents_def)

lemma only_intents_save: "only_intents d (save_intent n d)"
  by (simp add: only_intents_def save_intent_def)

lemma prepare_frame: "prepareSettlementIntent D i terms x d = Inr (n, d') \<Longrightarrow> only_intents d d'"
  by (auto simp: prepareSettlementIntent_def Let_def result_simps only_intents_refl only_intents_save
      split: option.splits if_splits)

lemma claim_frame: "claimSettlementIntent i d = Inr (n, d') \<Longrightarrow> only_intents d d'"
  by (auto simp: claimSettlementIntent_def Let_def only_intents_save split: option.splits if_splits)

lemma mark_frame: "markSettlementDistributed i h d = Inr (n, d') \<Longrightarrow> only_intents d d'"
  by (auto simp: markSettlementDistributed_def Let_def only_intents_save split: option.splits if_splits)

lemma run_tx_frame:
  assumes "\<And>a d'. f d = Inr (a, d') \<Longrightarrow> only_intents d d'"
  shows "only_intents d (snd (run_tx f d))"
  using assms by (auto simp: run_tx_def only_intents_refl split: sum.splits)

lemma pay_out_frame: "only_intents d (fst (snd (pay_out D send cfg inp x d c)))"
proof -
  let ?p = "prepareSettlementIntent D (si_invoiceId inp) (intent_terms D inp cfg) x"
  have p: "only_intents d (snd (run_tx ?p d))" by (rule run_tx_frame) (rule prepare_frame)
  have q: "only_intents d1 (snd (run_tx (claimSettlementIntent i) d1))" for i d1
    by (rule run_tx_frame) (rule claim_frame)
  have m: "only_intents d1 (snd (run_tx (markSettlementDistributed i h) d1))" for i h d1
    by (rule run_tx_frame) (rule mark_frame)
  obtain r1 d1 where r1: "run_tx ?p d = (r1, d1)" by force
  have d1: "only_intents d d1" using p r1 by simp
  show ?thesis
  proof (cases r1)
    case (Inr n)
    obtain r2 d2 where r2: "run_tx (claimSettlementIntent (in_id n)) d1 = (r2, d2)" by force
    have d2: "only_intents d d2" using q [of d1 "in_id n"] r2 only_intents_trans [OF d1] by simp
    have "only_intents d (snd (run_tx (markSettlementDistributed i h) d2))" for i h
      by (rule only_intents_trans [OF d2 m])
    then have "snd (run_tx (markSettlementDistributed i h) d2) = y \<Longrightarrow> only_intents d y" for i h y by blast
    then show ?thesis using r1 r2 Inr d1 d2
      by (auto simp: pay_out_def split: intent_status.splits sum.splits prod.splits option.splits)
        (metis snd_conv)+
  qed (use r1 d1 in \<open>simp add: pay_out_def\<close>)
qed

lemma failed_settlement_frame:
  assumes "settleInvoice D distr cfg inp new_id now ref d c = (Inl e, d', c')"
  shows "d' = d\<lparr>intents := intents d'\<rparr> \<and> (distr = None \<longrightarrow> d' = d \<and> c' = c)"
proof (cases distr)
  case None
  then show ?thesis using assms
    by (auto simp: settleInvoice_def run_settle_tx_def settle_tx_def Let_def split: if_splits sum.splits prod.splits)
next
  case (Some send)
  have "only_intents d d'"
  proof (cases "si_proceeds inp \<le> 0 \<or> cfg = None")
    case True
    then show ?thesis using assms Some by (auto simp: settleInvoice_def only_intents_refl split: if_splits)
  next
    case False
    then obtain k where k: "cfg = Some k" by auto
    obtain r d1 c1 where p: "pay_out D send k inp new_id d c = (r, d1, c1)" using prod_cases3 by blast
    have d1: "only_intents d d1" using pay_out_frame [of d D send k inp new_id c] p by simp
    show ?thesis
    proof (cases r)
      case (Inr x)
      obtain n pl h where x: "x = (n, pl, h)" by (cases x) auto
      have "d' = d1" using assms Some False k p Inr x
        by (auto simp: settleInvoice_def run_settle_tx_def split: sum.splits prod.splits)
      then show ?thesis using d1 by simp
    qed (use assms Some False k p d1 in \<open>simp add: settleInvoice_def\<close>)
  qed
  then show ?thesis using Some by (simp add: only_intents_def)
qed

text \<open>C32: a settlement call that fails leaves invoices, investments, returns, remainders, payments
  and history as they were, at whatever step it fails; only the settlement intent may have
  changed, and without a distributor nothing has.\<close>

theorem failed_settlement_keeps_books:
  assumes "settleInvoice D distr cfg inp new_id now ref d c = (Inl e, d', c')"
  shows "d' = d\<lparr>intents := intents d'\<rparr> \<and> (distr = None \<longrightarrow> d' = d \<and> c' = c)"
  by (rule failed_settlement_frame [OF assms])

theorem failed_settlement_keeps_books_witness:
  "settleInvoice exact_decimal (None :: unit distributor option) None (sample_settlement\<lparr>si_invoiceId := ''x''\<rparr>) ''n'' 5 0 funded_db () =
     (Inl (ServiceError ''INVOICE_NOT_FOUND'' 404), funded_db, ())"
proof -
  obtain r d' c' where r: "settleInvoice exact_decimal (None :: unit distributor option) None (sample_settlement\<lparr>si_invoiceId := ''x''\<rparr>) ''n'' 5 0 funded_db () = (r, d', c')"
    using prod_cases3 by blast
  moreover have e: "r = Inl (ServiceError ''INVOICE_NOT_FOUND'' 404)"
    using r by (auto simp: settleInvoice_def sample_settlement_def run_settle_tx_def settle_tx_def settle_checks_def
        funded_db_def fresh_db_def funded_invoice_def sample_invoice_def)
  ultimately show ?thesis using failed_settlement_keeps_books [of exact_decimal None] by fastforce
qed

subsection \<open>Two gaps between the steps\<close>

text \<open>With a payment distributor, a background job cannot settle the invoice of a seller who
  has a wallet: the preparation compares the job's actor with the seller's address although it is
  a system actor, which the settling transaction exempts from that comparison.\<close>

theorem system_actor_refused_with_distributor:
  assumes "isSystemSettlementActor (Some (si_actorWallet inp))" "0 < si_proceeds inp"
    and "invoices d (si_invoiceId inp) = Some v" "iv_sellerId v \<noteq> []" "\<not> seller_mismatch v (si_sellerId inp)"
    and "users d (iv_sellerId v) = Some u" "us_stellarAddress u = Some a" "a \<noteq> []" "a \<noteq> si_actorWallet inp"
    and "0 \<le> dc_feeBps k" "dc_feeBps k \<le> 10000"
  shows "settleInvoice D (Some send) (Some k) inp new_id now ref d c = (Inl (ServiceError ''FORBIDDEN'' 403), d, c) \<and>
     settle_checks inp None d \<noteq> Inl (ServiceError ''FORBIDDEN'' 403)"
proof -
  have w: "si_actorWallet inp \<noteq> []" using assms(1) by (auto simp: isSystemSettlementActor_def)
  have m: "wallet_mismatch d v (si_actorWallet inp)"
    using assms(4,6-9) w by (simp add: wallet_mismatch_def truthy_def)
  have p: "prepareSettlementIntent D (si_invoiceId inp) (intent_terms D inp k) new_id d = Inl (ServiceError ''FORBIDDEN'' 403)"
    using assms(3,5,10,11) m by (simp add: prepareSettlementIntent_def intent_terms_def)
  then have "pay_out D send k inp new_id d c = (Inl (ServiceError ''FORBIDDEN'' 403), d, c)"
    by (simp add: pay_out_def run_tx_def)
  moreover have "settle_checks inp None d \<noteq> Inl (ServiceError ''FORBIDDEN'' 403)"
    using assms(1,3,5) by (auto simp: settle_checks_def service_error_def Let_def)
  ultimately show ?thesis using assms(2) by (simp add: settleInvoice_def)
qed

definition accepting :: "payout list distributor" where
  "accepting p sent = (Inr ''HASH'', sent @ [p])"

definition sample_config :: distributor_config where
  "sample_config = \<lparr>dc_feeRecipient = ''GFEE'', dc_feeBps = 100\<rparr>"

theorem system_actor_refused_with_distributor_witness:
  "isSystemSettlementActor (Some ''system'') \<and>
   settleInvoice exact_decimal (Some accepting) (Some sample_config) sample_settlement ''n1'' 5 0 funded_db [] =
     (Inl (ServiceError ''FORBIDDEN'' 403), funded_db, [])"
proof -
  have s: "isSystemSettlementActor (Some (si_actorWallet sample_settlement))"
    by (simp add: isSystemSettlementActor_def sample_settlement_def SYSTEM_SETTLEMENT_ACTOR_def)
  show ?thesis
    using system_actor_refused_with_distributor [OF s, where d = funded_db and v = funded_invoice and a = "''GSELLER''"
        and u = "\<lparr>us_id = ''s1'', us_stellarAddress = Some ''GSELLER'', us_userType = SELLER,
        us_kycStatus = KycAPPROVED, us_isKycVerified = True, us_isSuspended = False\<rparr>" and k = sample_config
        and D = exact_decimal and send = accepting and c = "[]" and new_id = "''n1''" and now = 5 and ref = 0]
      funded_facts s
    by (simp add: sample_settlement_def sample_config_def seller_mismatch_def truthy_def)
qed

lemma find_upsert: "find (\<lambda>x. k x = k r) (upsert k r xs) = Some r"
  by (induction xs) auto

lemma find_upsert_other: "i \<noteq> k r \<Longrightarrow> find (\<lambda>x. k x = i) (upsert k r xs) = find (\<lambda>x. k x = i) xs"
  by (induction xs) auto

lemma find_saved [simp]: "find_intent (in_id n) (save_intent n d) = Some n"
  by (simp add: find_intent_def save_intent_def find_upsert)

lemma find_saved_other: "i \<noteq> in_id n \<Longrightarrow> find_intent i (save_intent n d) = find_intent i d"
  by (simp add: find_intent_def save_intent_def find_upsert_other)

lemma find_distinct: "distinct (map k xs) \<Longrightarrow> x \<in> set xs \<Longrightarrow> find (\<lambda>y. k y = k x) xs = Some x"
  by (induction xs) (auto simp: image_iff)

lemma find_intent_mem: "distinct (map in_id (intents d)) \<Longrightarrow> n \<in> set (intents d) \<Longrightarrow> find_intent (in_id n) d = Some n"
  by (simp add: find_intent_def find_distinct)

lemma find_intent_Some: "find_intent i d = Some n \<Longrightarrow> n \<in> set (intents d) \<and> in_id n = i"
  by (auto simp: find_intent_def find_Some_iff)

lemma prepare_cases:
  assumes "prepareSettlementIntent D i terms x d = Inr (n, d')"
  shows "(n \<in> set (intents d) \<and> in_invoiceId n = i' \<and> d' = d \<and> Some i' = map_option iv_id (invoices d i)) \<or>
     (in_id n = x \<and> in_status n = PREPARED \<and> in_transactionHash n = None \<and> d' = save_intent n d \<and>
      in_invoiceId n \<notin> in_invoiceId ` set (intents d) \<and> Some (in_invoiceId n) = map_option iv_id (invoices d i)) \<or>
     Some i' \<noteq> map_option iv_id (invoices d i)"
  using assms
  by (auto simp: prepareSettlementIntent_def Let_def result_simps find_Some_iff find_None_iff
      split: option.splits if_splits)

text \<open>What a payout that went through leaves: the stored intent is distributed with the hash.\<close>

lemma pay_out_result:
  assumes "pay_out D send k inp new_id d c = (Inr (n, p, h), d1, c1)" "distinct (map in_id (intents d))"
  shows "find_intent (in_id n) d1 = Some n \<and> in_status n = DISTRIBUTED \<and> in_transactionHash n = Some h"
proof -
  let ?p = "prepareSettlementIntent D (si_invoiceId inp) (intent_terms D inp k) new_id"
  obtain n0 d0 where n0: "?p d = Inr (n0, d0)"
    using assms(1) by (cases "?p d") (auto simp: pay_out_def run_tx_def)
  show ?thesis
  proof (cases "in_status n0")
    case PREPARED
    obtain n2 d2 where n2: "claimSettlementIntent (in_id n0) d0 = Inr (n2, d2)"
      using assms(1) n0 PREPARED
      by (cases "claimSettlementIntent (in_id n0) d0") (auto simp: pay_out_def run_tx_def)
    obtain h' c' where h': "send (intent_payout (si_invoiceId inp) (in_payload n0)) c = (Inr h', c')"
      using assms(1) n0 n2 PREPARED
      by (cases "send (intent_payout (si_invoiceId inp) (in_payload n0)) c"; cases "fst (send (intent_payout (si_invoiceId inp) (in_payload n0)) c)")
        (auto simp: pay_out_def run_tx_def)
    obtain n3 d3 where n3: "markSettlementDistributed (in_id n2) h' d2 = Inr (n3, d3)"
      using assms(1) n0 n2 h' PREPARED
      by (cases "markSettlementDistributed (in_id n2) h' d2") (auto simp: pay_out_def run_tx_def)
    have "n = n3" "d1 = d3" "h = h'" using assms(1) n0 n2 h' n3 PREPARED by (auto simp: pay_out_def run_tx_def)
    then show ?thesis using n3 find_saved
      by (auto simp: markSettlementDistributed_def Let_def split: option.splits if_splits)
        (metis find_saved intent.simps(1) intent.update_convs(3) intent.update_convs(5) intent.surjective)
  next
    case DISTRIBUTED
    then have n: "n = n0" "d1 = d0" "in_transactionHash n0 = Some h"
      using assms(1) n0 by (auto simp: pay_out_def run_tx_def split: option.splits if_splits)
    have "n0 \<in> set (intents d) \<and> d0 = d" using prepare_cases [OF n0] DISTRIBUTED n0
      by (auto simp: prepareSettlementIntent_def Let_def result_simps find_Some_iff split: option.splits if_splits)
    then show ?thesis using n DISTRIBUTED find_intent_mem [OF assms(2)] by simp
  qed (use assms(1) n0 in \<open>auto simp: pay_out_def run_tx_def\<close>)
qed

text \<open>Passing the hash of an existing settlement does not keep a distributor from paying out:
  the payout is submitted as without it (\<open>pay_out\<close> does not look at the hash), and the settlement
  then fails, with the intent left as distributed, unless both hashes agree.\<close>

theorem given_hash_does_not_prevent_payout:
  assumes "pay_out D send k inp new_id d c = (Inr (n, p, h), d1, c1)" "0 < si_proceeds inp"
    and "si_txHash inp = Some x" "x \<noteq> []" "x \<noteq> h"
    and "distinct (map in_id (intents d))"
  shows "pay_out D send k (inp\<lparr>si_txHash := None\<rparr>) new_id d c = (Inr (n, p, h), d1, c1) \<and>
     (\<exists>e. settleInvoice D (Some send) (Some k) inp new_id now ref d c = (Inl e, d1, c1))"
proof -
  have same: "pay_out D send k (inp\<lparr>si_txHash := None\<rparr>) new_id d c = pay_out D send k inp new_id d c"
  proof -
    have "intent_terms D (inp\<lparr>si_txHash := None\<rparr>) k = intent_terms D inp k"
      "si_invoiceId (inp\<lparr>si_txHash := None\<rparr>) = si_invoiceId inp"
      by (simp_all add: intent_terms_def)
    then show ?thesis unfolding pay_out_def by (simp only:)
  qed
  note res = pay_out_result [OF assms(1,6)]
  have no: "settle_writes D (Some k) inp (Some n) (Some x) now ref v ms d1 \<noteq> Inr ((res, tr), d')" for v ms res tr d'
  proof
    assume w: "settle_writes D (Some k) inp (Some n) (Some x) now ref v ms d1 = Inr ((res, tr), d')"
    obtain t fee q where am: "settle_amounts D (Some k) (si_proceeds inp) ms = (t, fee, q)"
      using prod_cases3 by blast
    obtain d3 where d3: "complete_intent (Some n) (Some x) d3 = Inr d'" "intents d3 = intents d1"
      using settle_writes_effect [OF w am] by blast
    then have "find_intent (in_id n) d3 = Some n" using res by (simp add: find_intent_def)
    then show False using d3(1) assms(5) res by (simp add: complete_intent_def)
  qed
  have tx: "\<exists>e. settle_tx D (Some send) (Some k) inp (Some n) (Some p) (Some h) now ref d1 c1 = (Inl e, c1)"
  proof (cases "settle_checks inp (Some p) d1")
    case (Inr vm)
    then obtain v ms where vm: "vm = (v, ms)" by (cases vm) auto
    obtain e where "settle_writes D (Some k) inp (Some n) (Some x) now ref v ms d1 = Inl e"
      using no by (cases "settle_writes D (Some k) inp (Some n) (Some x) now ref v ms d1") auto
    then show ?thesis using Inr vm assms(3,4) by (simp add: settle_tx_def or_hash_def truthy_def)
  qed (simp add: settle_tx_def)
  then show ?thesis using same assms(1,2) by (auto simp: settleInvoice_def run_settle_tx_def)
qed

definition seller_settlement :: settle_input where
  "seller_settlement = sample_settlement\<lparr>si_actorWallet := ''GSELLER'', si_systemTrigger := False, si_txHash := Some ''OLD''\<rparr>"

lemma seller_prepares:
  "\<exists>n. prepareSettlementIntent exact_decimal ''i1'' (intent_terms exact_decimal seller_settlement sample_config) ''n1'' funded_db =
     Inr (n, save_intent n funded_db) \<and> in_status n = PREPARED"
proof -
  let ?t = "intent_terms exact_decimal seller_settlement sample_config"
  have ok: "\<not> seller_mismatch funded_invoice (ip_sellerId ?t)" "\<not> wallet_mismatch funded_db funded_invoice (ip_actorWallet ?t)"
    "ip_feeBps ?t = 100" "ip_proceeds ?t = 10000000"
    using funded_facts by (simp_all add: seller_mismatch_def wallet_mismatch_def intent_terms_def seller_settlement_def
        sample_settlement_def sample_config_def truthy_def exact_values)
  have "\<exists>ls. map_result (intent_line funded_db 9500000 9900000) (investments funded_db) = Inr ls"
    by (simp add: funded_db_def intent_line_def computeInvestorReturn_def)
  moreover have "trunc_div 1000000000 10000 = 100000" by (simp add: trunc_div_nonneg)
  ultimately show ?thesis
    using ok funded_facts by (auto simp: prepareSettlementIntent_def Let_def funded_total exact_values)
qed

lemma seller_pays_out:
  "\<exists>n p d1 c1. pay_out exact_decimal accepting sample_config seller_settlement ''n1'' funded_db [] = (Inr (n, p, ''HASH''), d1, c1) \<and>
     length c1 = 1"
proof -
  obtain n where "prepareSettlementIntent exact_decimal ''i1'' (intent_terms exact_decimal seller_settlement sample_config) ''n1'' funded_db =
     Inr (n, save_intent n funded_db)" "in_status n = PREPARED" using seller_prepares by blast
  moreover have "si_invoiceId seller_settlement = ''i1''" by (simp add: seller_settlement_def sample_settlement_def)
  ultimately show ?thesis
    using find_saved [of "n\<lparr>in_status := SUBMITTING\<rparr>"]
    by (simp add: pay_out_def run_tx_def claimSettlementIntent_def markSettlementDistributed_def accepting_def Let_def)
qed

theorem given_hash_does_not_prevent_payout_witness:
  "\<exists>e d1 c1. settleInvoice exact_decimal (Some accepting) (Some sample_config) seller_settlement ''n1'' 5 0 funded_db [] =
     (Inl e, d1, c1) \<and> length c1 = 1"
proof -
  obtain n p d1 c1 where o: "pay_out exact_decimal accepting sample_config seller_settlement ''n1'' funded_db [] = (Inr (n, p, ''HASH''), d1, c1)"
    and c1: "length c1 = 1" using seller_pays_out by blast
  have "0 < si_proceeds seller_settlement" "si_txHash seller_settlement = Some ''OLD''"
    by (simp_all add: seller_settlement_def sample_settlement_def)
  from given_hash_does_not_prevent_payout [OF o this, where now = 5 and ref = 0] c1 show ?thesis
    by (auto simp: funded_facts)
qed

end
