(* ===== verification/Settlement_Steps.thy ===== *)
theory Settlement_Steps
  imports Settlement
begin

section \<open>Concurrent settlements\<close>

text \<open>
  \<open>settleInvoice\<close> is a sequence of steps that commit separately, and several calls can run at
  once, on several instances, each of which can crash between any two steps. A process holds
  the call's input and how far it got; \<open>w_sent\<close> is what reached the payment distributor, with
  the intent it was sent for. The steps are the functions of \<open>Settlement.thy\<close>; row locks make each
  of the database transactions one step.
\<close>

datatype pc = Start | Ready intent | Claimed intent | Paid intent string | Marked intent string | Stopped

record world =
  w_db :: db
  w_procs :: "nat \<Rightarrow> settle_input \<times> pc"
  w_sent :: "(string \<times> payout) list"

definition runs :: "world \<Rightarrow> nat \<Rightarrow> settle_input \<Rightarrow> pc \<Rightarrow> bool" where
  "runs w p inp s \<longleftrightarrow> w_procs w p = (inp, s)"

definition goto :: "nat \<Rightarrow> settle_input \<Rightarrow> pc \<Rightarrow> db \<Rightarrow> world \<Rightarrow> world" where
  "goto p inp s d w = w\<lparr>w_procs := (w_procs w)(p := (inp, s)), w_db := d\<rparr>"

inductive settle_step :: "decimal_lib \<Rightarrow> distributor_config \<Rightarrow> 'c distributor \<Rightarrow> world \<Rightarrow> world \<Rightarrow> bool" for D k send where
  call: "runs w p inp s \<Longrightarrow> settle_step D k send w (goto p inp' Start (w_db w) w)"
| prepare: "runs w p inp Start \<Longrightarrow> x \<notin> in_id ` set (intents (w_db w)) \<Longrightarrow>
    prepareSettlementIntent D (si_invoiceId inp) (intent_terms D inp k) x (w_db w) = Inr (n, d') \<Longrightarrow>
    settle_step D k send w (goto p inp (Ready n) d' w)"
| claim: "runs w p inp (Ready n) \<Longrightarrow> in_status n = PREPARED \<Longrightarrow>
    claimSettlementIntent (in_id n) (w_db w) = Inr (n', d') \<Longrightarrow>
    settle_step D k send w (goto p inp (Claimed n) d' w)"
| submit: "runs w p inp (Claimed n) \<Longrightarrow> s = Paid n h \<or> s = Stopped \<Longrightarrow>
    settle_step D k send w ((goto p inp s (w_db w) w)
      \<lparr>w_sent := w_sent w @ [(in_id n, intent_payout (si_invoiceId inp) (in_payload n))]\<rparr>)"
| mark: "runs w p inp (Paid n h) \<Longrightarrow> markSettlementDistributed (in_id n) h (w_db w) = Inr (n', d') \<Longrightarrow>
    settle_step D k send w (goto p inp (Marked n' h) d' w)"
| resume: "runs w p inp (Ready n) \<Longrightarrow> in_status n = DISTRIBUTED \<Longrightarrow> in_transactionHash n = Some h \<Longrightarrow>
    settle_step D k send w (goto p inp (Marked n h) (w_db w) w)"
| finish: "runs w p inp (Marked n h) \<Longrightarrow>
    settle_tx D (Some send) (Some k) inp (Some n) (Some payload) (Some h) now ref (w_db w) c = (Inr (r, d'), c') \<Longrightarrow>
    settle_step D k send w (goto p inp Stopped d' w)"
| stop: "runs w p inp s \<Longrightarrow> settle_step D k send w (goto p inp Stopped (w_db w) w)"
| others: "intents d' = intents (w_db w) \<Longrightarrow> keyed d' \<Longrightarrow> settle_step D k send w (w\<lparr>w_db := d'\<rparr>)"

text \<open>The invariant of the protocol, by intent identifier.\<close>

definition intents_ok :: "db \<Rightarrow> bool" where
  "intents_ok d \<longleftrightarrow> keyed d \<and> distinct (map in_id (intents d)) \<and>
     (\<forall>i j m m'. find_intent i d = Some m \<and> find_intent j d = Some m' \<and> in_invoiceId m = in_invoiceId m' \<longrightarrow> i = j)"

definition holds :: "db \<Rightarrow> string \<Rightarrow> string \<Rightarrow> bool" where
  "holds d i vid \<longleftrightarrow> map_option in_invoiceId (find_intent i d) = Some vid"

definition status_is :: "db \<Rightarrow> string \<Rightarrow> intent_status \<Rightarrow> bool" where
  "status_is d i s \<longleftrightarrow> map_option in_status (find_intent i d) = Some s"

fun proc_ok :: "db \<Rightarrow> string set \<Rightarrow> settle_input \<Rightarrow> pc \<Rightarrow> bool" where
  "proc_ok d sent inp (Ready n) = holds d (in_id n) (si_invoiceId inp)"
| "proc_ok d sent inp (Claimed n) =
     (holds d (in_id n) (si_invoiceId inp) \<and> status_is d (in_id n) SUBMITTING \<and> in_id n \<notin> sent)"
| "proc_ok d sent inp (Paid n h) = (in_id n \<in> sent)"
| "proc_ok d sent inp s = True"

definition sent_ids :: "world \<Rightarrow> string set" where
  "sent_ids w = fst ` set (w_sent w)"

definition protocol_inv :: "world \<Rightarrow> bool" where
  "protocol_inv w \<longleftrightarrow> intents_ok (w_db w) \<and> distinct (map fst (w_sent w)) \<and>
     (\<forall>(i, po) \<in> set (w_sent w). holds (w_db w) i (po_invoiceId po) \<and> \<not> status_is (w_db w) i PREPARED) \<and>
     (\<forall>p. proc_ok (w_db w) (sent_ids w) (fst (w_procs w p)) (snd (w_procs w p))) \<and>
     (\<forall>p q inp inp' n n'. runs w p inp (Claimed n) \<and> runs w q inp' (Claimed n') \<and> in_id n = in_id n' \<longrightarrow> p = q)"

subsection \<open>What each step does to the intents\<close>

lemma prepare_intents:
  assumes "intents_ok d" "x \<notin> in_id ` set (intents d)"
    "prepareSettlementIntent D i terms x d = Inr (n, d')"
  shows "intents_ok d' \<and> holds d' (in_id n) i \<and>
     (\<forall>j m. find_intent j d = Some m \<longrightarrow> find_intent j d' = Some m)"
proof -
  obtain v where v: "invoices d i = Some v" "iv_id v = i"
    using assms(1,3) by (auto simp: prepareSettlementIntent_def intents_ok_def keyed_def split: if_splits option.splits)
  consider "n \<in> set (intents d)" "in_invoiceId n = i" "d' = d"
    | "in_id n = x" "d' = save_intent n d" "in_invoiceId n \<notin> in_invoiceId ` set (intents d)" "in_invoiceId n = i"
    using prepare_cases [OF assms(3), of i] v by auto
  then show ?thesis
  proof cases
    case 1
    then show ?thesis using assms(1) find_intent_mem by (auto simp: intents_ok_def holds_def)
  next
    case 2
    have fresh: "find_intent x d = None" using assms(2) by (auto simp: find_intent_def find_None_iff)
    have find: "find_intent j d' = (if j = x then Some n else find_intent j d)" for j
      using 2 find_saved_other [of j n d] by auto
    have dist: "distinct (map in_id (intents d'))" "keyed d'"
      using 2 assms(1) distinct_upsert by (auto simp: intents_ok_def save_intent_def keyed_def)
    have new: "in_invoiceId m \<noteq> in_invoiceId n" if "find_intent j d = Some m" for j m
      using find_intent_Some [OF that] 2(3) by (metis image_eqI)
    show ?thesis using dist find fresh new assms(1) 2
      unfolding intents_ok_def holds_def by (auto split: if_splits) metis+
  qed
qed

text \<open>Replacing an intent by one with the same invoice.\<close>

lemma save_intents:
  assumes "intents_ok d" "find_intent (in_id n') d = Some n" "in_invoiceId n' = in_invoiceId n"
  shows "intents_ok (save_intent n' d)" "holds (save_intent n' d) i vid \<longleftrightarrow> holds d i vid"
    "status_is (save_intent n' d) i s \<longleftrightarrow> (if i = in_id n' then s = in_status n' else status_is d i s)"
proof -
  have find: "find_intent j (save_intent n' d) = (if j = in_id n' then Some n' else find_intent j d)" for j
    using find_saved_other [of j n' d] by auto
  show "intents_ok (save_intent n' d)" using assms unfolding intents_ok_def find
    by (auto simp: save_intent_def distinct_upsert keyed_def split: if_splits)
  show "holds (save_intent n' d) i vid \<longleftrightarrow> holds d i vid"
    "status_is (save_intent n' d) i s \<longleftrightarrow> (if i = in_id n' then s = in_status n' else status_is d i s)"
    using assms(2,3) by (auto simp: holds_def status_is_def find)
qed

subsection \<open>The invariant is kept\<close>

lemma runs_goto: "runs (goto p inp s d w) q inp' s' \<longleftrightarrow> (if q = p then inp' = inp \<and> s' = s else runs w q inp' s')"
  by (auto simp: runs_def goto_def)

lemma goto_simps [simp]:
  "w_db (goto p inp s d w) = d" "w_sent (goto p inp s d w) = w_sent w" "sent_ids (goto p inp s d w) = sent_ids w"
  "w_procs (goto p inp s d w) q = (if q = p then (inp, s) else w_procs w q)"
  by (simp_all add: goto_def sent_ids_def)

lemma inv_goto:
  assumes "protocol_inv w" "intents_ok d'" "proc_ok d' (sent_ids w) inp s"
    and keep: "\<And>i vid. holds (w_db w) i vid \<Longrightarrow> holds d' i vid"
    and sent: "\<And>i. i \<in> sent_ids w \<Longrightarrow> \<not> status_is (w_db w) i PREPARED \<Longrightarrow> \<not> status_is d' i PREPARED"
    and sub: "\<And>q inp' n. q \<noteq> p \<Longrightarrow> runs w q inp' (Claimed n) \<Longrightarrow> status_is (w_db w) (in_id n) SUBMITTING \<Longrightarrow>
        status_is d' (in_id n) SUBMITTING"
    and excl: "\<And>n q inp' n'. s = Claimed n \<Longrightarrow> q \<noteq> p \<Longrightarrow> runs w q inp' (Claimed n') \<Longrightarrow> in_id n' \<noteq> in_id n"
  shows "protocol_inv (goto p inp s d' w)"
proof -
  have "proc_ok d' (sent_ids w) (fst (w_procs w q)) (snd (w_procs w q))" if "q \<noteq> p" for q
  proof -
    have ok: "proc_ok (w_db w) (sent_ids w) (fst (w_procs w q)) (snd (w_procs w q))"
      using assms(1) by (simp add: protocol_inv_def)
    show ?thesis
    proof (cases "snd (w_procs w q)")
      case (Claimed n)
      then have "runs w q (fst (w_procs w q)) (Claimed n)" by (simp add: runs_def prod_eq_iff)
      then show ?thesis using ok Claimed keep sub that by simp
    qed (use ok keep in simp_all)
  qed
  moreover have "holds d' i (po_invoiceId po) \<and> \<not> status_is d' i PREPARED" if "(i, po) \<in> set (w_sent w)" for i po
  proof -
    have "holds (w_db w) i (po_invoiceId po)" "\<not> status_is (w_db w) i PREPARED"
      using assms(1) that by (auto simp: protocol_inv_def)
    moreover have "i \<in> sent_ids w" unfolding sent_ids_def using that by (metis fst_conv image_eqI)
    ultimately show ?thesis using keep sent by simp
  qed
  moreover have "q = q'" if "runs (goto p inp s d' w) q i1 (Claimed n)" "runs (goto p inp s d' w) q' i2 (Claimed n')"
    "in_id n = in_id n'" for q q' i1 i2 n n'
  proof (cases "q = p"; cases "q' = p")
    assume "q \<noteq> p" "q' \<noteq> p"
    then have "runs w q i1 (Claimed n)" "runs w q' i2 (Claimed n')" using that by (simp_all add: runs_goto)
    then show ?thesis using that(3) assms(1) unfolding protocol_inv_def by blast
  qed (use that excl in \<open>fastforce simp: runs_goto\<close>)+
  ultimately show ?thesis using assms(1,2,3) unfolding protocol_inv_def by auto
qed

text \<open>Steps that replace the stored intent of identifier \<open>i\<close>.\<close>

lemma claim_effect:
  assumes "claimSettlementIntent i d = Inr (n', d')"
  obtains n where "find_intent i d = Some n" "in_status n = PREPARED" "n' = n\<lparr>in_status := SUBMITTING\<rparr>"
    "d' = save_intent n' d" "in_id n' = i" "in_invoiceId n' = in_invoiceId n"
  using assms find_intent_Some by (fastforce simp: claimSettlementIntent_def Let_def split: option.splits if_splits)

lemma mark_effect:
  assumes "markSettlementDistributed i h d = Inr (n', d')"
  obtains n where "find_intent i d = Some n" "in_status n = SUBMITTING"
    "n' = n\<lparr>in_status := DISTRIBUTED, in_transactionHash := Some h\<rparr>"
    "d' = save_intent n' d" "in_id n' = i" "in_invoiceId n' = in_invoiceId n"
  using assms find_intent_Some by (fastforce simp: markSettlementDistributed_def Let_def split: option.splits if_splits)

lemma finish_effect:
  assumes "settle_tx D (Some send) (Some k) inp (Some n) payload h now ref d c = (Inr (r, d'), c')" "intents_ok d"
  obtains m where "find_intent (in_id n) d = Some m" "in_status m = DISTRIBUTED"
    "intents d' = intents (save_intent (m\<lparr>in_status := COMPLETED\<rparr>) d)" "keyed d'" "in_id m = in_id n"
proof -
  obtain res tr where r: "r = (res, tr)" by (cases r) auto
  obtain v ms h' where chk: "settle_checks inp payload d = Inr (v, ms)"
    and w: "settle_writes D (Some k) inp (Some n) h' now ref v ms d = Inr ((res, tr), d')"
    using settle_tx_success [OF assms(1) [unfolded r]] by auto
  obtain t fee q where am: "settle_amounts D (Some k) (si_proceeds inp) ms = (t, fee, q)" using prod_cases3 by blast
  obtain d3 where d3: "complete_intent (Some n) h' d3 = Inr d'" "intents d3 = intents d"
    "invoices d3 = (invoices d)(iv_id v \<mapsto> t_invoice tr)" "iv_id (t_invoice tr) = iv_id v"
    using settle_writes_effect [OF w am] by blast
  then obtain m where m: "find_intent (in_id n) d3 = Some m" "in_status m = DISTRIBUTED"
    "d' = save_intent (m\<lparr>in_status := COMPLETED\<rparr>) d3"
    by (auto simp: complete_intent_def split: option.splits if_splits)
  have "keyed d'" using assms(2) d3(3,4) m(3) by (auto simp: keyed_def intents_ok_def frame_simps)
  moreover have "find_intent (in_id n) d = Some m" using m(1) d3(2) by (simp add: find_intent_def)
  ultimately show ?thesis using that [of m] m d3(2) find_intent_Some [OF m(1)] by (simp add: save_intent_def)
qed

lemma intents_only:
  assumes "intents d = intents d'"
  shows "holds d = holds d'" "status_is d = status_is d'" "keyed d \<Longrightarrow> intents_ok d' \<Longrightarrow> intents_ok d"
proof -
  have find: "find_intent i d = find_intent i d'" for i using assms by (simp add: find_intent_def)
  show "holds d = holds d'" "status_is d = status_is d'" by (simp_all add: holds_def status_is_def fun_eq_iff find)
  show "keyed d \<Longrightarrow> intents_ok d' \<Longrightarrow> intents_ok d" by (simp add: intents_ok_def find assms)
qed

lemma inv_same_db:
  assumes "protocol_inv w" "proc_ok (w_db w) (sent_ids w) inp s" "\<And>n. s \<noteq> Claimed n"
  shows "protocol_inv (goto p inp s (w_db w) w)"
  by (rule inv_goto [OF assms(1) _ assms(2)]) (use assms(1,3) in \<open>auto simp: protocol_inv_def\<close>)

lemma proc_at: "protocol_inv w \<Longrightarrow> runs w p inp s \<Longrightarrow> proc_ok (w_db w) (sent_ids w) inp s"
  unfolding protocol_inv_def runs_def by (metis fst_conv snd_conv)

lemma status_unique: "status_is d i s \<Longrightarrow> status_is d i s' \<Longrightarrow> s = s'"
  by (auto simp: status_is_def)

lemma status_found: "find_intent i d = Some n \<Longrightarrow> status_is d i (in_status n)"
  by (simp add: status_is_def)

lemma claimed_is_submitting: "protocol_inv w \<Longrightarrow> runs w q inp (Claimed n) \<Longrightarrow> status_is (w_db w) (in_id n) SUBMITTING"
  using proc_at by fastforce

lemma claim_keeps:
  assumes "protocol_inv w" "runs w p inp (Ready n)" "claimSettlementIntent (in_id n) (w_db w) = Inr (n', d')"
  shows "protocol_inv (goto p inp (Claimed n) d' w)"
proof -
  obtain m where m: "find_intent (in_id n) (w_db w) = Some m" "in_status m = PREPARED"
    "n' = m\<lparr>in_status := SUBMITTING\<rparr>" "d' = save_intent n' (w_db w)" "in_id n' = in_id n" "in_invoiceId n' = in_invoiceId m"
    by (rule claim_effect [OF assms(3)])
  have ok: "intents_ok (w_db w)" using assms(1) by (simp add: protocol_inv_def)
  have f: "find_intent (in_id n') (w_db w) = Some m" using m by simp
  note sv = save_intents [OF ok f m(6)]
  have prep: "status_is (w_db w) (in_id n) PREPARED" using status_found [OF m(1)] m(2) by simp
  have fresh: "in_id n \<notin> sent_ids w"
    using assms(1) prep by (fastforce simp: protocol_inv_def sent_ids_def)
  show ?thesis
  proof (rule inv_goto [OF assms(1)])
    show "intents_ok d'" using sv(1) m(4) by simp
    show "proc_ok d' (sent_ids w) inp (Claimed n)"
      using proc_at [OF assms(1,2)] m fresh sv(2,3) by simp
    show "holds (w_db w) i vid \<Longrightarrow> holds d' i vid" for i vid using sv(2) m(4) by simp
    show "i \<in> sent_ids w \<Longrightarrow> \<not> status_is (w_db w) i PREPARED \<Longrightarrow> \<not> status_is d' i PREPARED" for i
      using sv(3) m by simp
    show "runs w q inp' (Claimed x) \<Longrightarrow> status_is (w_db w) (in_id x) SUBMITTING \<Longrightarrow> status_is d' (in_id x) SUBMITTING" for q inp' x
      using sv(3) m by simp
    show "Claimed n = Claimed x \<Longrightarrow> runs w q inp' (Claimed y) \<Longrightarrow> in_id y \<noteq> in_id x" for x y q inp'
      using claimed_is_submitting [OF assms(1)] prep status_unique by (metis intent_status.distinct(1) pc.inject(2))
  qed
qed

text \<open>Completing and marking an intent that no process has claimed.\<close>

lemma save_keeps:
  assumes "protocol_inv w" "find_intent (in_id n') (w_db w) = Some m" "in_invoiceId n' = in_invoiceId m"
    "in_status n' \<noteq> PREPARED" "\<And>q inp' x. runs w q inp' (Claimed x) \<Longrightarrow> in_id x \<noteq> in_id n'"
    "intents d' = intents (save_intent n' (w_db w))" "keyed d'" "\<And>n. s \<noteq> Claimed n" "proc_ok d' (sent_ids w) inp s"
  shows "protocol_inv (goto p inp s d' w)"
proof -
  have ok: "intents_ok (w_db w)" using assms(1) by (simp add: protocol_inv_def)
  note sv = save_intents [OF ok assms(2,3)] and same = intents_only [OF assms(6)]
  show ?thesis
    by (rule inv_goto [OF assms(1) same(3) [OF assms(7) sv(1)] assms(9)])
       (use assms(4,5,8) in \<open>auto simp: same(1,2) sv(2,3)\<close>)
qed

lemma submit_keeps:
  assumes "protocol_inv w" "runs w p inp (Claimed n)" "s = Paid n h \<or> s = Stopped"
  shows "protocol_inv ((goto p inp s (w_db w) w)
      \<lparr>w_sent := w_sent w @ [(in_id n, intent_payout (si_invoiceId inp) (in_payload n))]\<rparr>)" (is "protocol_inv ?w")
proof -
  note me = proc_at [OF assms(1,2)]
  have ids: "sent_ids ?w = insert (in_id n) (sent_ids w)" by (simp add: sent_ids_def)
  have new: "in_id n \<notin> sent_ids w" using me by simp
  have np: "\<not> status_is (w_db w) (in_id n) PREPARED"
    using me status_unique by fastforce
  have procs: "proc_ok (w_db w) (sent_ids ?w) (fst (w_procs ?w q)) (snd (w_procs ?w q))" for q
  proof (cases "q = p")
    case True
    then show ?thesis using assms(3) ids by auto
  next
    case False
    have ok: "proc_ok (w_db w) (sent_ids w) (fst (w_procs w q)) (snd (w_procs w q))"
      using assms(1) by (simp add: protocol_inv_def)
    show ?thesis
    proof (cases "snd (w_procs w q)")
      case (Claimed x)
      then have "runs w q (fst (w_procs w q)) (Claimed x)" by (simp add: runs_def prod_eq_iff)
      then have "in_id x \<noteq> in_id n" using assms(1,2) False unfolding protocol_inv_def by blast
      then show ?thesis using ok Claimed False ids by simp
    qed (use ok False ids in simp_all)
  qed
  have ex: "q = q'" if "runs ?w q i1 (Claimed x)" "runs ?w q' i2 (Claimed y)" "in_id x = in_id y" for q q' i1 i2 x y
  proof -
    have "runs w q i1 (Claimed x)" "runs w q' i2 (Claimed y)"
      using that(1,2) assms(3) by (auto simp: runs_def goto_def split: if_splits)
    then show ?thesis using that(3) assms(1) unfolding protocol_inv_def by blast
  qed
  show ?thesis unfolding protocol_inv_def
  proof (intro conjI)
    show "distinct (map fst (w_sent ?w))" using assms(1) new by (simp add: protocol_inv_def sent_ids_def)
    show "\<forall>(i, po) \<in> set (w_sent ?w). holds (w_db ?w) i (po_invoiceId po) \<and> \<not> status_is (w_db ?w) i PREPARED"
      using assms(1) me np by (auto simp: protocol_inv_def intent_payout_def)
    show "\<forall>p q inp inp' n n'. runs ?w p inp (Claimed n) \<and> runs ?w q inp' (Claimed n') \<and> in_id n = in_id n' \<longrightarrow> p = q"
      using ex by blast
  qed (use assms(1) procs in \<open>auto simp: protocol_inv_def\<close>)
qed

lemma prepare_keeps:
  assumes "protocol_inv w" "x \<notin> in_id ` set (intents (w_db w))"
    "prepareSettlementIntent D (si_invoiceId inp) terms x (w_db w) = Inr (n, d')"
  shows "protocol_inv (goto p inp (Ready n) d' w)"
proof -
  have ok: "intents_ok (w_db w)" using assms(1) by (simp add: protocol_inv_def)
  note pi = prepare_intents [OF ok assms(2,3)]
  have st: "status_is (w_db w) i s \<Longrightarrow> status_is d' i s" for i s using pi by (auto simp: status_is_def)
  have known: "\<exists>s. status_is (w_db w) i s" if "i \<in> sent_ids w" for i
    using that assms(1) by (fastforce simp: protocol_inv_def sent_ids_def status_is_def holds_def)
  show ?thesis
  proof (rule inv_goto [OF assms(1)])
    show "intents_ok d'" "proc_ok d' (sent_ids w) inp (Ready n)" using pi by simp_all
    show "holds (w_db w) i vid \<Longrightarrow> holds d' i vid" for i vid using pi by (auto simp: holds_def)
    show "i \<in> sent_ids w \<Longrightarrow> \<not> status_is (w_db w) i PREPARED \<Longrightarrow> \<not> status_is d' i PREPARED" for i
      using known st status_unique by blast
    show "status_is (w_db w) (in_id y) SUBMITTING \<Longrightarrow> status_is d' (in_id y) SUBMITTING" for y by (rule st)
  qed simp_all
qed

lemma protocol_step:
  assumes "settle_step D k send w w'" "protocol_inv w"
  shows "protocol_inv w'"
  using assms(1)
proof cases
  case (call p inp s inp')
  then show ?thesis using inv_same_db [OF assms(2), of inp' Start p] by simp
next
  case (prepare p inp x n d')
  then show ?thesis using prepare_keeps [OF assms(2)] by simp
next
  case (claim p inp n n' d')
  then show ?thesis using claim_keeps [OF assms(2)] by simp
next
  case (submit p inp n s h)
  then show ?thesis using submit_keeps [OF assms(2)] by simp
next
  case (mark p inp n h n' d')
  obtain m where m: "find_intent (in_id n) (w_db w) = Some m" "n' = m\<lparr>in_status := DISTRIBUTED, in_transactionHash := Some h\<rparr>"
    "d' = save_intent n' (w_db w)" "in_id n' = in_id n" "in_invoiceId n' = in_invoiceId m"
    using mark_effect [OF mark(3)] by blast
  have "in_id n \<in> sent_ids w" using proc_at [OF assms(2) mark(2)] by simp
  then have free: "in_id y \<noteq> in_id n'" if "runs w q inp' (Claimed y)" for q inp' y
    using proc_at [OF assms(2) that] m(4) by auto
  have "keyed d'" using assms(2) m(3) by (simp add: protocol_inv_def intents_ok_def keyed_def frame_simps)
  then show ?thesis unfolding mark(1) using save_keeps [OF assms(2) _ m(5) _ free, where d' = d' and s = "Marked n' h" and inp = inp and p = p] m by simp
next
  case (resume p inp n h)
  then show ?thesis using inv_same_db [OF assms(2), of inp "Marked n h" p] by simp
next
  case (finish p inp n h payload now ref c r d' c')
  have ok: "intents_ok (w_db w)" using assms(2) by (simp add: protocol_inv_def)
  obtain m where m: "find_intent (in_id n) (w_db w) = Some m" "in_status m = DISTRIBUTED"
    "intents d' = intents (save_intent (m\<lparr>in_status := COMPLETED\<rparr>) (w_db w))" "keyed d'" "in_id m = in_id n"
    by (rule finish_effect [OF finish(3) ok])
  have free: "in_id y \<noteq> in_id (m\<lparr>in_status := COMPLETED\<rparr>)" if "runs w q inp' (Claimed y)" for q inp' y
  proof
    assume "in_id y = in_id (m\<lparr>in_status := COMPLETED\<rparr>)"
    then have "status_is (w_db w) (in_id n) SUBMITTING" using claimed_is_submitting [OF assms(2) that] m(5) by simp
    then show False using m(1,2) by (simp add: status_is_def)
  qed
  show ?thesis unfolding finish(1) using save_keeps [OF assms(2) _ _ _ free m(3,4), where m = m and s = Stopped and inp = inp and p = p] m(1,5) by simp
next
  case (stop p inp s)
  then show ?thesis using inv_same_db [OF assms(2), of inp Stopped p] by simp
next
  case (others d')
  have "intents_ok d'" using others(2,3) assms(2) intents_only(3) [of d' "w_db w"] by (simp add: protocol_inv_def)
  moreover have "proc_ok d' = proc_ok (w_db w)"
    by (rule ext)+ (rename_tac a b c, case_tac c; simp add: intents_only(1,2) [OF others(2)])
  ultimately show ?thesis unfolding others(1) using assms(2) intents_only(1,2) [OF others(2)]
    by (simp add: protocol_inv_def sent_ids_def runs_def)
qed

text \<open>The worlds a run of any number of processes can reach.\<close>

abbreviation settle_run :: "decimal_lib \<Rightarrow> distributor_config \<Rightarrow> 'c distributor \<Rightarrow> world \<Rightarrow> world \<Rightarrow> bool" where
  "settle_run D k send \<equiv> rtranclp (settle_step D k send)"

interpretation protocol: kept_by_steps "settle_step D k send" protocol_inv for D k and send :: "'c distributor"
  by unfold_locales (rule protocol_step)

definition initial :: "db \<Rightarrow> world" where
  "initial d = \<lparr>w_db = d, w_procs = (\<lambda>p. (\<lparr>si_invoiceId = [], si_proceeds = 0, si_actorWallet = [], si_txHash = None,
     si_trigger = None, si_systemTrigger = False, si_sellerId = None\<rparr>, Stopped)), w_sent = []\<rparr>"

lemma initial_inv: "keyed d \<Longrightarrow> intents d = [] \<Longrightarrow> protocol_inv (initial d)"
  by (simp add: protocol_inv_def initial_def intents_ok_def find_intent_def runs_def)


lemma sample_run_pays:
  "\<exists>w. settle_run exact_decimal sample_config accepting (initial funded_db) w \<and> length (w_sent w) = 1"
proof -
  let ?w0 = "initial funded_db" and ?t = "intent_terms exact_decimal seller_settlement sample_config"
  obtain n where n: "prepareSettlementIntent exact_decimal ''i1'' ?t ''n1'' funded_db = Inr (n, save_intent n funded_db)"
    "in_status n = PREPARED" using seller_prepares by blast
  let ?w1 = "goto 0 seller_settlement Start (w_db ?w0) ?w0"
  let ?w2 = "goto 0 seller_settlement (Ready n) (save_intent n funded_db) ?w1"
  let ?n = "n\<lparr>in_status := SUBMITTING\<rparr>"
  let ?w3 = "goto 0 seller_settlement (Claimed n) (save_intent ?n (save_intent n funded_db)) ?w2"
  have i: "si_invoiceId seller_settlement = ''i1''" by (simp add: seller_settlement_def sample_settlement_def)
  have "settle_step exact_decimal sample_config accepting ?w0 ?w1"
    by (rule settle_step.call) (simp add: runs_def initial_def)
  moreover have "settle_step exact_decimal sample_config accepting ?w1 ?w2"
    by (rule settle_step.prepare) (use n i in \<open>auto simp: runs_goto initial_def funded_facts\<close>)
  moreover have "settle_step exact_decimal sample_config accepting ?w2 ?w3"
    by (rule settle_step.claim) (use n in \<open>auto simp: runs_goto claimSettlementIntent_def Let_def\<close>)
  moreover have "settle_step exact_decimal sample_config accepting ?w3
      ((goto 0 seller_settlement Stopped (w_db ?w3) ?w3)
         \<lparr>w_sent := w_sent ?w3 @ [(in_id n, intent_payout (si_invoiceId seller_settlement) (in_payload n))]\<rparr>)"
    by (rule settle_step.submit) (auto simp: runs_goto)
  ultimately have "settle_run exact_decimal sample_config accepting ?w0
      ((goto 0 seller_settlement Stopped (w_db ?w3) ?w3)
         \<lparr>w_sent := w_sent ?w3 @ [(in_id n, intent_payout (si_invoiceId seller_settlement) (in_payload n))]\<rparr>)"
    by (meson rtranclp.rtrancl_into_rtrancl rtranclp.rtrancl_refl)
  then show ?thesis by (intro exI conjI) (assumption, simp add: initial_def)
qed


end
