(* ===== verification/Investing.thy ===== *)
theory Investing
  imports Units Invoice_Model
begin

section \<open>Investing\<close>

text \<open>
  \<open>src/services/investment.service.ts\<close>. \<open>investInInvoice\<close> reads the invoice without a lock and
  writes under the condition that its version has not changed, so an attempt is two steps,
  between which other transactions may commit; \<open>createInvestment\<close> holds the row lock from its
  read to its commit and is one step.  The unique index on (invoice, wallet, block) is checked at the
  insert. Row identifiers, the terms version and the clock are arguments.
\<close>

record invest_input =
  nv_invoiceId :: string
  nv_investorId :: string
  nv_wallet :: string
  nv_amount :: num_input
  nv_ledger :: "int option"

definition FUNDING_WINDOW_MS :: int where "FUNDING_WINDOW_MS = 5000"

definition currentFundingWindow :: "int \<Rightarrow> int" where
  "currentFundingWindow now = now div FUNDING_WINDOW_MS"

definition funding_conflict :: error where
  "funding_conflict = JsError ''FundingConflictError''"

definition duplicateInvestmentError :: error where
  "duplicateInvestmentError = ServiceError ''DUPLICATE_INVESTMENT'' 409"

definition assertAccreditationAcknowledged :: "string \<Rightarrow> string option \<Rightarrow> db \<Rightarrow> unit result" where
  "assertAccreditationAcknowledged terms walletAddress d =
     (case map_option js_trim walletAddress of
        None \<Rightarrow> Inl (ServiceError ''ACKNOWLEDGEMENT_REQUIRED'' 403)
      | Some wallet \<Rightarrow>
          if wallet = [] \<or> (wallet, terms) \<notin> set (acknowledgements d)
          then Inl (ServiceError ''ACKNOWLEDGEMENT_REQUIRED'' 403) else Inr ())"

text \<open>\<open>amount.decimalPlaces() > 4\<close> is the negation.\<close>

definition four_places :: "decimal \<Rightarrow> bool" where
  "four_places x \<longleftrightarrow> of_int \<lfloor>x * 10000\<rfloor> = x * 10000"

lemma four_places_dec: "decimal_ok D \<Longrightarrow> four_places x \<Longrightarrow> dec (toFixed4 D x) = x"
proof -
  assume D: "decimal_ok D" and "four_places x"
  then have "of_int \<lfloor>x * 10000\<rfloor> = x * 10000" by (simp only: four_places_def)
  then have "dec \<lfloor>x * 10000\<rfloor> = x * 10000 / 10000" unfolding dec_def by (simp only:)
  then have "dec \<lfloor>x * 10000\<rfloor> = x" by simp
  then show ?thesis using toFixed4_dec [OF D] by metis
qed

definition validate_amount :: "num_input \<Rightarrow> decimal result" where
  "validate_amount x =
     (case x of
        Num amount \<Rightarrow>
          if amount \<le> 0 then Inl (ServiceError ''INVALID_AMOUNT'' 400)
          else if \<not> four_places amount then Inl (ServiceError ''INVALID_AMOUNT'' 400)
          else Inr amount
      | _ \<Rightarrow> Inl (ServiceError ''INVALID_AMOUNT'' 400))"

definition deadline_passed :: "invoice \<Rightarrow> int \<Rightarrow> bool" where
  "deadline_passed v now \<longleftrightarrow> (case iv_fundingDeadline v of None \<Rightarrow> False | Some t \<Rightarrow> t < now)"

definition same_block :: "invest_input \<Rightarrow> string \<Rightarrow> investment \<Rightarrow> bool" where
  "same_block inp block m \<longleftrightarrow>
     im_invoiceId m = nv_invoiceId inp \<and> im_wallet m = Some (nv_wallet inp) \<and> im_fundingBlock m = Some block"

subsection \<open>Optimistic funding\<close>

text \<open>The checks of an attempt, against the invoice as read.\<close>

definition invest_read :: "decimal_lib \<Rightarrow> invest_input \<Rightarrow> decimal \<Rightarrow> string \<Rightarrow> int \<Rightarrow> db \<Rightarrow> invoice result" where
  "invest_read D inp amount block now d =
     (case invoices d (nv_invoiceId inp) of
        None \<Rightarrow> Inl (ServiceError ''INVOICE_NOT_FOUND'' 404)
      | Some v \<Rightarrow>
          if iv_status v \<noteq> PUBLISHED then Inl (ServiceError ''INVOICE_NOT_OPEN_FOR_INVESTMENT'' 422)
          else if isPastDueDate (iv_dueDate v) now then Inl (ServiceError ''invoice_expired'' 422)
          else if deadline_passed v now then Inl (ServiceError ''funding_deadline_passed'' 422)
          else if iv_sellerId v = nv_investorId inp then Inl (ServiceError ''SELF_DEALING'' 403)
          else let remaining = max (dminus D (dec (iv_netAmount v)) (dec (iv_fundedAmount v))) 0
               in if amount > remaining then Inl (ServiceError ''INSUFFICIENT_CAPACITY'' 422)
               else if (\<exists>m \<in> set (investments d). same_block inp block m) then Inl duplicateInvestmentError
               else Inr v)"

text \<open>The conditional \<open>UPDATE\<close>; \<open>None\<close> is an update that affected no row.\<close>

definition update_funded :: "string \<Rightarrow> int \<Rightarrow> amt \<Rightarrow> db \<Rightarrow> db option" where
  "update_funded i version a d =
     (case invoices d i of
        None \<Rightarrow> None
      | Some w \<Rightarrow>
          if iv_version w = version \<and> iv_status w = PUBLISHED \<and> iv_fundedAmount w + a \<le> iv_netAmount w
          then Some (d\<lparr>invoices := (invoices d)(i \<mapsto>
                  w\<lparr>iv_fundedAmount := iv_fundedAmount w + a, iv_version := iv_version w + 1\<rparr>)\<rparr>)
          else None)"

definition expected_return :: "decimal_lib \<Rightarrow> invoice \<Rightarrow> decimal \<Rightarrow> amt" where
  "expected_return D v amount =
     toFixed4 D (fixd D 4 (dtimes D amount (ddiv D (dec (iv_amount v)) (dec (iv_netAmount v)))))"

definition new_investment :: "decimal_lib \<Rightarrow> invest_input \<Rightarrow> string \<Rightarrow> string option \<Rightarrow> decimal \<Rightarrow> invoice \<Rightarrow> investment" where
  "new_investment D inp new_id block amount v =
     \<lparr>im_id = new_id, im_invoiceId = nv_invoiceId inp, im_investorId = nv_investorId inp,
      im_amount = toFixed4 D amount, im_expectedReturn = expected_return D v amount, im_actualReturn = None,
      im_status = InvPENDING, im_wallet = Some (nv_wallet inp), im_fundingBlock = block, im_transactionHash = None, im_operationIndex = None\<rparr>"

text \<open>The transition to funded that both ways of investing make when the invoice is full.\<close>

definition fund_transition :: "decimal_lib \<Rightarrow> invoice \<Rightarrow> string \<Rightarrow> decimal \<Rightarrow> int \<Rightarrow> nat \<Rightarrow> db \<Rightarrow> error + (invoice_transition \<times> db)" where
  "fund_transition D v wallet newFunded now ref d =
     transition entityManagerTransitionStore v FUNDED \<lparr>a_role = System, a_id = None, a_wallet = Some wallet\<rparr>
       ''fully_funded'' (empty_context\<lparr>x_fundedAmount := Some (dec (toFixed4 D newFunded))\<rparr>) now ref d"

record invest_result =
  vr_investment :: investment
  vr_invoice :: invoice
  vr_fundedAmount :: decimal
  vr_transition :: "invoice_transition option"

definition invest_write ::
    "decimal_lib \<Rightarrow> invest_input \<Rightarrow> decimal \<Rightarrow> string \<Rightarrow> string \<Rightarrow> int \<Rightarrow> nat \<Rightarrow> invoice \<Rightarrow> db \<Rightarrow> error + (invest_result \<times> db)" where
  "invest_write D inp amount block new_id now ref v d =
     (case update_funded (nv_invoiceId inp) (iv_version v) (toFixed4 D amount) d of
        None \<Rightarrow> Inl funding_conflict
      | Some d1 \<Rightarrow>
          let newFunded = dplus D (dec (iv_fundedAmount v)) amount;
              v' = v\<lparr>iv_fundedAmount := toFixed4 D newFunded, iv_version := iv_version v + 1\<rparr>;
              m = new_investment D inp new_id (Some block) amount v
          in if (\<exists>x \<in> set (investments d1). same_block inp block x) then Inl duplicateInvestmentError
          else let d2 = save_investment m d1
               in if newFunded \<ge> dec (iv_netAmount v)
                  then and_then (fund_transition D v' (nv_wallet inp) newFunded now ref d2) (\<lambda>(t, d3).
                         Inr (\<lparr>vr_investment = m, vr_invoice = t_invoice t, vr_fundedAmount = newFunded,
                               vr_transition = Some t\<rparr>, d3))
                  else Inr (\<lparr>vr_investment = m, vr_invoice = v', vr_fundedAmount = newFunded,
                             vr_transition = None\<rparr>, d2))"

text \<open>The retry loop: \<open>others k\<close> is what commits between the read and the write of attempt \<open>k\<close>.\<close>

definition MAX_ATTEMPTS :: nat where "MAX_ATTEMPTS = 3"

function invest_loop ::
    "decimal_lib \<Rightarrow> invest_input \<Rightarrow> decimal \<Rightarrow> string \<Rightarrow> string \<Rightarrow> int \<Rightarrow> nat \<Rightarrow> (nat \<Rightarrow> db \<Rightarrow> db) \<Rightarrow> nat \<Rightarrow> db \<Rightarrow>
     invest_result result \<times> db \<times> nat" where
  "invest_loop D inp amount block new_id now ref others attempt d =
     (case invest_read D inp amount block now d of
        Inl e \<Rightarrow> (Inl e, d, attempt)
      | Inr v \<Rightarrow>
          (case run_tx (invest_write D inp amount block new_id now ref v) (others attempt d) of
             (Inr r, d') \<Rightarrow> (Inr r, d', attempt)
           | (Inl e, d') \<Rightarrow>
               if e \<noteq> funding_conflict then (Inl e, d', attempt)
               else if attempt \<ge> MAX_ATTEMPTS
               then (Inl (ServiceError ''CONCURRENT_INVESTMENT_CONFLICT'' 409), d', attempt)
               else invest_loop D inp amount block new_id now ref others (attempt + 1) d'))"
  by pat_completeness auto
termination
  by (relation "measure (\<lambda>(D, inp, amount, block, new_id, now, ref, others, attempt, d). MAX_ATTEMPTS - attempt)")
     (auto simp: MAX_ATTEMPTS_def)

declare invest_loop.simps [simp del]

record funding_state =
  fs_status :: invoice_status
  fs_target :: amt
  fs_funded :: amt
  fs_remaining :: amt
  fs_percent :: int
  fs_version :: int

definition funding_of :: "decimal_lib \<Rightarrow> invest_result \<Rightarrow> funding_state" where
  "funding_of D r =
     (let netAmount = dec (iv_netAmount (vr_invoice r)); fundedAmount = vr_fundedAmount r
      in \<lparr>fs_status = iv_status (vr_invoice r), fs_target = toFixed4 D netAmount, fs_funded = toFixed4 D fundedAmount,
          fs_remaining = toFixed4 D (max (dminus D netAmount fundedAmount) 0),
          fs_percent = toFixed2 D (dtimes D (ddiv D fundedAmount netAmount) 100),
          fs_version = iv_version (vr_invoice r)\<rparr>)"

definition investInInvoice ::
    "decimal_lib \<Rightarrow> string \<Rightarrow> invest_input \<Rightarrow> string \<Rightarrow> int \<Rightarrow> nat \<Rightarrow> (nat \<Rightarrow> db \<Rightarrow> db) \<Rightarrow> db \<Rightarrow>
     (invest_result \<times> funding_state) result \<times> db" where
  "investInInvoice D terms inp new_id now ref others d =
     (case and_then (assertAccreditationAcknowledged terms (Some (nv_wallet inp)) d) (\<lambda>_. validate_amount (nv_amount inp)) of
        Inl e \<Rightarrow> (Inl e, d)
      | Inr amount \<Rightarrow>
          let block = int_str (case nv_ledger inp of None \<Rightarrow> currentFundingWindow now | Some l \<Rightarrow> l)
          in (case invest_loop D inp amount block new_id now ref others 1 d of
                (Inl e, d', k) \<Rightarrow> (Inl e, d')
              | (Inr r, d', k) \<Rightarrow> (Inr (r, funding_of D r), d')))"

subsection \<open>Investing under the row lock\<close>

datatype risk_category = RiskLow | RiskMedium | RiskHigh

text \<open>\<open>riskScore\<close> as \<open>parseFloat\<close> reads it, 50 when the column is empty; \<open>None\<close> is NaN.\<close>

definition risk_category :: "decimal option \<Rightarrow> risk_category" where
  "risk_category riskScore =
     (case riskScore of None \<Rightarrow> RiskMedium
      | Some s \<Rightarrow> if s < 33 then RiskLow else if s > 66 then RiskHigh else RiskMedium)"

text \<open>The suitability service answers whether the category suits the wallet, or raises
  (\<open>None\<close>), which does not stop the investment.\<close>

definition check_suitability ::
    "(string \<Rightarrow> risk_category \<Rightarrow> bool option) option \<Rightarrow> (string \<Rightarrow> decimal option) \<Rightarrow> invest_input \<Rightarrow> db \<Rightarrow> unit result" where
  "check_suitability service riskScore inp d =
     (case service of
        None \<Rightarrow> Inr ()
      | Some check \<Rightarrow>
          (case invoices d (nv_invoiceId inp) of
             None \<Rightarrow> Inr ()
           | Some v \<Rightarrow>
               if check (nv_wallet inp) (risk_category (riskScore (iv_id v))) = Some False
               then Inl (ServiceError ''SUITABILITY_CHECK_FAILED'' 403) else Inr ()))"

definition active_investments :: "string \<Rightarrow> db \<Rightarrow> investment list" where
  "active_investments i d =
     filter (\<lambda>m. im_invoiceId m = i \<and> (im_status m = InvPENDING \<or> im_status m = InvCONFIRMED)) (investments d)"

definition total_active :: "decimal_lib \<Rightarrow> investment list \<Rightarrow> decimal" where
  "total_active D ms = dsum D (map (\<lambda>m. dec (im_amount m)) ms)"

definition create_tx ::
    "decimal_lib \<Rightarrow> invest_input \<Rightarrow> num_input \<Rightarrow> string \<Rightarrow> int \<Rightarrow> nat \<Rightarrow> db \<Rightarrow>
     error + ((investment \<times> invoice_transition option) \<times> db)" where
  "create_tx D inp investmentAmount new_id now ref d =
     (case invoices d (nv_invoiceId inp) of
        None \<Rightarrow> Inl (ServiceError ''INVOICE_NOT_FOUND'' 404)
      | Some v \<Rightarrow>
          if iv_status v \<noteq> PUBLISHED
          then Inl (if iv_status v = FUNDED then service_error ''INSUFFICIENT_CAPACITY''
                    else service_error ''INVALID_INVOICE_STATUS'')
          else if isPastDueDate (iv_dueDate v) now then Inl (ServiceError ''invoice_expired'' 422)
          else if deadline_passed v now then Inl (ServiceError ''funding_deadline_passed'' 422)
          else if iv_sellerId v = nv_investorId inp then Inl (service_error ''SELF_DEALING'')
          else let totalInvested = total_active D (active_investments (nv_invoiceId inp) d);
                   netAmount = dec (iv_netAmount v);
                   remainingCapacity = dminus D netAmount totalInvested
               in case investmentAmount of
                    Malformed \<Rightarrow> Inl (JsError ''DecimalError'')
                  | NaN \<Rightarrow> Inl (JsError ''SyntaxError'')
                  | NegInf \<Rightarrow> Inl (service_error ''INVALID_AMOUNT'')
                  | PosInf \<Rightarrow> Inl (service_error ''INSUFFICIENT_CAPACITY'')
                  | Num amount \<Rightarrow>
                      if amount > remainingCapacity then Inl (service_error ''INSUFFICIENT_CAPACITY'')
                      else let m = new_investment D inp new_id None amount v;
                               d1 = save_investment m d;
                               newTotalInvested = dplus D totalInvested amount;
                               v' = v\<lparr>iv_fundedAmount := toFixed4 D newTotalInvested\<rparr>
                           in if newTotalInvested \<ge> netAmount
                              then and_then (fund_transition D v' (nv_wallet inp) newTotalInvested now ref d1) (\<lambda>(t, d2).
                                     Inr ((m, Some t), d2))
                              else Inr ((m, None), snd (orm_save_invoice v' d1)))"

text \<open>\<open>NaN\<close> passes every comparison; the log line of the commit then raises on \<open>BigInt\<close>. The row
  lock leaves no version conflict to retry, so the retry loop runs once.\<close>

definition createInvestment ::
    "decimal_lib \<Rightarrow> string \<Rightarrow> (string \<Rightarrow> risk_category \<Rightarrow> bool option) option \<Rightarrow> (string \<Rightarrow> decimal option) \<Rightarrow>
     invest_input \<Rightarrow> string \<Rightarrow> int \<Rightarrow> nat \<Rightarrow> db \<Rightarrow> (investment \<times> invoice_transition option) result \<times> db" where
  "createInvestment D terms service riskScore inp new_id now ref d =
     (case and_then (assertAccreditationAcknowledged terms (Some (nv_wallet inp)) d) (\<lambda>_.
             check_suitability service riskScore inp d) of
        Inl e \<Rightarrow> (Inl e, d)
      | Inr _ \<Rightarrow>
          (case nv_amount inp of
             Malformed \<Rightarrow> (Inl (JsError ''DecimalError''), d)
           | NegInf \<Rightarrow> (Inl (service_error ''INVALID_AMOUNT''), d)
           | Num amount \<Rightarrow>
               if amount \<le> 0 then (Inl (service_error ''INVALID_AMOUNT''), d)
               else run_tx (create_tx D inp (Num amount) new_id now ref) d
           | x \<Rightarrow> run_tx (create_tx D inp x new_id now ref) d))"

subsection \<open>The dashboard\<close>

record dashboard =
  da_totalInvested :: decimal
  da_totalReturns :: decimal
  da_activeCount :: nat
  da_activeTotal :: decimal
  da_settledCount :: nat
  da_failedCount :: nat

definition dashboard_step :: "decimal_lib \<Rightarrow> dashboard \<Rightarrow> investment \<Rightarrow> dashboard" where
  "dashboard_step D s m =
     (let amount = dec (im_amount m);
          s1 = s\<lparr>da_totalInvested := dplus D (da_totalInvested s) amount\<rparr>;
          s2 = (if im_status m = InvPENDING \<or> im_status m = InvCONFIRMED
                then s1\<lparr>da_activeCount := da_activeCount s1 + 1,
                        da_activeTotal := dplus D (da_activeTotal s1) amount\<rparr> else s1);
          s3 = (if im_status m = InvSETTLED
                then (case im_actualReturn m of
                        None \<Rightarrow> s2\<lparr>da_settledCount := da_settledCount s2 + 1\<rparr>
                      | Some r \<Rightarrow> s2\<lparr>da_settledCount := da_settledCount s2 + 1,
                                   da_totalReturns := dplus D (da_totalReturns s2) (dec r)\<rparr>)
                else s2)
      in if im_status m = InvCANCELLED then s3\<lparr>da_failedCount := da_failedCount s3 + 1\<rparr> else s3)"

record dashboard_result =
  dr_totalInvested :: amt
  dr_totalReturns :: amt
  dr_activeInvestments :: nat
  dr_activeTotal :: amt
  dr_settledCount :: nat
  dr_failedCount :: nat

definition getInvestorDashboard :: "decimal_lib \<Rightarrow> string \<Rightarrow> db \<Rightarrow> dashboard_result" where
  "getInvestorDashboard D investorId d =
     (let s = foldl (dashboard_step D)
                \<lparr>da_totalInvested = 0, da_totalReturns = 0, da_activeCount = 0, da_activeTotal = 0,
                 da_settledCount = 0, da_failedCount = 0\<rparr>
                (filter (\<lambda>m. im_investorId m = investorId) (investments d))
      in \<lparr>dr_totalInvested = toFixed4 D (da_totalInvested s), dr_totalReturns = toFixed4 D (da_totalReturns s),
          dr_activeInvestments = da_activeCount s, dr_activeTotal = toFixed4 D (da_activeTotal s),
          dr_settledCount = da_settledCount s, dr_failedCount = da_failedCount s\<rparr>)"

subsection \<open>What the dashboard shows\<close>

text \<open>The state of the loop with exact totals.\<close>

definition dash :: "amt \<Rightarrow> amt \<Rightarrow> nat \<Rightarrow> amt \<Rightarrow> nat \<Rightarrow> nat \<Rightarrow> dashboard" where
  "dash a r k t n f = \<lparr>da_totalInvested = dec a, da_totalReturns = dec r, da_activeCount = k, da_activeTotal = dec t,
     da_settledCount = n, da_failedCount = f\<rparr>"

definition is_active :: "investment \<Rightarrow> bool" where
  "is_active m \<longleftrightarrow> im_status m = InvPENDING \<or> im_status m = InvCONFIRMED"

definition paid_return :: "investment \<Rightarrow> amt" where
  "paid_return m = (if im_status m = InvSETTLED then (case im_actualReturn m of None \<Rightarrow> 0 | Some r \<Rightarrow> r) else 0)"

definition total_of :: "(investment \<Rightarrow> amt) \<Rightarrow> investment list \<Rightarrow> amt" where
  "total_of f ms = sum_list (map f ms)"

lemma total_of_simps [simp]: "total_of f [] = 0" "total_of f (m # ms) = f m + total_of f ms"
  by (simp_all add: total_of_def)

lemma total_of_nonneg: "\<forall>m \<in> set ms. 0 \<le> f m \<Longrightarrow> 0 \<le> total_of f ms"
  by (induction ms) auto

lemma total_of_active: "\<forall>m \<in> set ms. 0 \<le> im_amount m \<Longrightarrow> total_of im_amount (filter is_active ms) \<le> total_of im_amount ms"
  by (induction ms) auto

lemma dashboard_one:
  assumes "decimal_ok D" "amt_ok (a + im_amount m)" "amt_ok (r + paid_return m)" "amt_ok (t + im_amount m)"
  shows "dashboard_step D (dash a r k t n f) m =
    dash (a + im_amount m) (r + paid_return m) (k + (if is_active m then 1 else 0))
      (t + (if is_active m then im_amount m else 0)) (n + (if im_status m = InvSETTLED then 1 else 0))
      (f + (if im_status m = InvCANCELLED then 1 else 0))"
  using assms dplus_dec [OF assms(1)]
  by (cases "im_status m") (auto simp: dashboard_step_def dash_def is_active_def paid_return_def Let_def split: option.splits)

lemma dashboard_fold:
  assumes "decimal_ok D" "0 \<le> t" "t \<le> a" "0 \<le> r" "\<forall>m \<in> set ms. 0 \<le> im_amount m \<and> 0 \<le> paid_return m"
    "amt_ok (a + total_of im_amount ms)" "amt_ok (r + total_of paid_return ms)"
  shows "foldl (dashboard_step D) (dash a r k t n f) ms =
    dash (a + total_of im_amount ms) (r + total_of paid_return ms) (k + length (filter is_active ms))
      (t + total_of im_amount (filter is_active ms)) (n + length (filter (\<lambda>m. im_status m = InvSETTLED) ms))
      (f + length (filter (\<lambda>m. im_status m = InvCANCELLED) ms))"
  using assms(2-)
proof (induction ms arbitrary: a r k t n f)
  case (Cons m ms)
  have pos: "0 \<le> im_amount m" "0 \<le> paid_return m" "0 \<le> total_of im_amount ms" "0 \<le> total_of paid_return ms"
    using Cons.prems(4) total_of_nonneg by auto
  have ok: "amt_ok (a + im_amount m)" "amt_ok (r + paid_return m)" "amt_ok (t + im_amount m)"
    using Cons.prems pos by (auto simp: amt_ok_def)
  show ?case using dashboard_one [OF assms(1) ok, of k n f] Cons.prems pos
    by (simp add: Cons.IH add.assoc)
qed simp

lemma status_partition:
  "length (filter is_active ms) + length (filter (\<lambda>m. im_status m = InvSETTLED) ms) +
     length (filter (\<lambda>m. im_status m = InvCANCELLED) ms) = length ms"
proof (induction ms)
  case (Cons m ms)
  then show ?case by (cases "im_status m") (simp_all add: is_active_def)
qed simp

text \<open>The dashboard's totals are the exact sums over the investor's investments, of all of them,
  of the open ones and of the returns paid on settled ones, and its counts partition them.\<close>

theorem dashboard_totals_are_exact:
  assumes "decimal_ok D" "ms = filter (\<lambda>m. im_investorId m = investorId) (investments d)"
    "\<forall>m \<in> set ms. 0 \<le> im_amount m \<and> 0 \<le> paid_return m"
    "amt_ok (total_of im_amount ms)" "amt_ok (total_of paid_return ms)"
  shows "getInvestorDashboard D investorId d =
     \<lparr>dr_totalInvested = total_of im_amount ms, dr_totalReturns = total_of paid_return ms,
      dr_activeInvestments = length (filter is_active ms), dr_activeTotal = total_of im_amount (filter is_active ms),
      dr_settledCount = length (filter (\<lambda>m. im_status m = InvSETTLED) ms),
      dr_failedCount = length (filter (\<lambda>m. im_status m = InvCANCELLED) ms)\<rparr> \<and>
    length (filter is_active ms) + length (filter (\<lambda>m. im_status m = InvSETTLED) ms) +
      length (filter (\<lambda>m. im_status m = InvCANCELLED) ms) = length ms"
proof
  have z: "\<lparr>da_totalInvested = 0, da_totalReturns = 0, da_activeCount = 0, da_activeTotal = 0, da_settledCount = 0,
     da_failedCount = 0\<rparr> = dash 0 0 0 0 0 0" by (simp add: dash_def)
  have "foldl (dashboard_step D) (dash 0 0 0 0 0 0) ms =
    dash (total_of im_amount ms) (total_of paid_return ms) (length (filter is_active ms))
      (total_of im_amount (filter is_active ms)) (length (filter (\<lambda>m. im_status m = InvSETTLED) ms))
      (length (filter (\<lambda>m. im_status m = InvCANCELLED) ms))"
    using dashboard_fold [OF assms(1), of 0 0 0 ms] assms(3-5) by simp
  note f = this
  show "getInvestorDashboard D investorId d =
     \<lparr>dr_totalInvested = total_of im_amount ms, dr_totalReturns = total_of paid_return ms,
      dr_activeInvestments = length (filter is_active ms), dr_activeTotal = total_of im_amount (filter is_active ms),
      dr_settledCount = length (filter (\<lambda>m. im_status m = InvSETTLED) ms),
      dr_failedCount = length (filter (\<lambda>m. im_status m = InvCANCELLED) ms)\<rparr>"
    unfolding getInvestorDashboard_def Let_def z assms(2) [symmetric]
    by (simp only: f) (simp only: dash_def dashboard.simps toFixed4_dec [OF assms(1)])
  show "length (filter is_active ms) + length (filter (\<lambda>m. im_status m = InvSETTLED) ms) +
      length (filter (\<lambda>m. im_status m = InvCANCELLED) ms) = length ms"
    by (rule status_partition)
qed

definition holding :: "string \<Rightarrow> amt \<Rightarrow> amt option \<Rightarrow> investment_status \<Rightarrow> investment" where
  "holding x a r st = \<lparr>im_id = x, im_invoiceId = ''i1'', im_investorId = ''u1'', im_amount = a, im_expectedReturn = 0,
     im_actualReturn = r, im_status = st, im_wallet = None, im_fundingBlock = None, im_transactionHash = None, im_operationIndex = None\<rparr>"

definition held_db :: db where
  "held_db = (fresh_db [])\<lparr>investments := [holding ''m1'' 1000000 (Some 1100000) InvSETTLED, holding ''m2'' 500000 None InvPENDING,
     holding ''m3'' 70000 None InvCANCELLED]\<rparr>"

theorem dashboard_totals_are_exact_witness:
  "getInvestorDashboard exact_decimal ''u1'' held_db =
     \<lparr>dr_totalInvested = 1570000, dr_totalReturns = 1100000, dr_activeInvestments = 1, dr_activeTotal = 500000,
      dr_settledCount = 1, dr_failedCount = 1\<rparr>"
proof -
  have ms: "investments held_db = filter (\<lambda>m. im_investorId m = ''u1'') (investments held_db)"
    by (simp add: held_db_def holding_def)
  show ?thesis using dashboard_totals_are_exact [OF exact_decimal_ok ms]
    by (simp add: held_db_def holding_def paid_return_def is_active_def amt_ok_def)
qed

end
