(* ===== verification/Investing_Steps.thy ===== *)
theory Investing_Steps
  imports Investing
begin

section \<open>Concurrent investments\<close>

text \<open>
  Any number of \<open>investInInvoice\<close> attempts, each a read and a later conditional write, run
  together with \<open>createInvestment\<close> calls and with other writers of the invoices. What the others
  may do is \<open>others_ok\<close>: every change of an invoice row counts its version up (as the version
  column does), and they do not touch the amounts of an invoice that is open or funded.
\<close>

definition active_sum :: "string \<Rightarrow> db \<Rightarrow> int" where
  "active_sum i d = sum_list (map im_amount (active_investments i d))"

definition row_ok :: "db \<Rightarrow> string \<Rightarrow> invoice \<Rightarrow> bool" where
  "row_ok d i w \<longleftrightarrow> iv_id w = i \<and> amt_ok (iv_netAmount w) \<and> active_sum i d \<le> iv_netAmount w \<and>
     (iv_status w = PUBLISHED \<longrightarrow> iv_fundedAmount w = active_sum i d \<and> iv_fundedAmount w < iv_netAmount w) \<and>
     (iv_status w = FUNDED \<longrightarrow> iv_fundedAmount w = active_sum i d \<and> iv_fundedAmount w = iv_netAmount w)"

definition funding_ok :: "db \<Rightarrow> bool" where
  "funding_ok d \<longleftrightarrow> (\<forall>m \<in> set (investments d). 0 \<le> im_amount m) \<and>
     (\<forall>i w. invoices d i = Some w \<longrightarrow> row_ok d i w)"

definition versions_ok :: "db \<Rightarrow> db \<Rightarrow> bool" where
  "versions_ok d d' \<longleftrightarrow> (\<forall>i w. invoices d i = Some w \<longrightarrow>
     (\<exists>w'. invoices d' i = Some w' \<and> (w' = w \<or> iv_version w < iv_version w')))"

text \<open>What other writers may do to an invoice: keep an open or funded one with its amounts, close
  it, or open a new one without investments.\<close>

definition others_row :: "db \<Rightarrow> db \<Rightarrow> string \<Rightarrow> invoice \<Rightarrow> bool" where
  "others_row d d' i w' \<longleftrightarrow> iv_id w' = i \<and> amt_ok (iv_netAmount w') \<and>
     (if iv_status w' \<in> {PUBLISHED, FUNDED} \<and> (\<exists>w. invoices d i = Some w \<and> iv_status w = iv_status w')
      then (\<exists>w. invoices d i = Some w \<and> iv_status w = iv_status w' \<and> iv_netAmount w' = iv_netAmount w \<and>
                iv_fundedAmount w' = iv_fundedAmount w \<and> active_sum i d' = active_sum i d)
      else if iv_status w' = PUBLISHED
      then iv_fundedAmount w' = 0 \<and> active_sum i d' = 0 \<and> 0 < iv_netAmount w'
      else iv_status w' \<noteq> FUNDED \<and> active_sum i d' \<le> iv_netAmount w')"

definition others_ok :: "db \<Rightarrow> db \<Rightarrow> bool" where
  "others_ok d d' \<longleftrightarrow> versions_ok d d' \<and> (\<forall>m \<in> set (investments d'). 0 \<le> im_amount m) \<and>
     (\<forall>i w'. invoices d' i = Some w' \<longrightarrow> others_row d d' i w')"

datatype fpc = Idle | HasRead invest_input decimal string invoice

record fworld =
  fw_db :: db
  fw_procs :: "nat \<Rightarrow> fpc"

inductive funding_step :: "decimal_lib \<Rightarrow> fworld \<Rightarrow> fworld \<Rightarrow> bool" for D where
  read_inv: "validate_amount (nv_amount inp) = Inr amount \<Longrightarrow>
    invest_read D inp amount block now (fw_db w) = Inr v \<Longrightarrow>
    funding_step D w (w\<lparr>fw_procs := (fw_procs w)(p := HasRead inp amount block v)\<rparr>)"
| write_inv: "fw_procs w p = HasRead inp amount block v \<Longrightarrow> x \<notin> im_id ` set (investments (fw_db w)) \<Longrightarrow>
    invest_write D inp amount block x now ref v (fw_db w) = Inr (r, d') \<Longrightarrow>
    funding_step D w (w\<lparr>fw_db := d', fw_procs := (fw_procs w)(p := Idle)\<rparr>)"
| give_up: "funding_step D w (w\<lparr>fw_procs := (fw_procs w)(p := Idle)\<rparr>)"
| create: "0 < amount \<Longrightarrow> four_places amount \<Longrightarrow> x \<notin> im_id ` set (investments (fw_db w)) \<Longrightarrow>
    create_tx D inp (Num amount) x now ref (fw_db w) = Inr (r, d') \<Longrightarrow>
    funding_step D w (w\<lparr>fw_db := d'\<rparr>)"
| others: "others_ok (fw_db w) d' \<Longrightarrow> funding_step D w (w\<lparr>fw_db := d'\<rparr>)"

text \<open>A read that is still current: the row has not changed or its version has grown.\<close>

definition read_ok :: "db \<Rightarrow> fpc \<Rightarrow> bool" where
  "read_ok d s \<longleftrightarrow> (case s of Idle \<Rightarrow> True
     | HasRead inp amount block v \<Rightarrow> 0 < amount \<and> four_places amount \<and> iv_status v = PUBLISHED \<and>
         (\<exists>w. invoices d (nv_invoiceId inp) = Some w \<and> (w = v \<or> iv_version v < iv_version w)))"

definition funding_inv :: "fworld \<Rightarrow> bool" where
  "funding_inv w \<longleftrightarrow> funding_ok (fw_db w) \<and> (\<forall>p. read_ok (fw_db w) (fw_procs w p))"

subsection \<open>Amounts\<close>

lemma active_sum_nonneg: "funding_ok d \<Longrightarrow> 0 \<le> active_sum i d"
  by (auto simp: active_sum_def active_investments_def funding_ok_def intro: sum_list_nonneg_int)

lemma active_sum_save:
  assumes "im_id m \<notin> im_id ` set (investments d)" "im_status m = InvPENDING"
  shows "active_sum i (save_investment m d) = active_sum i d + (if im_invoiceId m = i then im_amount m else 0)"
  using assms by (simp add: active_sum_def active_investments_def frame_simps upsert_new)

lemma active_sum_frame: "investments d = investments d' \<Longrightarrow> active_sum i d = active_sum i d'"
  by (simp add: active_sum_def active_investments_def)

lemma fund_transition_effect:
  assumes "fund_transition D v wallet newFunded now ref d = Inr (t, d')"
  shows "invoices d' = (invoices d)(iv_id v \<mapsto> v\<lparr>iv_status := FUNDED, iv_version := iv_version v + 1\<rparr>)"
    and "investments d' = investments d" and "iv_status v = PUBLISHED"
proof -
  note te = transition_effect [OF assms [unfolded fund_transition_def]]
  show "invoices d' = (invoices d)(iv_id v \<mapsto> v\<lparr>iv_status := FUNDED, iv_version := iv_version v + 1\<rparr>)"
    "investments d' = investments d"
    using te(3,4) by (simp_all add: apply_status_def)
  show "iv_status v = PUBLISHED" using te(1) by (auto simp: rule_table)
qed

text \<open>Adding \<open>a\<close> to an open invoice: what both ways of investing amount to.\<close>

lemma funding_advance:
  assumes "funding_ok d" "invoices d i = Some v" "iv_status v = PUBLISHED" "0 < a" "iv_fundedAmount v + a \<le> iv_netAmount v"
    and "investments d' = investments (save_investment m d)" "im_id m \<notin> im_id ` set (investments d)"
    and "im_status m = InvPENDING" "im_amount m = a" "im_invoiceId m = i"
    and "invoices d' = (invoices d)(i \<mapsto> w)" "iv_id w = i" "iv_netAmount w = iv_netAmount v"
    and "iv_fundedAmount w = iv_fundedAmount v + a"
    and "iv_status w = (if iv_fundedAmount v + a \<ge> iv_netAmount v then FUNDED else PUBLISHED)"
  shows "funding_ok d'"
proof -
  have sum: "active_sum j d' = active_sum j d + (if j = i then a else 0)" for j
    using active_sum_frame [OF assms(6), of j] active_sum_save [OF assms(7,8), of j] assms(9,10) by auto
  have row: "row_ok d i v" using assms(1,2) by (simp add: funding_ok_def)
  have "row_ok d' j u" if "invoices d' j = Some u" for j u
  proof (cases "j = i")
    case True
    then have "u = w" using that assms(11) by simp
    then show ?thesis using True row assms(3,5,12-15) sum by (auto simp: row_ok_def)
  next
    case False
    then have "row_ok d j u" using that assms(1,11) by (simp add: funding_ok_def)
    then show ?thesis using False sum [of j] by (auto simp: row_ok_def)
  qed
  moreover have "\<forall>x \<in> set (investments d'). 0 \<le> im_amount x"
    using assms(1,4,6,9) by (auto simp: funding_ok_def frame_simps dest!: in_upsertD)
  ultimately show ?thesis by (simp add: funding_ok_def)
qed

text \<open>What an accepted write leaves.\<close>

lemma write_effect:
  assumes "decimal_ok D" "funding_ok d" "read_ok d (HasRead inp amount block v)"
    "x \<notin> im_id ` set (investments d)" "invest_write D inp amount block x now ref v d = Inr (r, d')"
  shows "funding_ok d' \<and> versions_ok d d'"
proof -
  let ?i = "nv_invoiceId inp" and ?a = "toFixed4 D amount"
  obtain w where w: "invoices d ?i = Some w" "w = v \<or> iv_version v < iv_version w"
    and am: "0 < amount" "four_places amount" using assms(3) by (auto simp: read_ok_def)
  have a: "dec ?a = amount" by (rule four_places_dec [OF assms(1) am(2)])
  then have pos: "0 < ?a" using am(1) by (metis dec_simps(8))
  obtain d1 where d1: "update_funded ?i (iv_version v) ?a d = Some d1"
    using assms(5) by (auto simp: invest_write_def split: option.splits)
  then have up: "w = v" "iv_status v = PUBLISHED" "iv_fundedAmount v + ?a \<le> iv_netAmount v"
    "d1 = d\<lparr>invoices := (invoices d)(?i \<mapsto> v\<lparr>iv_fundedAmount := iv_fundedAmount v + ?a, iv_version := iv_version v + 1\<rparr>)\<rparr>"
    using w by (auto simp: update_funded_def split: if_splits)
  have row: "row_ok d ?i v" using assms(2) w(1) up(1) by (simp add: funding_ok_def)
  have f: "0 \<le> iv_fundedAmount v" "iv_id v = ?i" "amt_ok (iv_netAmount v)"
    using row up(2) active_sum_nonneg [OF assms(2), of ?i] by (auto simp: row_ok_def)
  have new: "dplus D (dec (iv_fundedAmount v)) amount = dec (iv_fundedAmount v + ?a)"
    using dplus_dec [OF assms(1), of "iv_fundedAmount v" ?a] a f up(3) pos by (simp add: amt_ok_def)
  let ?v = "v\<lparr>iv_fundedAmount := iv_fundedAmount v + ?a, iv_version := iv_version v + 1\<rparr>"
  let ?m = "new_investment D inp x (Some block) amount v"
  have m: "im_id ?m = x" "im_amount ?m = ?a" "im_status ?m = InvPENDING" "im_invoiceId ?m = ?i"
    by (simp_all add: new_investment_def)
  have fixd: "toFixed4 D (dec (iv_fundedAmount v + ?a)) = iv_fundedAmount v + ?a" by (rule toFixed4_dec [OF assms(1)])
  show ?thesis
  proof (cases "iv_fundedAmount v + ?a \<ge> iv_netAmount v")
    case True
    then obtain t where t: "fund_transition D ?v (nv_wallet inp) (dec (iv_fundedAmount v + ?a)) now ref (save_investment ?m d1) = Inr (t, d')"
      using assms(5) d1 new fixd by (auto simp: invest_write_def Let_def result_simps split: if_splits)
    note te = fund_transition_effect [OF t]
    let ?w = "?v\<lparr>iv_status := FUNDED, iv_version := iv_version ?v + 1\<rparr>"
    have inv: "invoices d' = (invoices d)(?i \<mapsto> ?w)" using te(1) up(4) f(2) by (simp add: frame_simps)
    have "funding_ok d'"
      by (rule funding_advance [OF assms(2) w(1) _ pos, of d' ?m ?w])
         (use up te(2) assms(4) m inv f True in \<open>simp_all add: frame_simps\<close>)
    then show ?thesis using inv w(1) up(1) by (auto simp: versions_ok_def)
  next
    case False
    then have d': "d' = save_investment ?m d1"
      using assms(5) d1 new fixd by (auto simp: invest_write_def Let_def split: if_splits)
    have inv: "invoices d' = (invoices d)(?i \<mapsto> ?v)" using d' up(4) by (simp add: frame_simps)
    have "funding_ok d'"
      by (rule funding_advance [OF assms(2) w(1) _ pos, of d' ?m ?v])
         (use up d' assms(4) m inv f False in \<open>simp_all add: frame_simps\<close>)
    then show ?thesis using inv w(1) up(1) by (auto simp: versions_ok_def)
  qed
qed

lemma total_active_dec:
  assumes "decimal_ok D" "funding_ok d" "row_ok d i v"
  shows "total_active D (active_investments i d) = dec (active_sum i d)"
proof -
  have nn: "\<forall>a \<in> set (map im_amount (active_investments i d)). 0 \<le> a"
    using assms(2) by (auto simp: active_investments_def funding_ok_def)
  have "amt_ok (sum_list (map im_amount (active_investments i d)))"
    using assms(3) active_sum_nonneg [OF assms(2), of i] by (auto simp: row_ok_def amt_ok_def active_sum_def)
  from dsum_dec [OF assms(1) nn this] show ?thesis by (simp add: total_active_def active_sum_def o_def)
qed

lemma create_effect:
  assumes "decimal_ok D" "funding_ok d" "0 < amount" "four_places amount" "x \<notin> im_id ` set (investments d)"
    "create_tx D inp (Num amount) x now ref d = Inr (r, d')"
  shows "funding_ok d' \<and> versions_ok d d'"
proof -
  let ?i = "nv_invoiceId inp" and ?a = "toFixed4 D amount"
  have a: "dec ?a = amount" by (rule four_places_dec [OF assms(1,4)])
  then have pos: "0 < ?a" using assms(3) by (metis dec_simps(8))
  obtain v where v: "invoices d ?i = Some v" "iv_status v = PUBLISHED"
    using assms(6) by (auto simp: create_tx_def split: option.splits if_splits)
  have row: "row_ok d ?i v" using assms(2) v(1) by (simp add: funding_ok_def)
  have f: "0 \<le> iv_fundedAmount v" "iv_id v = ?i" "amt_ok (iv_netAmount v)" "iv_fundedAmount v = active_sum ?i d"
    "iv_fundedAmount v < iv_netAmount v"
    using row v(2) active_sum_nonneg [OF assms(2), of ?i] by (auto simp: row_ok_def)
  have tot: "total_active D (active_investments ?i d) = dec (iv_fundedAmount v)"
    using total_active_dec [OF assms(1,2) row] f(4) by simp
  have rem: "dminus D (dec (iv_netAmount v)) (dec (iv_fundedAmount v)) = dec (iv_netAmount v - iv_fundedAmount v)"
    by (rule dminus_dec [OF assms(1)]) (use f in \<open>simp add: amt_ok_def\<close>)
  have "amount \<le> dec (iv_netAmount v - iv_fundedAmount v)"
    using assms(6) v tot rem by (auto simp: create_tx_def Let_def split: if_splits)
  then have "dec ?a \<le> dec (iv_netAmount v - iv_fundedAmount v)" using a by simp
  then have cap: "iv_fundedAmount v + ?a \<le> iv_netAmount v" by simp
  have new: "dplus D (dec (iv_fundedAmount v)) amount = dec (iv_fundedAmount v + ?a)"
    using dplus_dec [OF assms(1), of "iv_fundedAmount v" ?a] a f cap pos by (simp add: amt_ok_def)
  let ?v = "v\<lparr>iv_fundedAmount := iv_fundedAmount v + ?a\<rparr>" and ?m = "new_investment D inp x None amount v"
  have m: "im_id ?m = x" "im_amount ?m = ?a" "im_status ?m = InvPENDING" "im_invoiceId ?m = ?i"
    by (simp_all add: new_investment_def)
  have fixd: "toFixed4 D (dec (iv_fundedAmount v + ?a)) = iv_fundedAmount v + ?a" by (rule toFixed4_dec [OF assms(1)])
  show ?thesis
  proof (cases "iv_fundedAmount v + ?a \<ge> iv_netAmount v")
    case True
    then obtain t where t: "fund_transition D ?v (nv_wallet inp) (dec (iv_fundedAmount v + ?a)) now ref (save_investment ?m d) = Inr (t, d')"
      using assms(6) v tot new fixd by (auto simp: create_tx_def Let_def result_simps split: if_splits)
    note te = fund_transition_effect [OF t]
    let ?w = "?v\<lparr>iv_status := FUNDED, iv_version := iv_version ?v + 1\<rparr>"
    have inv: "invoices d' = (invoices d)(?i \<mapsto> ?w)" using te(1) f(2) by (simp add: frame_simps)
    have "funding_ok d'"
      by (rule funding_advance [OF assms(2) v(1) _ pos, of d' ?m ?w])
         (use v cap te(2) assms(5) m inv f True in \<open>simp_all add: frame_simps\<close>)
    then show ?thesis using inv v(1) by (auto simp: versions_ok_def)
  next
    case False
    let ?w = "?v\<lparr>iv_version := iv_version ?v + 1\<rparr>"
    have d': "d' = save_invoice ?w (save_investment ?m d)"
      using assms(6) v tot new fixd False by (auto simp: create_tx_def Let_def orm_save_invoice_def split: if_splits)
    have inv: "invoices d' = (invoices d)(?i \<mapsto> ?w)" using d' f(2) by (simp add: frame_simps)
    have "funding_ok d'"
      by (rule funding_advance [OF assms(2) v(1) _ pos, of d' ?m ?w])
         (use v cap d' assms(5) m inv f False in \<open>simp_all add: frame_simps\<close>)
    then show ?thesis using inv v(1) by (auto simp: versions_ok_def)
  qed
qed

lemma others_row_ok:
  assumes "funding_ok d" "others_row d d' i w'"
  shows "row_ok d' i w'"
proof (cases "iv_status w' \<in> {PUBLISHED, FUNDED} \<and> (\<exists>w. invoices d i = Some w \<and> iv_status w = iv_status w')")
  case True
  then obtain w where w: "invoices d i = Some w" "iv_status w = iv_status w'" "iv_netAmount w' = iv_netAmount w"
    "iv_fundedAmount w' = iv_fundedAmount w" "active_sum i d' = active_sum i d" "iv_id w' = i" "amt_ok (iv_netAmount w')"
    using assms(2) unfolding others_row_def by metis
  then have "row_ok d i w" using assms(1) by (simp add: funding_ok_def)
  then show ?thesis using w by (auto simp: row_ok_def)
next
  case False
  then have "iv_id w' = i" "amt_ok (iv_netAmount w')"
    "if iv_status w' = PUBLISHED then iv_fundedAmount w' = 0 \<and> active_sum i d' = 0 \<and> 0 < iv_netAmount w'
     else iv_status w' \<noteq> FUNDED \<and> active_sum i d' \<le> iv_netAmount w'"
    using assms(2) False unfolding others_row_def by (simp_all only: if_False) blast+
  then show ?thesis unfolding row_ok_def by (cases "iv_status w' = PUBLISHED") simp_all
qed

lemma others_effect: "funding_ok d \<Longrightarrow> others_ok d d' \<Longrightarrow> funding_ok d' \<and> versions_ok d d'"
  using others_row_ok by (simp add: funding_ok_def others_ok_def)

lemma read_ok_later: "versions_ok d d' \<Longrightarrow> read_ok d s \<Longrightarrow> read_ok d' s"
  by (cases s) (fastforce simp: read_ok_def versions_ok_def)+

subsection \<open>Every reachable state\<close>

lemma read_effect:
  assumes "validate_amount x = Inr amount" "invest_read D inp amount block now d = Inr v"
  shows "read_ok d (HasRead inp amount block v)"
proof -
  have "0 < amount \<and> four_places amount"
    using assms(1) by (auto simp: validate_amount_def split: num_input.splits if_splits)
  moreover have "invoices d (nv_invoiceId inp) = Some v \<and> iv_status v = PUBLISHED"
    using assms(2) by (auto simp: invest_read_def Let_def split: option.splits if_splits)
  ultimately show ?thesis by (simp add: read_ok_def)
qed

lemma db_step_inv:
  "funding_inv w \<Longrightarrow> funding_ok d' \<and> versions_ok (fw_db w) d' \<Longrightarrow>
     funding_inv (w\<lparr>fw_db := d'\<rparr>) \<and> funding_inv (w\<lparr>fw_db := d', fw_procs := (fw_procs w)(p := Idle)\<rparr>)"
  using read_ok_later [of "fw_db w" d'] by (auto simp: funding_inv_def read_ok_def [of _ Idle])

lemma funding_step_inv:
  assumes D: "decimal_ok D" and inv: "funding_inv w" and step: "funding_step D w w'"
  shows "funding_inv w'"
  using step
proof cases
  case (read_inv inp amount block now v p)
  then show ?thesis using inv read_effect [OF read_inv(2,3)] by (simp add: funding_inv_def)
next
  case (write_inv p inp amount block v x now ref r d')
  have "read_ok (fw_db w) (HasRead inp amount block v)" using inv write_inv(2) unfolding funding_inv_def by metis
  then show ?thesis using db_step_inv [OF inv write_effect [OF D _ _ write_inv(3,4)]] inv write_inv(1)
    by (simp add: funding_inv_def)
next
  case (give_up p)
  then show ?thesis using inv by (simp add: funding_inv_def read_ok_def [of _ Idle])
next
  case (create amount x inp now ref r d')
  then show ?thesis using db_step_inv [OF inv create_effect [OF D _ create(2-5)]] inv
    by (simp add: funding_inv_def)
next
  case (others d')
  then show ?thesis using db_step_inv [OF inv others_effect [OF _ others(2)]] inv
    by (simp add: funding_inv_def)
qed

interpretation funding: kept_by_steps "\<lambda>w w'. decimal_ok D \<and> funding_step D w w'" funding_inv for D
  by unfold_locales (blast intro: funding_step_inv)

definition all_idle :: "db \<Rightarrow> fworld" where
  "all_idle d = \<lparr>fw_db = d, fw_procs = (\<lambda>p. Idle)\<rparr>"


text \<open>An invoice of 950 with a funding of 950, and a run in which two investors read it and the
  first one writes.\<close>

definition open_invoice :: invoice where
  "open_invoice = sample_invoice\<lparr>iv_status := PUBLISHED\<rparr>"

definition open_db :: db where
  "open_db = (fresh_db [open_invoice])\<lparr>acknowledgements := [(''GINV'', ''v1'')]\<rparr>"

definition sample_investor :: invest_input where
  "sample_investor = \<lparr>nv_invoiceId = ''i1'', nv_investorId = ''u1'', nv_wallet = ''GINV'', nv_amount = Num 100, nv_ledger = Some 7\<rparr>"

lemma open_facts:
  "invoices open_db ''i1'' = Some open_invoice" "investments open_db = []" "iv_status open_invoice = PUBLISHED"
  "iv_netAmount open_invoice = 9500000" "iv_fundedAmount open_invoice = 0" "iv_id open_invoice = ''i1''"
  by (simp_all add: open_db_def fresh_db_def open_invoice_def sample_invoice_def)

lemma open_ok: "funding_ok open_db"
  using open_facts by (auto simp: funding_ok_def row_ok_def active_sum_def active_investments_def amt_ok_def
      open_db_def fresh_db_def split: if_splits)

lemma four_places_100: "four_places 100"
  unfolding four_places_def by simp

lemma sample_amount: "validate_amount (nv_amount sample_investor) = Inr 100"
  by (simp add: validate_amount_def sample_investor_def four_places_100)

lemma sample_read: "invest_read exact_decimal sample_investor 100 b (19990 * 86400000) open_db = Inr open_invoice"
  using open_facts by (simp add: invest_read_def sample_investor_def Let_def isPastDueDate_def deadline_passed_def
    open_invoice_def sample_invoice_def endOfDayUTC_def date_value_def DAY_MS_def dminus_def exact_decimal_def dec_def)

lemma sample_write:
  "\<exists>r d'. invest_write exact_decimal sample_investor 100 ''7'' ''m1'' now ref open_invoice open_db = Inr (r, d') \<and>
     invoices d' ''i1'' = Some (open_invoice\<lparr>iv_fundedAmount := 1000000, iv_version := iv_version open_invoice + 1\<rparr>)"
proof -
  have "toFixed4 exact_decimal 100 = 1000000" by (simp add: toFixed4_def exact_decimal_def floor_unique)
  moreover have "dplus exact_decimal (dec 0) 100 = 100" by (simp add: dplus_def exact_decimal_def dec_def)
  ultimately show ?thesis using open_facts
    by (simp add: invest_write_def update_funded_def sample_investor_def Let_def dec_def frame_simps)
qed


subsection \<open>Retries\<close>

definition too_many_conflicts :: error where
  "too_many_conflicts = ServiceError ''CONCURRENT_INVESTMENT_CONFLICT'' 409"

lemma fund_transition_error:
  "fund_transition D v wallet f now ref d = Inl e \<Longrightarrow> e \<noteq> funding_conflict \<and> e \<noteq> too_many_conflicts"
  by (auto simp: fund_transition_def transition_def assertTransition_def findRule_def rule_table result_simps Let_def
      funding_conflict_def too_many_conflicts_def entityManagerTransitionStore_def orm_save_invoice_def apply_status_def
      split: if_splits option.splits)

lemma invest_write_error:
  "invest_write D inp amount block x now ref v d = Inl e \<Longrightarrow> e \<noteq> too_many_conflicts"
  using fund_transition_error
  by (auto simp: invest_write_def Let_def result_simps funding_conflict_def duplicateInvestmentError_def
      too_many_conflicts_def split: option.splits if_splits)

lemma invest_read_error:
  "invest_read D inp amount block now d = Inl e \<Longrightarrow> e \<noteq> funding_conflict \<and> e \<noteq> too_many_conflicts"
  by (auto simp: invest_read_def Let_def funding_conflict_def duplicateInvestmentError_def too_many_conflicts_def
      split: option.splits if_splits)

text \<open>The optimistic loop makes at most three attempts; a conflict is retried, so the internal
  conflict error never reaches the investor, who is told of a conflict only when all three attempts
  met one.\<close>

theorem conflicts_are_retried:
  assumes "invest_loop D inp amount block x now ref others k d = (res, d', n)" "k \<le> 3"
  shows "k \<le> n \<and> n \<le> 3 \<and> res \<noteq> Inl funding_conflict \<and> (res = Inl too_many_conflicts \<longrightarrow> n = 3)"
  using assms
proof (induction D inp amount block x now ref others k d rule: invest_loop.induct)
  case (1 D inp amount block x now ref others k d)
  show ?case
  proof (cases "invest_read D inp amount block now d")
    case (Inl e)
    then show ?thesis using 1(2,3) invest_read_error [OF Inl] by (auto simp: invest_loop.simps)
  next
    case (Inr v)
    show ?thesis
    proof (cases "invest_write D inp amount block x now ref v (others k d)")
      case w: (Inl e)
      have ne: "e \<noteq> too_many_conflicts" by (rule invest_write_error [OF w])
      have tx: "run_tx (invest_write D inp amount block x now ref v) (others k d) = (Inl e, others k d)"
        using w by (simp add: run_tx_def)
      show ?thesis
      proof (cases "e = funding_conflict \<and> k < 3")
        case True
        then have "invest_loop D inp amount block x now ref others (k + 1) (others k d) = (res, d', n)"
          using 1(2) Inr tx by (simp add: invest_loop.simps [of _ _ _ _ _ _ _ _ k] MAX_ATTEMPTS_def)
        from 1(1) [OF Inr tx [symmetric] refl _ _ this] True show ?thesis by (simp add: MAX_ATTEMPTS_def)
      next
        case False
        then show ?thesis using 1(2,3) Inr tx ne
          by (auto simp: invest_loop.simps MAX_ATTEMPTS_def too_many_conflicts_def funding_conflict_def split: if_splits)
      qed
    next
      case w: (Inr p)
      then show ?thesis using 1(2,3) Inr by (auto simp: invest_loop.simps run_tx_def split: prod.splits)
    qed
  qed
qed

lemma sample_loop:
  "\<exists>r d'. invest_loop exact_decimal sample_investor 100 ''7'' ''m1'' (19990 * 86400000) 0 (\<lambda>_ e. e) 1 open_db = (Inr r, d', 1)"
proof -
  obtain r d' where "invest_write exact_decimal sample_investor 100 ''7'' ''m1'' (19990 * 86400000) 0 open_invoice open_db = Inr (r, d')"
    using sample_write by blast
  then show ?thesis by (simp add: invest_loop.simps run_tx_def sample_read [simplified])
qed

theorem conflicts_are_retried_witness:
  "\<exists>r d'. invest_loop exact_decimal sample_investor 100 ''7'' ''m1'' (19990 * 86400000) 0 (\<lambda>_ e. e) 1 open_db = (Inr r, d', 1) \<and>
     (1::nat) \<le> 3 \<and> Inr r \<noteq> (Inl funding_conflict :: invest_result result)"
proof -
  obtain r d' where l: "invest_loop exact_decimal sample_investor 100 ''7'' ''m1'' (19990 * 86400000) 0 (\<lambda>_ e. e) 1 open_db = (Inr r, d', 1)"
    using sample_loop by blast
  have "(1::nat) \<le> 3" by simp
  from conflicts_are_retried [OF l this] l show ?thesis by blast
qed

subsection \<open>An investment that nothing disturbs\<close>

lemma published_to_funded: "iv_status v = PUBLISHED \<Longrightarrow> iv_netAmount v \<le> toFixed4 D f \<Longrightarrow>
    \<exists>t d'. fund_transition D v wallet f now ref d = Inr (t, d')"
  using store_saves [of FUNDED v "\<lparr>a_role = System, a_id = None, a_wallet = Some wallet\<rparr>"
      "empty_context\<lparr>x_fundedAmount := Some (dec (toFixed4 D f))\<rparr>" now "''fully_funded''" ref d]
  by (simp add: fund_transition_def assertTransition_def findRule_def rule_table guard_holds_def Let_def)

text \<open>C34: an attempt that passes its checks and meets no concurrent change succeeds the first time;
  it records the investment, and funds the invoice exactly when it takes the last of its capacity.\<close>

theorem undisturbed_investment_succeeds:
  assumes "decimal_ok D" "funding_ok d" "validate_amount (nv_amount inp) = Inr amount"
    "invest_read D inp amount block now d = Inr v"
  shows "\<exists>r d'. invest_loop D inp amount block x now ref (\<lambda>_ e. e) 1 d = (Inr r, d', 1) \<and>
     vr_investment r = new_investment D inp x (Some block) amount v \<and>
     vr_fundedAmount r = dec (iv_fundedAmount v) + amount \<and>
     iv_status (vr_invoice r) = (if dec (iv_fundedAmount v) + amount = dec (iv_netAmount v) then FUNDED else PUBLISHED) \<and>
     invoices d' (iv_id v) = Some (vr_invoice r) \<and> investments d' = investments (save_investment (vr_investment r) d)"
proof -
  let ?i = "nv_invoiceId inp" and ?a = "toFixed4 D amount"
  have r: "0 < amount" "four_places amount"
    using assms(3) by (auto simp: validate_amount_def split: num_input.splits if_splits)
  have v: "invoices d ?i = Some v" "iv_status v = PUBLISHED" "\<not> (\<exists>m \<in> set (investments d). same_block inp block m)"
    "amount \<le> max (dminus D (dec (iv_netAmount v)) (dec (iv_fundedAmount v))) 0"
    using assms(4) by (auto simp: invest_read_def Let_def split: option.splits if_splits)
  have a: "dec ?a = amount" by (rule four_places_dec [OF assms(1) r(2)])
  then have pos: "0 < ?a" using r(1) by (metis dec_simps(8))
  have row: "row_ok d ?i v" using assms(2) v(1) by (simp add: funding_ok_def)
  have f: "0 \<le> iv_fundedAmount v" "iv_id v = ?i" "amt_ok (iv_netAmount v)" "iv_fundedAmount v < iv_netAmount v"
    using row v(2) active_sum_nonneg [OF assms(2), of ?i] by (auto simp: row_ok_def)
  have "dminus D (dec (iv_netAmount v)) (dec (iv_fundedAmount v)) = dec (iv_netAmount v - iv_fundedAmount v)"
    by (rule dminus_dec [OF assms(1)]) (use f in \<open>simp add: amt_ok_def\<close>)
  then have "dec ?a \<le> dec (max (iv_netAmount v - iv_fundedAmount v) 0)" using v(4) a by (simp only: max_dec)
  then have cap: "iv_fundedAmount v + ?a \<le> iv_netAmount v" using f(4) by simp
  have new: "dplus D (dec (iv_fundedAmount v)) amount = dec (iv_fundedAmount v + ?a)"
    using dplus_dec [OF assms(1), of "iv_fundedAmount v" ?a] a f cap pos by (simp add: amt_ok_def)
  have sum: "dec (iv_fundedAmount v) + amount = dec (iv_fundedAmount v + ?a)" using a by (metis dec_simps(1))
  let ?d1 = "d\<lparr>invoices := (invoices d)(?i \<mapsto> v\<lparr>iv_fundedAmount := iv_fundedAmount v + ?a, iv_version := iv_version v + 1\<rparr>)\<rparr>"
  let ?v = "v\<lparr>iv_fundedAmount := iv_fundedAmount v + ?a, iv_version := iv_version v + 1\<rparr>"
  let ?m = "new_investment D inp x (Some block) amount v"
  have d1: "update_funded ?i (iv_version v) ?a d = Some ?d1" using v cap by (simp add: update_funded_def)
  have fixd: "toFixed4 D (dec (iv_fundedAmount v + ?a)) = iv_fundedAmount v + ?a" by (rule toFixed4_dec [OF assms(1)])
  obtain r d' where w: "invest_write D inp amount block x now ref v d = Inr (r, d')" "vr_investment r = ?m"
    "vr_fundedAmount r = dec (iv_fundedAmount v + ?a)"
    "iv_status (vr_invoice r) = (if iv_fundedAmount v + ?a = iv_netAmount v then FUNDED else PUBLISHED)"
    "invoices d' ?i = Some (vr_invoice r)" "investments d' = investments (save_investment ?m d)"
  proof (cases "iv_fundedAmount v + ?a = iv_netAmount v")
    case True
    obtain t d' where t: "fund_transition D ?v (nv_wallet inp) (dec (iv_fundedAmount v + ?a)) now ref (save_investment ?m ?d1) = Inr (t, d')"
      using published_to_funded [of ?v D "dec (iv_fundedAmount v + ?a)" "nv_wallet inp" now ref "save_investment ?m ?d1"]
        v(2) True fixd by fastforce
    note te = transition_effect(3,4) [OF t [unfolded fund_transition_def]]
    have "invoices d' ?i = Some (t_invoice t)" "iv_status (t_invoice t) = FUNDED"
      "investments d' = investments (save_investment ?m d)"
      using te f(2) by (simp_all add: apply_status_def frame_simps)
    then show ?thesis using t v(3) d1 new fixd True
      by (intro that [of "\<lparr>vr_investment = ?m, vr_invoice = t_invoice t, vr_fundedAmount = dec (iv_fundedAmount v + ?a),
            vr_transition = Some t\<rparr>" d']) (simp_all add: invest_write_def Let_def)
  next
    case False
    then show ?thesis using v(2,3) d1 new fixd cap f(2)
      by (intro that [of "\<lparr>vr_investment = ?m, vr_invoice = ?v, vr_fundedAmount = dec (iv_fundedAmount v + ?a),
            vr_transition = None\<rparr>" "save_investment ?m ?d1"]) (simp_all add: invest_write_def Let_def frame_simps)
  qed
  have "invest_loop D inp amount block x now ref (\<lambda>_ e. e) 1 d = (Inr r, d', 1)"
    using assms(4) w(1) by (simp add: invest_loop.simps run_tx_def)
  then show ?thesis using w(2-6) sum f(2) by auto
qed

theorem undisturbed_investment_succeeds_witness:
  "\<exists>r d'. invest_loop exact_decimal sample_investor 100 ''7'' ''m1'' (19990 * 86400000) 0 (\<lambda>_ e. e) 1 open_db = (Inr r, d', 1) \<and>
     vr_fundedAmount r = 100 \<and> iv_status (vr_invoice r) = PUBLISHED"
  using undisturbed_investment_succeeds [OF exact_decimal_ok open_ok sample_amount sample_read, of "''7''" "''m1''" 0] open_facts
  by (auto simp: dec_def)

subsection \<open>Amounts finer than the column\<close>

text \<open>\<open>createInvestment\<close> has no check of the decimals, so its exact total can stay below the net
  amount that the rounded column already shows.\<close>

definition fine_investor :: invest_input where
  "fine_investor = sample_investor\<lparr>nv_amount := Num (94999996 / 100000)\<rparr>"

definition stranded :: "db \<Rightarrow> bool" where
  "stranded d \<longleftrightarrow> (case invoices d ''i1'' of None \<Rightarrow> False
     | Some v \<Rightarrow> iv_status v = PUBLISHED \<and> iv_fundedAmount v = iv_netAmount v \<and> 0 < iv_netAmount v \<and>
         total_active exact_decimal (active_investments ''i1'' d) = dec (iv_netAmount v))"

lemma stranded_refuses:
  assumes "stranded d" "nv_invoiceId inp = ''i1''" "0 < a"
  shows "(\<exists>e. invest_read exact_decimal inp a block now d = Inl e) \<and> (\<exists>e. create_tx exact_decimal inp (Num a) x now ref d = Inl e)"
proof -
  obtain v where v: "invoices d ''i1'' = Some v" "iv_fundedAmount v = iv_netAmount v"
    "total_active exact_decimal (active_investments ''i1'' d) = dec (iv_netAmount v)"
    using assms(1) by (auto simp: stranded_def split: option.splits)
  have z: "dminus exact_decimal y y = 0" for y by (simp add: dminus_def exact_decimal_def)
  show ?thesis using v z assms(2,3) by (auto simp: invest_read_def create_tx_def Let_def)
qed

text \<open>An investment of 949.99996 in an open invoice of 950 is accepted and stored as 950.0000; the
  invoice stays published with its whole net amount funded, and every later investment, of either
  kind, of any positive amount, is refused: the invoice can no longer become funded.\<close>

theorem fine_amount_strands_invoice:
  "\<exists>m d'. createInvestment exact_decimal ''v1'' None (\<lambda>_. None) fine_investor ''m1'' (19990 * 86400000) 0 open_db = (Inr (m, None), d') \<and>
     im_amount m = 9500000 \<and> stranded d' \<and>
     (\<forall>inp a block now x ref. a \<le> 0 \<or>
        (\<exists>e. invest_read exact_decimal (inp\<lparr>nv_invoiceId := ''i1''\<rparr>) a block now d' = Inl e) \<and>
        (\<exists>e. create_tx exact_decimal (inp\<lparr>nv_invoiceId := ''i1''\<rparr>) (Num a) x now ref d' = Inl e))"
proof -
  let ?a = "94999996 / 100000 :: rat"
  let ?m = "new_investment exact_decimal fine_investor ''m1'' None ?a open_invoice"
  let ?v = "open_invoice\<lparr>iv_fundedAmount := 9500000\<rparr>"
  have t: "toFixed4 exact_decimal ?a = 9500000" by (simp add: toFixed4_def exact_decimal_def floor_unique)
  have act: "active_investments ''i1'' open_db = []" by (simp add: active_investments_def open_facts)
  have z: "total_active exact_decimal [] = 0" by (simp add: total_active_def dsum_def)
  have fi: "nv_invoiceId fine_investor = ''i1''" "nv_investorId fine_investor = ''u1''" "nv_wallet fine_investor = ''GINV''"
    "nv_amount fine_investor = Num ?a"
    by (simp_all add: fine_investor_def sample_investor_def)
  have o: "\<not> isPastDueDate (iv_dueDate open_invoice) (19990 * 86400000)" "\<not> deadline_passed open_invoice (19990 * 86400000)"
    "iv_sellerId open_invoice \<noteq> ''u1''" "(''GINV'', ''v1'') \<in> set (acknowledgements open_db)" "js_trim ''GINV'' = ''GINV''"
    by (simp_all add: isPastDueDate_def deadline_passed_def open_invoice_def sample_invoice_def endOfDayUTC_def date_value_def
        DAY_MS_def open_db_def js_trim_def is_ws_def)
  have tx: "create_tx exact_decimal fine_investor (Num ?a) ''m1'' (19990 * 86400000) 0 open_db =
      Inr ((?m, None), snd (orm_save_invoice ?v (save_investment ?m open_db)))"
    using open_facts o(1-3) fi t act z
    by (simp add: create_tx_def Let_def dminus_def dplus_def exact_decimal_def [THEN arg_cong, of sig] dec_def)
  have c: "createInvestment exact_decimal ''v1'' None (\<lambda>_. None) fine_investor ''m1'' (19990 * 86400000) 0 open_db =
      (Inr (?m, None), snd (orm_save_invoice ?v (save_investment ?m open_db)))"
    using tx o(4,5) fi by (simp add: createInvestment_def assertAccreditationAcknowledged_def check_suitability_def run_tx_def)
  have m: "im_id ?m = ''m1''" "im_amount ?m = 9500000" "im_status ?m = InvPENDING" "im_invoiceId ?m = ''i1''"
    using t fi by (simp_all add: new_investment_def)
  let ?d' = "snd (orm_save_invoice ?v (save_investment ?m open_db))"
  have "active_investments ''i1'' ?d' = [?m]"
    using m open_facts(2) by (simp add: active_investments_def orm_save_invoice_def frame_simps upsert_new Let_def)
  then have "stranded ?d'" using open_facts m(2)
    by (simp add: stranded_def orm_save_invoice_def frame_simps Let_def total_active_def dsum_def dplus_def exact_decimal_def dec_def)
  then show ?thesis using c m(2) stranded_refuses [of ?d' "_\<lparr>nv_invoiceId := ''i1''\<rparr>"]
    by (intro exI [of _ ?m] exI [of _ ?d']) (auto simp: not_le)
qed

end
