(* ===== verification/Secondary_Market.thy ===== *)
theory Secondary_Market
  imports Investing Keyset "HOL-Library.List_Lexorder"
begin

section \<open>The secondary market\<close>

text \<open>
  \<open>src/services/secondary-market.service.ts\<close> with the predicates of \<open>SecondaryListing.model.ts\<close>:
  listing, buying and cancelling fractions of funded invoices. The checks on a quantity or price
  are given for everything a caller can pass; the operations take the number it denotes. A row
  lock makes each operation one step. Row identifiers, the payment hash and the clock are
  arguments.
\<close>

definition isExpired :: "listing \<Rightarrow> int \<Rightarrow> bool" where
  "isExpired l now \<longleftrightarrow> li_expiresAt l < now"

definition isActive :: "listing \<Rightarrow> int \<Rightarrow> bool" where
  "isActive l now \<longleftrightarrow> li_status l = ACTIVE \<and> \<not> isExpired l now"

text \<open>\<open>new Decimal(x)\<close> and \<open>lte(0)\<close>.\<close>

definition positive_check :: "string \<Rightarrow> num_input \<Rightarrow> unit result" where
  "positive_check code x =
     (case x of
        Malformed \<Rightarrow> Inl (JsError ''DecimalError'')
      | NegInf \<Rightarrow> Inl (ServiceError code 400)
      | Num n \<Rightarrow> require (n > 0) (ServiceError code 400)
      | _ \<Rightarrow> Inr ())"

record list_input =
  ls_invoiceId :: string
  ls_sellerWallet :: string
  ls_sellerId :: "string option"
  ls_quantity :: decimal
  ls_price :: decimal
  ls_expiresAt :: "int option"

definition matured :: "invoice \<Rightarrow> int \<Rightarrow> bool" where
  "matured v now \<longleftrightarrow> iv_status v = SETTLED \<or> iv_status v = FAILED \<or> isPastDueDate (iv_dueDate v) now \<or>
     (case date_value (iv_dueDate v) of None \<Rightarrow> False | Some t \<Rightarrow> t \<le> now)"

text \<open>The \<open>where\<close> alternatives for a seller; without any the query returns the whole table.\<close>

definition seller_rows :: "string \<Rightarrow> string \<Rightarrow> string option \<Rightarrow> investment list \<Rightarrow> investment list" where
  "seller_rows i wallet sellerId ms =
     (if wallet = [] \<and> \<not> truthy sellerId then ms
      else filter (\<lambda>m. im_invoiceId m = i \<and> im_status m = InvCONFIRMED \<and>
             (wallet \<noteq> [] \<and> im_wallet m = Some wallet \<or> truthy sellerId \<and> Some (im_investorId m) = sellerId)) ms)"

definition seller_listings :: "string \<Rightarrow> string \<Rightarrow> string option \<Rightarrow> listing list \<Rightarrow> listing list" where
  "seller_listings i wallet sellerId ls =
     filter (\<lambda>l. li_invoiceId l = i \<and> li_status l = ACTIVE \<and>
        (if wallet \<noteq> [] \<and> truthy sellerId then li_sellerWallet l = wallet \<or> li_sellerId l = sellerId
         else (wallet \<noteq> [] \<longrightarrow> li_sellerWallet l = wallet) \<and> (truthy sellerId \<longrightarrow> li_sellerId l = sellerId))) ls"

definition available_holdings :: "decimal_lib \<Rightarrow> list_input \<Rightarrow> int \<Rightarrow> db \<Rightarrow> decimal" where
  "available_holdings D inp now d =
     (let totalHoldings = dsum D (map (\<lambda>m. dec (im_amount m))
            (seller_rows (ls_invoiceId inp) (ls_sellerWallet inp) (ls_sellerId inp) (investments d)));
          currentlyListed = dsum D (map (\<lambda>l. dec (li_quantity l))
            (filter (\<lambda>l. \<not> isExpired l now)
               (seller_listings (ls_invoiceId inp) (ls_sellerWallet inp) (ls_sellerId inp) (listings d))))
      in dminus D totalHoldings currentlyListed)"

text \<open>An invoice whose due date is not a date leaves a listing without an expiry, which the
  database refuses.\<close>

definition effective_expiry :: "list_input \<Rightarrow> invoice \<Rightarrow> int result" where
  "effective_expiry inp v =
     (case ls_expiresAt inp of
        Some t \<Rightarrow> Inr t
      | None \<Rightarrow> (case date_value (iv_dueDate v) of None \<Rightarrow> Inl (JsError ''QueryFailedError'') | Some t \<Rightarrow> Inr t))"

definition createListing :: "decimal_lib \<Rightarrow> list_input \<Rightarrow> string \<Rightarrow> int \<Rightarrow> db \<Rightarrow> error + (listing \<times> db)" where
  "createListing D inp new_id now d =
     and_then (positive_check ''INVALID_QUANTITY'' (Num (ls_quantity inp))) (\<lambda>_.
     and_then (positive_check ''INVALID_PRICE'' (Num (ls_price inp))) (\<lambda>_.
     and_then (require (case ls_expiresAt inp of None \<Rightarrow> True | Some t \<Rightarrow> t > now) (ServiceError ''INVALID_EXPIRY'' 400)) (\<lambda>_.
       case invoices d (ls_invoiceId inp) of
         None \<Rightarrow> Inl (ServiceError ''INVOICE_NOT_FOUND'' 404)
       | Some v \<Rightarrow>
           if matured v now then Inl (ServiceError ''INVOICE_MATURED'' 422)
           else if iv_status v \<noteq> FUNDED then Inl (ServiceError ''INVALID_INVOICE_STATUS'' 400)
           else if settlement_in_progress d (ls_invoiceId inp) then Inl (ServiceError ''SETTLEMENT_IN_PROGRESS'' 409)
           else and_then (effective_expiry inp v) (\<lambda>expiry.
             if expiry \<le> now then Inl (ServiceError ''INVALID_EXPIRY'' 400)
             else if seller_rows (ls_invoiceId inp) (ls_sellerWallet inp) (ls_sellerId inp) (investments d) = []
             then Inl (ServiceError ''NO_HOLDINGS'' 400)
             else if ls_quantity inp > available_holdings D inp now d
             then Inl (ServiceError ''INSUFFICIENT_HOLDINGS'' 400)
             else let l = \<lparr>li_id = new_id, li_invoiceId = ls_invoiceId inp, li_sellerWallet = ls_sellerWallet inp,
                           li_sellerId = (if truthy (ls_sellerId inp) then ls_sellerId inp else None),
                           li_quantity = toFixed4 D (ls_quantity inp), li_price = toFixed4 D (ls_price inp),
                           li_totalPrice = toFixed4 D (dtimes D (ls_quantity inp) (ls_price inp)),
                           li_status = ACTIVE, li_expiresAt = expiry, li_cancellationReason = None,
                           li_createdAt = now\<rparr>
                  in Inr (l, save_listing l d)))))"

subsection \<open>Buying\<close>

record buy_input =
  by_listingId :: string
  by_wallet :: string
  by_buyerId :: string
  by_quantity :: "decimal option"

text \<open>The checks on the quantity of a purchase.\<close>

definition buy_quantity_check :: "num_input \<Rightarrow> listing \<Rightarrow> unit result" where
  "buy_quantity_check q l =
     and_then (positive_check ''INVALID_QUANTITY'' q) (\<lambda>_.
       case q of
         PosInf \<Rightarrow> Inl (ServiceError ''OVER_PURCHASE'' 409)
       | Num n \<Rightarrow> require (\<not> n > dec (li_quantity l)) (ServiceError ''OVER_PURCHASE'' 409)
       | _ \<Rightarrow> Inr ())"

definition buy_checks :: "buy_input \<Rightarrow> int \<Rightarrow> db \<Rightarrow> (listing \<times> invoice) result" where
  "buy_checks inp now d =
     (case List.find (\<lambda>l. li_id l = by_listingId inp) (listings d) of
        None \<Rightarrow> Inl (ServiceError ''LISTING_NOT_FOUND'' 404)
      | Some l \<Rightarrow>
          if li_status l \<noteq> ACTIVE then Inl (ServiceError ''LISTING_NOT_ACTIVE'' 400)
          else if isExpired l now then Inl (ServiceError ''LISTING_EXPIRED'' 400)
          else if li_sellerWallet l = by_wallet inp \<or>
                  (truthy (li_sellerId l) \<and> by_buyerId inp \<noteq> [] \<and> li_sellerId l = Some (by_buyerId inp))
          then Inl (ServiceError ''SELF_PURCHASE'' 400)
          else (case invoices d (li_invoiceId l) of
                  None \<Rightarrow> Inl (ServiceError ''INVOICE_NOT_FOUND'' 404)
                | Some v \<Rightarrow>
                    if iv_status v \<noteq> FUNDED then Inl (ServiceError ''INVALID_INVOICE_STATUS'' 400)
                    else if settlement_in_progress d (iv_id v) then Inl (ServiceError ''SETTLEMENT_IN_PROGRESS'' 409)
                    else Inr (l, v)))"

text \<open>What the sale leaves of the listing.\<close>

definition sold_listing :: "decimal_lib \<Rightarrow> decimal \<Rightarrow> listing \<Rightarrow> listing" where
  "sold_listing D q l =
     (if q = dec (li_quantity l) then l\<lparr>li_status := SOLD\<rparr>
      else let remainingQuantity = dminus D (dec (li_quantity l)) q
           in l\<lparr>li_quantity := toFixed4 D remainingQuantity,
                li_totalPrice := toFixed4 D (dtimes D remainingQuantity (dec (li_price l)))\<rparr>)"

fun deduct :: "decimal_lib \<Rightarrow> decimal \<Rightarrow> investment list \<Rightarrow> db \<Rightarrow> db" where
  "deduct D remainingToDeduct [] d = d"
| "deduct D remainingToDeduct (m # ms) d =
     (if remainingToDeduct \<le> 0 then d
      else if dec (im_amount m) \<le> remainingToDeduct
      then deduct D (dminus D remainingToDeduct (dec (im_amount m))) ms (save_investment (m\<lparr>im_amount := 0\<rparr>) d)
      else deduct D 0 ms
             (save_investment (m\<lparr>im_amount := toFixed4 D (dminus D (dec (im_amount m)) remainingToDeduct)\<rparr>) d))"

definition bought_investment :: "decimal_lib \<Rightarrow> buy_input \<Rightarrow> decimal \<Rightarrow> string \<Rightarrow> string \<Rightarrow> db \<Rightarrow> investment" where
  "bought_investment D inp q i new_id d =
     (case List.find (\<lambda>m. im_invoiceId m = i \<and> im_investorId m = by_buyerId inp \<and> im_status m = InvCONFIRMED) (investments d) of
        Some m \<Rightarrow> m\<lparr>im_amount := toFixed4 D (dplus D (dec (im_amount m)) q),
                    im_wallet := (if by_wallet inp \<noteq> [] \<and> \<not> truthy (im_wallet m) then Some (by_wallet inp) else im_wallet m)\<rparr>
      | None \<Rightarrow> \<lparr>im_id = new_id, im_invoiceId = i, im_investorId = by_buyerId inp, im_amount = toFixed4 D q,
                 im_expectedReturn = toFixed4 D q, im_actualReturn = None, im_status = InvCONFIRMED,
                 im_wallet = Some (by_wallet inp), im_fundingBlock = None, im_transactionHash = None, im_operationIndex = None\<rparr>)"

definition record_payments :: "buy_input \<Rightarrow> listing \<Rightarrow> string \<Rightarrow> amt \<Rightarrow> string \<Rightarrow> db \<Rightarrow> db" where
  "record_payments inp l investment totalPrice hash d =
     (let buyerTx = \<lparr>tx_userId = by_buyerId inp, tx_invoiceId = li_invoiceId l, tx_investmentId = Some investment,
                     tx_amount = totalPrice, tx_hash = hash\<rparr>;
          sellerTx = (case li_sellerId l of
                        None \<Rightarrow> []
                      | Some s \<Rightarrow> if s = [] then [] else
                          [\<lparr>tx_userId = s, tx_invoiceId = li_invoiceId l, tx_investmentId = None,
                            tx_amount = totalPrice, tx_hash = hash\<rparr>])
      in d\<lparr>payments := payments d @ buyerTx # sellerTx\<rparr>)"

record sale =
  sa_listing :: listing
  sa_quantity :: amt
  sa_totalPrice :: amt
  sa_wasSold :: bool

definition buyListing :: "decimal_lib \<Rightarrow> buy_input \<Rightarrow> string \<Rightarrow> string \<Rightarrow> int \<Rightarrow> db \<Rightarrow> error + (sale \<times> db)" where
  "buyListing D inp new_id hash now d =
     and_then (buy_checks inp now d) (\<lambda>(l, v).
       let q = (case by_quantity inp of None \<Rightarrow> dec (li_quantity l) | Some q \<Rightarrow> q)
       in and_then (buy_quantity_check (Num q) l) (\<lambda>_.
            let totalPrice = toFixed4 D (dtimes D q (dec (li_price l)));
                l' = sold_listing D q l;
                d1 = save_listing l' d;
                d2 = deduct D q (seller_rows (li_invoiceId l) (li_sellerWallet l) (li_sellerId l) (investments d1)) d1;
                m = bought_investment D inp q (li_invoiceId l) new_id d2;
                d3 = save_investment m d2
            in Inr (\<lparr>sa_listing = l', sa_quantity = toFixed4 D q, sa_totalPrice = totalPrice,
                     sa_wasSold = (q = dec (li_quantity l))\<rparr>,
                    record_payments inp l (im_id m) totalPrice hash d3)))"

text \<open>The user told of a completed sale, after the commit.\<close>

definition sold_notification :: "sale \<Rightarrow> string option" where
  "sold_notification s =
     (if sa_wasSold s
      then (case li_sellerId (sa_listing s) of
              Some u \<Rightarrow> if u = [] then None else Some u
            | None \<Rightarrow> if li_sellerWallet (sa_listing s) = [] then None else Some (li_sellerWallet (sa_listing s)))
      else None)"

subsection \<open>Cancelling and browsing\<close>

definition cancelListing :: "string \<Rightarrow> string \<Rightarrow> string option \<Rightarrow> string option \<Rightarrow> db \<Rightarrow> error + (listing \<times> db)" where
  "cancelListing i sellerWallet reason sellerId d =
     (case List.find (\<lambda>l. li_id l = i) (listings d) of
        None \<Rightarrow> Inl (ServiceError ''LISTING_NOT_FOUND'' 404)
      | Some l \<Rightarrow>
          if \<not> (li_sellerWallet l = sellerWallet \<or>
                 truthy sellerId \<and> truthy (li_sellerId l) \<and> li_sellerId l = sellerId)
          then Inl (ServiceError ''FORBIDDEN'' 403)
          else if li_status l \<noteq> ACTIVE then Inl (ServiceError ''LISTING_NOT_ACTIVE'' 400)
          else let l' = l\<lparr>li_status := ListingCANCELLED,
                         li_cancellationReason := (if truthy reason then reason else None)\<rparr>
               in Inr (l', save_listing l' d))"

record listing_filters =
  lf_invoiceId :: "string option"
  lf_sellerWallet :: "string option"
  lf_minPrice :: "decimal option"
  lf_maxPrice :: "decimal option"

definition listing_matches :: "listing_filters \<Rightarrow> int \<Rightarrow> listing \<Rightarrow> bool" where
  "listing_matches f now l \<longleftrightarrow>
     li_status l = ACTIVE \<and> li_expiresAt l > now \<and>
     (truthy (lf_invoiceId f) \<longrightarrow> lf_invoiceId f = Some (li_invoiceId l)) \<and>
     (truthy (lf_sellerWallet f) \<longrightarrow> lf_sellerWallet f = Some (li_sellerWallet l)) \<and>
     (case lf_minPrice f of None \<Rightarrow> True | Some p \<Rightarrow> p \<le> dec (li_price l)) \<and>
     (case lf_maxPrice f of None \<Rightarrow> True | Some p \<Rightarrow> dec (li_price l) \<le> p)"

datatype listing_sort = SortPrice | SortExpires | SortCreated

definition sort_value :: "listing_sort \<Rightarrow> listing \<Rightarrow> int" where
  "sort_value c l = (case c of SortPrice \<Rightarrow> li_price l | SortExpires \<Rightarrow> li_expiresAt l | SortCreated \<Rightarrow> li_createdAt l)"

definition listing_before :: "listing_sort \<Rightarrow> bool \<Rightarrow> listing \<Rightarrow> listing \<Rightarrow> bool" where
  "listing_before c ascending a b \<longleftrightarrow>
     (if sort_value c a = sort_value c b then li_id a < li_id b
      else if ascending then sort_value c a < sort_value c b else sort_value c b < sort_value c a)"

record listing_page =
  lp_data :: "listing list"
  lp_total :: nat
  lp_totalPages :: nat

text \<open>Pages are counted from 1 and \<open>limit\<close> is positive.\<close>

definition getListings :: "listing_filters \<Rightarrow> listing_sort \<Rightarrow> bool \<Rightarrow> nat \<Rightarrow> nat \<Rightarrow> int \<Rightarrow> db \<Rightarrow> listing_page" where
  "getListings f c ascending pageno limit now d =
     (let found = isort_by (listing_before c ascending) (filter (listing_matches f now) (listings d));
          n = length found
      in \<lparr>lp_data = take limit (drop ((pageno - 1) * limit) found), lp_total = n,
          lp_totalPages = (n + limit - 1) div limit\<rparr>)"

definition getListingById :: "string \<Rightarrow> db \<Rightarrow> (listing \<times> invoice option) result" where
  "getListingById i d =
     (case List.find (\<lambda>l. li_id l = i) (listings d) of
        None \<Rightarrow> Inl (ServiceError ''LISTING_NOT_FOUND'' 404)
      | Some l \<Rightarrow> Inr (l, invoices d (li_invoiceId l)))"

end
