(* ===== verification/Market_Steps.thy ===== *)
theory Market_Steps
  imports Secondary_Market
begin

section \<open>Trading conserves holdings\<close>

text \<open>
  Any sequence of listings, purchases and cancellations, with the clock moving forward and other
  services changing everything but holdings and listings. A wallet belongs to one user
  (\<open>owner\<close>), which is how the controllers call the service; purchased quantities have at most
  four decimals. The invariant is that what a seller offers never exceeds what the seller holds.
\<close>

lemma total_if_upsert:
  assumes "x \<in> set xs" "k x = k r" "distinct (map k xs)"
  shows "total_if P f (upsert k r xs) = total_if P f xs - (if P x then f x else 0) + (if P r then f r else 0)"
  using sum_upsert_replace [OF assms, of "\<lambda>x. if P x then f x else 0"] by (simp add: total_if_def)

lemma total_if_upsert_new: "k r \<notin> k ` set xs \<Longrightarrow> total_if P f (upsert k r xs) = total_if P f xs + (if P r then f r else 0)"
  by (simp add: upsert_new)

lemma upsert_same_image:
  "k r \<in> k ` set xs \<Longrightarrow> distinct (map k xs) \<Longrightarrow> \<forall>x \<in> set xs. k x = k r \<longrightarrow> g x = g r \<Longrightarrow>
     map g (upsert k r xs) = map g xs"
  by (induction xs) (auto simp: image_iff)

subsection \<open>Holdings and offers\<close>

definition holds_in :: "string \<Rightarrow> investment \<Rightarrow> bool" where
  "holds_in i m \<longleftrightarrow> im_invoiceId m = i \<and> im_status m = InvCONFIRMED"

definition holds_of :: "string \<Rightarrow> string \<Rightarrow> investment \<Rightarrow> bool" where
  "holds_of i u m \<longleftrightarrow> holds_in i m \<and> im_investorId m = u"

definition held :: "string \<Rightarrow> db \<Rightarrow> amt" where
  "held i d = total_if (holds_in i) im_amount (investments d)"

definition held_by :: "string \<Rightarrow> string \<Rightarrow> db \<Rightarrow> amt" where
  "held_by i u d = total_if (holds_of i u) im_amount (investments d)"

definition offers :: "int \<Rightarrow> string \<Rightarrow> string \<Rightarrow> listing \<Rightarrow> bool" where
  "offers now i u l \<longleftrightarrow> li_invoiceId l = i \<and> li_sellerId l = Some u \<and> isActive l now"

definition offered :: "int \<Rightarrow> string \<Rightarrow> string \<Rightarrow> db \<Rightarrow> amt" where
  "offered now i u d = total_if (offers now i u) li_quantity (listings d)"

text \<open>Rows as the services write them: each wallet stands with its user.\<close>

definition rows_ok :: "(string \<Rightarrow> string) \<Rightarrow> db \<Rightarrow> bool" where
  "rows_ok owner d \<longleftrightarrow> distinct (map im_id (investments d)) \<and> distinct (map li_id (listings d)) \<and>
     (\<forall>m \<in> set (investments d). 0 \<le> im_amount m \<and> (\<forall>w. im_wallet m = Some w \<longrightarrow> w \<noteq> [] \<longrightarrow> im_investorId m = owner w)) \<and>
     (\<forall>l \<in> set (listings d). 0 \<le> li_quantity l \<and> li_sellerWallet l \<noteq> [] \<and> li_sellerId l = Some (owner (li_sellerWallet l)) \<and>
        owner (li_sellerWallet l) \<noteq> [])"

definition covered :: "int \<Rightarrow> db \<Rightarrow> bool" where
  "covered now d \<longleftrightarrow> (\<forall>i u. offered now i u d \<le> held_by i u d)"

definition market_ok :: "(string \<Rightarrow> string) \<Rightarrow> (string \<Rightarrow> amt) \<Rightarrow> db \<times> int \<Rightarrow> bool" where
  "market_ok owner T s \<longleftrightarrow> rows_ok owner (fst s) \<and> covered (snd s) (fst s) \<and> (\<forall>i. held i (fst s) = T i)"

inductive market_step :: "decimal_lib \<Rightarrow> (string \<Rightarrow> string) \<Rightarrow> db \<times> int \<Rightarrow> db \<times> int \<Rightarrow> bool" for D owner where
  create: "createListing D inp x now d = Inr (l, d') \<Longrightarrow> x \<notin> li_id ` set (listings d) \<Longrightarrow> ls_sellerWallet inp \<noteq> [] \<Longrightarrow>
    ls_sellerId inp = Some (owner (ls_sellerWallet inp)) \<Longrightarrow> owner (ls_sellerWallet inp) \<noteq> [] \<Longrightarrow>
    market_step D owner (d, now) (d', now)"
| buy: "buyListing D inp x h now d = Inr (s, d') \<Longrightarrow> x \<notin> im_id ` set (investments d) \<Longrightarrow> by_wallet inp \<noteq> [] \<Longrightarrow>
    by_buyerId inp = owner (by_wallet inp) \<Longrightarrow> by_buyerId inp \<noteq> [] \<Longrightarrow>
    (case by_quantity inp of None \<Rightarrow> True | Some q \<Rightarrow> four_places q) \<Longrightarrow>
    market_step D owner (d, now) (d', now)"
| cancel: "cancelListing i w r u d = Inr (l, d') \<Longrightarrow> market_step D owner (d, now) (d', now)"
| tick: "now \<le> now' \<Longrightarrow> market_step D owner (d, now) (d, now')"
| others: "investments d' = investments d \<Longrightarrow> listings d' = listings d \<Longrightarrow> market_step D owner (d, now) (d', now)"

lemma held_frame: "investments d = investments d' \<Longrightarrow> held i d = held i d' \<and> held_by i u d = held_by i u d'"
  by (simp add: held_def held_by_def)

lemma offered_frame: "listings d = listings d' \<Longrightarrow> offered now i u d = offered now i u d'"
  by (simp add: offered_def)

lemma held_by_le: "rows_ok owner d \<Longrightarrow> 0 \<le> held_by i u d \<and> held_by i u d \<le> held i d"
  unfolding held_by_def held_def
  by (intro conjI total_if_nonneg total_if_mono) (auto simp: rows_ok_def holds_of_def)

text \<open>Under the invariant the seller's rows and listings are those of the seller's user.\<close>

lemma seller_rows_holds:
  assumes "rows_ok owner d" "w \<noteq> []" "owner w = u" "u \<noteq> []"
  shows "seller_rows i w (Some u) (investments d) = filter (holds_of i u) (investments d)"
proof -
  have "truthy (Some u)" using assms(4) by (simp add: truthy_def)
  then show ?thesis using assms by (auto simp: seller_rows_def holds_of_def holds_in_def rows_ok_def intro!: filter_cong)
qed

lemma seller_listings_offers:
  assumes "rows_ok owner d" "w \<noteq> []" "owner w = u" "u \<noteq> []"
  shows "filter (\<lambda>l. \<not> isExpired l now) (seller_listings i w (Some u) (listings d)) = filter (offers now i u) (listings d)"
proof -
  have "truthy (Some u)" using assms(4) by (simp add: truthy_def)
  then show ?thesis using assms by (auto simp: seller_listings_def offers_def isActive_def rows_ok_def intro!: filter_cong)
qed

subsection \<open>The seller's side of a purchase\<close>

text \<open>What \<open>deduct\<close> takes from the rows that satisfy \<open>P\<close>.\<close>

fun taken :: "(investment \<Rightarrow> bool) \<Rightarrow> amt \<Rightarrow> investment list \<Rightarrow> amt" where
  "taken P r [] = 0"
| "taken P r (m # ms) =
     (if r \<le> 0 then 0
      else if im_amount m \<le> r then (if P m then im_amount m else 0) + taken P (r - im_amount m) ms
      else if P m then r else 0)"

lemma taken_all: "\<forall>m \<in> set ms. P m \<and> 0 \<le> im_amount m \<Longrightarrow> 0 \<le> r \<Longrightarrow> taken P r ms = min r (sum_list (map im_amount ms))"
proof (induction ms arbitrary: r)
  case (Cons m ms)
  have "0 \<le> sum_list (map im_amount ms)" using Cons.prems by (intro sum_list_nonneg) auto
  then show ?case using Cons by auto
qed simp

lemma taken_none: "\<forall>m \<in> set ms. \<not> P m \<Longrightarrow> taken P r ms = 0"
  by (induction ms arbitrary: r) auto

definition skeleton :: "investment \<Rightarrow> investment" where
  "skeleton m = m\<lparr>im_amount := 0\<rparr>"

definition amount_blind :: "(investment \<Rightarrow> bool) \<Rightarrow> bool" where
  "amount_blind P \<longleftrightarrow> (\<forall>m a. P (m\<lparr>im_amount := a\<rparr>) = P m)"

lemma blind_holds [simp]: "amount_blind (holds_in i)" "amount_blind (holds_of i u)"
  by (simp_all add: amount_blind_def holds_in_def holds_of_def)

lemma skeleton_id: "skeleton m = skeleton m' \<Longrightarrow> im_id m = im_id m' \<and> im_investorId m = im_investorId m' \<and>
    im_wallet m = im_wallet m' \<and> im_invoiceId m = im_invoiceId m' \<and> im_status m = im_status m'"
  unfolding skeleton_def by (cases m; cases m') simp

lemma set_amount:
  assumes "m \<in> set (investments d)" "distinct (map im_id (investments d))" "amount_blind P"
  shows "total_if P im_amount (investments (save_investment (m\<lparr>im_amount := a\<rparr>) d)) =
           total_if P im_amount (investments d) + (if P m then a - im_amount m else 0)"
    and "map skeleton (investments (save_investment (m\<lparr>im_amount := a\<rparr>) d)) = map skeleton (investments d)"
proof -
  show "total_if P im_amount (investments (save_investment (m\<lparr>im_amount := a\<rparr>) d)) =
           total_if P im_amount (investments d) + (if P m then a - im_amount m else 0)"
    using total_if_upsert [OF assms(1) _ assms(2), of "m\<lparr>im_amount := a\<rparr>" P im_amount] assms(3)
    by (simp add: save_investment_simps amount_blind_def)
  have "\<forall>x \<in> set (investments d). im_id x = im_id (m\<lparr>im_amount := a\<rparr>) \<longrightarrow> skeleton x = skeleton (m\<lparr>im_amount := a\<rparr>)"
    using assms(1,2) by (auto simp: skeleton_def distinct_map inj_on_def)
  then show "map skeleton (investments (save_investment (m\<lparr>im_amount := a\<rparr>) d)) = map skeleton (investments d)"
    using assms(1,2) by (auto simp: save_investment_simps intro!: upsert_same_image)
qed

definition same_but_investments :: "db \<Rightarrow> db \<Rightarrow> bool" where
  "same_but_investments d d' \<longleftrightarrow> d'\<lparr>investments := []\<rparr> = d\<lparr>investments := []\<rparr>"

lemma same_save [simp]: "same_but_investments d d1 \<Longrightarrow> same_but_investments d (save_investment m d1)"
  by (simp add: same_but_investments_def save_investment_def)

lemma deduct_effect:
  assumes "decimal_ok D" "distinct (map im_id (investments d))" "set ms \<subseteq> set (investments d)" "distinct (map im_id ms)"
    "\<forall>m \<in> set (investments d). 0 \<le> im_amount m" "\<forall>m \<in> set ms. amt_ok (im_amount m)" "0 \<le> r" "amt_ok r" "amount_blind P"
    "same_but_investments d0 d"
  shows "total_if P im_amount (investments (deduct D (dec r) ms d)) = total_if P im_amount (investments d) - taken P r ms \<and>
     map skeleton (investments (deduct D (dec r) ms d)) = map skeleton (investments d) \<and>
     (\<forall>m \<in> set (investments (deduct D (dec r) ms d)). 0 \<le> im_amount m) \<and>
     same_but_investments d0 (deduct D (dec r) ms d)"
  using assms(2-8,10)
proof (induction ms arbitrary: r d)
  case (Cons m ms)
  let ?a = "if im_amount m \<le> r then 0 else im_amount m - r" and ?r = "if im_amount m \<le> r then r - im_amount m else 0"
  let ?d = "save_investment (m\<lparr>im_amount := ?a\<rparr>) d"
  have m: "m \<in> set (investments d)" "0 \<le> im_amount m" "amt_ok (im_amount m)" using Cons.prems(2,4,5) by auto
  show ?case
  proof (cases "r \<le> 0")
    case True
    then show ?thesis using Cons.prems by simp
  next
    case False
    have sub: "dminus D (dec r) (dec (im_amount m)) = dec (r - im_amount m)" if "im_amount m \<le> r"
      by (rule dminus_dec [OF assms(1)]) (use that m Cons.prems(7) in \<open>simp add: amt_ok_def\<close>)
    have sub': "dminus D (dec (im_amount m)) (dec r) = dec (im_amount m - r)" if "\<not> im_amount m \<le> r"
      by (rule dminus_dec [OF assms(1)]) (use that m False in \<open>simp add: amt_ok_def\<close>)
    have step: "deduct D (dec r) (m # ms) d = deduct D (dec ?r) ms ?d"
      using False sub sub' by (simp add: toFixed4_dec [OF assms(1)])
    note sa = set_amount [OF m(1) Cons.prems(1) assms(9), of ?a]
    have ids: "map im_id (investments ?d) = map im_id (investments d)"
      using arg_cong [OF sa(2), of "map im_id"] by (simp add: o_def skeleton_def)
    have rest: "set ms \<subseteq> set (investments ?d)"
      using Cons.prems(1-3) by (auto simp: save_investment_simps set_upsert_distinct image_iff)
    have nn: "\<forall>x \<in> set (investments ?d). 0 \<le> im_amount x"
      using Cons.prems(4) False by (auto simp: save_investment_simps dest!: in_upsertD)
    have ok: "amt_ok ?r" "0 \<le> ?r" using Cons.prems(7) m(2) False by (auto simp: amt_ok_def)
    have "total_if P im_amount (investments (deduct D (dec ?r) ms ?d)) = total_if P im_amount (investments ?d) - taken P ?r ms \<and>
     map skeleton (investments (deduct D (dec ?r) ms ?d)) = map skeleton (investments ?d) \<and>
     (\<forall>m \<in> set (investments (deduct D (dec ?r) ms ?d)). 0 \<le> im_amount m) \<and> same_but_investments d0 (deduct D (dec ?r) ms ?d)"
      by (rule Cons.IH) (use ids rest nn Cons.prems ok in \<open>simp_all\<close>)
    moreover have "taken P r (m # ms) = (if P m then im_amount m - ?a else 0) + taken P ?r ms"
      using False by (cases ms) auto
    ultimately show ?thesis using sa unfolding step by auto
  qed
qed simp

subsection \<open>Every step keeps the invariant\<close>

lemma dsum_total:
  assumes "decimal_ok D" "\<forall>x \<in> set xs. 0 \<le> f x" "amt_ok (total_if P f xs)"
  shows "dsum D (map (\<lambda>x. dec (f x)) (filter P xs)) = dec (total_if P f xs)"
  using dsum_dec [OF assms(1), of "map f (filter P xs)"] assms(2,3) by (auto simp: total_if_filter o_def)

lemma toFixed4_bounds:
  assumes "decimal_ok D" "0 \<le> q" "q \<le> dec a"
  shows "0 \<le> toFixed4 D q \<and> toFixed4 D q \<le> a"
  using toFixed4_mono [OF assms(1), of "dec 0" q] toFixed4_mono [OF assms(1,3)] assms(2)
    toFixed4_dec [OF assms(1), of a] toFixed4_dec [OF assms(1), of 0] by simp

lemma create_keeps:
  assumes "decimal_ok D" "market_ok owner T (d, now)" "\<forall>i. amt_ok (T i)"
    "createListing D inp x now d = Inr (l, d')" "x \<notin> li_id ` set (listings d)" "ls_sellerWallet inp \<noteq> []"
    "ls_sellerId inp = Some (owner (ls_sellerWallet inp))" "owner (ls_sellerWallet inp) \<noteq> []"
  shows "market_ok owner T (d', now)"
proof -
  let ?i = "ls_invoiceId inp" and ?w = "ls_sellerWallet inp" and ?u = "owner (ls_sellerWallet inp)"
  have ok: "rows_ok owner d" "covered now d" "\<And>i. held i d = T i" using assms(2) by (auto simp: market_ok_def)
  have hb: "0 \<le> held_by ?i ?u d" "amt_ok (held_by ?i ?u d)"
    using held_by_le [OF ok(1), of ?i ?u] ok(3) assms(3) by (auto simp: amt_ok_def) (metis abs_of_nonneg abs_le_iff order_trans)
  have ob: "0 \<le> offered now ?i ?u d" unfolding offered_def
    by (rule total_if_nonneg) (use ok(1) in \<open>auto simp: rows_ok_def\<close>)
  have oc: "offered now ?i ?u d \<le> held_by ?i ?u d" using ok(2) by (simp add: covered_def)
  have avail: "available_holdings D inp now d = dec (held_by ?i ?u d - offered now ?i ?u d)"
  proof -
    have "dsum D (map (\<lambda>m. dec (im_amount m)) (filter (holds_of ?i ?u) (investments d))) = dec (held_by ?i ?u d)"
      unfolding held_by_def by (rule dsum_total [OF assms(1)]) (use ok(1) hb(2) in \<open>auto simp: rows_ok_def held_by_def\<close>)
    moreover have "dsum D (map (\<lambda>l. dec (li_quantity l)) (filter (offers now ?i ?u) (listings d))) = dec (offered now ?i ?u d)"
      unfolding offered_def
      by (rule dsum_total [OF assms(1)]) (use ok(1) hb ob oc in \<open>auto simp: rows_ok_def offered_def amt_ok_def\<close>)
    moreover have "dminus D (dec (held_by ?i ?u d)) (dec (offered now ?i ?u d)) = dec (held_by ?i ?u d - offered now ?i ?u d)"
      by (rule dminus_dec [OF assms(1)]) (use hb ob oc in \<open>simp add: amt_ok_def\<close>)
    ultimately show ?thesis unfolding available_holdings_def Let_def assms(7)
      seller_rows_holds [OF ok(1) assms(6) refl assms(8)] seller_listings_offers [OF ok(1) assms(6) refl assms(8)] by simp
  qed
  have l: "d' = save_listing l d" "li_id l = x" "li_invoiceId l = ?i" "li_sellerId l = Some ?u" "li_sellerWallet l = ?w"
    "li_quantity l = toFixed4 D (ls_quantity inp)" and q: "0 < ls_quantity inp" "\<not> available_holdings D inp now d < ls_quantity inp"
    using assms(4,7,8)
    by (auto simp: createListing_def result_simps positive_check_def Let_def truthy_def split: option.splits if_splits)
  have b: "0 \<le> li_quantity l" "li_quantity l \<le> held_by ?i ?u d - offered now ?i ?u d"
    using toFixed4_bounds [OF assms(1), of "ls_quantity inp"] q avail l(6) by (simp_all add: not_less)
  have fr: "investments d' = investments d" "listings d' = listings d @ [l]"
    using l(1,2) assms(5) by (simp_all add: frame_simps upsert_new)
  have "offered now i u d' = offered now i u d + (if offers now i u l then li_quantity l else 0)" for i u
    by (simp add: offered_def fr(2))
  moreover have "offers now i u l \<longrightarrow> i = ?i \<and> u = ?u" for i u using l by (auto simp: offers_def)
  ultimately have "covered now d'"
    unfolding covered_def using ok(2) b held_frame [OF fr(1)] by (auto simp: covered_def)
  moreover have "rows_ok owner d'" using ok(1) fr l assms(5,6,8) b by (auto simp: rows_ok_def)
  ultimately show ?thesis using ok(3) held_frame [OF fr(1)] by (simp add: market_ok_def)
qed

lemma cancel_keeps:
  assumes "market_ok owner T (d, now)" "cancelListing i w r u d = Inr (l, d')"
  shows "market_ok owner T (d', now)"
proof -
  have ok: "rows_ok owner d" "covered now d" using assms(1) by (auto simp: market_ok_def)
  obtain l0 where l0: "l0 \<in> set (listings d)" "li_id l = li_id l0" "d' = save_listing l d" "li_status l = ListingCANCELLED"
    "li_sellerId l = li_sellerId l0" "li_sellerWallet l = li_sellerWallet l0" "li_quantity l = li_quantity l0"
    using assms(2) by (auto simp: cancelListing_def Let_def split: option.splits if_splits dest!: find_SomeD)
  have d: "distinct (map li_id (listings d))" using ok(1) by (simp add: rows_ok_def)
  have fr: "investments d' = investments d" "listings d' = upsert li_id l (listings d)" using l0(3) by (simp_all add: frame_simps)
  have "offered now a b d' \<le> offered now a b d" for a b
    using total_if_upsert [OF l0(1) l0(2) [symmetric] d, of "offers now a b" li_quantity] l0(1,4-7) ok(1)
    unfolding offered_def fr(2) by (auto simp: offers_def isActive_def rows_ok_def)
  then have "covered now d'" using ok(2) held_frame [OF fr(1)] unfolding covered_def by (metis order_trans)
  moreover have "rows_ok owner d'" using ok(1) fr l0 distinct_upsert [OF d] by (auto simp: rows_ok_def dest!: in_upsertD)
  ultimately show ?thesis using assms(1) held_frame [OF fr(1)] by (simp add: market_ok_def)
qed

lemma tick_keeps: "market_ok owner T (d, now) \<Longrightarrow> now \<le> now' \<Longrightarrow> market_ok owner T (d, now')"
proof -
  assume ok: "market_ok owner T (d, now)" and t: "now \<le> now'"
  have "offered now' i u d \<le> offered now i u d" for i u
    unfolding offered_def by (rule total_if_mono) (use ok t in \<open>auto simp: market_ok_def rows_ok_def offers_def isActive_def isExpired_def\<close>)
  then have "offered now' i u d \<le> held_by i u d" for i u
    using ok by (metis (no_types) order_trans market_ok_def covered_def fst_conv snd_conv)
  then show ?thesis using ok by (simp add: market_ok_def covered_def)
qed

lemma skeleton_rows:
  assumes "map skeleton (investments d2) = map skeleton (investments d)" "rows_ok owner d"
    "\<forall>m \<in> set (investments d2). 0 \<le> im_amount m" "listings d2 = listings d1" "distinct (map li_id (listings d1))"
    "\<forall>l \<in> set (listings d1). 0 \<le> li_quantity l \<and> li_sellerWallet l \<noteq> [] \<and> li_sellerId l = Some (owner (li_sellerWallet l)) \<and>
        owner (li_sellerWallet l) \<noteq> []"
  shows "rows_ok owner d2 \<and> map im_id (investments d2) = map im_id (investments d)"
proof -
  have ids: "map im_id (investments d2) = map im_id (investments d)"
    using arg_cong [OF assms(1), of "map im_id"] by (simp add: o_def skeleton_def)
  have "\<exists>m' \<in> set (investments d). skeleton m = skeleton m'" if "m \<in> set (investments d2)" for m
    using arg_cong [OF assms(1), of set] that by (metis image_iff list.set_map)
  then have "im_wallet m = Some w \<longrightarrow> w \<noteq> [] \<longrightarrow> im_investorId m = owner w" if "m \<in> set (investments d2)" for m w
    using that assms(2) skeleton_id unfolding rows_ok_def by metis
  then show ?thesis using assms(2-6) ids by (auto simp: rows_ok_def)
qed

text \<open>The buyer's side: one row grows by \<open>k\<close>, or a row of \<open>k\<close> is added.\<close>

lemma credit_effect:
  assumes "decimal_ok D" "rows_ok owner d" "0 \<le> k" "amt_ok (held i d + k)" "x \<notin> im_id ` set (investments d)"
    "by_wallet inp \<noteq> []" "by_buyerId inp = owner (by_wallet inp)" "m = bought_investment D inp (dec k) i x d"
  shows "rows_ok owner (save_investment m d) \<and> held j (save_investment m d) = held j d + (if j = i then k else 0) \<and>
    held_by j u (save_investment m d) = held_by j u d + (if j = i \<and> u = by_buyerId inp then k else 0)"
proof (cases "List.find (\<lambda>m. im_invoiceId m = i \<and> im_investorId m = by_buyerId inp \<and> im_status m = InvCONFIRMED) (investments d)")
  case None
  then have m: "m = \<lparr>im_id = x, im_invoiceId = i, im_investorId = by_buyerId inp, im_amount = k,
                 im_expectedReturn = k, im_actualReturn = None, im_status = InvCONFIRMED,
                 im_wallet = Some (by_wallet inp), im_fundingBlock = None, im_transactionHash = None, im_operationIndex = None\<rparr>"
    using assms(8) by (simp add: bought_investment_def toFixed4_dec [OF assms(1)])
  then have "upsert im_id m (investments d) = investments d @ [m]" using assms(5) by (simp add: upsert_new)
  then show ?thesis using m assms
    by (auto simp: held_def held_by_def frame_simps holds_in_def holds_of_def rows_ok_def)
next
  case (Some m0)
  then have m0: "m0 \<in> set (investments d)" "im_invoiceId m0 = i" "im_investorId m0 = by_buyerId inp" "im_status m0 = InvCONFIRMED"
    by (auto dest!: find_SomeD)
  have nn: "\<forall>m \<in> set (investments d). 0 \<le> im_amount m" using assms(2) by (simp add: rows_ok_def)
  have "im_amount m0 \<le> held i d" unfolding held_def
    by (rule total_if_member [OF nn m0(1)]) (use m0 in \<open>simp add: holds_in_def\<close>)
  then have "amt_ok (im_amount m0 + k)" using assms(3,4) nn m0(1) by (auto simp: amt_ok_def)
  then have a: "toFixed4 D (dplus D (dec (im_amount m0)) (dec k)) = im_amount m0 + k"
    by (simp add: dplus_dec [OF assms(1)] toFixed4_dec [OF assms(1)])
  have m: "im_id m = im_id m0" "im_invoiceId m = i" "im_investorId m = by_buyerId inp" "im_status m = InvCONFIRMED"
    "im_amount m = im_amount m0 + k" "im_wallet m = im_wallet m0 \<or> im_wallet m = Some (by_wallet inp)"
    using assms(8) Some m0 a by (auto simp: bought_investment_def)
  have dis: "distinct (map im_id (investments d))" using assms(2) by (simp add: rows_ok_def)
  have "total_if P im_amount (upsert im_id m (investments d)) = total_if P im_amount (investments d) + (if P m0 then k else 0)"
    if "P m = P m0" for P
    using total_if_upsert [OF m0(1) m(1) [symmetric] dis, of P im_amount] that m(5) by auto
  then have "held j (save_investment m d) = held j d + (if j = i then k else 0) \<and>
    held_by j u (save_investment m d) = held_by j u d + (if j = i \<and> u = by_buyerId inp then k else 0)"
    using m m0 by (auto simp: held_def held_by_def frame_simps holds_in_def holds_of_def)
  moreover have "rows_ok owner (save_investment m d)"
    using assms(2,3,6,7) m m0 nn distinct_upsert [OF dis]
    by (auto simp: rows_ok_def frame_simps dest!: in_upsertD)
  ultimately show ?thesis by blast
qed

text \<open>The listing's side: what is offered falls by the quantity sold.\<close>

lemma sold_effect:
  assumes "decimal_ok D" "rows_ok owner d" "l \<in> set (listings d)" "isActive l now" "0 < k" "k \<le> li_quantity l"
    "amt_ok (li_quantity l)" "u = owner (li_sellerWallet l)"
  shows "offered now j w (save_listing (sold_listing D (dec k) l) d) =
      offered now j w d - (if j = li_invoiceId l \<and> w = u then k else 0) \<and>
    distinct (map li_id (listings (save_listing (sold_listing D (dec k) l) d))) \<and>
    (\<forall>l \<in> set (listings (save_listing (sold_listing D (dec k) l) d)). 0 \<le> li_quantity l \<and> li_sellerWallet l \<noteq> [] \<and>
        li_sellerId l = Some (owner (li_sellerWallet l)) \<and> owner (li_sellerWallet l) \<noteq> [])"
proof -
  let ?l = "sold_listing D (dec k) l"
  have dis: "distinct (map li_id (listings d))" using assms(2) by (simp add: rows_ok_def)
  have row: "li_sellerWallet l \<noteq> []" "li_sellerId l = Some u" "u \<noteq> []"
    using assms(2,3,8) by (auto simp: rows_ok_def)
  have "dminus D (dec (li_quantity l)) (dec k) = dec (li_quantity l - k)"
    by (rule dminus_dec [OF assms(1)]) (use assms(5-7) in \<open>simp add: amt_ok_def\<close>)
  then have l: "?l = (if k = li_quantity l then l\<lparr>li_status := SOLD\<rparr>
      else l\<lparr>li_quantity := li_quantity l - k, li_totalPrice := toFixed4 D (dtimes D (dec (li_quantity l - k)) (dec (li_price l)))\<rparr>)"
    by (simp add: sold_listing_def toFixed4_dec [OF assms(1)])
  then have id: "li_id l = li_id ?l" by simp
  have off: "(if offers now j w ?l then li_quantity ?l else 0) =
      (if offers now j w l then li_quantity l else 0) - (if j = li_invoiceId l \<and> w = u then k else 0)"
    using l row assms(4) by (auto simp: offers_def isActive_def isExpired_def)
  have "offered now j w (save_listing ?l d) = offered now j w d - (if j = li_invoiceId l \<and> w = u then k else 0)"
    using total_if_upsert [OF assms(3) id dis, of "offers now j w" li_quantity] off by (simp add: offered_def frame_simps)
  moreover have "distinct (map li_id (listings (save_listing ?l d)))" by (simp add: frame_simps distinct_upsert [OF dis])
  moreover have "\<forall>l' \<in> set (listings (save_listing ?l d)). 0 \<le> li_quantity l' \<and> li_sellerWallet l' \<noteq> [] \<and>
      li_sellerId l' = Some (owner (li_sellerWallet l')) \<and> owner (li_sellerWallet l') \<noteq> []"
    using assms(2,3,6) l by (auto simp: frame_simps rows_ok_def dest!: in_upsertD)
  ultimately show ?thesis by blast
qed

lemma buy_unfold:
  assumes "buyListing D inp x h now d = Inr (s, d')"
  obtains l v q where "l \<in> set (listings d)" "isActive l now" "li_sellerWallet l \<noteq> by_wallet inp"
    "li_sellerId l \<noteq> Some (by_buyerId inp) \<or> by_buyerId inp = []"
    "q = (case by_quantity inp of None \<Rightarrow> dec (li_quantity l) | Some q \<Rightarrow> q)" "0 < q" "q \<le> dec (li_quantity l)"
    "d' = (let d1 = save_listing (sold_listing D q l) d;
               d2 = deduct D q (seller_rows (li_invoiceId l) (li_sellerWallet l) (li_sellerId l) (investments d1)) d1;
               m = bought_investment D inp q (li_invoiceId l) x d2
           in record_payments inp l (im_id m) (toFixed4 D (dtimes D q (dec (li_price l)))) h (save_investment m d2))"
proof -
  obtain l v where c: "buy_checks inp now d = Inr (l, v)" using assms by (auto simp: buyListing_def result_simps)
  then have l: "l \<in> set (listings d)" "isActive l now" "li_sellerWallet l \<noteq> by_wallet inp"
    "li_sellerId l \<noteq> Some (by_buyerId inp) \<or> by_buyerId inp = []"
    by (auto simp: buy_checks_def isActive_def truthy_def split: option.splits if_splits dest!: find_SomeD)
  show ?thesis
    by (rule that [OF l, of "case by_quantity inp of None \<Rightarrow> dec (li_quantity l) | Some q \<Rightarrow> q"])
       (use assms c in \<open>auto simp: buyListing_def result_simps Let_def buy_quantity_check_def positive_check_def not_less\<close>)
qed

lemma buy_keeps:
  assumes "decimal_ok D" "market_ok owner T (d, now)" "\<forall>i. amt_ok (T i)"
    "buyListing D inp x h now d = Inr (s, d')" "x \<notin> im_id ` set (investments d)" "by_wallet inp \<noteq> []"
    "by_buyerId inp = owner (by_wallet inp)" "by_buyerId inp \<noteq> []"
    "case by_quantity inp of None \<Rightarrow> True | Some q \<Rightarrow> four_places q"
  shows "market_ok owner T (d', now)"
proof -
  have ok: "rows_ok owner d" "covered now d" "\<And>i. held i d = T i" using assms(2) by (auto simp: market_ok_def)
  obtain l q where l: "l \<in> set (listings d)" "isActive l now" "li_sellerWallet l \<noteq> by_wallet inp"
    "li_sellerId l \<noteq> Some (by_buyerId inp) \<or> by_buyerId inp = []"
    and q: "q = (case by_quantity inp of None \<Rightarrow> dec (li_quantity l) | Some q \<Rightarrow> q)" "0 < q" "q \<le> dec (li_quantity l)"
    and d': "d' = (let d1 = save_listing (sold_listing D q l) d;
               d2 = deduct D q (seller_rows (li_invoiceId l) (li_sellerWallet l) (li_sellerId l) (investments d1)) d1;
               m = bought_investment D inp q (li_invoiceId l) x d2
           in record_payments inp l (im_id m) (toFixed4 D (dtimes D q (dec (li_price l)))) h (save_investment m d2))"
    using buy_unfold [OF assms(4)] by metis
  let ?i = "li_invoiceId l" and ?u = "owner (li_sellerWallet l)" and ?b = "by_buyerId inp"
  obtain k where k: "q = dec k" using q(1) assms(9) four_places_dec [OF assms(1)] by (cases "by_quantity inp") (auto, metis)
  have kb: "0 < k" "k \<le> li_quantity l" using q(2,3) k by auto
  have row: "li_sellerWallet l \<noteq> []" "li_sellerId l = Some ?u" "?u \<noteq> []" using ok(1) l(1) by (auto simp: rows_ok_def)
  have ub: "?u \<noteq> ?b" using l(4) row(2) assms(8) by simp
  have nn: "\<forall>m \<in> set (investments d). 0 \<le> im_amount m" "\<forall>l \<in> set (listings d). 0 \<le> li_quantity l"
    using ok(1) by (auto simp: rows_ok_def)
  have "li_quantity l \<le> offered now ?i ?u d" unfolding offered_def
    by (rule total_if_member [OF nn(2) l(1)]) (use row l(2) in \<open>simp add: offers_def\<close>)
  then have lq: "li_quantity l \<le> held_by ?i ?u d" using ok(2) unfolding covered_def by (meson order_trans)
  then have lim: "li_quantity l \<le> T ?i" using held_by_le [OF ok(1), of ?i ?u] ok(3) by (metis order_trans)
  have kok: "amt_ok (li_quantity l)" "amt_ok k" using lim kb assms(3) by (auto simp: amt_ok_def dest!: spec [of _ ?i])
  define d1 where "d1 = save_listing (sold_listing D (dec k) l) d"
  define ms where "ms = filter (holds_of ?i ?u) (investments d)"
  define d2 where "d2 = deduct D (dec k) ms d1"
  define m where "m = bought_investment D inp (dec k) ?i x d2"
  have inv1: "investments d1 = investments d" by (simp add: d1_def frame_simps)
  have ms: "seller_rows ?i (li_sellerWallet l) (li_sellerId l) (investments d1) = ms"
    using seller_rows_holds [OF ok(1) row(1) refl row(3)] row(2) by (simp add: ms_def inv1)
  note sold = sold_effect [OF assms(1) ok(1) l(1,2) kb kok(1) refl, folded d1_def]
  have rows: "set ms \<subseteq> set (investments d1)" "distinct (map im_id (investments d1))" "distinct (map im_id ms)"
    using ok(1) by (auto simp: ms_def inv1 rows_ok_def distinct_map inj_on_def)
  have mok: "\<forall>m \<in> set ms. amt_ok (im_amount m)"
  proof
    fix m assume "m \<in> set ms"
    then have m: "m \<in> set (investments d)" "holds_in ?i m" by (auto simp: ms_def holds_of_def)
    then have "im_amount m \<le> T ?i" using total_if_member [OF nn(1) m(1), of "holds_in ?i"] ok(3) by (simp add: held_def)
    then show "amt_ok (im_amount m)" using nn(1) m(1) assms(3) by (auto simp: amt_ok_def dest!: spec [of _ ?i])
  qed
  have ded: "total_if P im_amount (investments d2) = total_if P im_amount (investments d) - taken P k ms \<and>
     map skeleton (investments d2) = map skeleton (investments d) \<and> (\<forall>m \<in> set (investments d2). 0 \<le> im_amount m) \<and>
     same_but_investments d1 d2" if "amount_blind P" for P
    using deduct_effect [OF assms(1) rows(2,1,3) _ mok _ kok(2) that, of d1] nn(1) kb(1) inv1
    by (simp add: d2_def same_but_investments_def)
  have sum: "sum_list (map im_amount ms) = held_by ?i ?u d" by (simp add: ms_def total_if_filter held_by_def)
  have tk: "taken (holds_in j) k ms = (if j = ?i then k else 0)" "taken (holds_of j w) k ms = (if j = ?i \<and> w = ?u then k else 0)" for j w
    using taken_all [of ms "holds_in j" k] taken_none [of ms "holds_in j" k] taken_all [of ms "holds_of j w" k]
      taken_none [of ms "holds_of j w" k] sum lq kb nn(1)
    by (auto simp: ms_def holds_of_def holds_in_def)
  have h2: "held j d2 = held j d - (if j = ?i then k else 0)" "held_by j w d2 = held_by j w d - (if j = ?i \<and> w = ?u then k else 0)" for j w
    using ded [of "holds_in j"] ded [of "holds_of j w"] tk by (simp_all add: held_def held_by_def)
  have ls: "listings d2 = listings d1"
    using ded [of "holds_in ?i"] by (auto simp: same_but_investments_def dest!: arg_cong [of _ _ listings])
  have r2: "rows_ok owner d2 \<and> map im_id (investments d2) = map im_id (investments d)"
    by (rule skeleton_rows [OF _ ok(1) _ ls]) (use ded [OF blind_holds(1), of ?i] sold in blast)+
  have x2: "x \<notin> im_id ` set (investments d2)" using r2 assms(5) by (metis list.set_map)
  have lim2: "amt_ok (held ?i d2 + k)" using h2(1) [of ?i] ok(3) assms(3) by simp
  note cr = credit_effect [OF assms(1) conjunct1 [OF r2] less_imp_le [OF kb(1)] lim2 x2 assms(6,7) m_def]
  let ?d3 = "save_investment m d2"
  have f: "investments d' = investments ?d3" "listings d' = listings ?d3"
    unfolding d' by (simp_all add: Let_def k ms [unfolded d1_def] d1_def m_def d2_def record_payments_def)
  have o3: "offered now j w d' = offered now j w d - (if j = ?i \<and> w = ?u then k else 0)" for j w
    using sold offered_frame [of d' d1 now j w] f(2) ls by (simp add: frame_simps)
  have h3: "held j d' = held j d" "held_by j w d' = held_by j w d - (if j = ?i \<and> w = ?u then k else 0) + (if j = ?i \<and> w = ?b then k else 0)" for j w
    using cr h2 held_frame [OF f(1)] by auto
  have "offered now j w d \<le> held_by j w d" for j w using ok(2) by (simp add: covered_def)
  then have "covered now d'" unfolding covered_def o3 h3(2) using kb(1) by (smt (verit))
  moreover have "rows_ok owner d'" using cr f by (simp add: rows_ok_def)
  ultimately show ?thesis using ok(3) h3(1) by (simp add: market_ok_def)
qed

lemma market_step_keeps:
  assumes "market_ok owner T s" "decimal_ok D \<and> (\<forall>i. amt_ok (T i)) \<and> market_step D owner s s'"
  shows "market_ok owner T s'"
proof -
  have D: "decimal_ok D" "\<forall>i. amt_ok (T i)" and "market_step D owner s s'" using assms(2) by auto
  from this(3) show ?thesis
  proof cases
    case create
    then show ?thesis using create_keeps [OF D(1) _ D(2)] assms(1) by metis
  next
    case buy
    then show ?thesis using buy_keeps [OF D(1) _ D(2)] assms(1) by metis
  next
    case cancel
    then show ?thesis using cancel_keeps assms(1) by metis
  next
    case tick
    then show ?thesis using tick_keeps assms(1) by metis
  next
    case (others d' d now)
    then show ?thesis using assms(1) held_frame [OF others(3)] offered_frame [OF others(4)]
      by (simp add: market_ok_def covered_def rows_ok_def)
  qed
qed

interpretation market: kept_by_steps "\<lambda>s s'. decimal_ok D \<and> (\<forall>i. amt_ok (T i)) \<and> market_step D owner s s'" "market_ok owner T"
  for D owner T
  by unfold_locales (rule market_step_keeps)


subsection \<open>A market\<close>

definition market_invoice :: invoice where
  "market_invoice = sample_invoice\<lparr>iv_status := FUNDED\<rparr>"

definition market_db :: db where
  "market_db = (fresh_db [market_invoice])
     \<lparr>investments := [(holding ''m1'' 500000 None InvCONFIRMED)\<lparr>im_wallet := Some ''GA''\<rparr>],
      listings := [\<lparr>li_id = ''l1'', li_invoiceId = ''i1'', li_sellerWallet = ''GA'', li_sellerId = Some ''u1'', li_quantity = 200000,
        li_price = 10000, li_totalPrice = 200000, li_status = ACTIVE, li_expiresAt = 100, li_cancellationReason = None,
        li_createdAt = 0\<rparr>]\<rparr>"

definition market_owner :: "string \<Rightarrow> string" where
  "market_owner w = (if w = ''GA'' then ''u1'' else ''u2'')"

definition sample_buy :: "decimal option \<Rightarrow> buy_input" where
  "sample_buy q = \<lparr>by_listingId = ''l1'', by_wallet = ''GB'', by_buyerId = ''u2'', by_quantity = q\<rparr>"

lemma market_rows: "rows_ok market_owner market_db" "covered 5 market_db" "amt_ok (held i market_db)"
  by (auto simp: rows_ok_def market_db_def holding_def market_owner_def covered_def offered_def held_by_def held_def
      offers_def holds_of_def holds_in_def isActive_def amt_ok_def)

lemma sample_checks_buy:
  "\<exists>l. buy_checks (sample_buy q) 5 market_db = Inr (l, market_invoice) \<and> listings market_db = [l] \<and> li_quantity l = 200000"
  by (simp add: buy_checks_def sample_buy_def market_db_def isExpired_def fresh_db_def market_invoice_def sample_invoice_def
      settlement_in_progress_def)


subsection \<open>Quantities finer than the columns\<close>

text \<open>A purchase of 0.00005 from a listing is accepted; neither the listing nor the seller's
  investment changes, and the buyer gains 0.0001: holdings are created.\<close>

theorem fine_purchase_creates_holdings:
  "\<exists>s d'. buyListing exact_decimal (sample_buy (Some (5 / 100000))) ''m2'' ''h'' 5 market_db = Inr (s, d') \<and>
     map li_quantity (listings d') = map li_quantity (listings market_db) \<and>
     held_by ''i1'' ''u1'' d' = held_by ''i1'' ''u1'' market_db \<and> held_by ''i1'' ''u2'' market_db = 0 \<and>
     held_by ''i1'' ''u2'' d' = 1 \<and> held ''i1'' d' = held ''i1'' market_db + 1"
proof -
  let ?q = "5 / 100000 :: rat" and ?x = exact_decimal
  have fx: "toFixed4 ?x (dec 200000 - ?q) = 200000" "toFixed4 ?x (dec 500000 - ?q) = 500000" "toFixed4 ?x ?q = 1"
    by (simp_all add: toFixed4_def exact_decimal_def dec_def floor_unique)
  have ar: "dminus ?x a b = a - b" for a b by (simp add: dminus_def exact_decimal_def)
  obtain l where l: "buy_checks (sample_buy (Some ?q)) 5 market_db = Inr (l, market_invoice)" "listings market_db = [l]"
    "li_quantity l = 200000" using sample_checks_buy by blast
  have lf: "li_sellerWallet l = ''GA''" "li_sellerId l = Some ''u1''" "li_invoiceId l = ''i1''" "li_id l = ''l1''"
    using l(2) by (auto simp: market_db_def)
  have ne: "?q \<noteq> dec 200000" "\<not> dec 200000 < ?q" "\<not> dec 500000 \<le> ?q" by (simp_all add: dec_def)
  have sl: "li_quantity (sold_listing ?x ?q l) = 200000" "li_id (sold_listing ?x ?q l) = ''l1''"
    using ne fx lf l(3) by (simp_all add: sold_listing_def Let_def ar)
  let ?m = "(holding ''m1'' 500000 None InvCONFIRMED)\<lparr>im_wallet := Some ''GA''\<rparr>"
  let ?b = "\<lparr>im_id = ''m2'', im_invoiceId = ''i1'', im_investorId = ''u2'', im_amount = 1, im_expectedReturn = 1,
     im_actualReturn = None, im_status = InvCONFIRMED, im_wallet = Some ''GB'', im_fundingBlock = None, im_transactionHash = None, im_operationIndex = None\<rparr>"
  let ?d1 = "save_listing (sold_listing ?x ?q l) market_db"
  have inv: "investments ?d1 = [?m]" by (simp add: frame_simps market_db_def)
  have rows: "seller_rows ''i1'' ''GA'' (Some ''u1'') [?m] = [?m]" by (simp add: seller_rows_def holding_def truthy_def)
  have ded: "deduct ?x ?q [?m] ?d1 = save_investment ?m ?d1"
    using ne fx by (simp add: holding_def ar)
  have inv2: "investments (save_investment ?m ?d1) = [?m]" using inv by (simp add: save_investment_simps holding_def)
  have buyer: "bought_investment ?x (sample_buy (Some ?q)) ?q ''i1'' ''m2'' (save_investment ?m ?d1) = ?b"
    using inv2 fx by (simp add: bought_investment_def sample_buy_def holding_def)
  let ?d3 = "save_investment ?b (save_investment ?m ?d1)"
  have inv3: "investments ?d3 = [?m, ?b]" "listings ?d3 = [sold_listing ?x ?q l]"
    using inv2 l(2) lf(4) sl(2) by (simp_all add: frame_simps holding_def)
  obtain s where b: "buyListing ?x (sample_buy (Some ?q)) ''m2'' ''h'' 5 market_db = Inr (s,
      record_payments (sample_buy (Some ?q)) l ''m2'' (toFixed4 ?x (dtimes ?x ?q (dec (li_price l)))) ''h'' ?d3)"
    using l ne lf rows ded buyer inv
    by (simp add: buyListing_def buy_quantity_check_def positive_check_def Let_def sample_buy_def)
  have h0: "investments market_db = [?m]" by (simp add: market_db_def)
  show ?thesis
    by (intro exI [of _ s] exI conjI, rule b)
       (use inv3 sl h0 l(2,3) in \<open>simp_all add: record_payments_def held_by_def held_def holds_of_def holds_in_def holding_def\<close>)
qed

text \<open>A quantity that decimal.js reads as \<open>NaN\<close> passes every check of a purchase.\<close>

lemma nan_quantity_passes_checks:
  "positive_check ''INVALID_QUANTITY'' NaN = Inr () \<and> buy_quantity_check NaN l = Inr ()"
  by (simp add: positive_check_def buy_quantity_check_def)

end
