(* ===== verification/Event_Indexer.thy ===== *)
theory Event_Indexer
  imports Units Invoice_Machine
begin

section \<open>The contract event indexer\<close>

text \<open>
  \<open>src/services/stellar/event-indexer.service.ts\<close>: polling contract events page by page,
  ingesting them with a log of what was processed, and the checkpoint. The RPC server is an
  argument; the consumers an event is handed to (insights, event bus) are one argument that says
  whether they raise. Nothing here is a transaction: what was written before an error stays.
  An event is modelled as \<open>decodeEvent\<close> returns it; XDR decoding belongs to the Stellar SDK. The
  unused \<open>extractSettlementProceeds\<close> is left out.
\<close>

record chain_event =
  ev_id :: string
  ev_contract :: string
  ev_ledger :: int
  ev_txHash :: string
  ev_topic :: string
  ev_topics :: "native list"
  ev_data :: native
  ev_occurredAt :: "int option"

fun js_join :: "string \<Rightarrow> string list \<Rightarrow> string" where
  "js_join sep [] = []"
| "js_join sep [x] = x"
| "js_join sep (x # xs) = x @ sep @ js_join sep xs"

text \<open>\<open>String(x)\<close>; \<open>NOther\<close> carries the text its value prints.\<close>

fun js_string :: "native \<Rightarrow> string" where
  "js_string (NStr s) = s"
| "js_string (NInt n) = int_str n"
| "js_string (NBool b) = (if b then ''true'' else ''false'')"
| "js_string NNull = ''null''"
| "js_string (NObj o') = ''[object Object]''"
| "js_string (NArr xs) = js_join '','' (map (\<lambda>x. case x of NNull \<Rightarrow> [] | _ \<Rightarrow> js_string x) xs)"
| "js_string (NOther s) = s"

definition extractInvoiceId :: "chain_event \<Rightarrow> string option" where
  "extractInvoiceId e =
     (case ev_topics e of
        _ # NStr s # _ \<Rightarrow> Some s
      | _ \<Rightarrow> (case ev_data e of NObj o' \<Rightarrow> map_option js_string (map_of o' ''invoice_id'') | _ \<Rightarrow> None))"

definition non_null :: "native option \<Rightarrow> native option" where
  "non_null x = (case x of Some NNull \<Rightarrow> None | _ \<Rightarrow> x)"

definition extractInvestmentId :: "chain_event \<Rightarrow> string option" where
  "extractInvestmentId e =
     (case ev_data e of
        NObj o' \<Rightarrow> map_option js_string (or_else (non_null (map_of o' ''investment_id'')) (non_null (map_of o' ''investmentId'')))
      | _ \<Rightarrow> None)"

subsection \<open>Applying an event\<close>

text \<open>A save without a change issues no update.\<close>

definition move_invoice :: "string option \<Rightarrow> invoice_status option \<Rightarrow> invoice_status \<Rightarrow> db \<Rightarrow> db" where
  "move_invoice invoiceId required to d =
     (if \<not> truthy invoiceId then d
      else case invoiceId of
        None \<Rightarrow> d
      | Some i \<Rightarrow>
          (case invoices d i of
             None \<Rightarrow> d
           | Some v \<Rightarrow>
               if (case required of None \<Rightarrow> iv_status v \<noteq> to | Some s \<Rightarrow> iv_status v = s)
               then d\<lparr>invoices := (invoices d)(i \<mapsto> v\<lparr>iv_status := to, iv_version := iv_version v + 1\<rparr>)\<rparr>
               else d))"

definition findInvestmentForEvent :: "chain_event \<Rightarrow> db \<Rightarrow> investment option" where
  "findInvestmentForEvent e d =
     (if truthy (extractInvestmentId e)
      then List.find (\<lambda>m. Some (im_id m) = extractInvestmentId e) (investments d) else None)"

text \<open>The topics exclude one another.\<close>

definition applyEventStateTransition :: "chain_event \<Rightarrow> db \<Rightarrow> db" where
  "applyEventStateTransition e d =
     (let topic = toLowerCase (ev_topic e)
      in if topic = ''create_escrow'' then move_invoice (extractInvoiceId e) (Some DRAFT) PUBLISHED d
         else if topic = ''fund_escrow'' \<or> topic = ''fund'' then move_invoice (extractInvoiceId e) (Some PUBLISHED) FUNDED d
         else if topic = ''payment_recorded'' \<or> topic = ''payment'' then move_invoice (extractInvoiceId e) (Some FUNDED) SETTLED d
         else if topic = ''settle_escrow'' \<or> topic = ''settle'' then move_invoice (extractInvoiceId e) None SETTLED d
         else if topic = ''investment_funded''
         then (case findInvestmentForEvent e d of
                 None \<Rightarrow> d
               | Some m \<Rightarrow> save_investment (m\<lparr>im_status := InvCONFIRMED, im_transactionHash := Some (ev_txHash e),
                                            im_fundingBlock := Some (int_str (ev_ledger e))\<rparr>) d)
         else d)"

subsection \<open>Ingesting\<close>

record log_entry =
  lg_eventId :: string
  lg_contract :: string
  lg_ledger :: int
  lg_processed :: bool

record indexer =
  ix_db :: db
  ix_log :: "log_entry list"
  ix_checkpoint :: "int option"
  ix_lastIndexed :: int
  ix_latestObserved :: int
  ix_latestSeen :: int
  ix_lagAlert :: bool

definition eventId :: "chain_event \<Rightarrow> string" where
  "eventId e = (if ev_id e \<noteq> [] then ev_id e else ev_txHash e @ '':'' @ ev_topic e @ '':'' @ int_str (ev_ledger e))"

definition find_log :: "(log_entry \<Rightarrow> bool) \<Rightarrow> indexer \<Rightarrow> log_entry option" where
  "find_log P st = List.find P (ix_log st)"

definition log_done :: "log_entry option \<Rightarrow> bool" where
  "log_done x = (case x of None \<Rightarrow> False | Some l \<Rightarrow> lg_processed l)"

definition mark :: "string \<Rightarrow> bool \<Rightarrow> indexer \<Rightarrow> indexer" where
  "mark i b st = st\<lparr>ix_log := map (\<lambda>l. if lg_eventId l = i then l\<lparr>lg_processed := b\<rparr> else l) (ix_log st)\<rparr>"

text \<open>One event: the result says whether its ledger counts towards the highest one.\<close>

definition ingest_event :: "(chain_event \<Rightarrow> error option) \<Rightarrow> chain_event \<Rightarrow> indexer \<Rightarrow> bool result \<times> indexer" where
  "ingest_event hooks e st =
     (let i = eventId e;
          existingLog = find_log (\<lambda>l. lg_eventId l = i) st;
          existing = find_log (\<lambda>l. lg_contract l = ev_contract e \<and> lg_eventId l = ev_id e) st
      in if log_done existingLog then (Inr True, st)
         else if log_done existing then (Inr False, st)
         else let st1 = (case existingLog of
                           Some _ \<Rightarrow> mark i False st
                         | None \<Rightarrow> st\<lparr>ix_log := ix_log st @ [\<lparr>lg_eventId = i, lg_contract = ev_contract e,
                                                          lg_ledger = ev_ledger e, lg_processed = False\<rparr>]\<rparr>);
                  st2 = st1\<lparr>ix_db := applyEventStateTransition e (ix_db st1)\<rparr>
              in (case hooks e of
                    Some err \<Rightarrow> (Inl err, st2)
                  | None \<Rightarrow> (Inr True, mark i True st2)))"

fun ingest_loop :: "(chain_event \<Rightarrow> error option) \<Rightarrow> chain_event list \<Rightarrow> int \<Rightarrow> nat \<Rightarrow> indexer \<Rightarrow> (int \<times> nat) result \<times> indexer" where
  "ingest_loop hooks [] highest n st = (Inr (highest, n), st)"
| "ingest_loop hooks (e # es) highest n st =
     (case ingest_event hooks e st of
        (Inl err, st') \<Rightarrow> (Inl err, st')
      | (Inr counted, st') \<Rightarrow> ingest_loop hooks es (if counted then max highest (ev_ledger e) else highest) (n + 1) st')"

definition ingestEvents :: "(chain_event \<Rightarrow> error option) \<Rightarrow> chain_event list \<Rightarrow> indexer \<Rightarrow> nat result \<times> indexer" where
  "ingestEvents hooks es st =
     (case ingest_loop hooks es (ix_lastIndexed st) 0 st of
        (Inl err, st') \<Rightarrow> (Inl err, st')
      | (Inr (highest, n), st') \<Rightarrow>
          let st1 = st'\<lparr>ix_lastIndexed := highest\<rparr>;
              checkpointLedger = max highest (ix_latestObserved st1)
          in if checkpointLedger > 0
             then (Inr n, st1\<lparr>ix_checkpoint := Some checkpointLedger, ix_lastIndexed := checkpointLedger\<rparr>)
             else (Inr n, st1))"

definition saveCheckpoint :: "int \<Rightarrow> indexer \<Rightarrow> unit result \<times> indexer" where
  "saveCheckpoint ledger st =
     (if ledger < 0 then (Inl (JsError ''Error''), st)
      else let durable = (case ix_checkpoint st of None \<Rightarrow> 0 | Some c \<Rightarrow> c)
           in if ledger \<le> durable then (Inr (), st)
              else (Inr (), st\<lparr>ix_checkpoint := Some ledger, ix_lastIndexed := max (ix_lastIndexed st) ledger\<rparr>))"

definition getLastIndexedLedger :: "indexer \<Rightarrow> int \<times> indexer" where
  "getLastIndexedLedger st =
     (if ix_lastIndexed st > 0 then (ix_lastIndexed st, st)
      else case ix_checkpoint st of
        Some c \<Rightarrow> (c, st\<lparr>ix_lastIndexed := c\<rparr>)
      | None \<Rightarrow>
          if ix_log st = [] then (0, st)
          else let latest = Max (set (map lg_ledger (ix_log st))) in (latest, st\<lparr>ix_lastIndexed := latest\<rparr>))"

subsection \<open>Polling\<close>

text \<open>The server's answer to a request for a start ledger or after a cursor.\<close>

record rpc_reply =
  rp_events :: "chain_event list"
  rp_cursor :: "string option"
  rp_latest :: int

type_synonym rpc = "int option \<Rightarrow> string option \<Rightarrow> rpc_reply result"

text \<open>The loop over the pages; \<open>None\<close> is a run that has used up its fuel.\<close>

fun poll_pages :: "nat \<Rightarrow> rpc \<Rightarrow> int option \<Rightarrow> string option \<Rightarrow> string list \<Rightarrow> int \<Rightarrow> chain_event list \<Rightarrow>
     (chain_event list result \<times> int) option" where
  "poll_pages 0 rpc startLedger cursor seen latest decoded = None"
| "poll_pages (Suc fuel) rpc startLedger cursor seen latest decoded =
     (case rpc (if truthy cursor then None else startLedger) (if truthy cursor then cursor else None) of
        Inl err \<Rightarrow> Some (Inl err, latest)
      | Inr reply \<Rightarrow>
          let latest' = max latest (rp_latest reply);
              decoded' = decoded @ rp_events reply
          in case rp_cursor reply of
               None \<Rightarrow> Some (Inr decoded', latest')
             | Some nextCursor \<Rightarrow>
                 if nextCursor = [] \<or> Some nextCursor = cursor then Some (Inr decoded', latest')
                 else if nextCursor \<in> set seen then Some (Inl (JsError ''Error''), latest')
                 else poll_pages fuel rpc startLedger (Some nextCursor) (nextCursor # seen) latest' decoded')"

definition lag_alert :: "int \<Rightarrow> indexer \<Rightarrow> indexer" where
  "lag_alert threshold st =
     (let (lastIndexed, st1) = getLastIndexedLedger st;
          lag = max 0 (ix_latestSeen st1 - lastIndexed)
      in if lag \<ge> threshold \<and> \<not> ix_lagAlert st1 then st1\<lparr>ix_lagAlert := True\<rparr>
         else if lag < threshold then st1\<lparr>ix_lagAlert := False\<rparr> else st1)"

definition pollContractEvents :: "nat \<Rightarrow> rpc \<Rightarrow> int \<Rightarrow> string option \<Rightarrow> int option \<Rightarrow> indexer \<Rightarrow> chain_event list result option \<times> indexer" where
  "pollContractEvents fuel rpc threshold cursor start st0 =
     (let (startLedger, st) = (case start of Some s \<Rightarrow> (s, st0) | None \<Rightarrow> let (l, st1) = getLastIndexedLedger st0 in (l + 1, st1))
      in case poll_pages fuel rpc (if startLedger > 1 \<and> \<not> truthy cursor then Some startLedger else None) cursor [] 0 [] of
           None \<Rightarrow> (None, st)
         | Some (res, latest) \<Rightarrow>
             let st1 = st\<lparr>ix_latestObserved := max (ix_latestObserved st) latest, ix_latestSeen := max (ix_latestSeen st) latest\<rparr>
             in (case res of
                   Inl err \<Rightarrow> (Some (Inl err), st1)
                 | Inr events \<Rightarrow> (Some (Inr events), lag_alert threshold st1)))"

text \<open>A tick of the timer: an error of the poll or the ingestion ends the cycle.\<close>

definition poll_cycle :: "nat \<Rightarrow> rpc \<Rightarrow> int \<Rightarrow> (chain_event \<Rightarrow> error option) \<Rightarrow> indexer \<Rightarrow> indexer" where
  "poll_cycle fuel rpc threshold hooks st =
     (case pollContractEvents fuel rpc threshold None None st of
        (Some (Inr events), st') \<Rightarrow> if events = [] then st' else snd (ingestEvents hooks events st')
      | (_, st') \<Rightarrow> st')"

subsection \<open>Replays and retries\<close>

lemma move_idem: "move_invoice x r to (move_invoice x r to d) = move_invoice x r to d \<or> r = Some to"
  by (cases x) (auto simp: move_invoice_def split: option.splits)

lemma find_upsert_investment: "List.find (\<lambda>m. im_id m = i) ms = Some m \<Longrightarrow> im_id m' = i \<Longrightarrow> List.find (\<lambda>m. im_id m = i) (upsert im_id m' ms) = Some m'"
  by (induction ms) (auto split: if_splits)

lemma upsert_upsert: "upsert im_id m (upsert im_id m ms) = upsert im_id m ms"
  by (induction ms) auto

lemma apply_idem: "applyEventStateTransition e (applyEventStateTransition e d) = applyEventStateTransition e d"
proof (cases "toLowerCase (ev_topic e) = ''investment_funded''")
  case True
  then have a: "applyEventStateTransition e d = (case findInvestmentForEvent e d of
                 None \<Rightarrow> d
               | Some m \<Rightarrow> save_investment (m\<lparr>im_status := InvCONFIRMED, im_transactionHash := Some (ev_txHash e),
                                            im_fundingBlock := Some (int_str (ev_ledger e))\<rparr>) d)" for d
    by (simp add: applyEventStateTransition_def)
  show ?thesis
  proof (cases "findInvestmentForEvent e d")
    case None
    then show ?thesis by (simp add: a)
  next
    case (Some m)
    then obtain i where i: "extractInvestmentId e = Some i" "truthy (Some i)" "List.find (\<lambda>m. im_id m = i) (investments d) = Some m"
      by (cases "extractInvestmentId e") (auto simp: findInvestmentForEvent_def truthy_def split: if_splits)
    let ?m = "m\<lparr>im_status := InvCONFIRMED, im_transactionHash := Some (ev_txHash e), im_fundingBlock := Some (int_str (ev_ledger e))\<rparr>"
    have "findInvestmentForEvent e (save_investment ?m d) = Some ?m"
      using i find_upsert_investment [OF i(3), of ?m] find_SomeD [OF i(3)] by (simp add: findInvestmentForEvent_def frame_simps)
    then show ?thesis using Some by (simp add: a save_investment_def upsert_upsert)
  qed
next
  case False
  have "applyEventStateTransition e = (\<lambda>d. d) \<or> (\<exists>r to. r \<noteq> Some to \<and> applyEventStateTransition e = move_invoice (extractInvoiceId e) r to)"
    using False by (auto simp: applyEventStateTransition_def Let_def fun_eq_iff)
  then show ?thesis using move_idem by metis
qed

definition event_done :: "indexer \<Rightarrow> chain_event \<Rightarrow> bool" where
  "event_done st e \<longleftrightarrow> log_done (find_log (\<lambda>l. lg_eventId l = eventId e) st) \<or>
     log_done (find_log (\<lambda>l. lg_contract l = ev_contract e \<and> lg_eventId l = ev_id e) st)"

text \<open>What ingesting \<open>es\<close> comes to: the events not yet processed, each once.\<close>

definition goal :: "indexer \<Rightarrow> chain_event list \<Rightarrow> db" where
  "goal st es = foldl (\<lambda>d e. applyEventStateTransition e d) (ix_db st) (filter (\<lambda>e. \<not> event_done st e) es)"

lemma find_mark:
  "(\<And>l. lg_eventId l = i \<Longrightarrow> P (l\<lparr>lg_processed := b\<rparr>) = P l) \<Longrightarrow>
   find_log P (mark i b st) = map_option (\<lambda>l. if lg_eventId l = i then l\<lparr>lg_processed := b\<rparr> else l) (find_log P st)"
proof -
  assume P: "\<And>l. lg_eventId l = i \<Longrightarrow> P (l\<lparr>lg_processed := b\<rparr>) = P l"
  have "List.find P (map (\<lambda>l. if lg_eventId l = i then l\<lparr>lg_processed := b\<rparr> else l) ls) =
      map_option (\<lambda>l. if lg_eventId l = i then l\<lparr>lg_processed := b\<rparr> else l) (List.find P ls)" for ls
    using P by (induction ls) auto
  then show ?thesis by (simp add: find_log_def mark_def)
qed

lemma eventId_nonempty: "eventId e \<noteq> []"
  by (simp add: eventId_def)

lemma find_append: "List.find P (xs @ ys) = (case List.find P xs of None \<Rightarrow> List.find P ys | Some x \<Rightarrow> Some x)"
  by (induction xs) auto

lemma mark_other:
  assumes "\<And>l. P l \<Longrightarrow> lg_eventId l \<noteq> i"
  shows "log_done (find_log P (mark i b st)) = log_done (find_log P st)"
proof -
  have "P (if lg_eventId l = i then l\<lparr>lg_processed := b\<rparr> else l) = P l" for l
    using assms [of l] assms [of "l\<lparr>lg_processed := b\<rparr>"] by auto
  then have "List.find P (map (\<lambda>l. if lg_eventId l = i then l\<lparr>lg_processed := b\<rparr> else l) ls) =
      map_option (\<lambda>l. if lg_eventId l = i then l\<lparr>lg_processed := b\<rparr> else l) (List.find P ls)" for ls
    by (induction ls) auto
  then show ?thesis using assms
    by (auto simp: find_log_def mark_def log_done_def split: option.splits dest!: find_SomeD)
qed

lemma append_other:
  assumes "\<not> P x"
  shows "log_done (find_log P (st\<lparr>ix_log := ix_log st @ [x]\<rparr>)) = log_done (find_log P st)"
  using assms by (simp add: find_log_def find_append split: option.split)

lemma find_log_db [simp]: "find_log P (st\<lparr>ix_db := d\<rparr>) = find_log P st"
  by (simp add: find_log_def)

lemma ingest_other:
  assumes "eventId e' \<noteq> eventId e"
  shows "event_done (snd (ingest_event hooks e st)) e' = event_done st e'"
proof -
  let ?i = "eventId e"
  define P where "P = (\<lambda>l :: log_entry. lg_eventId l = eventId e')"
  define Q where "Q = (\<lambda>l :: log_entry. lg_contract l = ev_contract e' \<and> lg_eventId l = ev_id e')"
  have ne: "P l \<Longrightarrow> lg_eventId l \<noteq> ?i" "Q l \<Longrightarrow> lg_eventId l \<noteq> ?i" for l :: log_entry
    using assms eventId_nonempty [of e] by (auto simp: P_def Q_def eventId_def split: if_splits)
  have "log_done (find_log R (snd (ingest_event hooks e st))) = log_done (find_log R st)" if R: "\<And>l. R l \<Longrightarrow> lg_eventId l \<noteq> ?i" for R :: "log_entry \<Rightarrow> bool"
  proof -
    let ?x = "\<lparr>lg_eventId = ?i, lg_contract = ev_contract e, lg_ledger = ev_ledger e, lg_processed = False\<rparr>"
    have "\<not> R ?x" using R [of ?x] by auto
    then show ?thesis using mark_other [of R ?i, OF R] append_other [of R ?x]
      by (auto simp: ingest_event_def Let_def split: option.split)
  qed
  then show ?thesis using ne unfolding event_done_def P_def [symmetric] Q_def [symmetric] by metis
qed

lemma ingest_self:
  "fst (ingest_event hooks e st) = Inr b \<Longrightarrow> event_done (snd (ingest_event hooks e st)) e"
proof -
  assume r: "fst (ingest_event hooks e st) = Inr b"
  let ?P = "\<lambda>l. lg_eventId l = eventId e" and ?st = "snd (ingest_event hooks e st)"
  show ?thesis
  proof (cases "event_done st e")
    case True
    then show ?thesis by (auto simp: ingest_event_def event_done_def Let_def)
  next
    case False
    define st1 where "st1 = (case find_log ?P st of Some _ \<Rightarrow> mark (eventId e) False st
        | None \<Rightarrow> st\<lparr>ix_log := ix_log st @ [\<lparr>lg_eventId = eventId e, lg_contract = ev_contract e,
                                              lg_ledger = ev_ledger e, lg_processed = False\<rparr>]\<rparr>)"
    have "?st = mark (eventId e) True (st1\<lparr>ix_db := applyEventStateTransition e (ix_db st1)\<rparr>)"
      using False r by (auto simp: ingest_event_def event_done_def Let_def st1_def split: option.splits)
    moreover have "find_log ?P st1 \<noteq> None"
      using find_mark [of "eventId e" ?P False st]
      by (auto simp: st1_def find_log_def find_append split: option.splits)
    moreover obtain l where l: "find_log ?P st1 = Some l" using calculation(2) by blast
    moreover have "lg_eventId l = eventId e" using find_SomeD [OF l [unfolded find_log_def]] by simp
    ultimately have "find_log ?P ?st = Some (l\<lparr>lg_processed := True\<rparr>)"
      using find_mark [of "eventId e" ?P True "st1\<lparr>ix_db := applyEventStateTransition e (ix_db st1)\<rparr>"] by simp
    then show ?thesis by (simp add: event_done_def log_done_def)
  qed
qed

lemma ingest_db:
  "ix_db (snd (ingest_event hooks e st)) = (if event_done st e then ix_db st else applyEventStateTransition e (ix_db st))"
  by (auto simp: ingest_event_def event_done_def Let_def mark_def split: option.split)

lemma ingest_fails: "fst (ingest_event hooks e st) = Inl err \<Longrightarrow> \<not> event_done st e"
  by (auto simp: ingest_event_def event_done_def Let_def split: if_splits)

lemma goal_step:
  assumes "\<forall>x \<in> set es. eventId x \<noteq> eventId e"
  shows "filter (\<lambda>x. \<not> event_done (snd (ingest_event hooks e st)) x) es = filter (\<lambda>x. \<not> event_done st x) es"
  using assms ingest_other by (auto intro!: filter_cong)

lemma loop_goal:
  assumes "distinct (map eventId es)" "ingest_loop hooks es h n st = (r, st')"
  shows "goal st' es = goal st es \<and> (\<forall>x. eventId x \<notin> eventId ` set es \<longrightarrow> event_done st' x = event_done st x) \<and>
    (\<forall>v. r = Inr v \<longrightarrow> (\<forall>x \<in> set es. event_done st' x))"
  using assms
proof (induction es arbitrary: h n st)
  case (Cons e es)
  let ?st = "snd (ingest_event hooks e st)"
  have ne: "\<forall>x \<in> set es. eventId x \<noteq> eventId e" using Cons.prems(1) by (auto simp: image_iff)
  note f = goal_step [OF ne, of hooks st]
  have oth: "eventId x \<noteq> eventId e \<Longrightarrow> event_done ?st x = event_done st x" for x by (rule ingest_other)
  show ?case
  proof (cases "fst (ingest_event hooks e st)")
    case (Inl err)
    then have st': "st' = ?st" "r = Inl err" using Cons.prems(2) by (cases "ingest_event hooks e st"; auto)+
    have nd: "\<not> event_done st e" by (rule ingest_fails [OF Inl])
    have "goal st' (e # es) = goal st (e # es)"
      unfolding goal_def st' using f ingest_db [of hooks e st] nd apply_idem by auto
    then show ?thesis using st' oth by auto
  next
    case (Inr b)
    then have l: "ingest_loop hooks es (if b then max h (ev_ledger e) else h) (n + 1) ?st = (r, st')"
      using Cons.prems(2) by (cases "ingest_event hooks e st"; auto)
    have IH: "goal st' es = goal ?st es" "\<And>x. eventId x \<notin> eventId ` set es \<Longrightarrow> event_done st' x = event_done ?st x"
      "\<forall>v. r = Inr v \<longrightarrow> (\<forall>x \<in> set es. event_done st' x)"
      using Cons.IH [OF _ l] Cons.prems(1) by auto
    have "eventId e \<notin> eventId ` set es" using ne by (metis imageE)
    then have de: "event_done st' e" using IH(2) [of e] ingest_self [OF Inr] by simp
    have "goal st' (e # es) = goal ?st es" using de IH(1) by (simp add: goal_def)
    also have "\<dots> = goal st (e # es)" unfolding goal_def using f ingest_db [of hooks e st] by simp
    finally show ?thesis using IH(2,3) oth de by auto
  qed
qed (simp add: goal_def)

lemma db_of_ingest:
  "ix_db (snd (ingestEvents hooks es st)) = ix_db (snd (ingest_loop hooks es (ix_lastIndexed st) 0 st)) \<and>
   ix_log (snd (ingestEvents hooks es st)) = ix_log (snd (ingest_loop hooks es (ix_lastIndexed st) 0 st))"
  by (auto simp: ingestEvents_def Let_def split: sum.split prod.split)

lemma done_log: "ix_log st = ix_log st' \<Longrightarrow> event_done st e = event_done st' e"
  by (simp add: event_done_def find_log_def)

lemma goal_log: "ix_log st = ix_log st' \<Longrightarrow> ix_db st = ix_db st' \<Longrightarrow> goal st es = goal st' es"
  using done_log [of st st'] by (simp add: goal_def)

text \<open>Attempts to ingest the same events, each with consumers of its own.\<close>

definition attempts :: "(chain_event \<Rightarrow> error option) list \<Rightarrow> chain_event list \<Rightarrow> indexer \<Rightarrow> indexer" where
  "attempts hs es st = foldl (\<lambda>st h. snd (ingestEvents h es st)) st hs"

lemma attempt_goal: "distinct (map eventId es) \<Longrightarrow> goal (snd (ingestEvents h es st)) es = goal st es"
  using loop_goal [of es h "ix_lastIndexed st" 0 st] goal_log [OF conjunct2 [OF db_of_ingest] conjunct1 [OF db_of_ingest]]
  by (metis prod.collapse)

lemma attempts_goal: "distinct (map eventId es) \<Longrightarrow> goal (attempts hs es st) es = goal st es"
  by (induction hs arbitrary: st) (simp_all add: attempts_def attempt_goal)

lemma success_done:
  assumes "distinct (map eventId es)" "ingestEvents h es st = (Inr n, st')"
  shows "\<forall>e \<in> set es. event_done st' e"
proof -
  obtain v s where l: "ingest_loop h es (ix_lastIndexed st) 0 st = (Inr v, s)"
    using assms(2) by (auto simp: ingestEvents_def split: prod.splits sum.splits)
  have "\<forall>e \<in> set es. event_done s e" using loop_goal [OF assms(1) l] by blast
  moreover have "ix_log st' = ix_log s" using db_of_ingest [of h es st] l assms(2) by simp
  ultimately show ?thesis using done_log by blast
qed

lemma goal_all_done: "\<forall>e \<in> set es. event_done st e \<Longrightarrow> goal st es = ix_db st"
  by (simp add: goal_def)

lemma replay_nothing:
  "\<forall>e \<in> set xs. event_done st e \<Longrightarrow> \<exists>v. ingest_loop hooks xs k m st = (Inr v, st)"
proof (induction xs arbitrary: k m)
  case (Cons e xs)
  have "\<exists>b. ingest_event hooks e st = (Inr b, st)"
    using Cons.prems by (auto simp: ingest_event_def event_done_def Let_def)
  then show ?case using Cons by auto
qed simp

text \<open>C9: whatever failures earlier attempts met, and wherever, once an attempt to ingest the events
  succeeds the database is what applying every event not yet processed exactly once gives, and
  ingesting them again changes nothing.\<close>

theorem events_take_effect_once:
  assumes "distinct (map eventId es)" "ingestEvents h es (attempts hs es st) = (Inr n, st')"
  shows "ix_db st' = foldl (\<lambda>d e. applyEventStateTransition e d) (ix_db st) (filter (\<lambda>e. \<not> event_done st e) es) \<and>
     ix_db (snd (ingestEvents h' es st')) = ix_db st'"
proof -
  have d: "\<forall>e \<in> set es. event_done st' e" by (rule success_done [OF assms])
  have "goal st' es = goal st es"
    using attempt_goal [OF assms(1), of h "attempts hs es st"] attempts_goal [OF assms(1)] assms(2) by simp
  then have 1: "ix_db st' = goal st es" using goal_all_done [OF d] by simp
  obtain r s where l: "ingest_loop h' es (ix_lastIndexed st') 0 st' = (r, s)" by fastforce
  have "s = st'" using replay_nothing [OF d, of h' "ix_lastIndexed st'" 0] l by auto
  then have "ix_db (snd (ingestEvents h' es st')) = ix_db st'"
    using db_of_ingest [of h' es st'] l by simp
  then show ?thesis using 1 by (simp add: goal_def)
qed

definition fund_event :: chain_event where
  "fund_event = \<lparr>ev_id = ''e1'', ev_contract = ''c'', ev_ledger = 7, ev_txHash = ''t'', ev_topic = ''FUND'',
     ev_topics = [NStr ''FUND'', NStr ''i1''], ev_data = NNull, ev_occurredAt = Some 50\<rparr>"

definition fresh_indexer :: "db \<Rightarrow> indexer" where
  "fresh_indexer d = \<lparr>ix_db = d, ix_log = [], ix_checkpoint = None, ix_lastIndexed = 0, ix_latestObserved = 9, ix_latestSeen = 9,
     ix_lagAlert = False\<rparr>"

definition published_db :: db where
  "published_db = fresh_db [sample_invoice\<lparr>iv_status := PUBLISHED\<rparr>]"

lemma fund_topic: "toLowerCase (ev_topic fund_event) = ''fund''" "eventId fund_event = ''e1''" "extractInvoiceId fund_event = Some ''i1''"
  by (code_simp, simp_all add: fund_event_def eventId_def extractInvoiceId_def)

theorem events_take_effect_once_witness:
  "\<exists>n st'. ingestEvents (\<lambda>_. None) [fund_event] (attempts [\<lambda>_. Some (JsError ''Down'')] [fund_event] (fresh_indexer published_db)) = (Inr n, st') \<and>
     status_at (ix_db st') ''i1'' = Some FUNDED"
proof -
  have a: "\<exists>n st'. ingestEvents (\<lambda>_. None) [fund_event] s = (Inr n, st')" for s
    by (auto simp: ingestEvents_def ingest_event_def Let_def split: prod.split sum.split)
  obtain n st' where i: "ingestEvents (\<lambda>_. None) [fund_event] (attempts [\<lambda>_. Some (JsError ''Down'')] [fund_event] (fresh_indexer published_db)) = (Inr n, st')"
    using a by blast
  have nd: "\<not> event_done (fresh_indexer published_db) fund_event"
    by (simp add: event_done_def find_log_def fresh_indexer_def log_done_def)
  have "ix_db st' = applyEventStateTransition fund_event published_db"
    using events_take_effect_once [OF _ i] nd by (simp add: fresh_indexer_def)
  moreover have "status_at (applyEventStateTransition fund_event published_db) ''i1'' = Some FUNDED"
    by (simp add: applyEventStateTransition_def fund_topic move_invoice_def truthy_def published_db_def fresh_db_def
        sample_invoice_def status_at_def)
  ultimately show ?thesis using i by auto
qed

subsection \<open>Status changes outside the state machine\<close>

text \<open>A settle event settles its invoice whatever status it has, closed ones included, and writes
  no history, so the history of the invoice no longer explains its status.\<close>

theorem settle_event_bypasses_state_machine:
  assumes "toLowerCase (ev_topic e) = ''settle''" "extractInvoiceId e = Some i" "i \<noteq> []" "trail_ok d"
    "invoices d i = Some v" "iv_status v \<noteq> SETTLED"
  shows "status_at (applyEventStateTransition e d) i = Some SETTLED \<and>
     history (applyEventStateTransition e d) = history d \<and> \<not> trail_ok (applyEventStateTransition e d)"
proof -
  let ?d = "d\<lparr>invoices := (invoices d)(i \<mapsto> v\<lparr>iv_status := SETTLED, iv_version := iv_version v + 1\<rparr>)\<rparr>"
  have a: "applyEventStateTransition e d = ?d"
    using assms by (simp add: applyEventStateTransition_def move_invoice_def truthy_def)
  have "follow DRAFT (entries_of i d) = Some (iv_status v)" using assms(4,5) by (simp add: trail_ok_def)
  then have "\<not> trail_ok ?d" using assms(6)
    by (auto simp: trail_ok_def entries_of_def intro!: exI [of _ i])
  then show ?thesis unfolding a by (simp add: status_at_def)
qed

definition settle_event :: chain_event where
  "settle_event = fund_event\<lparr>ev_topic := ''settle''\<rparr>"

lemma settle_topic: "toLowerCase (ev_topic settle_event) = ''settle''" "extractInvoiceId settle_event = Some ''i1''"
  by (code_simp, simp add: settle_event_def fund_event_def extractInvoiceId_def)

definition rejected_db :: db where
  "rejected_db = request_step (fresh_db [sample_invoice]) reject_request"

theorem settle_event_bypasses_state_machine_witness:
  "status_at (applyEventStateTransition settle_event rejected_db) ''i1'' = Some SETTLED \<and>
   status_at rejected_db ''i1'' = Some REJECTED"
proof -
  have "iv_status sample_invoice = DRAFT" by (simp add: sample_invoice_def)
  then have ok: "trail_ok rejected_db" unfolding rejected_db_def by (intro trail_step fresh_trail_ok) simp
  have v: "invoices rejected_db ''i1'' = Some (t_invoice (fst rejected_sample))"
    "iv_status (t_invoice (fst rejected_sample)) = REJECTED"
    using reject_request_step by (simp_all add: rejected_db_def)
  have "iv_status (t_invoice (fst rejected_sample)) \<noteq> SETTLED" using v(2) by simp
  from settle_event_bypasses_state_machine [OF settle_topic _ ok v(1) this] v show ?thesis by (simp add: status_at_def)
qed

subsection \<open>Polling ends\<close>

text \<open>Against a server whose cursors come from a finite set, a poll ends after at most one page
  more than there are cursors.\<close>

theorem poll_ends:
  assumes "finite C" "\<forall>a b r c. rpc a b = Inr r \<longrightarrow> rp_cursor r = Some c \<longrightarrow> c \<in> C"
  shows "\<exists>res latest. poll_pages (card C + 1) rpc startLedger cursor [] 0 [] = Some (res, latest)"
proof -
  have "\<exists>res latest. poll_pages fuel rpc startLedger cursor seen l decoded = Some (res, latest)"
    if "set seen \<subseteq> C" "distinct seen" "card C - length seen < fuel" for fuel cursor seen l decoded
    using that
  proof (induction fuel arbitrary: cursor seen l decoded)
    case (Suc fuel)
    show ?case
    proof (cases "rpc (if truthy cursor then None else startLedger) (if truthy cursor then cursor else None)")
      case (Inr reply)
      show ?thesis
      proof (cases "rp_cursor reply")
        case (Some c)
        show ?thesis
        proof (cases "c \<in> set seen")
          case False
          have C: "c \<in> C" using assms(2) Inr Some by blast
          then have sub: "set (c # seen) \<subseteq> C" "distinct (c # seen)" using Suc.prems(1,2) False by auto
          have "length (c # seen) \<le> card C" using card_mono [OF assms(1) sub(1)] distinct_card [OF sub(2)] by simp
          then have "card C - length (c # seen) < fuel" using Suc.prems(3) by simp
          from Suc.IH [OF sub this] show ?thesis using Inr Some False by (simp add: Let_def)
        qed (use Inr Some in \<open>simp add: Let_def\<close>)
      qed (use Inr in \<open>simp add: Let_def\<close>)
    qed simp
  qed simp
  from this [of "[]" "card C + 1" cursor 0 "[]"] show ?thesis by (simp del: poll_pages.simps)
qed

definition two_pages :: rpc where
  "two_pages a c = Inr (if c = None then \<lparr>rp_events = [fund_event], rp_cursor = Some ''p2'', rp_latest = 9\<rparr>
     else \<lparr>rp_events = [], rp_cursor = None, rp_latest = 9\<rparr>)"

theorem poll_ends_witness:
  "\<exists>res latest. poll_pages (card {''p2''} + 1) two_pages (Some 3) None [] 0 [] = Some (res, latest)"
  by (rule poll_ends) (auto simp: two_pages_def split: if_splits)

subsection \<open>The checkpoint never moves back\<close>

definition checkpoint_level :: "indexer \<Rightarrow> int" where
  "checkpoint_level st = (case ix_checkpoint st of None \<Rightarrow> 0 | Some c \<Rightarrow> c)"

text \<open>What the process remembers is not behind the durable checkpoint, unless it has not read it.\<close>

definition remembers :: "indexer \<Rightarrow> bool" where
  "remembers st \<longleftrightarrow> ix_lastIndexed st \<le> 0 \<or> checkpoint_level st \<le> ix_lastIndexed st"

datatype indexer_event = Cycle nat rpc int "chain_event \<Rightarrow> error option" | Restart | SaveCheckpoint int

fun indexer_step :: "indexer \<Rightarrow> indexer_event \<Rightarrow> indexer" where
  "indexer_step st (Cycle fuel rpc threshold hooks) = poll_cycle fuel rpc threshold hooks st"
| "indexer_step st Restart = st\<lparr>ix_lastIndexed := 0, ix_latestObserved := 0, ix_latestSeen := 0, ix_lagAlert := False\<rparr>"
| "indexer_step st (SaveCheckpoint l) = snd (saveCheckpoint l st)"

lemma ingest_event_frame:
  "ix_checkpoint (snd (ingest_event hooks e st)) = ix_checkpoint st \<and> ix_lastIndexed (snd (ingest_event hooks e st)) = ix_lastIndexed st \<and>
   ix_latestObserved (snd (ingest_event hooks e st)) = ix_latestObserved st"
  by (auto simp: ingest_event_def Let_def mark_def split: option.split)

lemma ingest_loop_frame:
  "ingest_loop hooks es h n st = (r, st') \<Longrightarrow> ix_checkpoint st' = ix_checkpoint st \<and> ix_lastIndexed st' = ix_lastIndexed st \<and>
   ix_latestObserved st' = ix_latestObserved st \<and> (\<forall>h' k. r = Inr (h', k) \<longrightarrow> h \<le> h')"
proof (induction es arbitrary: h n st)
  case (Cons e es)
  then show ?case using ingest_event_frame [of hooks e st]
    by (cases "ingest_event hooks e st") (fastforce split: sum.splits if_splits)
qed auto

text \<open>After \<open>getLastIndexedLedger\<close> the durable checkpoint, if there is one, has been read.\<close>

definition caught_up :: "indexer \<Rightarrow> bool" where
  "caught_up st \<longleftrightarrow> ix_checkpoint st = None \<or> checkpoint_level st \<le> ix_lastIndexed st"

lemma ingest_level:
  assumes "caught_up st"
  shows "checkpoint_level st \<le> checkpoint_level (snd (ingestEvents hooks es st)) \<and> remembers (snd (ingestEvents hooks es st))"
proof -
  obtain r st' where l: "ingest_loop hooks es (ix_lastIndexed st) 0 st = (r, st')" by fastforce
  show ?thesis using ingest_loop_frame [OF l] l assms
    by (auto simp: ingestEvents_def Let_def checkpoint_level_def remembers_def caught_up_def split: sum.split option.splits)
qed

lemma no_checkpoint: "ix_checkpoint st = None \<Longrightarrow> remembers st \<and> caught_up st"
  by (auto simp: remembers_def caught_up_def checkpoint_level_def)

lemma getLast_level:
  assumes "remembers st"
  shows "checkpoint_level (snd (getLastIndexedLedger st)) = checkpoint_level st \<and> remembers (snd (getLastIndexedLedger st)) \<and>
    caught_up (snd (getLastIndexedLedger st))"
proof (cases "ix_checkpoint st")
  case None
  then have "ix_checkpoint (snd (getLastIndexedLedger st)) = None" by (simp add: getLastIndexedLedger_def Let_def)
  then show ?thesis using None no_checkpoint by (simp add: checkpoint_level_def)
next
  case (Some c)
  then show ?thesis using assms by (auto simp: getLastIndexedLedger_def checkpoint_level_def remembers_def caught_up_def)
qed

lemma observed_level [simp]:
  "checkpoint_level (st\<lparr>ix_latestObserved := a, ix_latestSeen := b\<rparr>) = checkpoint_level st"
  "remembers (st\<lparr>ix_latestObserved := a, ix_latestSeen := b\<rparr>) = remembers st"
  "caught_up (st\<lparr>ix_latestObserved := a, ix_latestSeen := b\<rparr>) = caught_up st"
  "checkpoint_level (st\<lparr>ix_lagAlert := x\<rparr>) = checkpoint_level st"
  "remembers (st\<lparr>ix_lagAlert := x\<rparr>) = remembers st" "caught_up (st\<lparr>ix_lagAlert := x\<rparr>) = caught_up st"
  by (simp_all add: checkpoint_level_def remembers_def caught_up_def)

lemma lag_level:
  "remembers st \<Longrightarrow> checkpoint_level (lag_alert t st) = checkpoint_level st \<and> remembers (lag_alert t st) \<and> caught_up (lag_alert t st)"
  using getLast_level [of st] by (auto simp: lag_alert_def Let_def split: prod.split)

lemma poll_level:
  assumes "remembers st"
  shows "checkpoint_level (snd (pollContractEvents fuel rpc t None None st)) = checkpoint_level st \<and>
    remembers (snd (pollContractEvents fuel rpc t None None st)) \<and> caught_up (snd (pollContractEvents fuel rpc t None None st))"
proof -
  obtain l st1 where g: "getLastIndexedLedger st = (l, st1)" by fastforce
  note gl = getLast_level [OF assms, unfolded g snd_conv]
  let ?p = "poll_pages fuel rpc (if l + 1 > 1 \<and> \<not> truthy None then Some (l + 1) else None) None [] 0 []"
  show ?thesis
  proof (cases ?p)
    case None
    then show ?thesis using gl g by (simp add: pollContractEvents_def)
  next
    case (Some x)
    obtain res latest where x: "x = (res, latest)" by fastforce
    let ?st = "st1\<lparr>ix_latestObserved := max (ix_latestObserved st1) latest, ix_latestSeen := max (ix_latestSeen st1) latest\<rparr>"
    have "snd (pollContractEvents fuel rpc t None None st) = (case res of Inl _ \<Rightarrow> ?st | Inr _ \<Rightarrow> lag_alert t ?st)"
      using Some g x by (simp add: pollContractEvents_def split: sum.split)
    then show ?thesis using gl lag_level [of ?st t] by (cases res) simp_all
  qed
qed

lemma step_level:
  assumes "remembers st"
  shows "checkpoint_level st \<le> checkpoint_level (indexer_step st e) \<and> remembers (indexer_step st e)"
proof (cases e)
  case (Cycle fuel rpc t hooks)
  obtain res st' where p: "pollContractEvents fuel rpc t None None st = (res, st')" by fastforce
  note pl = poll_level [OF assms, of fuel rpc t, unfolded p snd_conv]
  show ?thesis
  proof (cases "\<exists>events. res = Some (Inr events) \<and> events \<noteq> []")
    case True
    then obtain events where r: "res = Some (Inr events)" "events \<noteq> []" by blast
    then show ?thesis using pl ingest_level [of st' hooks events] p Cycle by (simp add: poll_cycle_def)
  next
    case False
    then show ?thesis using pl p Cycle by (auto simp: poll_cycle_def split: option.split sum.split)
  qed
next
  case Restart
  then show ?thesis by (simp add: checkpoint_level_def remembers_def)
next
  case (SaveCheckpoint l)
  then show ?thesis using assms
    by (auto simp: saveCheckpoint_def Let_def checkpoint_level_def remembers_def split: option.splits)
qed

interpretation checkpoints: step_invariant indexer_step "\<lambda>st. remembers st \<and> c \<le> checkpoint_level st" for c
  by unfold_locales (use step_level order_trans in blast)

text \<open>C35: over any sequence of poll cycles (failing ones included), restarts and saved checkpoints the
  durable checkpoint never moves back.\<close>

theorem checkpoint_never_moves_back:
  assumes "remembers st"
  shows "checkpoint_level st \<le> checkpoint_level (foldl indexer_step st es)"
  using checkpoints.run_inv [of st "checkpoint_level st" es] assms by simp

theorem checkpoint_never_moves_back_witness:
  "checkpoint_level (fresh_indexer published_db) \<le>
     checkpoint_level (foldl indexer_step (fresh_indexer published_db) [SaveCheckpoint 5, Restart, Cycle 3 two_pages 100 (\<lambda>_. None)])"
  by (rule checkpoint_never_moves_back) (simp add: remembers_def fresh_indexer_def)

end
