(* ===== verification/Contract_Events.thy ===== *)
theory Contract_Events
  imports Event_Indexer
begin

section \<open>Contract event bus and field readers\<close>

text \<open>
  \<open>src/services/contract-event-bus.service.ts\<close>: topics are normalised, each handler sees the
  events of its topics, a handler that raises is skipped. The readers look for a field of an
  event in its data and its topics.
\<close>

text \<open>\<open>replace(/[-\\s]+/g, "_")\<close>\<close>

fun join_separators :: "bool \<Rightarrow> string \<Rightarrow> string" where
  "join_separators inside [] = []"
| "join_separators inside (c # cs) =
     (if c = CHR ''-'' \<or> is_ws c
      then (if inside then join_separators True cs else CHR ''_'' # join_separators True cs)
      else c # join_separators False cs)"

definition normalizeTopic :: "string \<Rightarrow> string" where
  "normalizeTopic topic = toLowerCase (join_separators False (js_trim topic))"

subsection \<open>The bus\<close>

record 's handler =
  hd_topics :: "string list"
  hd_handle :: "chain_event \<Rightarrow> 's \<Rightarrow> error + 's"

definition register :: "'s handler \<Rightarrow> (string \<times> 's handler) list \<Rightarrow> (string \<times> 's handler) list" where
  "register h bus = bus @ map (\<lambda>t. (normalizeTopic t, h)) (hd_topics h)"

definition handlersFor :: "(string \<times> 's handler) list \<Rightarrow> string \<Rightarrow> 's handler list" where
  "handlersFor bus topic = map snd (filter (\<lambda>p. fst p = normalizeTopic topic) bus)"

text \<open>A handler that raises leaves what it had not yet written; its state is the one before.\<close>

definition dispatch_one :: "chain_event \<Rightarrow> nat \<times> 's \<Rightarrow> 's handler \<Rightarrow> nat \<times> 's" where
  "dispatch_one e x h = (case hd_handle h e (snd x) of Inl err \<Rightarrow> x | Inr s \<Rightarrow> (fst x + 1, s))"

definition bus_dispatch :: "(string \<times> 's handler) list \<Rightarrow> chain_event \<Rightarrow> 's \<Rightarrow> nat \<times> 's" where
  "bus_dispatch bus e s = foldl (dispatch_one e) (0, s) (handlersFor bus (ev_topic e))"

lemma dispatch_count: "fst (bus_dispatch bus e s) \<le> length (handlersFor bus (ev_topic e))"
proof -
  have "fst (foldl (dispatch_one e) x hs) \<le> fst x + length hs" for x and hs :: "'a handler list"
  proof (induction hs arbitrary: x)
    case (Cons h hs)
    have "fst (dispatch_one e x h) \<le> fst x + 1" by (auto simp: dispatch_one_def split: sum.split)
    then show ?case using Cons [of "dispatch_one e x h"] by simp
  qed simp
  from this [of "(0, s)"] show ?thesis by (simp add: bus_dispatch_def)
qed

subsection \<open>Reading fields\<close>

definition text_of :: "native \<Rightarrow> string option" where
  "text_of x = (case x of NStr s \<Rightarrow> if js_trim s \<noteq> [] then Some (js_trim s) else None | _ \<Rightarrow> None)"

text \<open>The first key that has a usable value.\<close>

fun first_some :: "('k \<Rightarrow> 'v option) \<Rightarrow> 'k list \<Rightarrow> 'v option" where
  "first_some f [] = None"
| "first_some f (k # ks) = (case f k of None \<Rightarrow> first_some f ks | Some v \<Rightarrow> Some v)"

definition is_digit :: "char \<Rightarrow> bool" where
  "is_digit c \<longleftrightarrow> 48 \<le> (of_char c :: nat) \<and> (of_char c :: nat) \<le> 57"

text \<open>\<open>Number(key.replace(/\\D/g, ""))\<close>, which is 0 for a key without digits.\<close>

definition key_index :: "string \<Rightarrow> nat" where
  "key_index key = foldl (\<lambda>n c. n * 10 + ((of_char c :: nat) - 48)) 0 (filter is_digit key)"

definition readEventString :: "chain_event \<Rightarrow> string list \<Rightarrow> nat option \<Rightarrow> string option" where
  "readEventString e keys topicIndex =
     (let from_data = (case ev_data e of
            NObj o' \<Rightarrow> first_some (\<lambda>key. case map_of o' key of
                          None \<Rightarrow> None
                        | Some (NInt n) \<Rightarrow> Some (int_str n)
                        | Some v \<Rightarrow> text_of v) keys
          | NArr xs \<Rightarrow> first_some (\<lambda>key. if key_index key < length xs then text_of (xs ! key_index key) else None) keys
          | _ \<Rightarrow> None)
      in case from_data of
           Some s \<Rightarrow> Some s
         | None \<Rightarrow> (case topicIndex of
                      None \<Rightarrow> None
                    | Some i \<Rightarrow> if i < length (ev_topics e) then text_of (ev_topics e ! i) else None))"

definition readEventStringList :: "chain_event \<Rightarrow> string list \<Rightarrow> string list" where
  "readEventStringList e keys =
     (case ev_data e of
        NArr xs \<Rightarrow> List.map_filter (\<lambda>x. case x of NStr s \<Rightarrow> Some s | _ \<Rightarrow> None) xs
      | NObj o' \<Rightarrow> (case first_some (\<lambda>key. case map_of o' key of Some (NArr xs) \<Rightarrow> Some xs | _ \<Rightarrow> None) keys of
                     None \<Rightarrow> []
                   | Some xs \<Rightarrow> filter (\<lambda>s. s \<noteq> []) (List.map_filter (\<lambda>x. case x of NStr s \<Rightarrow> Some (js_trim s) | _ \<Rightarrow> None) xs))
      | _ \<Rightarrow> [])"

lemma key_index_wordlike: "filter is_digit key = [] \<Longrightarrow> key_index key = 0"
  by (simp add: key_index_def)

text \<open>On an event whose data is a list, a key without digits reads the first element, so every
  field looked up by name first gets that one value, whatever its own position is.\<close>

theorem named_keys_read_first_element:
  assumes "ev_data e = NArr (NStr s # xs)" "js_trim s \<noteq> []" "filter is_digit k = []"
  shows "readEventString e (k # ks) i = Some (js_trim s)"
  using assms by (simp add: readEventString_def key_index_wordlike text_of_def)

definition list_claim_event :: chain_event where
  "list_claim_event = \<lparr>ev_id = ''e9'', ev_contract = ''c'', ev_ledger = 9, ev_txHash = ''t9'', ev_topic = ''dividend_claimed'',
     ev_topics = [NStr ''dividend_claimed''], ev_data = NArr [NStr ''GHOLDER'', NStr ''100''], ev_occurredAt = Some 50\<rparr>"

lemma holder_trim: "js_trim ''GHOLDER'' = ''GHOLDER''"
  by (rule js_trim_id) (simp add: is_ws_def)

theorem named_keys_read_first_element_witness:
  "readEventString list_claim_event [''amount'', ''claimed'', ''claim_amount'', ''1''] None = Some ''GHOLDER''"
proof -
  have d: "filter is_digit ''amount'' = []" by code_simp
  show ?thesis
    using named_keys_read_first_element [of list_claim_event "''GHOLDER''" "[NStr ''100'']" "''amount''"] d
    by (simp add: list_claim_event_def holder_trim)
qed

end
