(* ===== verification/Dividends.thy ===== *)
theory Dividends
  imports Contract_Events Keyset "HOL-Library.List_Lexorder"
begin

section \<open>Dividend distribution\<close>

text \<open>
  \<open>src/services/dividend-distribution.service.ts\<close> over the repository of
  \<open>onchain-projection-repositories.ts\<close>: projecting dividend events into allocations and claims, the
  claimable view by cycle, the summary and the pages of the claim history. The cache in front of
  the reads is \<open>Ttl_Cache.thy\<close>. What decimal.js makes of a text is the argument \<open>parse\<close> (texts of
  NaN and the infinities are not considered), the row ids come from \<open>gen\<close>.
\<close>

record allocation =
  al_row :: string
  al_allocationId :: string
  al_distribution :: "string option"
  al_issuer :: string
  al_recipient :: string
  al_amount :: amt
  al_frequency :: "string option"
  al_tx :: "string option"
  al_distributedAt :: "int option"

record claim =
  cl_row :: string
  cl_claimId :: string
  cl_distribution :: "string option"
  cl_issuer :: "string option"
  cl_recipient :: string
  cl_amount :: amt
  cl_frequency :: "string option"
  cl_tx :: "string option"
  cl_claimedAt :: "int option"

record distribution =
  ds_issuer :: string
  ds_total :: amt
  ds_count :: nat
  ds_frequency :: "string option"
  ds_tx :: string
  ds_at :: int

record dividends =
  dv_distributions :: "distribution list"
  dv_allocations :: "allocation list"
  dv_claims :: "claim list"

subsection \<open>The repository\<close>

definition recordDistribution :: "distribution \<Rightarrow> dividends \<Rightarrow> dividends" where
  "recordDistribution x s =
     (if \<exists>y \<in> set (dv_distributions s). ds_tx y = ds_tx x \<and> ds_issuer y = ds_issuer x \<and> ds_at y = ds_at x then s
      else s\<lparr>dv_distributions := dv_distributions s @ [x]\<rparr>)"

fun recordAllocations :: "allocation list \<Rightarrow> dividends \<Rightarrow> dividends" where
  "recordAllocations [] s = s"
| "recordAllocations (x # xs) s =
     recordAllocations xs
       (if \<exists>y \<in> set (dv_allocations s). al_allocationId y = al_allocationId x then s
        else s\<lparr>dv_allocations := dv_allocations s @ [x]\<rparr>)"

definition recordClaim :: "claim \<Rightarrow> dividends \<Rightarrow> dividends" where
  "recordClaim x s =
     (if \<exists>y \<in> set (dv_claims s). cl_claimId y = cl_claimId x then s else s\<lparr>dv_claims := dv_claims s @ [x]\<rparr>)"

subsection \<open>Reading events\<close>

type_synonym parse = "string \<Rightarrow> decimal option"

definition tryDecimal :: "parse \<Rightarrow> native option \<Rightarrow> decimal option" where
  "tryDecimal parse v =
     (case v of
        Some (NInt n) \<Rightarrow> Some (of_int n)
      | Some (NStr s) \<Rightarrow> if js_trim s \<noteq> [] then parse (js_trim s) else None
      | _ \<Rightarrow> None)"

definition normalizeAmount :: "decimal_lib \<Rightarrow> parse \<Rightarrow> string \<Rightarrow> amt" where
  "normalizeAmount D parse v = toFixed4 D (case tryDecimal parse (Some (NStr v)) of None \<Rightarrow> 0 | Some x \<Rightarrow> x)"

definition toStringArray :: "native option \<Rightarrow> string list option" where
  "toStringArray v =
     (case v of
        Some (NArr xs) \<Rightarrow> Some (map (\<lambda>x. case x of NStr s \<Rightarrow> s | NInt n \<Rightarrow> int_str n | _ \<Rightarrow> []) xs)
      | _ \<Rightarrow> None)"

definition firstString :: "(string \<times> native) list \<Rightarrow> string list \<Rightarrow> string option" where
  "firstString o' keys = first_some (\<lambda>k. case map_of o' k of Some v \<Rightarrow> text_of v | None \<Rightarrow> None) keys"

definition first_field :: "(string \<times> native) list \<Rightarrow> string list \<Rightarrow> native option" where
  "first_field o' keys = first_some (\<lambda>k. non_null (map_of o' k)) keys"

text \<open>One entry of a list of recipients; \<open>given\<close> is the text at its index of the parallel amounts.\<close>

definition recipient_record :: "decimal_lib \<Rightarrow> parse \<Rightarrow> string option \<Rightarrow> native \<Rightarrow> (string \<times> amt) option" where
  "recipient_record D parse given entry =
     (case entry of
        NStr s \<Rightarrow> (case given of None \<Rightarrow> None | Some a \<Rightarrow> if a = [] then None else Some (s, normalizeAmount D parse a))
      | NObj holder \<Rightarrow>
          (case (firstString holder [''wallet'', ''address'', ''recipient'', ''holder'', ''account''],
                 tryDecimal parse (first_field holder [''amount'', ''value'', ''share'', ''allocated'', ''payout''])) of
             (Some w, Some a) \<Rightarrow> Some (w, toFixed4 D a)
           | _ \<Rightarrow> None)
      | _ \<Rightarrow> None)"

definition extractRecipientRecords :: "decimal_lib \<Rightarrow> parse \<Rightarrow> native \<Rightarrow> (string \<times> amt) list" where
  "extractRecipientRecords D parse data =
     (case data of
        NObj o' \<Rightarrow>
          let entries = first_some (\<lambda>k. case map_of o' k of Some (NArr xs) \<Rightarrow> Some xs | _ \<Rightarrow> None)
                 [''recipients'', ''allocations'', ''holders'', ''beneficiaries'', ''payouts''];
              wallets = toStringArray (or_else (non_null (map_of o' ''wallets'')) (map_of o' ''holders''));
              amounts = toStringArray (map_of o' ''amounts'')
          in (case entries of
                None \<Rightarrow>
                  (case (wallets, amounts) of
                     (Some ws, Some as) \<Rightarrow>
                       map (\<lambda>(w, a). (w, normalizeAmount D parse a))
                         (filter (\<lambda>(w, a). w \<noteq> [] \<and> a \<noteq> []) (zip ws as))
                   | _ \<Rightarrow> [])
              | Some es \<Rightarrow>
                  List.map_filter (\<lambda>i. recipient_record D parse
                      (case amounts of None \<Rightarrow> None | Some as \<Rightarrow> if i < length as then Some (as ! i) else None) (es ! i))
                    [0..<length es])
      | _ \<Rightarrow> [])"

definition eventTimestamp :: "chain_event \<Rightarrow> int \<Rightarrow> int" where
  "eventTimestamp e now = (case ev_occurredAt e of Some t \<Rightarrow> t | None \<Rightarrow> now)"

definition readAllocations :: "decimal_lib \<Rightarrow> parse \<Rightarrow> (string \<Rightarrow> string) \<Rightarrow> chain_event \<Rightarrow> string \<Rightarrow> string option \<Rightarrow> int \<Rightarrow> allocation list" where
  "readAllocations D parse gen e issuer frequency now =
     (let eventKey = (case readEventString e [''allocation_id'', ''allocationId''] None of Some k \<Rightarrow> k | None \<Rightarrow> ev_txHash e);
          records = extractRecipientRecords D parse (ev_data e)
      in map (\<lambda>(i, w, a).
            \<lparr>al_row = gen (eventKey @ '':'' @ int_str (int i)), al_allocationId = eventKey @ '':'' @ int_str (int i),
             al_distribution = readEventString e [''distribution_id'', ''distributionId''] None, al_issuer = issuer,
             al_recipient = w, al_amount = a, al_frequency = frequency, al_tx = Some (ev_txHash e),
             al_distributedAt = Some (eventTimestamp e now)\<rparr>) (zip [0..<length records] records))"

definition handleDistributed :: "decimal_lib \<Rightarrow> parse \<Rightarrow> (string \<Rightarrow> string) \<Rightarrow> int \<Rightarrow> chain_event \<Rightarrow> dividends \<Rightarrow> dividends" where
  "handleDistributed D parse gen now e s =
     (case readEventString e [''issuer_wallet'', ''issuerWallet'', ''issuer'', ''0''] (Some 1) of
        None \<Rightarrow> s
      | Some issuer \<Rightarrow>
          let frequency = readEventString e [''cycle_frequency'', ''cycleFrequency'', ''frequency''] None;
              allocs = readAllocations D parse gen e issuer frequency now
          in recordAllocations allocs
               (recordDistribution
                  \<lparr>ds_issuer = issuer, ds_total = toFixed4 D (dsum D (map (\<lambda>x. dec (al_amount x)) allocs)),
                   ds_count = length allocs, ds_frequency = frequency, ds_tx = ev_txHash e, ds_at = eventTimestamp e now\<rparr> s))"

definition handleClaimed :: "decimal_lib \<Rightarrow> parse \<Rightarrow> (string \<Rightarrow> string) \<Rightarrow> int \<Rightarrow> chain_event \<Rightarrow> dividends \<Rightarrow> dividends" where
  "handleClaimed D parse gen now e s =
     (case readEventString e [''recipient_wallet'', ''recipientWallet'', ''recipient'', ''claimer'', ''holder'', ''0''] (Some 1) of
        None \<Rightarrow> s
      | Some recipient \<Rightarrow>
          (case tryDecimal parse (map_option NStr (readEventString e [''amount'', ''claimed'', ''claim_amount'', ''1''] None)) of
             None \<Rightarrow> s
           | Some amount \<Rightarrow>
               let claimId = (case readEventString e [''claim_id'', ''claimId'', ''claim'', ''2''] None of
                                Some c \<Rightarrow> c
                              | None \<Rightarrow> ''claim:'' @ (if ev_txHash e \<noteq> [] then ev_txHash e else ev_id e))
               in recordClaim
                    \<lparr>cl_row = gen claimId, cl_claimId = claimId,
                     cl_distribution = readEventString e [''distribution_id'', ''distributionId'', ''cycle_id'', ''cycleId''] None,
                     cl_issuer = readEventString e [''issuer_wallet'', ''issuerWallet'', ''issuer''] None,
                     cl_recipient = recipient, cl_amount = toFixed4 D amount,
                     cl_frequency = readEventString e [''cycle_frequency'', ''cycleFrequency'', ''frequency''] None,
                     cl_tx = Some (ev_txHash e), cl_claimedAt = Some (eventTimestamp e now)\<rparr> s))"

definition dividend_handle :: "decimal_lib \<Rightarrow> parse \<Rightarrow> (string \<Rightarrow> string) \<Rightarrow> int \<Rightarrow> chain_event \<Rightarrow> dividends \<Rightarrow> dividends" where
  "dividend_handle D parse gen now e s =
     (let topic = normalizeTopic (ev_topic e)
      in if topic = ''dividend_distributed'' then handleDistributed D parse gen now e s
         else if topic = ''dividend_claimed'' then handleClaimed D parse gen now e s
         else s)"

subsection \<open>What a holder can claim\<close>

record cycle =
  cy_id :: string
  cy_frequency :: "string option"
  cy_distributedAt :: "int option"
  cy_claimedAt :: "int option"
  cy_tx :: "string option"
  cy_earned :: decimal
  cy_claimed :: decimal

definition new_cycle :: "string \<Rightarrow> cycle" where
  "new_cycle i = \<lparr>cy_id = i, cy_frequency = None, cy_distributedAt = None, cy_claimedAt = None, cy_tx = None,
     cy_earned = 0, cy_claimed = 0\<rparr>"

text \<open>\<open>touch\<close> and the update of the cycle it returns; the list is the map in insertion order.\<close>

definition touch :: "string \<Rightarrow> (cycle \<Rightarrow> cycle) \<Rightarrow> cycle list \<Rightarrow> cycle list" where
  "touch i f cs =
     (if \<exists>c \<in> set cs. cy_id c = i then map (\<lambda>c. if cy_id c = i then f c else c) cs else cs @ [f (new_cycle i)])"

definition allocation_cycle :: "allocation \<Rightarrow> string" where
  "allocation_cycle a = (case al_distribution a of Some i \<Rightarrow> i | None \<Rightarrow> al_allocationId a)"

definition claim_cycle :: "claim \<Rightarrow> string" where
  "claim_cycle c = (case cl_distribution c of Some i \<Rightarrow> i | None \<Rightarrow> ''claim:'' @ cl_claimId c)"

definition add_allocation :: "decimal_lib \<Rightarrow> cycle list \<Rightarrow> allocation \<Rightarrow> cycle list" where
  "add_allocation D cs a =
     touch (allocation_cycle a)
       (\<lambda>c. c\<lparr>cy_earned := dplus D (cy_earned c) (dec (al_amount a)),
             cy_frequency := or_else (al_frequency a) (cy_frequency c),
             cy_distributedAt := or_else (al_distributedAt a) (cy_distributedAt c),
             cy_tx := or_else (al_tx a) (cy_tx c)\<rparr>) cs"

definition add_claim :: "decimal_lib \<Rightarrow> cycle list \<Rightarrow> claim \<Rightarrow> cycle list" where
  "add_claim D cs x =
     touch (claim_cycle x)
       (\<lambda>c. c\<lparr>cy_claimed := dplus D (cy_claimed c) (dec (cl_amount x)),
             cy_frequency := or_else (cl_frequency x) (cy_frequency c),
             cy_claimedAt := or_else (cy_claimedAt c) (cl_claimedAt x)\<rparr>) cs"

definition timeOf :: "int option \<Rightarrow> int" where
  "timeOf t = (case t of None \<Rightarrow> 0 | Some x \<Rightarrow> x)"

text \<open>The repository returns the rows of a wallet newest first.\<close>

definition allocationsByWallet :: "string \<Rightarrow> dividends \<Rightarrow> allocation list" where
  "allocationsByWallet w s =
     isort_by (\<lambda>a b. desc_desc (timeOf (al_distributedAt a), al_row a) (timeOf (al_distributedAt b), al_row b))
       (filter (\<lambda>a. al_recipient a = w) (dv_allocations s))"

definition claim_key :: "claim \<Rightarrow> int \<times> string" where
  "claim_key c = (timeOf (cl_claimedAt c), cl_row c)"

definition claimsByWallet :: "string \<Rightarrow> dividends \<Rightarrow> claim list" where
  "claimsByWallet w s = isort_by (\<lambda>a b. desc_desc (claim_key a) (claim_key b)) (filter (\<lambda>c. cl_recipient c = w) (dv_claims s))"

definition loadCycles :: "decimal_lib \<Rightarrow> string \<Rightarrow> dividends \<Rightarrow> cycle list" where
  "loadCycles D w s =
     isort_by (\<lambda>a b. timeOf (cy_distributedAt a) > timeOf (cy_distributedAt b))
       (foldl (add_claim D) (foldl (add_allocation D) [] (allocationsByWallet w s)) (claimsByWallet w s))"

record cycle_view =
  cv_id :: string
  cv_earned :: amt
  cv_claimed :: amt
  cv_claimable :: amt

definition cycle_view_of :: "decimal_lib \<Rightarrow> cycle \<Rightarrow> cycle_view" where
  "cycle_view_of D c =
     (let claimable = dminus D (cy_earned c) (cy_claimed c)
      in \<lparr>cv_id = cy_id c, cv_earned = toFixed4 D (cy_earned c), cv_claimed = toFixed4 D (cy_claimed c),
          cv_claimable = toFixed4 D (if claimable < 0 then 0 else claimable)\<rparr>)"

record claimable_view =
  cb_cycles :: "cycle_view list"
  cb_totalEarned :: amt
  cb_totalClaimed :: amt
  cb_totalClaimable :: amt

definition buildClaimableView :: "decimal_lib \<Rightarrow> cycle list \<Rightarrow> claimable_view" where
  "buildClaimableView D cs =
     (let views = map (cycle_view_of D) cs;
          total = (\<lambda>f. toFixed4 D (dsum D (map (\<lambda>v. dec (f v)) views)))
      in \<lparr>cb_cycles = views, cb_totalEarned = total cv_earned, cb_totalClaimed = total cv_claimed,
          cb_totalClaimable = total cv_claimable\<rparr>)"

definition getClaimable :: "decimal_lib \<Rightarrow> string \<Rightarrow> dividends \<Rightarrow> claimable_view" where
  "getClaimable D w s = buildClaimableView D (loadCycles D w s)"

record dividend_summary =
  dm_totalEarned :: amt
  dm_totalClaimed :: amt
  dm_totalPending :: amt
  dm_cycleCount :: nat

definition getSummary :: "decimal_lib \<Rightarrow> string \<Rightarrow> dividends \<Rightarrow> dividend_summary" where
  "getSummary D w s =
     (let v = buildClaimableView D (loadCycles D w s)
      in \<lparr>dm_totalEarned = cb_totalEarned v, dm_totalClaimed = cb_totalClaimed v, dm_totalPending = cb_totalClaimable v,
          dm_cycleCount = length (cb_cycles v)\<rparr>)"

subsection \<open>The claim history\<close>

text \<open>A cursor is the time and the row id it prints; \<open>None\<close> is a missing or malformed one.\<close>

definition cursorOffset :: "claim list \<Rightarrow> int \<times> string \<Rightarrow> nat" where
  "cursorOffset rows cur =
     length (takeWhile (\<lambda>row. \<not> (timeOf (cl_claimedAt row) < fst cur \<or>
                                 (timeOf (cl_claimedAt row) = fst cur \<and> cl_row row > snd cur))) rows)"

definition normalizeLimit :: "int option \<Rightarrow> nat" where
  "normalizeLimit v = (case v of None \<Rightarrow> 20 | Some n \<Rightarrow> if n \<le> 0 then 20 else nat (min 100 n))"

record claim_page =
  cp_items :: "claim list"
  cp_hasMore :: bool
  cp_nextCursor :: "(int \<times> string) option"

definition formatCursor :: "int \<Rightarrow> claim \<Rightarrow> int \<times> string" where
  "formatCursor now row = (case cl_claimedAt row of None \<Rightarrow> now | Some t \<Rightarrow> t, cl_row row)"

definition history_rows :: "string \<Rightarrow> dividends \<Rightarrow> claim list" where
  "history_rows w s = isort_by (\<lambda>a b. desc_desc (claim_key a) (claim_key b)) (claimsByWallet w s)"

definition getClaimHistory :: "string \<Rightarrow> int option \<Rightarrow> (int \<times> string) option \<Rightarrow> int \<Rightarrow> dividends \<Rightarrow> claim_page" where
  "getClaimHistory w limit_opt cur now s =
     (let limit = normalizeLimit limit_opt;
          rows = history_rows w s;
          start = (case cur of None \<Rightarrow> 0 | Some c \<Rightarrow> cursorOffset rows c);
          window = take (limit + 1) (drop start rows);
          hasMore = length window > limit
      in \<lparr>cp_items = take limit window, cp_hasMore = hasMore,
          cp_nextCursor = (if hasMore then Some (formatCursor now (window ! (limit - 1))) else None)\<rparr>)"

subsection \<open>The view is exact\<close>

definition earned_in :: "string \<Rightarrow> allocation list \<Rightarrow> amt" where
  "earned_in i as = total_if (\<lambda>a. allocation_cycle a = i) al_amount as"

definition claimed_in :: "string \<Rightarrow> claim list \<Rightarrow> amt" where
  "claimed_in i xs = total_if (\<lambda>x. claim_cycle x = i) cl_amount xs"

definition cycles_ok :: "allocation list \<Rightarrow> claim list \<Rightarrow> cycle list \<Rightarrow> bool" where
  "cycles_ok as xs cs \<longleftrightarrow> distinct (map cy_id cs) \<and> set (map cy_id cs) = allocation_cycle ` set as \<union> claim_cycle ` set xs \<and>
     (\<forall>c \<in> set cs. cy_earned c = dec (earned_in (cy_id c) as) \<and> cy_claimed c = dec (claimed_in (cy_id c) xs))"

lemma touch_ids:
  assumes "\<And>c. cy_id (f c) = cy_id c" "distinct (map cy_id cs)"
  shows "distinct (map cy_id (touch i f cs)) \<and> set (map cy_id (touch i f cs)) = insert i (set (map cy_id cs))"
proof (cases "\<exists>c \<in> set cs. cy_id c = i")
  case True
  have "map cy_id (touch i f cs) = map cy_id cs" using True assms(1) by (auto simp: touch_def)
  moreover have "i \<in> set (map cy_id cs)" using True by auto
  ultimately show ?thesis using assms(2) by (simp only: insert_absorb)
next
  case False
  then have "map cy_id (touch i f cs) = map cy_id cs @ [i]" "i \<notin> set (map cy_id cs)"
    using assms(1) by (auto simp: touch_def new_cycle_def)
  then show ?thesis using assms(2) by simp
qed

lemma touch_all:
  assumes "\<And>c. c \<in> set cs \<Longrightarrow> cy_id c \<noteq> i \<Longrightarrow> Q c" "\<And>c. c \<in> set cs \<Longrightarrow> cy_id c = i \<Longrightarrow> Q (f c)"
    "i \<notin> cy_id ` set cs \<Longrightarrow> Q (f (new_cycle i))"
  shows "\<forall>c \<in> set (touch i f cs). Q c"
  using assms by (auto simp: touch_def)

lemma absent_earned: "i \<notin> allocation_cycle ` set as \<Longrightarrow> earned_in i as = 0"
  by (induction as) (auto simp: earned_in_def)

lemma absent_claimed: "i \<notin> claim_cycle ` set xs \<Longrightarrow> claimed_in i xs = 0"
  by (induction xs) (auto simp: claimed_in_def)

lemma add_allocation_ok:
  assumes "decimal_ok D" "cycles_ok as xs cs" "\<forall>a \<in> set (as @ [a]). 0 \<le> al_amount a" "amt_ok (total_if (\<lambda>_. True) al_amount (as @ [a]))"
  shows "cycles_ok (as @ [a]) xs (add_allocation D cs a)"
proof -
  let ?i = "allocation_cycle a"
  let ?f = "\<lambda>c. c\<lparr>cy_earned := dplus D (cy_earned c) (dec (al_amount a)), cy_frequency := or_else (al_frequency a) (cy_frequency c),
             cy_distributedAt := or_else (al_distributedAt a) (cy_distributedAt c), cy_tx := or_else (al_tx a) (cy_tx c)\<rparr>"
  have ids: "distinct (map cy_id (add_allocation D cs a))" "set (map cy_id (add_allocation D cs a)) = insert ?i (set (map cy_id cs))"
    using touch_ids [of ?f cs ?i] assms(2) by (simp_all add: add_allocation_def cycles_ok_def)
  have le: "earned_in ?i as + al_amount a \<le> total_if (\<lambda>_. True) al_amount (as @ [a])" "0 \<le> earned_in ?i as"
    using assms(3) total_if_mono [of as al_amount "\<lambda>x. allocation_cycle x = ?i" "\<lambda>_. True"] total_if_nonneg [of as al_amount]
    by (auto simp: earned_in_def)
  then have "amt_ok (earned_in ?i as + al_amount a)" using assms(3,4) by (auto simp: amt_ok_def)
  then have sum: "dplus D (dec (earned_in ?i as)) (dec (al_amount a)) = dec (earned_in ?i as + al_amount a)" by (rule dplus_dec [OF assms(1)])
  have app: "earned_in i (as @ [a]) = earned_in i as + (if ?i = i then al_amount a else 0)" for i by (simp add: earned_in_def)
  have "\<forall>c \<in> set (add_allocation D cs a). cy_earned c = dec (earned_in (cy_id c) (as @ [a])) \<and> cy_claimed c = dec (claimed_in (cy_id c) xs)"
    unfolding add_allocation_def
  proof (rule touch_all)
    assume "?i \<notin> cy_id ` set cs"
    then have "?i \<notin> allocation_cycle ` set as" "?i \<notin> claim_cycle ` set xs" using assms(2) by (auto simp: cycles_ok_def)
    then show "cy_earned (?f (new_cycle ?i)) = dec (earned_in (cy_id (?f (new_cycle ?i))) (as @ [a])) \<and>
        cy_claimed (?f (new_cycle ?i)) = dec (claimed_in (cy_id (?f (new_cycle ?i))) xs)"
      using app sum absent_earned absent_claimed by (simp add: new_cycle_def)
  qed (use assms(2) app sum in \<open>auto simp: cycles_ok_def\<close>)
  then show ?thesis using ids assms(2) by (auto simp: cycles_ok_def)
qed

lemma add_claim_ok:
  assumes "decimal_ok D" "cycles_ok as xs cs" "\<forall>x \<in> set (xs @ [x]). 0 \<le> cl_amount x" "amt_ok (total_if (\<lambda>_. True) cl_amount (xs @ [x]))"
  shows "cycles_ok as (xs @ [x]) (add_claim D cs x)"
proof -
  let ?i = "claim_cycle x"
  let ?f = "\<lambda>c. c\<lparr>cy_claimed := dplus D (cy_claimed c) (dec (cl_amount x)), cy_frequency := or_else (cl_frequency x) (cy_frequency c),
             cy_claimedAt := or_else (cy_claimedAt c) (cl_claimedAt x)\<rparr>"
  have ids: "distinct (map cy_id (add_claim D cs x))" "set (map cy_id (add_claim D cs x)) = insert ?i (set (map cy_id cs))"
    using touch_ids [of ?f cs ?i] assms(2) by (simp_all add: add_claim_def cycles_ok_def)
  have le: "claimed_in ?i xs + cl_amount x \<le> total_if (\<lambda>_. True) cl_amount (xs @ [x])" "0 \<le> claimed_in ?i xs"
    using assms(3) total_if_mono [of xs cl_amount "\<lambda>y. claim_cycle y = ?i" "\<lambda>_. True"] total_if_nonneg [of xs cl_amount]
    by (auto simp: claimed_in_def)
  then have "amt_ok (claimed_in ?i xs + cl_amount x)" using assms(3,4) by (auto simp: amt_ok_def)
  then have sum: "dplus D (dec (claimed_in ?i xs)) (dec (cl_amount x)) = dec (claimed_in ?i xs + cl_amount x)" by (rule dplus_dec [OF assms(1)])
  have app: "claimed_in i (xs @ [x]) = claimed_in i xs + (if ?i = i then cl_amount x else 0)" for i by (simp add: claimed_in_def)
  have "\<forall>c \<in> set (add_claim D cs x). cy_earned c = dec (earned_in (cy_id c) as) \<and> cy_claimed c = dec (claimed_in (cy_id c) (xs @ [x]))"
    unfolding add_claim_def
  proof (rule touch_all)
    assume "?i \<notin> cy_id ` set cs"
    then have "?i \<notin> allocation_cycle ` set as" "?i \<notin> claim_cycle ` set xs" using assms(2) by (auto simp: cycles_ok_def)
    then show "cy_earned (?f (new_cycle ?i)) = dec (earned_in (cy_id (?f (new_cycle ?i))) as) \<and>
        cy_claimed (?f (new_cycle ?i)) = dec (claimed_in (cy_id (?f (new_cycle ?i))) (xs @ [x]))"
      using app sum absent_earned absent_claimed by (simp add: new_cycle_def)
  qed (use assms(2) app sum in \<open>auto simp: cycles_ok_def\<close>)
  then show ?thesis using ids assms(2) by (auto simp: cycles_ok_def)
qed

lemma fold_allocations:
  assumes "decimal_ok D" "\<forall>a \<in> set as. 0 \<le> al_amount a" "amt_ok (total_if (\<lambda>_. True) al_amount as)"
  shows "cycles_ok as [] (foldl (add_allocation D) [] as)"
  using assms(2,3)
proof (induction as rule: rev_induct)
  case Nil
  show ?case by (simp add: cycles_ok_def)
next
  case (snoc a as)
  have "0 \<le> al_amount a" "0 \<le> total_if (\<lambda>_. True) al_amount as"
    using snoc.prems(1) total_if_nonneg [of as al_amount] by auto
  then have "amt_ok (total_if (\<lambda>_. True) al_amount as)" using snoc.prems(2) by (auto simp: amt_ok_def)
  then show ?case using add_allocation_ok [OF assms(1) snoc.IH snoc.prems] snoc.prems(1) by simp
qed

lemma fold_claims:
  assumes "decimal_ok D" "cycles_ok as [] cs" "\<forall>x \<in> set xs. 0 \<le> cl_amount x" "amt_ok (total_if (\<lambda>_. True) cl_amount xs)"
  shows "cycles_ok as xs (foldl (add_claim D) cs xs)"
  using assms(3,4)
proof (induction xs rule: rev_induct)
  case Nil
  show ?case using assms(2) by simp
next
  case (snoc x xs)
  have "0 \<le> cl_amount x" "0 \<le> total_if (\<lambda>_. True) cl_amount xs"
    using snoc.prems(1) total_if_nonneg [of xs cl_amount] by auto
  then have "amt_ok (total_if (\<lambda>_. True) cl_amount xs)" using snoc.prems(2) by (auto simp: amt_ok_def)
  then show ?case using add_claim_ok [OF assms(1) snoc.IH snoc.prems] snoc.prems(1) by simp
qed

lemma total_if_mset: "mset xs = mset ys \<Longrightarrow> total_if P f xs = total_if P f ys"
  by (metis mset_map sum_mset_sum_list total_if_def)

definition wallet_allocations :: "string \<Rightarrow> dividends \<Rightarrow> allocation list" where
  "wallet_allocations w s = filter (\<lambda>a. al_recipient a = w) (dv_allocations s)"

definition wallet_claims :: "string \<Rightarrow> dividends \<Rightarrow> claim list" where
  "wallet_claims w s = filter (\<lambda>c. cl_recipient c = w) (dv_claims s)"

lemma by_wallet_mset:
  "mset (allocationsByWallet w s) = mset (wallet_allocations w s)" "mset (claimsByWallet w s) = mset (wallet_claims w s)"
  by (simp_all add: allocationsByWallet_def claimsByWallet_def wallet_allocations_def wallet_claims_def)

lemma cycles_ok_mset:
  assumes "cycles_ok as xs cs" "mset cs' = mset cs" "mset as = mset as'" "mset xs = mset xs'"
  shows "cycles_ok as' xs' cs'"
proof -
  have "earned_in i as = earned_in i as'" "claimed_in i xs = claimed_in i xs'" for i
    unfolding earned_in_def claimed_in_def by (rule total_if_mset [OF assms(3)], rule total_if_mset [OF assms(4)])
  moreover have "mset (map cy_id cs') = mset (map cy_id cs)" using assms(2) by simp
  then have "distinct (map cy_id cs') = distinct (map cy_id cs)" by (rule mset_eq_imp_distinct_iff)
  moreover have "set as = set as'" "set xs = set xs'" "set cs' = set cs"
    using assms(2-4) by (metis set_mset_mset)+
  ultimately show ?thesis using assms(1) by (simp add: cycles_ok_def)
qed

lemma load_ok:
  assumes "decimal_ok D" "\<forall>a \<in> set (wallet_allocations w s). 0 \<le> al_amount a" "\<forall>x \<in> set (wallet_claims w s). 0 \<le> cl_amount x"
    "amt_ok (total_if (\<lambda>_. True) al_amount (wallet_allocations w s))" "amt_ok (total_if (\<lambda>_. True) cl_amount (wallet_claims w s))"
  shows "cycles_ok (wallet_allocations w s) (wallet_claims w s) (loadCycles D w s)"
proof -
  let ?as = "allocationsByWallet w s" and ?xs = "claimsByWallet w s"
  note sets = by_wallet_mset [THEN mset_eq_setD]
  have "cycles_ok ?as ?xs (foldl (add_claim D) (foldl (add_allocation D) [] ?as) ?xs)"
    by (intro fold_claims fold_allocations)
       (use assms sets total_if_mset [OF by_wallet_mset(1)] total_if_mset [OF by_wallet_mset(2)] in auto)
  moreover have "mset (loadCycles D w s) = mset (foldl (add_claim D) (foldl (add_allocation D) [] ?as) ?xs)"
    by (simp add: loadCycles_def)
  ultimately show ?thesis by (rule cycles_ok_mset [OF _ _ by_wallet_mset])
qed

lemma total_by_key:
  "distinct is \<Longrightarrow> k ` set xs \<subseteq> set is \<Longrightarrow> sum_list (map (\<lambda>i. total_if (\<lambda>x. k x = i) f xs) is) = total_if (\<lambda>_. True) f xs"
proof (induction xs)
  case (Cons x xs)
  have "sum_list (map (\<lambda>i. if k x = i then f x else 0) is) = f x"
    using Cons.prems by (simp add: sum_list_distinct_conv_sum_set sum.delta)
  moreover have "sum_list (map (\<lambda>i. (if k x = i then f x else 0) + total_if (\<lambda>x. k x = i) f xs) is) =
      sum_list (map (\<lambda>i. if k x = i then f x else 0) is) + sum_list (map (\<lambda>i. total_if (\<lambda>x. k x = i) f xs) is)"
    by (rule sum_list_addf)
  ultimately show ?case using Cons by simp
qed simp

lemma view_total:
  assumes "decimal_ok D" "\<forall>v \<in> set vs. 0 \<le> f v" "amt_ok (sum_list (map f vs))"
  shows "toFixed4 D (dsum D (map (\<lambda>v. dec (f v)) vs)) = sum_list (map f vs)"
  using dsum_dec [OF assms(1), of "map f vs"] assms(2,3) toFixed4_dec [OF assms(1)] by (simp add: o_def)


subsection \<open>Replayed events\<close>

lemma recordAllocations_known:
  "\<forall>x \<in> set xs. \<exists>y \<in> set (dv_allocations s). al_allocationId y = al_allocationId x \<Longrightarrow> recordAllocations xs s = s"
  by (induction xs arbitrary: s) auto

lemma recordAllocations_keeps: "set (dv_allocations s) \<subseteq> set (dv_allocations (recordAllocations xs s)) \<and>
    dv_distributions (recordAllocations xs s) = dv_distributions s \<and> dv_claims (recordAllocations xs s) = dv_claims s"
proof (induction xs arbitrary: s)
  case (Cons x xs)
  show ?case using Cons [of "if \<exists>y \<in> set (dv_allocations s). al_allocationId y = al_allocationId x then s
        else s\<lparr>dv_allocations := dv_allocations s @ [x]\<rparr>"] by (auto split: if_splits)
qed simp

lemma recordAllocations_has:
  "\<forall>x \<in> set xs. \<exists>y \<in> set (dv_allocations (recordAllocations xs s)). al_allocationId y = al_allocationId x"
proof (induction xs arbitrary: s)
  case (Cons x xs)
  let ?s = "if \<exists>y \<in> set (dv_allocations s). al_allocationId y = al_allocationId x then s
        else s\<lparr>dv_allocations := dv_allocations s @ [x]\<rparr>"
  have "\<exists>y \<in> set (dv_allocations ?s). al_allocationId y = al_allocationId x" by auto
  then have "\<exists>y \<in> set (dv_allocations (recordAllocations xs ?s)). al_allocationId y = al_allocationId x"
    using recordAllocations_keeps [of ?s xs] by blast
  then show ?case using Cons [of ?s] unfolding recordAllocations.simps set_simps by blast
qed simp

lemma record_twice:
  "recordAllocations as (recordDistribution x (recordAllocations as (recordDistribution x s))) =
     recordAllocations as (recordDistribution x s)"
proof -
  let ?s = "recordAllocations as (recordDistribution x s)"
  have "\<exists>y \<in> set (dv_distributions (recordDistribution x s)). ds_tx y = ds_tx x \<and> ds_issuer y = ds_issuer x \<and> ds_at y = ds_at x"
    by (auto simp: recordDistribution_def)
  then have "recordDistribution x ?s = ?s"
    using recordAllocations_keeps [of "recordDistribution x s" as] by (simp add: recordDistribution_def [of x ?s])
  then show ?thesis using recordAllocations_known [OF recordAllocations_has] by metis
qed

text \<open>An event that carries its ledger's closing time can be handled any number of times, at any
  times: the projection is that of handling it once, so the indexer's retries cost nothing.\<close>

theorem dividend_events_replay:
  assumes "ev_occurredAt e = Some t"
  shows "dividend_handle D parse gen now' e (dividend_handle D parse gen now e s) = dividend_handle D parse gen now e s"
proof -
  have ts: "eventTimestamp e n = t" for n using assms by (simp add: eventTimestamp_def)
  have "handleClaimed D parse gen now' e (handleClaimed D parse gen now e s) = handleClaimed D parse gen now e s"
    by (auto simp: handleClaimed_def recordClaim_def Let_def ts split: option.split)
  moreover have "handleDistributed D parse gen now' e (handleDistributed D parse gen now e s) = handleDistributed D parse gen now e s"
  proof (cases "readEventString e [''issuer_wallet'', ''issuerWallet'', ''issuer'', ''0''] (Some 1)")
    case None
    then show ?thesis by (simp add: handleDistributed_def)
  next
    case (Some issuer)
    let ?f = "readEventString e [''cycle_frequency'', ''cycleFrequency'', ''frequency''] None"
    let ?as = "readAllocations D parse gen e issuer ?f now"
    let ?x = "\<lparr>ds_issuer = issuer, ds_total = toFixed4 D (dsum D (map (\<lambda>x. dec (al_amount x)) ?as)),
                   ds_count = length ?as, ds_frequency = ?f, ds_tx = ev_txHash e, ds_at = t\<rparr>"
    have as: "readAllocations D parse gen e issuer ?f n = ?as" for n by (simp add: readAllocations_def ts)
    have h: "handleDistributed D parse gen n e s' = recordAllocations ?as (recordDistribution ?x s')" for n s'
      by (simp only: handleDistributed_def Some option.case Let_def as [of n] ts)
    show ?thesis unfolding h by (rule record_twice)
  qed
  ultimately show ?thesis by (simp add: dividend_handle_def Let_def)
qed

definition claim_event :: chain_event where
  "claim_event = \<lparr>ev_id = ''e5'', ev_contract = ''c'', ev_ledger = 5, ev_txHash = ''t5'', ev_topic = ''dividend_claimed'',
     ev_topics = [NStr ''dividend_claimed''],
     ev_data = NObj [(''amount'', NStr ''7''), (''recipient'', NStr ''GH''), (''claim_id'', NStr ''c5'')], ev_occurredAt = Some 50\<rparr>"

definition no_dividends :: dividends where
  "no_dividends = \<lparr>dv_distributions = [], dv_allocations = [], dv_claims = []\<rparr>"

lemma claim_event_recorded:
  "dividend_handle exact_decimal (\<lambda>_. Some 7) (\<lambda>k. k) 5 claim_event no_dividends =
     no_dividends\<lparr>dv_claims := [\<lparr>cl_row = ''c5'', cl_claimId = ''c5'', cl_distribution = None, cl_issuer = None,
       cl_recipient = ''GH'', cl_amount = 70000, cl_frequency = None, cl_tx = Some ''t5'', cl_claimedAt = Some 50\<rparr>]\<rparr>"
  by code_simp

theorem dividend_events_replay_witness:
  "dividend_handle exact_decimal (\<lambda>_. Some 7) (\<lambda>k. k) 9 claim_event
       (dividend_handle exact_decimal (\<lambda>_. Some 7) (\<lambda>k. k) 5 claim_event no_dividends) =
     no_dividends\<lparr>dv_claims := [\<lparr>cl_row = ''c5'', cl_claimId = ''c5'', cl_distribution = None, cl_issuer = None,
       cl_recipient = ''GH'', cl_amount = 70000, cl_frequency = None, cl_tx = Some ''t5'', cl_claimedAt = Some 50\<rparr>]\<rparr>"
  by (subst dividend_events_replay [where t = 50]) (simp_all add: claim_event_def claim_event_recorded [unfolded claim_event_def])

subsection \<open>Concrete histories\<close>

definition paid :: "string \<Rightarrow> string option \<Rightarrow> amt \<Rightarrow> allocation" where
  "paid i dist' a = \<lparr>al_row = i, al_allocationId = i, al_distribution = dist', al_issuer = ''GI'', al_recipient = ''GH'',
     al_amount = a, al_frequency = None, al_tx = None, al_distributedAt = Some 10\<rparr>"

definition withdrawn :: "string \<Rightarrow> string option \<Rightarrow> amt \<Rightarrow> claim" where
  "withdrawn i dist' a = \<lparr>cl_row = i, cl_claimId = i, cl_distribution = dist', cl_issuer = None, cl_recipient = ''GH'',
     cl_amount = a, cl_frequency = None, cl_tx = None, cl_claimedAt = Some 20\<rparr>"

definition two_cycles :: dividends where
  "two_cycles = \<lparr>dv_distributions = [], dv_allocations = [paid ''a1'' (Some ''d1'') 1000000, paid ''a2'' None 500000],
     dv_claims = [withdrawn ''c1'' (Some ''d1'') 400000, withdrawn ''c2'' None 500000]\<rparr>"

lemma two_rows: "wallet_allocations ''GH'' two_cycles = dv_allocations two_cycles" "wallet_claims ''GH'' two_cycles = dv_claims two_cycles"
  by (simp_all add: wallet_allocations_def wallet_claims_def two_cycles_def paid_def withdrawn_def)


lemma history_sorted:
  assumes "distinct (map cl_row (history_rows w s))"
  shows "sorted_wrt (\<lambda>a b. desc_desc (claim_key a) (claim_key b)) (history_rows w s)"
proof -
  have "distinct (map cl_row (claimsByWallet w s))" using assms
    by (metis history_rows_def mset_isort_by mset_map mset_eq_imp_distinct_iff)
  then have "distinct (map claim_key (claimsByWallet w s))"
    by (auto simp: distinct_map claim_key_def inj_on_def)
  from desc_desc.isort_sorted [OF this] show ?thesis by (simp add: history_rows_def)
qed

text \<open>When all claims of a page of the history share one time, as claims of one ledger do, following
  the cursor returns the same page again, so the rest of the history is never reached.\<close>

theorem claim_history_repeats:
  assumes "history_rows w s = rows" "distinct (map cl_row rows)" "\<forall>r \<in> set (take (normalizeLimit l) rows). cl_claimedAt r = Some t"
    "2 \<le> normalizeLimit l" "normalizeLimit l < length rows"
  shows "\<exists>c. cp_nextCursor (getClaimHistory w l None now s) = Some c \<and>
     getClaimHistory w l (Some c) now s = getClaimHistory w l None now s \<and>
     cp_items (getClaimHistory w l None now s) = take (normalizeLimit l) rows"
proof -
  let ?L = "normalizeLimit l"
  let ?last = "rows ! (?L - 1)"
  have mem: "rows ! i \<in> set (take ?L rows)" if "i < ?L" for i
    using that assms(5) by (auto simp: in_set_conv_nth intro!: exI [of _ i])
  have t: "cl_claimedAt (rows ! 0) = Some t" "cl_claimedAt ?last = Some t" using assms(3,4) mem [of 0] mem [of "?L - 1"] by auto
  have "desc_desc (claim_key (rows ! 0)) (claim_key ?last)"
    using history_sorted [of w s] assms(1,2,4,5) by (auto simp: sorted_wrt_iff_nth_less)
  then have first: "cl_row (rows ! 0) > cl_row ?last" using t by (simp add: desc_desc_def claim_key_def)
  obtain r rs where rows: "rows = r # rs" using assms(5) by (cases rows) auto
  have zero: "cursorOffset rows (t, cl_row ?last) = 0" using first t by (simp add: cursorOffset_def rows timeOf_def)
  have w: "take (?L + 1) rows ! (?L - 1) = ?last" "length (take (?L + 1) rows) > ?L" using assms(4,5) by auto
  have "cp_nextCursor (getClaimHistory w l None now s) = Some (t, cl_row ?last)"
    using w t by (simp add: getClaimHistory_def assms(1) Let_def formatCursor_def)
  moreover have "getClaimHistory w l (Some (t, cl_row ?last)) now s = getClaimHistory w l None now s"
    using zero by (simp add: getClaimHistory_def assms(1) Let_def)
  moreover have "cp_items (getClaimHistory w l None now s) = take ?L rows"
    by (simp add: getClaimHistory_def assms(1) Let_def min_def)
  ultimately show ?thesis by blast
qed

definition one_ledger :: dividends where
  "one_ledger = \<lparr>dv_distributions = [], dv_allocations = [],
     dv_claims = [withdrawn ''c3'' None 3, withdrawn ''c2'' None 2, withdrawn ''c1'' None 1]\<rparr>"

theorem claim_history_repeats_witness:
  "\<exists>c. cp_nextCursor (getClaimHistory ''GH'' (Some 2) None 99 one_ledger) = Some c \<and>
     cp_items (getClaimHistory ''GH'' (Some 2) (Some c) 99 one_ledger) = [withdrawn ''c3'' None 3, withdrawn ''c2'' None 2]"
proof -
  have r: "history_rows ''GH'' one_ledger = dv_claims one_ledger"
    by (simp add: history_rows_def claimsByWallet_def one_ledger_def withdrawn_def desc_desc_def claim_key_def)
  show ?thesis using claim_history_repeats [OF r, of "Some 2" 20 99]
    by (auto simp: one_ledger_def withdrawn_def normalizeLimit_def eval_nat_numeral)
qed

end
