(* ===== verification/Invoice_Service.thy ===== *)
theory Invoice_Service
  imports Invoice_Model Keyset
begin

section \<open>The invoice service\<close>

text \<open>
  \<open>src/services/invoice.service.ts\<close> over the invoices table and the state machine, and the list
  cursor of \<open>src/utils/invoice-cursor.utils.ts\<close>. The service state holds the database, the order
  the database scans the invoices in, the state machine that runs side effects and the number of
  the next transition. An operation that reads a row and later saves the whole entity is given in
  its two parts, because other requests commit in between. A DTO is the row. What IPFS answers,
  new identifiers and the clock are arguments. Number texts are the values they denote.
\<close>

record 'w svc =
  sv_db :: db
  sv_ids :: "string list"
  sv_machine :: "'w machine"
  sv_next :: nat

text \<open>The rows a scan of the table returns.\<close>

definition live :: "'w svc \<Rightarrow> invoice list" where
  "live s = List.map_filter (invoices (sv_db s)) (sv_ids s)"

text \<open>\<open>catch\<close>: what is no \<open>ServiceError\<close> becomes the operation's own 500.\<close>

definition caught :: "string \<Rightarrow> 'a result \<Rightarrow> 'a result" where
  "caught code r = (case r of Inl (JsError _) \<Rightarrow> Inl (ServiceError code 500) | _ \<Rightarrow> r)"

lemma caught_Inr [result_simps]: "caught code r = Inr x \<longleftrightarrow> r = Inr x"
  by (auto simp: caught_def split: sum.splits error.splits)

definition find_invoice :: "string \<Rightarrow> db \<Rightarrow> invoice result" where
  "find_invoice i d = (case invoices d i of None \<Rightarrow> Inl (ServiceError ''invoice_not_found'' 404) | Some v \<Rightarrow> Inr v)"

definition not_owner :: error where
  "not_owner = ServiceError ''unauthorized_invoice_access'' 403"

subsection \<open>Amounts\<close>

definition service_net_amount :: "decimal_lib \<Rightarrow> num_input \<Rightarrow> num_input \<Rightarrow> amt result" where
  "service_net_amount D amount discountRate =
     (case (amount, discountRate) of
        (Num am, Num disc) \<Rightarrow>
          if am < 0 \<or> disc < 0 \<or> disc > 100 then Inl (ServiceError ''invalid_amount'' 400)
          else Inr (toFixed4 D (dminus D am (dtimes D am (ddiv D disc 100))))
      | _ \<Rightarrow> Inl (ServiceError ''invalid_amount'' 400))"

definition sanitizeInvoiceNumber :: "string \<Rightarrow> string" where
  "sanitizeInvoiceNumber v = take 64 (js_trim v)"

definition or_null :: "string \<Rightarrow> string option" where
  "or_null s = (if s = [] then None else Some s)"

definition trim_or_null :: "string option \<Rightarrow> string option" where
  "trim_or_null x = (case x of None \<Rightarrow> None | Some s \<Rightarrow> or_null (js_trim s))"

text \<open>The entity's hook before a save, on an entity whose amount and rate are still texts; its
  \<open>AppError\<close> is no \<open>ServiceError\<close>. The hook leaves numbers or raises.\<close>

definition num_of :: "num_input option \<Rightarrow> decimal" where
  "num_of x = (case x of Some (Num n) \<Rightarrow> n | _ \<Rightarrow> 0)"

text \<open>A \<open>decimal(18,4)\<close> column takes 18 digits.\<close>

definition fits_column :: "amt \<Rightarrow> bool" where
  "fits_column a \<longleftrightarrow> \<bar>a\<bar> < 10 ^ 18"

definition with_hook :: "decimal_lib \<Rightarrow> num_input \<Rightarrow> num_input \<Rightarrow> invoice \<Rightarrow> invoice result" where
  "with_hook D amount discountRate v =
     (case calculateAndFormatAmounts D
             \<lparr>df_invoiceNumber = Some (iv_invoiceNumber v), df_customerName = Some (iv_customerName v),
              df_ipfsHash = Some (iv_ipfsHash v), df_smartContractId = Some (iv_smartContractId v),
              df_rejectionReason = Some (iv_rejectionReason v), df_amount = Some amount,
              df_discountRate = Some discountRate, df_netAmount = Some (iv_netAmount v)\<rparr> of
        Inl e \<Rightarrow> Inl (JsError ''AppError'')
      | Inr f \<Rightarrow>
          if \<not> fits_column (toFixed4 D (num_of (df_amount f))) then Inl (JsError ''numeric field overflow'')
          else Inr (v\<lparr>iv_customerName := (case df_customerName f of None \<Rightarrow> [] | Some n \<Rightarrow> n),
                 iv_amount := toFixed4 D (num_of (df_amount f)),
                 iv_discountRate := toFixed2 D (num_of (df_discountRate f)),
                 iv_netAmount := (case df_netAmount f of None \<Rightarrow> iv_netAmount v | Some n \<Rightarrow> n)\<rparr>))"

subsection \<open>Creating\<close>

record create_input =
  ci_sellerId :: string
  ci_invoiceNumber :: string
  ci_customerName :: string
  ci_issuerName :: "string option"
  ci_description :: "string option"
  ci_amount :: num_input
  ci_discountRate :: num_input
  ci_dueDate :: date_input
  ci_ipfsHash :: "string option"
  ci_riskScore :: "string option"
  ci_submission :: submission_columns
  ci_fundingDeadline :: "int option"

definition new_invoice :: "create_input \<Rightarrow> string \<Rightarrow> amt \<Rightarrow> string \<Rightarrow> int \<Rightarrow> invoice" where
  "new_invoice inp number net new_id now =
     \<lparr>iv_id = new_id, iv_sellerId = ci_sellerId inp, iv_invoiceNumber = number,
      iv_customerName = take 255 (js_trim (ci_customerName inp)),
      iv_issuerName = (case ci_issuerName inp of None \<Rightarrow> None | Some n \<Rightarrow> or_null (take 255 (js_trim n))),
      iv_description = trim_or_null (ci_description inp), iv_discountRate = 0, iv_amount = 0, iv_netAmount = net,
      iv_fundedAmount = 0, iv_settlementRemainder = 0, iv_dueDate = ci_dueDate inp,
      iv_fundingDeadline = ci_fundingDeadline inp, iv_ipfsHash = trim_or_null (ci_ipfsHash inp), iv_status = DRAFT,
      iv_rejectionReason = None, iv_riskScore = trim_or_null (ci_riskScore inp), iv_smartContractId = None,
      iv_submission = (ci_submission inp)
        \<lparr>sb_title := trim_or_null (sb_title (ci_submission inp)),
         sb_ipfsDocumentUrl := trim_or_null (sb_ipfsDocumentUrl (ci_submission inp))\<rparr>,
      iv_createdAt = now, iv_version = 1\<rparr>"

text \<open>The insert; the key is new and the unique index on the number covers deleted rows.\<close>

definition insert_invoice :: "invoice \<Rightarrow> 'w svc \<Rightarrow> error + (invoice \<times> 'w svc)" where
  "insert_invoice v s =
     (if iv_id v \<in> set (sv_ids s) \<or>
        (\<exists>w \<in> set (live s @ deleted_invoices (sv_db s)). iv_invoiceNumber w = iv_invoiceNumber v)
      then Inl (JsError ''duplicate key'')
      else Inr (v, s\<lparr>sv_db := save_invoice v (sv_db s), sv_ids := sv_ids s @ [iv_id v]\<rparr>))"

definition createInvoice :: "decimal_lib \<Rightarrow> create_input \<Rightarrow> string \<Rightarrow> int \<Rightarrow> 'w svc \<Rightarrow> invoice result \<times> 'w svc" where
  "createInvoice D inp new_id now =
     run_tx (\<lambda>s. let number = sanitizeInvoiceNumber (ci_invoiceNumber inp)
       in and_then (require (number \<noteq> []) (ServiceError ''invalid_invoice_number'' 400)) (\<lambda>_.
          and_then (require (\<forall>v \<in> set (live s). iv_invoiceNumber v \<noteq> number) (ServiceError ''invoice_number_exists'' 409)) (\<lambda>_.
          and_then (service_net_amount D (ci_amount inp) (ci_discountRate inp)) (\<lambda>net.
          caught ''invoice_create_failed''
            (and_then (with_hook D (ci_amount inp) (ci_discountRate inp) (new_invoice inp number net new_id now)) (\<lambda>v.
               insert_invoice v s))))))"

subsection \<open>Changing and deleting drafts\<close>

record update_input =
  up_sellerId :: string
  up_invoiceId :: string
  up_customerName :: "string option"
  up_issuerName :: "string option"
  up_description :: "string option"
  up_amount :: "num_input option"
  up_discountRate :: "num_input option"
  up_dueDate :: "date_input option"
  up_riskScore :: "string option"

definition own_draft :: "string \<Rightarrow> string \<Rightarrow> db \<Rightarrow> invoice result" where
  "own_draft i seller d =
     and_then (find_invoice i d) (\<lambda>v.
       if iv_sellerId v \<noteq> seller then Inl not_owner
       else if iv_status v \<noteq> DRAFT then Inl (ServiceError ''invalid_invoice_status'' 400)
       else Inr v)"

text \<open>The amount and the rate the entity holds when it is saved; the rate alone is replaced only
  where a new amount does not come with it.\<close>

definition update_amounts :: "update_input \<Rightarrow> invoice \<Rightarrow> num_input \<times> num_input" where
  "update_amounts inp v =
     (case up_amount inp of
        Some a \<Rightarrow> (a, case up_discountRate inp of None \<Rightarrow> Num (of_int (iv_discountRate v) / 100) | Some r \<Rightarrow> r)
      | None \<Rightarrow> (Num (dec (iv_amount v)),
                 case up_discountRate inp of None \<Rightarrow> Num (of_int (iv_discountRate v) / 100) | Some r \<Rightarrow> r))"

definition update_fields :: "update_input \<Rightarrow> invoice \<Rightarrow> invoice" where
  "update_fields inp v =
     v\<lparr>iv_customerName := (case up_customerName inp of None \<Rightarrow> iv_customerName v
                            | Some n \<Rightarrow> if n = [] then iv_customerName v else n),
       iv_issuerName := (case up_issuerName inp of None \<Rightarrow> iv_issuerName v | Some n \<Rightarrow> or_null (take 255 (js_trim n))),
       iv_description := (case up_description inp of None \<Rightarrow> iv_description v | Some t \<Rightarrow> or_null (js_trim t)),
       iv_dueDate := (case up_dueDate inp of None \<Rightarrow> iv_dueDate v | Some t \<Rightarrow> t),
       iv_riskScore := (if truthy (up_riskScore inp) then up_riskScore inp else iv_riskScore v)\<rparr>"

definition update_read :: "decimal_lib \<Rightarrow> update_input \<Rightarrow> db \<Rightarrow> invoice result" where
  "update_read D inp d =
     and_then (own_draft (up_invoiceId inp) (up_sellerId inp) d) (\<lambda>v.
       let (am, disc) = update_amounts inp v; v' = update_fields inp v
       in if up_amount inp = None \<and> up_discountRate inp = None then Inr v'
          else and_then (service_net_amount D am disc) (\<lambda>net. Inr (v'\<lparr>iv_netAmount := net\<rparr>)))"

text \<open>\<open>save\<close> of a loaded entity: every column that differs from the stored row is written, also
  one that another request changed since the entity was read; the version is counted in the
  database and not compared.\<close>

definition save_entity :: "invoice \<Rightarrow> db \<Rightarrow> error + (invoice \<times> db)" where
  "save_entity v d =
     (case invoices d (iv_id v) of
        None \<Rightarrow> Inl (JsError ''QueryFailedError'')
      | Some w \<Rightarrow> let v' = v\<lparr>iv_version := iv_version w + 1\<rparr> in Inr (v', save_invoice v' d))"

definition update_save :: "decimal_lib \<Rightarrow> update_input \<Rightarrow> invoice \<Rightarrow> db \<Rightarrow> error + (invoice \<times> db)" where
  "update_save D inp v d =
     (let (am, disc) = update_amounts inp v
      in caught ''invoice_update_failed'' (and_then (with_hook D am disc v) (\<lambda>v'. save_entity v' d)))"

definition updateInvoice :: "decimal_lib \<Rightarrow> update_input \<Rightarrow> db \<Rightarrow> invoice result \<times> db" where
  "updateInvoice D inp = run_tx (\<lambda>d. and_then (update_read D inp d) (\<lambda>v. update_save D inp v d))"

definition deleteInvoice :: "string \<Rightarrow> string \<Rightarrow> db \<Rightarrow> unit result \<times> db" where
  "deleteInvoice i seller =
     run_tx (\<lambda>d. and_then (own_draft i seller d) (\<lambda>v.
       Inr ((), d\<lparr>invoices := (invoices d)(i := None), deleted_invoices := deleted_invoices d @ [v]\<rparr>)))"

subsection \<open>Transitions\<close>

text \<open>A service built without a data source writes through the repository: no history, no check
  for a settlement in progress.\<close>

definition repositoryStore :: "db transition_store" where
  "repositoryStore =
     \<lparr>saveInvoice = (\<lambda>invoice d. let (v', d') = orm_save_invoice invoice d in Inr (Some v', d')), recordHistory = None\<rparr>"

definition store_for :: "bool \<Rightarrow> db transition_store" where
  "store_for dataSource = (if dataSource then entityManagerTransitionStore else repositoryStore)"

text \<open>The side effects run after the commit.\<close>

definition applyTransition ::
    "bool \<Rightarrow> 'w effect list \<Rightarrow> invoice \<Rightarrow> invoice_status \<Rightarrow> transition_actor \<Rightarrow> string \<Rightarrow> transition_context \<Rightarrow> int \<Rightarrow>
     'w svc \<Rightarrow> invoice result \<times> 'w svc" where
  "applyTransition dataSource effects invoice to actor trigger context now s =
     (case run_tx (transition (store_for dataSource) invoice to actor trigger context now (sv_next s)) (sv_db s) of
        (Inl e, d) \<Rightarrow> (Inl e, s)
      | (Inr t, d) \<Rightarrow>
          (Inr (t_invoice t), s\<lparr>sv_db := d, sv_next := sv_next s + 1, sv_machine := dispatch effects t (sv_machine s)\<rparr>))"

definition seller_actor :: "string \<Rightarrow> string option \<Rightarrow> transition_actor" where
  "seller_actor i wallet = \<lparr>a_role = Seller, a_id = Some i, a_wallet = wallet\<rparr>"

definition admin_of :: "string option \<Rightarrow> transition_actor" where
  "admin_of actorId = \<lparr>a_role = Admin, a_id = actorId, a_wallet = None\<rparr>"

definition kyc_required :: error where
  "kyc_required = ServiceError ''kyc_approval_required'' 403"

definition approved_seller :: "db \<Rightarrow> invoice \<Rightarrow> user result" where
  "approved_seller d v =
     (case users d (iv_sellerId v) of
        None \<Rightarrow> Inl kyc_required
      | Some u \<Rightarrow> if us_kycStatus u \<noteq> KycAPPROVED then Inl kyc_required else Inr u)"

definition publishInvoice ::
    "bool \<Rightarrow> 'w effect list \<Rightarrow> string \<Rightarrow> string \<Rightarrow> int \<Rightarrow> 'w svc \<Rightarrow> invoice result \<times> 'w svc" where
  "publishInvoice ds effects i seller now s =
     (case and_then (find_invoice i (sv_db s)) (\<lambda>v.
             if iv_sellerId v \<noteq> seller then Inl not_owner
             else and_then (approved_seller (sv_db s) v) (\<lambda>u. Inr (v, u))) of
        Inl e \<Rightarrow> (Inl e, s)
      | Inr (v, u) \<Rightarrow>
          (case applyTransition ds effects v PUBLISHED (seller_actor seller (us_stellarAddress u)) ''seller_published''
                  empty_context now s of
             (r, s') \<Rightarrow> (caught ''invoice_publish_failed'' r, s')))"

definition rejectInvoice ::
    "bool \<Rightarrow> 'w effect list \<Rightarrow> string \<Rightarrow> string \<Rightarrow> string option \<Rightarrow> int \<Rightarrow> 'w svc \<Rightarrow> invoice result \<times> 'w svc" where
  "rejectInvoice ds effects invoiceId rejectionReason actorId now s =
     (let i = js_trim invoiceId; reason = js_trim rejectionReason
      in case and_then (require (i \<noteq> []) (ServiceError ''invalid_invoice_id'' 400)) (\<lambda>_.
              and_then (require (reason \<noteq> []) (ServiceError ''invalid_rejection_reason'' 400)) (\<lambda>_.
              and_then (find_invoice i (sv_db s)) (\<lambda>v.
                if iv_status v = REJECTED then Inl (ServiceError ''invoice_already_rejected'' 409) else Inr v))) of
           Inl e \<Rightarrow> (Inl e, s)
         | Inr v \<Rightarrow>
             (case applyTransition ds effects v REJECTED (admin_of actorId) ''admin_rejected''
                     (empty_context\<lparr>x_reason := Some reason\<rparr>) now s of
                (Inl (ServiceError c st), s') \<Rightarrow>
                  (Inl (if c = ''invalid_status_transition'' then ServiceError c 409 else ServiceError c st), s')
              | (r, s') \<Rightarrow> (r, s')))"

definition submitInvoiceForReview ::
    "bool \<Rightarrow> 'w effect list \<Rightarrow> string \<Rightarrow> string \<Rightarrow> int \<Rightarrow> 'w svc \<Rightarrow> invoice result \<times> 'w svc" where
  "submitInvoiceForReview ds effects i seller now s =
     (case and_then (find_invoice i (sv_db s)) (\<lambda>v.
             if iv_sellerId v \<noteq> seller then Inl (ServiceError ''invoice_not_found'' 404) else Inr v) of
        Inl e \<Rightarrow> (Inl e, s)
      | Inr v \<Rightarrow>
          applyTransition ds effects v PENDING
            (seller_actor seller (case users (sv_db s) (iv_sellerId v) of None \<Rightarrow> None | Some u \<Rightarrow> us_stellarAddress u))
            ''seller_submitted'' empty_context now s)"

definition approveInvoice ::
    "bool \<Rightarrow> 'w effect list \<Rightarrow> string \<Rightarrow> string option \<Rightarrow> int \<Rightarrow> 'w svc \<Rightarrow> invoice result \<times> 'w svc" where
  "approveInvoice ds effects i actorId now s =
     (case find_invoice i (sv_db s) of
        Inl e \<Rightarrow> (Inl e, s)
      | Inr v \<Rightarrow> applyTransition ds effects v PUBLISHED (admin_of actorId) ''admin_approved'' empty_context now s)"

subsection \<open>Publishing a batch\<close>

type_synonym rejections = "(string \<times> string) list"

text \<open>One pass over the fetched invoices: what can be published, what cannot and why. A missing
  KYC approval ends the pass.\<close>

fun check_batch :: "string \<Rightarrow> int \<Rightarrow> db \<Rightarrow> string list \<Rightarrow> (invoice \<times> user) list \<Rightarrow> rejections \<Rightarrow>
    ((invoice \<times> user) list \<times> rejections) result" where
  "check_batch seller now d [] good bad = Inr (good, bad)"
| "check_batch seller now d (i # is) good bad =
     (case invoices d i of
        None \<Rightarrow> check_batch seller now d is good (bad @ [(i, ''invoice_not_found'')])
      | Some v \<Rightarrow>
          if iv_sellerId v \<noteq> seller
          then check_batch seller now d is good (bad @ [(i, ''unauthorized_invoice_access'')])
          else and_then (approved_seller d v) (\<lambda>u.
            if iv_status v \<noteq> DRAFT
            then check_batch seller now d is good (bad @ [(i, ''invalid_status_transition'')])
            else if validateInvoiceForPublish v now \<noteq> []
            then check_batch seller now d is good (bad @ [(i, ''invoice_not_publishable'')])
            else check_batch seller now d is (good @ [(v, u)]) bad))"

text \<open>The loop of transitions inside the one transaction.\<close>

fun transition_all :: "string \<Rightarrow> int \<Rightarrow> (invoice \<times> user) list \<Rightarrow> nat \<Rightarrow> db \<Rightarrow> error + (invoice_transition list \<times> db)" where
  "transition_all seller now [] ref d = Inr ([], d)"
| "transition_all seller now ((v, u) # rest) ref d =
     and_then (transition entityManagerTransitionStore v PUBLISHED (seller_actor seller (us_stellarAddress u))
                 ''seller_batch_published'' empty_context now ref d) (\<lambda>(t, d1).
       and_then (transition_all seller now rest (ref + 1) d1) (\<lambda>(ts, d2). Inr (t # ts, d2)))"

text \<open>\<open>now\<close> is the clock of the checks, \<open>now'\<close> that of the transaction. The error of a refused
  batch carries the rejections.\<close>

definition publishInvoicesBatch ::
    "bool \<Rightarrow> 'w effect list \<Rightarrow> string list \<Rightarrow> string \<Rightarrow> int \<Rightarrow> int \<Rightarrow> 'w svc \<Rightarrow>
     ((error \<times> rejections) + invoice list) \<times> 'w svc" where
  "publishInvoicesBatch dataSource effects invoiceIds seller now now' s =
     (if invoiceIds = [] then (Inl (ServiceError ''empty_batch'' 400, []), s)
      else if \<not> dataSource then (Inl (ServiceError ''batch_publish_unavailable'' 503, []), s)
      else case check_batch seller now (sv_db s) (unique invoiceIds) [] [] of
             Inl e \<Rightarrow> (Inl (e, []), s)
           | Inr (good, bad) \<Rightarrow>
               if bad \<noteq> [] then (Inl (ServiceError ''batch_publish_rejected'' 400, bad), s)
               else (case run_tx (transition_all seller now' good (sv_next s)) (sv_db s) of
                       (Inl e, d) \<Rightarrow> (Inl (e, []), s)
                     | (Inr ts, d) \<Rightarrow>
                         (Inr (map t_invoice ts),
                          s\<lparr>sv_db := d, sv_next := sv_next s + length ts,
                            sv_machine := foldl (\<lambda>m t. dispatch effects t m) (sv_machine s) ts\<rparr>)))"

subsection \<open>Documents\<close>

record upload_input =
  ul_invoiceId :: string
  ul_sellerId :: string
  ul_size :: nat

definition upload_read :: "upload_input \<Rightarrow> db \<Rightarrow> invoice result" where
  "upload_read inp d =
     (let i = js_trim (ul_invoiceId inp); seller = js_trim (ul_sellerId inp)
      in if i = [] \<or> seller = [] then Inl (ServiceError ''invalid_input'' 400)
         else if ul_size inp = 0 then Inl (ServiceError ''empty_file'' 400)
         else and_then (find_invoice i d) (\<lambda>v. if iv_sellerId v \<noteq> seller then Inl not_owner else Inr v))"

text \<open>What the upload to IPFS answers: the hash, or the error it raised.\<close>

definition upload_stored :: "string result \<Rightarrow> string result" where
  "upload_stored answer =
     (case answer of Inl (JsError _) \<Rightarrow> Inl (ServiceError ''ipfs_upload_failed'' 502) | _ \<Rightarrow> answer)"

definition upload_save :: "string \<Rightarrow> invoice \<Rightarrow> db \<Rightarrow> error + (invoice \<times> db)" where
  "upload_save hash v d = caught ''document_upload_failed'' (save_entity (v\<lparr>iv_ipfsHash := Some hash\<rparr>) d)"

definition uploadDocument :: "string result \<Rightarrow> upload_input \<Rightarrow> db \<Rightarrow> invoice result \<times> db" where
  "uploadDocument answer inp =
     run_tx (\<lambda>d. and_then (upload_read inp d) (\<lambda>v. and_then (upload_stored answer) (\<lambda>hash. upload_save hash v d)))"

text \<open>The promise of the signing service is returned without being awaited, so what it raises is
  not caught here.\<close>

record document_request =
  dq_invoiceId :: string
  dq_requesterId :: "string option"
  dq_requesterType :: "user_type option"
  dq_isAdmin :: bool

definition getDocumentUrl :: "(string \<Rightarrow> string result) \<Rightarrow> document_request \<Rightarrow> db \<Rightarrow> string result" where
  "getDocumentUrl sign_url q d =
     (let i = js_trim (dq_invoiceId q)
      in if i = [] then Inl (ServiceError ''invalid_input'' 400)
         else and_then (find_invoice i d) (\<lambda>v.
           if \<not> truthy (iv_ipfsHash v) then Inl (ServiceError ''document_not_found'' 404)
           else if \<not> dq_isAdmin q \<and> dq_requesterType q \<notin> {Some INVESTOR, Some BOTH} \<and> Some (iv_sellerId v) \<noteq> dq_requesterId q
           then Inl not_owner
           else sign_url (case iv_ipfsHash v of None \<Rightarrow> [] | Some h \<Rightarrow> h)))"

subsection \<open>The list cursor\<close>

text \<open>Base64, the ISO text of an instant, \<open>new Date(text)\<close> (\<open>None\<close> for an invalid date) and
  \<open>JSON.parse\<close> (\<open>None\<close> when it raises) belong to the runtime.\<close>

record cursor_codec =
  cc_encode :: "string \<Rightarrow> string"
  cc_decode :: "string \<Rightarrow> string"
  cc_iso :: "int \<Rightarrow> string"
  cc_date :: "string \<Rightarrow> int option"
  cc_json :: "string \<Rightarrow> native option"

definition encodeInvoiceCursor :: "cursor_codec \<Rightarrow> int \<Rightarrow> string \<Rightarrow> string" where
  "encodeInvoiceCursor cd createdAt i = cc_encode cd (cc_iso cd createdAt @ ''|'' @ i)"

definition json_cursor :: "cursor_codec \<Rightarrow> string \<Rightarrow> (int option \<times> string option) option" where
  "json_cursor cd text =
     (if text = [] \<or> hd text \<noteq> CHR ''{'' \<or> last text \<noteq> CHR ''}'' then None
      else case cc_json cd text of
        Some (NObj obj) \<Rightarrow>
          let raw = (case map_of obj ''createdAt'' of
                       None \<Rightarrow> map_of obj ''value'' | Some NNull \<Rightarrow> map_of obj ''value'' | x \<Rightarrow> x);
              date = (case raw of Some (NStr t) \<Rightarrow> cc_date cd t | Some (NInt n) \<Rightarrow> Some n | _ \<Rightarrow> None);
              i = (case map_of obj ''id'' of Some (NStr t) \<Rightarrow> or_else (if t = [] then None else Some t) None | _ \<Rightarrow> None)
          in if date \<noteq> None \<or> i \<noteq> None then Some (date, i) else None
      | _ \<Rightarrow> None)"

text \<open>\<open>JSON.parse\<close> that raises leaves the whole first attempt, the bar included.\<close>

definition json_raises :: "cursor_codec \<Rightarrow> string \<Rightarrow> bool" where
  "json_raises cd text \<longleftrightarrow> text \<noteq> [] \<and> hd text = CHR ''{'' \<and> last text = CHR ''}'' \<and> cc_json cd text = None"

definition bar_cursor :: "cursor_codec \<Rightarrow> string \<Rightarrow> (int option \<times> string option) option" where
  "bar_cursor cd text =
     (let datePart = takeWhile (\<lambda>c. c \<noteq> CHR ''|'') text;
          idPart = takeWhile (\<lambda>c. c \<noteq> CHR ''|'') (drop (length datePart + 1) text)
      in if CHR ''|'' \<notin> set text then None
         else case cc_date cd datePart of
                None \<Rightarrow> None
              | Some t \<Rightarrow> Some (Some t, if idPart = [] then None else Some idPart))"

definition is_hex :: "char \<Rightarrow> bool" where
  "is_hex c \<longleftrightarrow> (let n = of_char c :: nat in (48 \<le> n \<and> n \<le> 57) \<or> (97 \<le> n \<and> n \<le> 102) \<or> (65 \<le> n \<and> n \<le> 70))"

text \<open>The pattern of a UUID: groups of hexadecimal digits, the version digit from 1 to 5, the
  variant digit 8, 9, a or b.\<close>

definition is_uuid :: "string \<Rightarrow> bool" where
  "is_uuid s \<longleftrightarrow> length s = 36 \<and>
     (\<forall>k \<in> set [0..<36]. if k \<in> {8, 13, 18, 23} then s ! k = CHR ''-'' else is_hex (s ! k)) \<and>
     s ! 14 \<in> set ''12345'' \<and> s ! 19 \<in> set ''89abAB''"

definition decodeInvoiceCursor :: "cursor_codec \<Rightarrow> string \<Rightarrow> (int option \<times> string option) result" where
  "decodeInvoiceCursor cd cursor =
     (let trimmed = js_trim cursor; text = cc_decode cd trimmed
      in if trimmed = [] then Inl (ServiceError ''invalid_cursor'' 400)
         else case or_else (json_cursor cd text) (if json_raises cd text then None else bar_cursor cd text) of
           Some c \<Rightarrow> Inr c
         | None \<Rightarrow>
             if is_uuid trimmed then Inr (None, Some trimmed)
             else case cc_date cd trimmed of
               Some t \<Rightarrow> if CHR ''T'' \<in> set trimmed \<or> CHR ''-'' \<in> set trimmed then Inr (Some t, None)
                         else Inl (ServiceError ''invalid_cursor'' 400)
             | None \<Rightarrow> Inl (ServiceError ''invalid_cursor'' 400))"

subsection \<open>Reading\<close>

definition getInvoiceById :: "string \<Rightarrow> string option \<Rightarrow> db \<Rightarrow> invoice option result" where
  "getInvoiceById invoiceId seller d =
     (let i = js_trim invoiceId
      in if i = [] then Inr None
         else case invoices d i of
           None \<Rightarrow> Inr None
         | Some v \<Rightarrow> if truthy seller \<and> Some (iv_sellerId v) \<noteq> seller then Inl not_owner else Inr (Some v))"

definition status_of_text :: "string \<Rightarrow> invoice_status option" where
  "status_of_text t = map_of
     [(''draft'', DRAFT), (''pending'', PENDING), (''published'', PUBLISHED), (''funded'', FUNDED),
      (''settled'', SETTLED), (''cancelled'', CANCELLED), (''rejected'', REJECTED), (''failed'', FAILED)] t"

record seller_query =
  sq_sellerId :: "string option"
  sq_status :: "string option"
  sq_skip :: "int option"
  sq_take :: "int option"
  sq_cursor :: "string option option"
  sq_limit :: "int option"

record seller_page =
  sp_invoices :: "invoice list"
  sp_total :: nat
  sp_nextCursor :: "string option"
  sp_hasMore :: bool

definition clamp :: "int \<Rightarrow> int \<Rightarrow> int \<Rightarrow> nat" where
  "clamp lo hi x = nat (max lo (min x hi))"

definition invoice_key :: "invoice \<Rightarrow> int \<times> string" where
  "invoice_key v = (iv_createdAt v, iv_id v)"

definition newest_first :: "invoice list \<Rightarrow> invoice list" where
  "newest_first vs = isort_by (\<lambda>a b. desc_desc (invoice_key a) (invoice_key b)) vs"

text \<open>\<open>ORDER BY createdAt DESC\<close> alone; the order of rows of one instant is the scan's.\<close>

definition by_creation :: "invoice list \<Rightarrow> invoice list" where
  "by_creation vs = isort_by (\<lambda>a b. iv_createdAt a > iv_createdAt b) vs"

definition seller_matches :: "string \<Rightarrow> string option \<Rightarrow> invoice \<Rightarrow> bool" where
  "seller_matches seller status v \<longleftrightarrow> iv_sellerId v = seller \<and>
     (case (if truthy status then status_of_text (toLowerCase (js_trim (case status of None \<Rightarrow> [] | Some t \<Rightarrow> t))) else None) of
        None \<Rightarrow> True | Some st \<Rightarrow> iv_status v = st)"

definition past_seller_cursor :: "int option \<times> string option \<Rightarrow> invoice \<Rightarrow> bool" where
  "past_seller_cursor c v =
     (case c of
        (Some t, Some i) \<Rightarrow> iv_createdAt v < t \<or> (iv_createdAt v = t \<and> iv_id v < i)
      | (Some t, None) \<Rightarrow> iv_createdAt v < t
      | (None, Some i) \<Rightarrow> iv_id v < i
      | (None, None) \<Rightarrow> True)"

definition seller_cursor :: "cursor_codec \<Rightarrow> db \<Rightarrow> string option \<Rightarrow> (int option \<times> string option) result" where
  "seller_cursor cd d cursor =
     (case cursor of
        None \<Rightarrow> Inr (None, None)
      | Some text \<Rightarrow>
          if js_trim text = [] then Inr (None, None)
          else and_then (decodeInvoiceCursor cd text) (\<lambda>c.
            case c of
              (None, Some i) \<Rightarrow>
                (case invoices d i of
                   None \<Rightarrow> Inl (ServiceError ''invalid_cursor'' 400)
                 | Some v \<Rightarrow> Inr (Some (iv_createdAt v), Some (iv_id v)))
            | _ \<Rightarrow> Inr c))"

definition getInvoicesBySellerId :: "cursor_codec \<Rightarrow> seller_query \<Rightarrow> 'w svc \<Rightarrow> seller_page result" where
  "getInvoicesBySellerId cd q s =
     (let seller = js_trim (case sq_sellerId q of None \<Rightarrow> [] | Some t \<Rightarrow> t);
          matching = filter (seller_matches seller (sq_status q)) (live s);
          size = or_else (sq_take q) (sq_limit q)
      in if seller = [] then Inl (ServiceError ''invalid_seller_id'' 400)
         else case sq_cursor q of
           Some cursor \<Rightarrow>
             and_then (seller_cursor cd (sv_db s) cursor) (\<lambda>c.
               let limit = clamp 1 100 (case or_else (sq_limit q) (sq_take q) of None \<Rightarrow> 20 | Some n \<Rightarrow> n);
                   rows = take (limit + 1) (newest_first (filter (past_seller_cursor c) matching));
                   items = page_items limit rows
               in Inr \<lparr>sp_invoices = items, sp_total = length matching,
                       sp_nextCursor = (if page_more limit rows \<and> items \<noteq> []
                         then Some (encodeInvoiceCursor cd (iv_createdAt (last items)) (iv_id (last items))) else None),
                       sp_hasMore = page_more limit rows\<rparr>)
         | None \<Rightarrow>
             let skip = clamp 0 10000 (case sq_skip q of None \<Rightarrow> 0 | Some n \<Rightarrow> n);
                 n = clamp 1 100 (case size of None \<Rightarrow> 20 | Some n \<Rightarrow> n);
                 rows = take n (drop skip (by_creation matching))
             in Inr \<lparr>sp_invoices = rows, sp_total = length matching, sp_nextCursor = None,
                     sp_hasMore = skip + length rows < length matching\<rparr>)"

definition getPendingInvoicesForAdmin :: "int option \<Rightarrow> int option \<Rightarrow> invoice_status option \<Rightarrow> 'w svc \<Rightarrow> seller_page" where
  "getPendingInvoicesForAdmin limit_opt skip_opt status s =
     (let n = clamp 1 100 (case limit_opt of None \<Rightarrow> 20 | Some n \<Rightarrow> n);
          skip = clamp 0 10000 (case skip_opt of None \<Rightarrow> 0 | Some n \<Rightarrow> n);
          matching = filter (\<lambda>v. iv_status v = (case status of None \<Rightarrow> PENDING | Some st \<Rightarrow> st)) (live s);
          rows = take n (drop skip (by_creation matching))
      in \<lparr>sp_invoices = rows, sp_total = length matching, sp_nextCursor = None,
          sp_hasMore = skip + length rows < length matching\<rparr>)"

definition getInvoiceStatusHistory :: "bool \<Rightarrow> string \<Rightarrow> string \<Rightarrow> db \<Rightarrow> status_history list result" where
  "getInvoiceStatusHistory dataSource i seller d =
     (case invoices d i of
        None \<Rightarrow> Inl (ServiceError ''invoice_not_found'' 404)
      | Some v \<Rightarrow>
          if iv_sellerId v \<noteq> seller then Inl (ServiceError ''invoice_not_found'' 404)
          else if \<not> dataSource then Inr []
          else Inr (filter (\<lambda>h. h_invoiceId h = i) (history d)))"

record token_holder =
  th_wallet :: string
  th_amount :: amt
  th_share :: int

definition short_wallet :: "string \<Rightarrow> string" where
  "short_wallet address =
     (if length address > 8 then take 4 address @ ''...'' @ drop (length address - 4) address else address)"

definition token_holder_of :: "decimal_lib \<Rightarrow> db \<Rightarrow> decimal \<Rightarrow> investment \<Rightarrow> token_holder result" where
  "token_holder_of D d totalInvested m =
     (case users d (im_investorId m) of
        None \<Rightarrow> Inl (JsError ''TypeError'')
      | Some u \<Rightarrow>
          let percentage = (if totalInvested = 0 then 0
                            else fixd D 2 (dtimes D (ddiv D (dec (im_amount m)) totalInvested) 100))
          in Inr \<lparr>th_wallet = short_wallet (case us_stellarAddress u of None \<Rightarrow> [] | Some a \<Rightarrow> a),
                  th_amount = im_amount m, th_share = toFixed2 D percentage\<rparr>)"

definition getInvoiceTokenHolders :: "decimal_lib \<Rightarrow> bool \<Rightarrow> string \<Rightarrow> string \<Rightarrow> db \<Rightarrow> token_holder list result" where
  "getInvoiceTokenHolders D dataSource i seller d =
     and_then (find_invoice i d) (\<lambda>v.
       if iv_sellerId v \<noteq> seller then Inl (ServiceError ''forbidden'' 403)
       else if iv_status v = DRAFT then Inl (ServiceError ''invalid_invoice_status'' 400)
       else if \<not> dataSource then Inl (ServiceError ''internal_error'' 500)
       else let ms = filter (\<lambda>m. im_invoiceId m = i) (investments d)
            in caught ''token_holders_fetch_failed''
                 (map_result (token_holder_of D d (dsum D (map (\<lambda>m. dec (im_amount m)) ms))) ms))"

definition getInvoiceEscrowStatus :: "string \<Rightarrow> db \<Rightarrow> (string \<times> string \<times> invoice_status) result" where
  "getInvoiceEscrowStatus i d =
     and_then (find_invoice i d) (\<lambda>v.
       case iv_smartContractId v of
         None \<Rightarrow> Inl (ServiceError ''no_escrow_contract'' 404)
       | Some c \<Rightarrow> if c = [] then Inl (ServiceError ''no_escrow_contract'' 404) else Inr (iv_id v, c, iv_status v))"

end
