(* ===== verification/Invoice_Calls.thy ===== *)
theory Invoice_Calls
  imports Invoice_Service Investing_Steps
begin

section \<open>What the invoice service guarantees\<close>

text \<open>
  The list of a seller page by page, the batch that publishes all or nothing, the books after any
  sequence of calls, and what an upload or an update does that saves an entity another request has
  changed meanwhile.
\<close>

subsection \<open>The list cursor\<close>

text \<open>What the cursor relies on: base64 and the ISO text of an instant can be read back, base64 has
  no white space and the ISO text neither a bar nor a brace in front.\<close>

definition valid_instant :: "int \<Rightarrow> bool" where
  "valid_instant t \<longleftrightarrow> \<bar>t\<bar> \<le> 8640000000000000"

definition codec_ok :: "cursor_codec \<Rightarrow> bool" where
  "codec_ok cd \<longleftrightarrow>
     (\<forall>text. cc_decode cd (cc_encode cd text) = text) \<and>
     (\<forall>text. text \<noteq> [] \<longrightarrow> cc_encode cd text \<noteq> [] \<and> js_trim (cc_encode cd text) = cc_encode cd text) \<and>
     (\<forall>t. valid_instant t \<longrightarrow> cc_date cd (cc_iso cd t) = Some t \<and> CHR ''|'' \<notin> set (cc_iso cd t) \<and>
        (\<exists>c r. cc_iso cd t = c # r \<and> c \<noteq> CHR ''{''))"

lemma takeWhile_bar: "CHR ''|'' \<notin> set a \<Longrightarrow> takeWhile (\<lambda>c. c \<noteq> CHR ''|'') (a @ CHR ''|'' # b) = a"
  "CHR ''|'' \<notin> set a \<Longrightarrow> takeWhile (\<lambda>c. c \<noteq> CHR ''|'') a = a"
  by (auto simp: takeWhile_tail intro: takeWhile_eq_all_conv [THEN iffD2])

lemma bar_text:
  assumes "CHR ''|'' \<notin> set a" "CHR ''|'' \<notin> set b" "cc_date cd a = Some t" "b \<noteq> []"
  shows "bar_cursor cd (a @ CHR ''|'' # b) = Some (Some t, Some b)"
  using assms by (simp add: bar_cursor_def takeWhile_bar Let_def)

lemma cursor_text:
  assumes "codec_ok cd" "valid_instant t" "i \<noteq> []" "CHR ''|'' \<notin> set i"
  shows "decodeInvoiceCursor cd (encodeInvoiceCursor cd t i) = Inr (Some t, Some i)"
    and "js_trim (encodeInvoiceCursor cd t i) \<noteq> []"
proof -
  obtain c r where iso: "cc_iso cd t = c # r" "c \<noteq> CHR ''{''" "CHR ''|'' \<notin> set (cc_iso cd t)"
    "cc_date cd (cc_iso cd t) = Some t"
    using assms(1,2) unfolding codec_ok_def by blast
  let ?text = "cc_iso cd t @ CHR ''|'' # i"
  have e: "js_trim (cc_encode cd ?text) = cc_encode cd ?text" "cc_encode cd ?text \<noteq> []"
    "cc_decode cd (cc_encode cd ?text) = ?text"
    using assms(1) unfolding codec_ok_def by blast+
  have "json_cursor cd ?text = None" "\<not> json_raises cd ?text"
    using iso(1,2) by (simp_all add: json_cursor_def json_raises_def)
  then show "decodeInvoiceCursor cd (encodeInvoiceCursor cd t i) = Inr (Some t, Some i)"
    using e bar_text [of _ i cd t, OF iso(3) assms(4) iso(4) assms(3)]
    by (simp add: decodeInvoiceCursor_def encodeInvoiceCursor_def or_else_def Let_def)
  show "js_trim (encodeInvoiceCursor cd t i) \<noteq> []" using e by (simp add: encodeInvoiceCursor_def)
qed

text \<open>The cursor of an invoice is read back as its creation time and its identifier.\<close>

theorem invoice_cursor_roundtrip:
  assumes "codec_ok cd" "valid_instant t" "i \<noteq> []" "CHR ''|'' \<notin> set i"
  shows "decodeInvoiceCursor cd (encodeInvoiceCursor cd t i) = Inr (Some t, Some i)"
  by (rule cursor_text [OF assms])

text \<open>A runtime that behaves so: quotes for base64, a signed tally for the instant.\<close>

definition tally_codec :: cursor_codec where
  "tally_codec = \<lparr>cc_encode = (\<lambda>s. CHR ''x'' # s @ ''x''), cc_decode = (\<lambda>s. butlast (tl s)),
     cc_iso = (\<lambda>t. (if t < 0 then CHR ''-'' else CHR ''+'') # replicate (nat \<bar>t\<bar>) CHR ''1''),
     cc_date = (\<lambda>s. if s = [] then None else Some (if hd s = CHR ''-'' then - int (length (tl s)) else int (length (tl s)))),
     cc_json = (\<lambda>s. None)\<rparr>"

lemma tally_codec_ok: "codec_ok tally_codec"
  by (auto simp: codec_ok_def tally_codec_def js_trim_def is_ws_def)

theorem invoice_cursor_roundtrip_witness:
  "decodeInvoiceCursor tally_codec (encodeInvoiceCursor tally_codec 3 ''i1'') = Inr (Some 3, Some ''i1'')"
  by (rule invoice_cursor_roundtrip [OF tally_codec_ok]) (simp_all add: valid_instant_def)

subsection \<open>The pages of a seller\<close>

definition seller_pages :: "cursor_codec \<Rightarrow> seller_query \<Rightarrow> 'w svc \<Rightarrow> string option \<Rightarrow> (invoice list \<times> string option) result" where
  "seller_pages cd q s cursor =
     and_then (getInvoicesBySellerId cd (q\<lparr>sq_cursor := Some cursor\<rparr>) s) (\<lambda>p. Inr (sp_invoices p, sp_nextCursor p))"

definition rows_ok :: "'w svc \<Rightarrow> bool" where
  "rows_ok s \<longleftrightarrow> distinct (sv_ids s) \<and> keyed (sv_db s) \<and>
     (\<forall>v \<in> set (live s). valid_instant (iv_createdAt v) \<and> iv_id v \<noteq> [] \<and> CHR ''|'' \<notin> set (iv_id v))"

lemma live_rows: "set (live s) = {v. \<exists>i \<in> set (sv_ids s). invoices (sv_db s) i = Some v}"
  by (force simp: live_def List.map_filter_def)

lemma distinct_live: "distinct (sv_ids s) \<Longrightarrow> keyed (sv_db s) \<Longrightarrow> distinct (map iv_id (live s))"
proof -
  assume d: "distinct (sv_ids s)" and k: "keyed (sv_db s)"
  have "map iv_id (List.map_filter (invoices (sv_db s)) is) = filter (\<lambda>i. invoices (sv_db s) i \<noteq> None) is" for "is"
    using k by (induction "is") (auto simp: keyed_def split: option.splits)
  then show ?thesis using d by (simp add: live_def)
qed

lemma page_of_seller:
  assumes "js_trim (case sq_sellerId q of None \<Rightarrow> [] | Some t \<Rightarrow> t) = seller" "seller \<noteq> []"
    and "seller_cursor cd (sv_db s) cursor = Inr c"
  shows "seller_pages cd q s cursor =
     (let matching = filter (seller_matches seller (sq_status q)) (live s);
          limit = clamp 1 100 (case or_else (sq_limit q) (sq_take q) of None \<Rightarrow> 20 | Some n \<Rightarrow> n);
          vs = newest_first (filter (past_seller_cursor c) matching)
      in Inr (take limit vs, if length vs > limit
                then Some (encodeInvoiceCursor cd (iv_createdAt (last (take limit vs))) (iv_id (last (take limit vs)))) else None))"
proof -
  let ?limit = "clamp 1 100 (case or_else (sq_limit q) (sq_take q) of None \<Rightarrow> 20 | Some n \<Rightarrow> n)"
  have "0 < ?limit" by (simp add: clamp_def)
  then have "?limit < length vs \<Longrightarrow> take ?limit vs \<noteq> []" for vs :: "invoice list" by auto
  then show ?thesis
    using assms
    by (simp add: seller_pages_def getInvoicesBySellerId_def page_items_take [unfolded Suc_eq_plus1 [symmetric]]
        page_more_take [unfolded Suc_eq_plus1 [symmetric]] Let_def)
qed

text \<open>A client that starts with the empty cursor and follows \<open>nextCursor\<close> receives the invoices of
  the seller with the wanted status, newest first and each exactly once, also where creation times
  coincide, in at most one request more than there are invoices.\<close>

theorem seller_pages_list_every_invoice_once:
  assumes "codec_ok cd" "rows_ok s" "js_trim seller = seller" "seller \<noteq> []" "sq_sellerId q = Some seller"
    and "length (live s) < fuel"
  shows "walk_by fuel (seller_pages cd q s) None = Some (newest_first (filter (seller_matches seller (sq_status q)) (live s)))"
proof -
  let ?ms = "filter (seller_matches seller (sq_status q)) (live s)"
  let ?code = "\<lambda>v. encodeInvoiceCursor cd (iv_createdAt v) (iv_id v)"
  have seller: "js_trim (case sq_sellerId q of None \<Rightarrow> [] | Some t \<Rightarrow> t) = seller" using assms(3,5) by simp
  have cursor: "seller_cursor cd (sv_db s) (Some (?code v)) = Inr (Some (iv_createdAt v), Some (iv_id v))"
    if "v \<in> set ?ms" for v
    using that assms(2) cursor_text [OF assms(1), of "iv_createdAt v" "iv_id v"]
    by (simp add: rows_ok_def seller_cursor_def)
  have past: "past_seller_cursor (Some (iv_createdAt v), Some (iv_id v)) = (\<lambda>w. desc_desc (invoice_key v) (invoice_key w))" for v
    by (auto simp: past_seller_cursor_def desc_desc_def invoice_key_def fun_eq_iff)
  have "distinct (map iv_id ?ms)"
    using distinct_live [of s] assms(2) by (auto simp: rows_ok_def intro: distinct_map_filter)
  then have d: "distinct (map invoice_key ?ms)" by (auto simp: distinct_map inj_on_def invoice_key_def)
  show ?thesis unfolding newest_first_def
  proof (rule desc_desc.walk_all [OF d])
    show "0 < clamp 1 100 (case or_else (sq_limit q) (sq_take q) of None \<Rightarrow> 20 | Some n \<Rightarrow> n)" by (simp add: clamp_def)
    show "length ?ms < fuel" using assms(6) by (meson le_less_trans length_filter_le)
  next
    fix c P
    assume "c = None \<and> P = (\<lambda>y. True) \<or> (\<exists>x \<in> set ?ms. c = Some (?code x) \<and> P = (\<lambda>y. desc_desc (invoice_key x) (invoice_key y)))"
    then obtain c' where c': "seller_cursor cd (sv_db s) c = Inr c'" "past_seller_cursor c' = P"
    proof
      assume "c = None \<and> P = (\<lambda>y. True)"
      then show thesis using that [of "(None, None)"] by (simp add: seller_cursor_def past_seller_cursor_def fun_eq_iff)
    next
      assume "\<exists>x \<in> set ?ms. c = Some (?code x) \<and> P = (\<lambda>y. desc_desc (invoice_key x) (invoice_key y))"
      then show thesis using that cursor past by blast
    qed
    show "seller_pages cd q s c =
       (let vs = isort_by (\<lambda>a b. desc_desc (invoice_key a) (invoice_key b)) (filter P ?ms)
        in Inr (take (clamp 1 100 (case or_else (sq_limit q) (sq_take q) of None \<Rightarrow> 20 | Some n \<Rightarrow> n)) vs,
          if clamp 1 100 (case or_else (sq_limit q) (sq_take q) of None \<Rightarrow> 20 | Some n \<Rightarrow> n) < length vs
          then Some (?code (last (take (clamp 1 100 (case or_else (sq_limit q) (sq_take q) of None \<Rightarrow> 20 | Some n \<Rightarrow> n)) vs)))
          else None))"
      unfolding page_of_seller [OF seller assms(4) c'(1)] newest_first_def Let_def c'(2) ..
  qed
qed

definition numbered :: "string \<Rightarrow> string \<Rightarrow> invoice_status \<Rightarrow> invoice" where
  "numbered i number st = sample_invoice\<lparr>iv_id := i, iv_invoiceNumber := number, iv_status := st\<rparr>"

definition three_invoices :: "unit svc" where
  "three_invoices = \<lparr>sv_db = fresh_db [numbered ''a'' ''N1'' DRAFT, numbered ''b'' ''N2'' DRAFT, numbered ''c'' ''N3'' PUBLISHED],
     sv_ids = [''a'', ''b'', ''c''], sv_machine = \<lparr>m_dispatched = {}, m_world = (), m_warnings = []\<rparr>, sv_next = 0\<rparr>"

lemma three_live: "live three_invoices = [numbered ''a'' ''N1'' DRAFT, numbered ''b'' ''N2'' DRAFT, numbered ''c'' ''N3'' PUBLISHED]"
  by (simp add: live_def three_invoices_def fresh_db_def numbered_def sample_invoice_def map_filter_simps)

lemma three_ok: "rows_ok three_invoices"
  by (auto simp: rows_ok_def three_live keyed_def)
     (auto simp: three_invoices_def fresh_db_def numbered_def sample_invoice_def valid_instant_def split: if_splits)

definition one_by_one :: seller_query where
  "one_by_one = \<lparr>sq_sellerId = Some ''s1'', sq_status = None, sq_skip = None, sq_take = None, sq_cursor = None, sq_limit = Some 1\<rparr>"

theorem seller_pages_list_every_invoice_once_witness:
  "map_option (map iv_id) (walk_by 4 (seller_pages tally_codec one_by_one three_invoices) None) = Some [''c'', ''b'', ''a'']"
proof -
  have "walk_by 4 (seller_pages tally_codec one_by_one three_invoices) None =
      Some (newest_first (filter (seller_matches ''s1'' (sq_status one_by_one)) (live three_invoices)))"
    by (rule seller_pages_list_every_invoice_once [OF tally_codec_ok three_ok])
       (simp_all add: one_by_one_def three_live js_trim_def is_ws_def)
  then show ?thesis
    by (simp add: three_live seller_matches_def one_by_one_def truthy_def numbered_def sample_invoice_def
        newest_first_def desc_desc_def invoice_key_def)
qed

subsection \<open>Publishing a batch\<close>

definition batch_ready :: "db \<Rightarrow> string \<Rightarrow> int \<Rightarrow> string \<Rightarrow> bool" where
  "batch_ready d seller now i \<longleftrightarrow>
     (case invoices d i of
        None \<Rightarrow> False
      | Some v \<Rightarrow> iv_sellerId v = seller \<and> approved_seller d v \<noteq> Inl kyc_required \<and> iv_status v = DRAFT \<and>
          validateInvoiceForPublish v now = [])"

definition published_row :: "invoice \<Rightarrow> invoice" where
  "published_row v = v\<lparr>iv_status := PUBLISHED, iv_version := iv_version v + 1\<rparr>"

definition batch_entry :: "string \<Rightarrow> string \<Rightarrow> status_history" where
  "batch_entry seller i = \<lparr>h_invoiceId = i, h_from = DRAFT, h_to = PUBLISHED, h_role = Seller, h_actorId = Some seller,
     h_trigger = ''seller_batch_published'', h_reason = None\<rparr>"

definition loaded :: "db \<Rightarrow> string \<Rightarrow> invoice \<times> user \<Rightarrow> bool" where
  "loaded d i p \<longleftrightarrow> invoices d i = Some (fst p) \<and> users d (iv_sellerId (fst p)) = Some (snd p)"

lemma check_batch_result:
  assumes "check_batch seller now d is good bad = Inr (good', bad')"
  shows "map fst bad' = map fst bad @ filter (\<lambda>i. \<not> batch_ready d seller now i) is \<and>
     (\<exists>ps. good' = good @ ps \<and> list_all2 (loaded d) (filter (batch_ready d seller now) is) ps)"
  using assms
proof (induction "is" arbitrary: good bad)
  case (Cons i "is")
  show ?case
  proof (cases "invoices d i")
    case None
    then show ?thesis using Cons by (auto simp: batch_ready_def)
  next
    case (Some v)
    show ?thesis
    proof (cases "iv_sellerId v = seller")
      case False
      then show ?thesis using Cons Some by (auto simp: batch_ready_def)
    next
      case True
      then obtain u where u: "approved_seller d v = Inr u"
        using Cons.prems Some by (auto simp: result_simps)
      show ?thesis
      proof (cases "iv_status v = DRAFT \<and> validateInvoiceForPublish v now = []")
        case True
        then have r: "batch_ready d seller now i" "loaded d i (v, u)"
          using Some u \<open>iv_sellerId v = seller\<close>
          by (auto simp: batch_ready_def loaded_def approved_seller_def split: option.splits if_splits)
        then show ?thesis using Cons.IH [of "good @ [(v, u)]" bad] Cons.prems Some u True \<open>iv_sellerId v = seller\<close>
          by auto
      next
        case False
        then have "\<not> batch_ready d seller now i" using Some by (auto simp: batch_ready_def)
        then show ?thesis using Cons.IH Cons.prems Some u False \<open>iv_sellerId v = seller\<close> by (auto split: if_splits)
      qed
    qed
  qed
qed simp

lemma check_batch_ready:
  assumes "\<forall>i \<in> set is. batch_ready d seller now i"
  shows "\<exists>ps. check_batch seller now d is good bad = Inr (good @ ps, bad)"
  using assms
proof (induction "is" arbitrary: good)
  case (Cons i "is")
  then obtain v where v: "invoices d i = Some v" "iv_sellerId v = seller" "iv_status v = DRAFT"
    "validateInvoiceForPublish v now = []" "approved_seller d v \<noteq> Inl kyc_required"
    by (auto simp: batch_ready_def split: option.splits)
  then obtain u where "approved_seller d v = Inr u" by (auto simp: approved_seller_def split: option.splits if_splits)
  then show ?case using v Cons.IH [of "good @ [(v, u)]"] Cons.prems by auto
qed simp

lemma publish_transition:
  assumes "iv_sellerId v = seller" "iv_status v = DRAFT" "validateInvoiceForPublish v now = []"
  shows "\<exists>t. transition entityManagerTransitionStore v PUBLISHED (seller_actor seller w) ''seller_batch_published'' empty_context now ref d =
      Inr (t, d\<lparr>invoices := (invoices d)(iv_id v \<mapsto> published_row v), history := history d @ [batch_entry seller (iv_id v)]\<rparr>) \<and>
      t_invoice t = published_row v"
proof -
  have a: "assertTransition v PUBLISHED (seller_actor seller w) empty_context now = Inr ()"
    using assms by (simp add: assertTransition_def findRule_def rule_table seller_actor_def guard_holds_def Let_def)
  then obtain t d' where t: "transition entityManagerTransitionStore v PUBLISHED (seller_actor seller w)
      ''seller_batch_published'' empty_context now ref d = Inr (t, d')"
    using store_saves [of PUBLISHED v "seller_actor seller w" empty_context now] by fastforce
  then show ?thesis
    using transition_effect(3,4) [OF t] assms
    by (simp add: apply_status_def published_row_def history_entry_def batch_entry_def seller_actor_def or_else_def
        trimmed_reason_def empty_context_def)
qed

lemma transition_all_rows:
  assumes "\<forall>p \<in> set ps. iv_sellerId (fst p) = seller \<and> iv_status (fst p) = DRAFT \<and> validateInvoiceForPublish (fst p) now = []"
  shows "\<exists>ts. transition_all seller now ps ref d =
      Inr (ts, d\<lparr>invoices := foldl (\<lambda>m v. m(iv_id v \<mapsto> published_row v)) (invoices d) (map fst ps),
                history := history d @ map (batch_entry seller \<circ> iv_id \<circ> fst) ps\<rparr>) \<and>
      map t_invoice ts = map (published_row \<circ> fst) ps"
  using assms
proof (induction ps arbitrary: ref d)
  case (Cons p ps)
  obtain v u where p: "p = (v, u)" by force
  obtain t where t: "transition entityManagerTransitionStore v PUBLISHED (seller_actor seller (us_stellarAddress u))
      ''seller_batch_published'' empty_context now ref d =
      Inr (t, d\<lparr>invoices := (invoices d)(iv_id v \<mapsto> published_row v), history := history d @ [batch_entry seller (iv_id v)]\<rparr>)"
    "t_invoice t = published_row v"
    using publish_transition [of v seller now "us_stellarAddress u" ref d] Cons.prems p by auto
  from Cons.IH [of "ref + 1" "d\<lparr>invoices := (invoices d)(iv_id v \<mapsto> published_row v), history := history d @ [batch_entry seller (iv_id v)]\<rparr>"] Cons.prems
  show ?case using t p by auto
qed simp

lemma transition_all_shape:
  assumes "transition_all seller now ps ref d = Inr (ts, d')"
  shows "\<forall>p \<in> set ps. iv_sellerId (fst p) = seller \<and> validateInvoiceForPublish (fst p) now = []"
  using assms
proof (induction ps arbitrary: ref d ts)
  case (Cons p ps)
  obtain v u where p: "p = (v, u)" by force
  obtain t d1 ts' where t: "transition entityManagerTransitionStore v PUBLISHED (seller_actor seller (us_stellarAddress u))
      ''seller_batch_published'' empty_context now ref d = Inr (t, d1)" "transition_all seller now ps (ref + 1) d1 = Inr (ts', d')"
    using Cons.prems p by (auto simp: result_simps)
  have "iv_sellerId v = seller \<and> validateInvoiceForPublish v now = []"
    using transition_effect(1,2) [OF t(1)] by (auto simp: rule_table seller_actor_def guard_holds_def)
  then show ?case using Cons.IH [OF t(2)] p by simp
qed simp

lemma foldl_rows:
  assumes "distinct (map iv_id vs)"
  shows "foldl (\<lambda>m v. m(iv_id v \<mapsto> published_row v)) m vs i =
     (case find (\<lambda>v. iv_id v = i) vs of None \<Rightarrow> m i | Some v \<Rightarrow> Some (published_row v))"
  using assms
proof (induction vs arbitrary: m)
  case (Cons v vs)
  have "find (\<lambda>v. iv_id v = i) vs = None" if "iv_id v = i"
  proof -
    have "\<forall>w \<in> set vs. iv_id w \<noteq> i" using that Cons.prems by simp (metis image_eqI)
    then show ?thesis by (simp add: find_None_iff)
  qed
  then show ?case using Cons by auto
qed simp

definition publish_rows :: "string list \<Rightarrow> string \<Rightarrow> db \<Rightarrow> db" where
  "publish_rows is seller d = d\<lparr>
     invoices := (\<lambda>i. if i \<in> set is then map_option published_row (invoices d i) else invoices d i),
     history := history d @ map (batch_entry seller) is\<rparr>"

lemma loaded_ids:
  assumes "list_all2 (loaded d) is ps" "keyed d"
  shows "map (iv_id \<circ> fst) ps = is" "\<forall>p \<in> set ps. invoices d (iv_id (fst p)) = Some (fst p)"
  using assms(1)
  by (induction rule: list_all2_induct) (use assms(2) in \<open>auto simp: loaded_def keyed_def\<close>)

lemma foldl_published:
  assumes "list_all2 (loaded d) is ps" "keyed d" "distinct is"
  shows "foldl (\<lambda>m v. m(iv_id v \<mapsto> published_row v)) (invoices d) (map fst ps) =
     (\<lambda>i. if i \<in> set is then map_option published_row (invoices d i) else invoices d i)"
proof
  fix i
  note ids = loaded_ids [OF assms(1,2)]
  have dist: "distinct (map iv_id (map fst ps))" using ids(1) assms(3) by simp
  have "find (\<lambda>v. iv_id v = i) (map fst ps) = (if i \<in> set is then invoices d i else None)"
  proof (cases "i \<in> set is")
    case True
    then obtain p where p: "p \<in> set ps" "iv_id (fst p) = i" using ids(1) by (metis (no_types, lifting) comp_apply imageE image_set)
    then obtain v where v: "find (\<lambda>v. iv_id v = i) (map fst ps) = Some v" by (fastforce simp: find_None_iff dest: not_None_eq [THEN iffD1])
    then have "v \<in> fst ` set ps" "iv_id v = i" using find_SomeD [OF v] by auto
    then show ?thesis using ids(2) v True by force
  next
    case False
    then have "find (\<lambda>v. iv_id v = i) (map fst ps) = None"
      using ids(1) by (force simp: find_None_iff)
    then show ?thesis using False by simp
  qed
  then show "foldl (\<lambda>m v. m(iv_id v \<mapsto> published_row v)) (invoices d) (map fst ps) i =
      (if i \<in> set is then map_option published_row (invoices d i) else invoices d i)"
    unfolding foldl_rows [OF dist] using ids assms(1)
    by (auto simp: list_all2_iff split: option.splits)
qed

lemma check_batch_error: "check_batch seller now d is good bad = Inl e \<Longrightarrow> e = kyc_required"
proof (induction "is" arbitrary: good bad)
  case (Cons i "is")
  then show ?case by (auto simp: result_simps approved_seller_def split: option.splits if_splits)
qed simp

lemma transition_all_error: "transition_all seller now ps ref d = Inl e \<Longrightarrow> e \<noteq> ServiceError ''batch_publish_rejected'' 400"
proof (induction ps arbitrary: ref d)
  case (Cons p ps)
  obtain v u where p: "p = (v, u)" by force
  have "transition entityManagerTransitionStore v PUBLISHED (seller_actor seller w) trig ctx now ref d \<noteq>
      Inl (ServiceError ''batch_publish_rejected'' 400)" for w trig ctx
    by (auto simp: transition_def assertTransition_def findRule_def rule_table result_simps Let_def
        entityManagerTransitionStore_def orm_save_invoice_def apply_status_def split: if_splits option.splits)
  then show ?case using Cons p by (auto simp: result_simps)
qed simp

text \<open>C12: publishing a batch is all or nothing. When it succeeds, every invoice named is one of the
  seller's drafts that passed every check and exactly these become published, each with one
  history row, and nothing else in the database changes; when it fails, whatever the reason,
  nothing changes, and a refusal names exactly the invoices that cannot be published. A batch whose
  invoices all pass succeeds.\<close>

theorem batch_publish_is_all_or_nothing:
  assumes "keyed (sv_db s)" "publishInvoicesBatch True effects ids seller now now' s = (r, s')"
  shows "(\<forall>e. r = Inl e \<longrightarrow> s' = s) \<and>
     (\<forall>bad. r = Inl (ServiceError ''batch_publish_rejected'' 400, bad) \<longrightarrow>
        map fst bad = filter (\<lambda>i. \<not> batch_ready (sv_db s) seller now i) (unique ids)) \<and>
     (\<forall>vs. r = Inr vs \<longrightarrow> ids \<noteq> [] \<and> (\<forall>i \<in> set ids. batch_ready (sv_db s) seller now i) \<and>
        map iv_id vs = unique ids \<and> sv_db s' = publish_rows (unique ids) seller (sv_db s)) \<and>
     (ids \<noteq> [] \<and> now' = now \<and> (\<forall>i \<in> set ids. batch_ready (sv_db s) seller now i) \<longrightarrow> (\<exists>vs. r = Inr vs))"
proof -
  let ?d = "sv_db s" and ?ready = "batch_ready (sv_db s) seller now"
  note run = assms(2) [unfolded publishInvoicesBatch_def]
  show ?thesis
  proof (intro conjI allI impI)
    fix e assume "r = Inl e"
    then show "s' = s" using run by (auto split: if_splits sum.splits prod.splits)
  next
    fix bad assume r: "r = Inl (ServiceError ''batch_publish_rejected'' 400, bad)"
    then obtain good bad' where c: "check_batch seller now ?d (unique ids) [] [] = Inr (good, bad')"
      using run check_batch_error [of seller now ?d "unique ids" "[]" "[]"]
      by (auto simp: kyc_required_def split: if_splits sum.splits prod.splits)
    then have "bad' = bad" using run r transition_all_error [of seller now' good "sv_next s" ?d]
      by (auto simp: run_tx_def split: if_splits sum.splits prod.splits)
    then show "map fst bad = filter (\<lambda>i. \<not> ?ready i) (unique ids)" using check_batch_result [OF c] by simp
  next
    fix vs assume r: "r = Inr vs"
    then obtain good ts where c: "check_batch seller now ?d (unique ids) [] [] = Inr (good, [])"
      and t: "transition_all seller now' good (sv_next s) ?d = Inr (ts, sv_db s')" "vs = map t_invoice ts" "ids \<noteq> []"
      using run by (auto simp: run_tx_def split: if_splits sum.splits prod.splits)
    have ready: "\<forall>i \<in> set ids. ?ready i" using check_batch_result [OF c] by (metis append_Nil filter_empty_conv list.map_disc_iff unique_simps(1))
    then have "list_all2 (loaded ?d) (unique ids) good" using check_batch_result [OF c] by (simp add: filter_True)
    then have rows: "map (iv_id \<circ> fst) good = unique ids" "\<forall>p \<in> set good. invoices ?d (iv_id (fst p)) = Some (fst p)"
      and written: "foldl (\<lambda>m v. m(iv_id v \<mapsto> published_row v)) (invoices ?d) (map fst good) =
        (\<lambda>i. if i \<in> set (unique ids) then map_option published_row (invoices ?d i) else invoices ?d i)"
      using loaded_ids [OF _ assms(1)] foldl_published [OF _ assms(1)] by auto
    have "iv_id (fst p) \<in> set ids" if "p \<in> set good" for p using rows(1) that by (metis comp_apply image_eqI image_set unique_simps(1))
    then have "\<forall>p \<in> set good. iv_sellerId (fst p) = seller \<and> iv_status (fst p) = DRAFT \<and> validateInvoiceForPublish (fst p) now' = []"
      using ready rows(2) transition_all_shape [OF t(1)] by (fastforce simp: batch_ready_def)
    from transition_all_rows [OF this, of "sv_next s" ?d] t(1)
    have d': "sv_db s' = publish_rows (unique ids) seller ?d" and ts: "map t_invoice ts = map (published_row \<circ> fst) good"
      using written rows(1) by (auto simp: publish_rows_def simp flip: map_map)
    show "ids \<noteq> []" by (rule t(3))
    show "sv_db s' = publish_rows (unique ids) seller ?d" by (rule d')
    show "\<forall>i \<in> set ids. ?ready i" by (rule ready)
    have "map iv_id vs = map (iv_id \<circ> fst) good" unfolding t(2) ts by (simp add: published_row_def)
    then show "map iv_id vs = unique ids" using rows(1) by simp
  next
    assume a: "ids \<noteq> [] \<and> now' = now \<and> (\<forall>i \<in> set ids. ?ready i)"
    then obtain ps where c: "check_batch seller now ?d (unique ids) [] [] = Inr (ps, [])"
      using check_batch_ready [of "unique ids" ?d seller now "[]" "[]"] by auto
    then have "list_all2 (loaded ?d) (unique ids) ps" using check_batch_result [OF c] a by (simp add: filter_True)
    then have rows: "map (iv_id \<circ> fst) ps = unique ids" "\<forall>p \<in> set ps. invoices ?d (iv_id (fst p)) = Some (fst p)"
      using loaded_ids [OF _ assms(1)] by auto
    have "iv_id (fst p) \<in> set ids" if "p \<in> set ps" for p using rows(1) that by (metis comp_apply image_eqI image_set unique_simps(1))
    then have "\<forall>p \<in> set ps. iv_sellerId (fst p) = seller \<and> iv_status (fst p) = DRAFT \<and> validateInvoiceForPublish (fst p) now = []"
      using a rows(2) by (fastforce simp: batch_ready_def)
    from transition_all_rows [OF this, of "sv_next s" ?d] c a run
    show "\<exists>vs. r = Inr vs" by (auto simp: run_tx_def)
  qed
qed

definition kyc_service :: "unit svc" where
  "kyc_service = three_invoices\<lparr>sv_db := (sv_db three_invoices)\<lparr>users := [''s1'' \<mapsto>
     \<lparr>us_id = ''s1'', us_stellarAddress = Some ''GSELLER'', us_userType = SELLER, us_kycStatus = KycAPPROVED,
      us_isKycVerified = True, us_isSuspended = False\<rparr>]\<rparr>\<rparr>"

lemma sample_publishable: "validateInvoiceForPublish (numbered i number st) (19990 * 86400000) = []"
  by (simp add: validateInvoiceForPublish_def validateFundingDeadline_def numbered_def sample_invoice_def date_value_def
      DAY_MS_def MIN_LEAD_TIME_MS_def MIN_FACE_VALUE_XLM_def dec_def truthy_def)

lemma kyc_rows:
  "invoices (sv_db kyc_service) ''a'' = Some (numbered ''a'' ''N1'' DRAFT)"
  "invoices (sv_db kyc_service) ''b'' = Some (numbered ''b'' ''N2'' DRAFT)"
  "invoices (sv_db kyc_service) ''c'' = Some (numbered ''c'' ''N3'' PUBLISHED)"
  by (simp_all add: kyc_service_def three_invoices_def fresh_db_def numbered_def sample_invoice_def)

lemma kyc_ready: "i \<in> {''a'', ''b''} \<Longrightarrow> batch_ready (sv_db kyc_service) ''s1'' (19990 * 86400000) i"
  "\<not> batch_ready (sv_db kyc_service) ''s1'' (19990 * 86400000) ''c''"
proof -
  have u: "approved_seller (sv_db kyc_service) (numbered i n st) \<noteq> Inl kyc_required" for i n st
    by (simp add: approved_seller_def kyc_service_def numbered_def sample_invoice_def)
  have "iv_sellerId (numbered i n st) = ''s1''" "iv_status (numbered i n st) = st" for i n st
    by (simp_all add: numbered_def sample_invoice_def)
  then show "i \<in> {''a'', ''b''} \<Longrightarrow> batch_ready (sv_db kyc_service) ''s1'' (19990 * 86400000) i"
    "\<not> batch_ready (sv_db kyc_service) ''s1'' (19990 * 86400000) ''c''"
    using u sample_publishable [simplified] by (auto simp: batch_ready_def kyc_rows)
qed

lemma kyc_keyed: "keyed (sv_db kyc_service)"
  by (auto simp: keyed_def kyc_service_def three_invoices_def fresh_db_def numbered_def sample_invoice_def split: if_splits)

text \<open>Two drafts named three times are published; with a published invoice among them nothing is.\<close>

theorem batch_publish_is_all_or_nothing_witness:
  "(\<exists>vs s'. publishInvoicesBatch True [] [''b'', ''a'', ''b''] ''s1'' (19990 * 86400000) (19990 * 86400000) kyc_service = (Inr vs, s') \<and>
      map iv_id vs = [''b'', ''a''] \<and> status_at (sv_db s') ''a'' = Some PUBLISHED \<and> length (history (sv_db s')) = 2) \<and>
   snd (publishInvoicesBatch True [] [''a'', ''c''] ''s1'' (19990 * 86400000) (19990 * 86400000) kyc_service) = kyc_service"
proof -
  let ?run = "\<lambda>is. publishInvoicesBatch True [] is ''s1'' (19990 * 86400000) (19990 * 86400000) kyc_service"
  note result = batch_publish_is_all_or_nothing [OF kyc_keyed, where effects = "[]" and seller = "''s1''" and now = "19990 * 86400000"
      and now' = "19990 * 86400000"]
  obtain r s' where r: "?run [''b'', ''a'', ''b''] = (r, s')" by fastforce
  have u: "unique [''b'', ''a'', ''b''] = [''b'', ''a'']" by (simp add: unique_def)
  have "\<forall>i \<in> set [''b'', ''a'', ''b'']. batch_ready (sv_db kyc_service) ''s1'' (19990 * 86400000) i"
    using kyc_ready(1) by (simp only: list.set ball_simps) blast
  then obtain vs where vs: "r = Inr vs" using result [OF r] by blast
  then have b: "map iv_id vs = [''b'', ''a'']" "sv_db s' = publish_rows [''b'', ''a''] ''s1'' (sv_db kyc_service)"
    using result [OF r] u by auto
  have "status_at (sv_db s') ''a'' = Some PUBLISHED" "length (history (sv_db s')) = 2"
    unfolding b(2) by (simp_all add: publish_rows_def status_at_def kyc_rows published_row_def)
      (simp add: kyc_service_def three_invoices_def fresh_db_def)
  moreover obtain r2 s2 where r2: "?run [''a'', ''c''] = (r2, s2)" by fastforce
  have "\<exists>e. r2 = Inl e"
  proof (cases r2)
    case (Inr ws)
    then show ?thesis using result [OF r2] kyc_ready(2) by auto
  qed simp
  then have "s2 = kyc_service" using result [OF r2] by blast
  ultimately show ?thesis using r r2 vs b(1) by auto
qed

subsection \<open>Saving an entity that has changed meanwhile\<close>

text \<open>C15: an upload reads the invoice before it sends the document to IPFS and saves the whole entity
  afterwards. Whatever other requests committed in between, the row is then the one that was read,
  with the hash and a new version: its status and its funded amount go back, while investments and
  history stay as the others left them.\<close>

theorem stale_upload_reverts_the_row:
  assumes "upload_read inp d0 = Inr v" "keyed d0" "invoices d (iv_id v) = Some w"
  shows "\<exists>v'. upload_save hash v d = Inr (v', save_invoice v' d) \<and>
     v' = v\<lparr>iv_ipfsHash := Some hash, iv_version := iv_version w + 1\<rparr> \<and>
     invoices (save_invoice v' d) (js_trim (ul_invoiceId inp)) = Some v' \<and>
     investments (save_invoice v' d) = investments d \<and> history (save_invoice v' d) = history d"
proof -
  have "iv_id v = js_trim (ul_invoiceId inp)"
    using assms(1,2) by (auto simp: upload_read_def find_invoice_def keyed_def Let_def result_simps split: if_splits option.splits)
  then show ?thesis using assms(3)
    by (simp add: upload_save_def save_entity_def caught_def Let_def frame_simps)
qed

definition full_investor :: "string \<Rightarrow> invest_input" where
  "full_investor wallet = \<lparr>nv_invoiceId = ''i1'', nv_investorId = ''u1'', nv_wallet = wallet, nv_amount = Num 950, nv_ledger = Some 7\<rparr>"

definition reopened :: "string option \<Rightarrow> int \<Rightarrow> invoice" where
  "reopened hash n = open_invoice\<lparr>iv_ipfsHash := hash, iv_version := n\<rparr>"

lemma reopened_row:
  "iv_id (reopened h n) = ''i1''" "iv_status (reopened h n) = PUBLISHED" "iv_netAmount (reopened h n) = 9500000"
  "iv_fundedAmount (reopened h n) = 0" "iv_version (reopened h n) = n" "iv_sellerId (reopened h n) = ''s1''"
  "iv_dueDate (reopened h n) = DateOnly 20000" "iv_fundingDeadline (reopened h n) = None"
  by (simp_all add: reopened_def open_invoice_def sample_invoice_def)

lemma exact_950: "toFixed4 exact_decimal 950 = 9500000" "dplus exact_decimal 0 950 = 950" "dec 9500000 = 950"
  by (simp_all add: toFixed4_def exact_decimal_def floor_unique dplus_def dec_def)

text \<open>An investor takes the whole capacity of an invoice that looks open and unfunded.\<close>

lemma full_investment:
  assumes "invoices d ''i1'' = Some (reopened h n)"
    and "\<not> (\<exists>m \<in> set (investments d). same_block (full_investor w) ''7'' m)"
  shows "\<exists>r d' v. invest_loop exact_decimal (full_investor w) 950 ''7'' x (19990 * 86400000) 0 (\<lambda>_ e. e) 1 d = (Inr r, d', 1) \<and>
     investments d' = upsert im_id (new_investment exact_decimal (full_investor w) x (Some ''7'') 950 (reopened h n)) (investments d) \<and>
     invoices d' ''i1'' = Some v \<and> iv_status v = FUNDED \<and> users d' = users d"
proof -
  let ?inp = "full_investor w" and ?v = "reopened h n"
  have inp: "nv_invoiceId ?inp = ''i1''" "nv_investorId ?inp = ''u1''" by (simp_all add: full_investor_def)
  have read: "invest_read exact_decimal ?inp 950 ''7'' (19990 * 86400000) d = Inr ?v"
    using assms by (simp add: invest_read_def inp reopened_row isPastDueDate_def deadline_passed_def endOfDayUTC_def DAY_MS_def
        dminus_def exact_decimal_def dec_def Let_def)
  let ?m = "new_investment exact_decimal ?inp x (Some ''7'') 950 ?v"
  let ?w = "?v\<lparr>iv_fundedAmount := 9500000, iv_version := n + 1\<rparr>"
  let ?d1 = "d\<lparr>invoices := (invoices d)(''i1'' \<mapsto> ?w)\<rparr>"
  have u: "update_funded ''i1'' n 9500000 d = Some ?d1" using assms(1) by (simp add: update_funded_def reopened_row)
  obtain t d' where t: "fund_transition exact_decimal ?w (nv_wallet ?inp) 950 (19990 * 86400000) 0 (save_investment ?m ?d1) = Inr (t, d')"
    using published_to_funded [of ?w exact_decimal 950 "nv_wallet ?inp" "19990 * 86400000" 0 "save_investment ?m ?d1"]
    by (auto simp: reopened_row exact_950)
  note te = transition_effect(3,4) [OF t [unfolded fund_transition_def]]
  have "invoices d' ''i1'' = Some (t_invoice t)" "iv_status (t_invoice t) = FUNDED"
    "investments d' = upsert im_id ?m (investments d)" "users d' = users d"
    using te by (simp_all add: apply_status_def frame_simps reopened_row)
  moreover have "\<exists>r. invest_write exact_decimal ?inp 950 ''7'' x (19990 * 86400000) 0 ?v d = Inr (r, d')"
    using u t assms(2) by (simp add: invest_write_def inp reopened_row exact_950 Let_def)
  then have "\<exists>r. invest_loop exact_decimal ?inp 950 ''7'' x (19990 * 86400000) 0 (\<lambda>_ e. e) 1 d = (Inr r, d', 1)"
    using read by (auto simp: invest_loop.simps run_tx_def)
  ultimately show ?thesis by blast
qed

definition document :: upload_input where
  "document = \<lparr>ul_invoiceId = ''i1'', ul_sellerId = ''s1'', ul_size = 9\<rparr>"

text \<open>An upload in flight while an investor fills the invoice: afterwards a second investor fills it
  again, and the invoice of 950 has investments of 1900.\<close>

theorem stale_upload_reverts_the_row_witness:
  "\<exists>v r1 d1 v' d2 r2 d3.
     upload_read document open_db = Inr v \<and>
     invest_loop exact_decimal (full_investor ''GA'') 950 ''7'' ''m1'' (19990 * 86400000) 0 (\<lambda>_ e. e) 1 open_db = (Inr r1, d1, 1) \<and>
     status_at d1 ''i1'' = Some FUNDED \<and>
     upload_save ''Qm2'' v d1 = Inr (v', d2) \<and> status_at d2 ''i1'' = Some PUBLISHED \<and>
     invest_loop exact_decimal (full_investor ''GB'') 950 ''7'' ''m2'' (19990 * 86400000) 0 (\<lambda>_ e. e) 1 d2 = (Inr r2, d3, 1) \<and>
     active_sum ''i1'' d3 = 2 * iv_netAmount v"
proof -
  have v: "upload_read document open_db = Inr open_invoice" "keyed open_db" "open_invoice = reopened (Some ''Qm'') 1"
    by (simp_all add: upload_read_def document_def find_invoice_def open_facts js_trim_def is_ws_def Let_def)
      (simp_all add: reopened_def open_invoice_def sample_invoice_def keyed_def open_db_def fresh_db_def)
  obtain r1 d1 w1 where one: "invest_loop exact_decimal (full_investor ''GA'') 950 ''7'' ''m1'' (19990 * 86400000) 0 (\<lambda>_ e. e) 1 open_db = (Inr r1, d1, 1)"
    "investments d1 = [new_investment exact_decimal (full_investor ''GA'') ''m1'' (Some ''7'') 950 (reopened (Some ''Qm'') 1)]"
    "invoices d1 ''i1'' = Some w1" "iv_status w1 = FUNDED"
    using full_investment [of open_db "Some ''Qm''" 1 "''GA''" "''m1''"] open_facts v(3) by auto
  from stale_upload_reverts_the_row [OF v(1,2), of d1 w1 "''Qm2''"] one(3) open_facts(6)
  obtain v' where v': "upload_save ''Qm2'' open_invoice d1 = Inr (v', save_invoice v' d1)" "v' = reopened (Some ''Qm2'') (iv_version w1 + 1)"
    by (auto simp: reopened_def)
  let ?d2 = "save_invoice v' d1"
  have two: "invoices ?d2 ''i1'' = Some v'" "investments ?d2 = investments d1" using v'(2) by (simp_all add: frame_simps reopened_row)
  obtain r2 d3 where three: "invest_loop exact_decimal (full_investor ''GB'') 950 ''7'' ''m2'' (19990 * 86400000) 0 (\<lambda>_ e. e) 1 ?d2 = (Inr r2, d3, 1)"
    "investments d3 = investments d1 @ [new_investment exact_decimal (full_investor ''GB'') ''m2'' (Some ''7'') 950 v']"
    using full_investment [of ?d2 "Some ''Qm2''" "iv_version w1 + 1" "''GB''" "''m2''"] two v'(2) one(2)
    by (auto simp: same_block_def full_investor_def new_investment_def)
  have "active_sum ''i1'' d3 = 2 * iv_netAmount open_invoice"
    unfolding active_sum_def active_investments_def three(2) one(2)
    by (simp add: new_investment_def full_investor_def exact_950 open_facts)
  then show ?thesis using v one v' two three by (auto simp: status_at_def reopened_row)
qed

subsection \<open>The books after any calls\<close>

datatype svc_call =
    Create create_input string int
  | Update update_input
  | Delete string string
  | Publish string string int
  | Reject string string "string option" int
  | Submit string string int
  | Approve string "string option" int
  | Batch "string list" string int int
  | Upload "string result" upload_input

fun svc_step :: "decimal_lib \<Rightarrow> 'w effect list \<Rightarrow> 'w svc \<Rightarrow> svc_call \<Rightarrow> 'w svc" where
  "svc_step D effects s (Create inp i now) = snd (createInvoice D inp i now s)"
| "svc_step D effects s (Update inp) = s\<lparr>sv_db := snd (updateInvoice D inp (sv_db s))\<rparr>"
| "svc_step D effects s (Delete i seller) = s\<lparr>sv_db := snd (deleteInvoice i seller (sv_db s))\<rparr>"
| "svc_step D effects s (Publish i seller now) = snd (publishInvoice True effects i seller now s)"
| "svc_step D effects s (Reject i reason actor now) = snd (rejectInvoice True effects i reason actor now s)"
| "svc_step D effects s (Submit i seller now) = snd (submitInvoiceForReview True effects i seller now s)"
| "svc_step D effects s (Approve i actor now) = snd (approveInvoice True effects i actor now s)"
| "svc_step D effects s (Batch is seller now now') = snd (publishInvoicesBatch True effects is seller now now' s)"
| "svc_step D effects s (Upload answer inp) = s\<lparr>sv_db := snd (uploadDocument answer inp (sv_db s))\<rparr>"

definition net_ok :: "invoice \<Rightarrow> bool" where
  "net_ok v \<longleftrightarrow> 0 \<le> iv_netAmount v \<and> iv_netAmount v \<le> iv_amount v"

definition numbers :: "db \<Rightarrow> string list \<Rightarrow> string list" where
  "numbers d is = List.map_filter (\<lambda>i. map_option iv_invoiceNumber (invoices d i)) is @ map iv_invoiceNumber (deleted_invoices d)"

definition books_ok :: "db \<Rightarrow> string list \<Rightarrow> bool" where
  "books_ok d is \<longleftrightarrow> trail_ok d \<and> distinct is \<and> dom (invoices d) \<subseteq> set is \<and>
     (\<forall>h \<in> set (history d). h_invoiceId h \<in> set is) \<and> distinct (numbers d is) \<and>
     (\<forall>i v. invoices d i = Some v \<longrightarrow> net_ok v) \<and> (\<forall>v \<in> set (deleted_invoices d). iv_status v = DRAFT)"

text \<open>What a change of one row to a row of the same number has to show.\<close>

lemma trail_put:
  assumes "trail_ok d" "invoices d (iv_id v) = Some w" "iv_status v = iv_status w"
  shows "trail_ok (save_invoice v d)"
  using assms by (auto simp: trail_ok_def entries_of_def frame_simps)

lemma books_rows:
  assumes "books_ok d is" "trail_ok d'" "deleted_invoices d' = deleted_invoices d"
    and "\<And>i. map_option iv_invoiceNumber (invoices d' i) = map_option iv_invoiceNumber (invoices d i)"
    and "\<And>h. h \<in> set (history d') \<Longrightarrow> h \<in> set (history d) \<or> h_invoiceId h \<in> dom (invoices d)"
    and "\<And>i v. invoices d' i = Some v \<Longrightarrow> invoices d i = Some v \<or> net_ok v"
  shows "books_ok d' is"
proof -
  have "i \<in> dom (invoices d') \<longleftrightarrow> i \<in> dom (invoices d)" for i
    using assms(4) [of i] by (cases "invoices d' i"; cases "invoices d i") auto
  then have "dom (invoices d') = dom (invoices d)" by blast
  moreover have "numbers d' is = numbers d is" by (simp add: numbers_def assms(3,4))
  moreover have "\<forall>h \<in> set (history d'). h_invoiceId h \<in> set is" using assms(1,5) unfolding books_ok_def by blast
  moreover have "\<forall>i v. invoices d' i = Some v \<longrightarrow> net_ok v" using assms(1,6) unfolding books_ok_def by blast
  ultimately show ?thesis using assms(1-3) unfolding books_ok_def by simp
qed

lemma books_keyed: "books_ok d is \<Longrightarrow> keyed d"
  by (simp add: books_ok_def trail_keyed)

lemma trail_transition:
  assumes "trail_ok d" "invoices d (iv_id v) = Some v"
    and "transition entityManagerTransitionStore v to actor trigger context now ref d = Inr (t, d')"
  shows "trail_ok d'"
proof -
  let ?q = "\<lparr>q_id = iv_id v, q_to = to, q_actor = actor, q_trigger = trigger, q_context = context, q_now = now\<rparr>"
  have "\<exists>t'. transition entityManagerTransitionStore v to actor trigger context now 0 d = Inr (t', d')"
    using assms(3) by (auto simp: transition_def result_simps Let_def)
  then have "request_step d ?q = d'" using assms(2) by (auto simp: request_step_def)
  then show ?thesis using trail_step [OF assms(1), of ?q] by simp
qed

lemma books_transition:
  assumes "books_ok d is" "invoices d (iv_id v) = Some v"
    and t: "transition entityManagerTransitionStore v to actor trigger context now ref d = Inr (t, d')"
  shows "books_ok d' is"
proof (rule books_rows [OF assms(1)])
  note te = transition_effect(3,4) [OF t]
  show "trail_ok d'" using trail_transition [OF _ assms(2) t] assms(1) by (simp add: books_ok_def)
  have "net_ok v" using assms(1,2) by (simp add: books_ok_def)
  then have row: "iv_invoiceNumber (t_invoice t) = iv_invoiceNumber v" "net_ok (t_invoice t)"
    by (simp_all add: te(2) apply_status_def net_ok_def)
  show "deleted_invoices d' = deleted_invoices d" by (simp add: te(1))
  show "map_option iv_invoiceNumber (invoices d' i) = map_option iv_invoiceNumber (invoices d i)" for i
    using assms(2) row by (simp add: te(1))
  show "invoices d i = Some w \<or> net_ok w" if "invoices d' i = Some w" for i w
    using that row by (auto simp: te(1) split: if_splits)
  show "h \<in> set (history d) \<or> h_invoiceId h \<in> dom (invoices d)" if "h \<in> set (history d')" for h
    using that assms(2) by (auto simp: te(1) history_entry_def)
qed

lemma books_apply:
  assumes "books_ok (sv_db s) (sv_ids s)" "invoices (sv_db s) (iv_id v) = Some v"
  shows "books_ok (sv_db (snd (applyTransition True effects v to actor trigger context now s))) (sv_ids s) \<and>
     sv_ids (snd (applyTransition True effects v to actor trigger context now s)) = sv_ids s"
proof (cases "transition entityManagerTransitionStore v to actor trigger context now (sv_next s) (sv_db s)")
  case (Inl e)
  then show ?thesis using assms(1) by (simp add: applyTransition_def store_for_def run_tx_def)
next
  case (Inr p)
  then obtain t d' where t: "transition entityManagerTransitionStore v to actor trigger context now (sv_next s) (sv_db s) = Inr (t, d')"
    by (cases p) auto
  have "books_ok d' (sv_ids s)" by (rule books_transition [OF assms t])
  then show ?thesis using t by (simp add: applyTransition_def store_for_def run_tx_def)
qed

lemma found: "keyed d \<Longrightarrow> find_invoice i d = Inr v \<Longrightarrow> invoices d (iv_id v) = Some v"
  by (auto simp: find_invoice_def keyed_def split: option.splits)

lemma books_put:
  assumes "books_ok d is" "invoices d (iv_id v) = Some w" "iv_status v = iv_status w" "iv_invoiceNumber v = iv_invoiceNumber w" "net_ok v"
  shows "books_ok (save_invoice v d) is"
proof (rule books_rows [OF assms(1)])
  show "trail_ok (save_invoice v d)" using trail_put [OF _ assms(2,3)] assms(1) by (simp add: books_ok_def)
qed (use assms in \<open>auto simp: frame_simps split: if_splits\<close>)

lemma books_batch:
  assumes "books_ok d is" "\<forall>p \<in> set ps. invoices d (iv_id (fst p)) = Some (fst p)" "distinct (map (iv_id \<circ> fst) ps)"
    and "transition_all seller now ps ref d = Inr (ts, d')"
  shows "books_ok d' is"
  using assms
proof (induction ps arbitrary: ref d ts)
  case (Cons p ps)
  obtain v u where p: "p = (v, u)" by force
  obtain t d1 ts' where t: "transition entityManagerTransitionStore v PUBLISHED (seller_actor seller (us_stellarAddress u))
      ''seller_batch_published'' empty_context now ref d = Inr (t, d1)" "transition_all seller now ps (ref + 1) d1 = Inr (ts', d')"
    using Cons.prems(4) p by (auto simp: result_simps)
  have v: "invoices d (iv_id v) = Some v" using Cons.prems(2) p by simp
  have d1: "invoices d1 = (invoices d)(iv_id v \<mapsto> t_invoice t)" by (subst transition_effect(3) [OF t(1)]) simp
  have "iv_id v \<notin> (iv_id \<circ> fst) ` set ps" using Cons.prems(3) p by simp
  then have "iv_id (fst q) \<noteq> iv_id v" if "q \<in> set ps" for q using that by (metis comp_apply image_eqI)
  then have "\<forall>q \<in> set ps. invoices d1 (iv_id (fst q)) = Some (fst q)"
    using Cons.prems(2) by (simp add: d1)
  then show ?case using Cons.IH [OF books_transition [OF Cons.prems(1) v t(1)] _ _ t(2)] Cons.prems(3) by simp
qed simp

lemma with_hook_row:
  assumes "decimal_ok D" "with_hook D am disc v = Inr v'"
  shows "net_ok v' \<and> iv_id v' = iv_id v \<and> iv_status v' = iv_status v \<and> iv_invoiceNumber v' = iv_invoiceNumber v"
proof -
  obtain f where f: "calculateAndFormatAmounts D
      \<lparr>df_invoiceNumber = Some (iv_invoiceNumber v), df_customerName = Some (iv_customerName v),
       df_ipfsHash = Some (iv_ipfsHash v), df_smartContractId = Some (iv_smartContractId v),
       df_rejectionReason = Some (iv_rejectionReason v), df_amount = Some am,
       df_discountRate = Some disc, df_netAmount = Some (iv_netAmount v)\<rparr> = Inr f"
    and v': "v' = v\<lparr>iv_customerName := (case df_customerName f of None \<Rightarrow> [] | Some n \<Rightarrow> n),
       iv_amount := toFixed4 D (num_of (df_amount f)), iv_discountRate := toFixed2 D (num_of (df_discountRate f)),
       iv_netAmount := (case df_netAmount f of None \<Rightarrow> iv_netAmount v | Some n \<Rightarrow> n)\<rparr>"
    and fits: "fits_column (toFixed4 D (num_of (df_amount f)))"
    using assms(2) by (auto simp: with_hook_def split: sum.splits if_splits)
  obtain x r net where n: "am = Num x" "disc = Num r" "0 \<le> x" "0 \<le> r" "r \<le> 100"
    "calculateNetAmount D (Num (fixd D 4 x)) (Num (fixd D 2 r)) = Inr net"
    "df_amount f = Some (Num (fixd D 4 x))" "df_netAmount f = Some net"
    using f by (auto simp: calculateAndFormatAmounts_def format_number_def result_simps Let_def split: num_input.splits if_splits)
  have r: "0 \<le> fixd D 2 r" "fixd D 2 r \<le> 100"
    using fixd_bounds [OF assms(1) n(4), of 2] n(5) fixd_bounds(2) [OF assms(1) n(4), of 100 2] by simp_all
  have x: "0 \<le> fixd D 4 x" "dec (toFixed4 D x) = fixd D 4 x"
    using fixd_bounds(1) [OF assms(1) n(3)] dec_toFixed4 [OF assms(1)] by simp_all
  have a: "0 \<le> toFixed4 D x" using x by (metis dec_simps(7))
  have same: "toFixed4 D (num_of (df_amount f)) = toFixed4 D x"
    using n(7) x(2) toFixed4_dec [OF assms(1), of "toFixed4 D x"] by (simp add: num_of_def)
  have "amt_ok (toFixed4 D x)" using fits same by (simp add: fits_column_def amt_ok_def)
  from net_bounds [OF assms(1) this a r] n(6) x(2) have "0 \<le> net \<and> net \<le> toFixed4 D x" by simp
  then show ?thesis using same n(8) by (simp add: v' net_ok_def)
qed

lemma distinct_snoc_number:
  assumes "distinct (numbers d is)" "i \<notin> set is" "invoices d i = None" "iv_id v = i"
    and "iv_invoiceNumber v \<notin> set (numbers d is)"
  shows "distinct (numbers (save_invoice v d) (is @ [i]))"
proof -
  have "List.map_filter (\<lambda>j. map_option iv_invoiceNumber (invoices (save_invoice v d) j)) is =
      List.map_filter (\<lambda>j. map_option iv_invoiceNumber (invoices d j)) is"
    using assms(2,4) by (induction "is") (auto simp: frame_simps map_filter_simps split: option.splits)
  then have "numbers (save_invoice v d) (is @ [i]) =
      List.map_filter (\<lambda>j. map_option iv_invoiceNumber (invoices d j)) is @ [iv_invoiceNumber v] @ map iv_invoiceNumber (deleted_invoices d)"
    using assms(4) by (simp add: numbers_def frame_simps map_filter_def)
  then show ?thesis using assms(1,5) by (auto simp: numbers_def)
qed

lemma number_taken:
  "(\<exists>w \<in> set (live s @ deleted_invoices (sv_db s)). iv_invoiceNumber w = n) \<longleftrightarrow> n \<in> set (numbers (sv_db s) (sv_ids s))"
  by (force simp: numbers_def live_rows List.map_filter_def)

lemma books_create:
  assumes "decimal_ok D" "books_ok (sv_db s) (sv_ids s)" "createInvoice D inp i now s = (r, s')"
  shows "books_ok (sv_db s') (sv_ids s')"
proof (cases r)
  case (Inl e)
  then show ?thesis using assms by (simp add: createInvoice_def result_simps)
next
  case (Inr v)
  let ?d = "sv_db s"
  obtain number net w where h: "with_hook D (ci_amount inp) (ci_discountRate inp) (new_invoice inp number net i now) = Inr w"
    and "insert_invoice w s = Inr (v, s')"
    using assms(3) Inr by (auto simp: createInvoice_def result_simps Let_def)
  then have ins: "insert_invoice v s = Inr (v, s')" and h: "with_hook D (ci_amount inp) (ci_discountRate inp) (new_invoice inp number net i now) = Inr v"
    by (auto simp: insert_invoice_def split: if_splits)
  have v: "net_ok v" "iv_id v = i" "iv_status v = DRAFT"
    using with_hook_row [OF assms(1) h] by (simp_all add: new_invoice_def)
  have s': "s' = s\<lparr>sv_db := save_invoice v ?d, sv_ids := sv_ids s @ [i]\<rparr>" "i \<notin> set (sv_ids s)"
    "iv_invoiceNumber v \<notin> set (numbers ?d (sv_ids s))"
    using ins v(2) number_taken [of s "iv_invoiceNumber v"] by (auto simp: insert_invoice_def split: if_splits)
  note b = assms(2) [unfolded books_ok_def]
  have none: "invoices ?d i = None" using b s'(2) by auto
  have "entries_of i ?d = []" using b s'(2) by (fastforce simp: entries_of_def filter_empty_conv)
  then have trail: "trail_ok (save_invoice v ?d)"
    using b v by (auto simp: trail_ok_def entries_of_def frame_simps)
  show ?thesis unfolding books_ok_def
  proof (intro conjI)
    show "distinct (numbers (sv_db s') (sv_ids s'))"
      using distinct_snoc_number [OF _ s'(2) none v(2) s'(3)] b by (simp add: s'(1))
  qed (use b trail s'(2) v in \<open>auto simp: s'(1) frame_simps split: if_splits\<close>)
qed

lemma books_delete:
  assumes "books_ok d is" "deleteInvoice i seller d = (r, d')"
  shows "books_ok d' is"
proof (cases r)
  case (Inl e)
  then show ?thesis using assms by (simp add: deleteInvoice_def result_simps)
next
  case (Inr u)
  obtain v where v: "own_draft i seller d = Inr v" "d' = d\<lparr>invoices := (invoices d)(i := None), deleted_invoices := deleted_invoices d @ [v]\<rparr>"
    using assms(2) Inr by (auto simp: deleteInvoice_def result_simps)
  then have row: "invoices d i = Some v" "iv_status v = DRAFT"
    by (auto simp: own_draft_def find_invoice_def result_simps split: option.splits if_splits)
  note b = assms(1) [unfolded books_ok_def]
  have "i \<in> set is" using b row by blast
  then obtain us vs where "is": "is = us @ i # vs" by (auto simp: in_set_conv_decomp)
  have "i \<notin> set us \<union> set vs" using b "is" by auto
  then have "List.map_filter (\<lambda>j. map_option iv_invoiceNumber (((invoices d)(i := None)) j)) us =
      List.map_filter (\<lambda>j. map_option iv_invoiceNumber (invoices d j)) us"
    "List.map_filter (\<lambda>j. map_option iv_invoiceNumber (((invoices d)(i := None)) j)) vs =
      List.map_filter (\<lambda>j. map_option iv_invoiceNumber (invoices d j)) vs"
    by (auto simp: List.map_filter_def intro!: map_cong filter_cong)
  then have "distinct (numbers d' is)"
    using b row(1) by (auto simp: numbers_def v(2) "is" map_filter_def)
  moreover have "trail_ok d'" using b by (auto simp: trail_ok_def entries_of_def v(2) split: if_splits)
  ultimately show ?thesis using b row by (auto simp: books_ok_def v(2) split: if_splits)
qed

lemma books_save_entity:
  assumes "books_ok d is" "save_entity v d = Inr (v', d')" "invoices d (iv_id v) = Some w" "iv_status v = iv_status w"
    "iv_invoiceNumber v = iv_invoiceNumber w" "net_ok v"
  shows "books_ok d' is"
proof -
  let ?v = "v\<lparr>iv_version := iv_version w + 1\<rparr>"
  have "d' = save_invoice ?v d" using assms(2,3) by (auto simp: save_entity_def Let_def)
  then show ?thesis using books_put [OF assms(1), of ?v w] assms(3-6) by (simp add: net_ok_def)
qed

lemma update_read_row:
  assumes "update_read D inp d = Inr v"
  shows "\<exists>w. own_draft (up_invoiceId inp) (up_sellerId inp) d = Inr w \<and> iv_id v = iv_id w \<and> iv_status v = iv_status w \<and>
     iv_invoiceNumber v = iv_invoiceNumber w"
proof -
  have f: "iv_id (update_fields inp w) = iv_id w" "iv_status (update_fields inp w) = iv_status w"
    "iv_invoiceNumber (update_fields inp w) = iv_invoiceNumber w" for w
    by (simp_all add: update_fields_def)
  obtain w where w: "own_draft (up_invoiceId inp) (up_sellerId inp) d = Inr w"
    using assms by (auto simp: update_read_def result_simps)
  have "v = update_fields inp w \<or> (\<exists>net. v = update_fields inp w\<lparr>iv_netAmount := net\<rparr>)"
    using assms w by (auto simp: update_read_def result_simps Let_def case_prod_beta split: if_splits)
  then show ?thesis using w f by auto
qed

lemma books_update:
  assumes "decimal_ok D" "books_ok d is" "updateInvoice D inp d = (r, d')"
  shows "books_ok d' is"
proof (cases r)
  case (Inl e)
  then show ?thesis using assms by (simp add: updateInvoice_def result_simps)
next
  case (Inr u)
  obtain v where v: "update_read D inp d = Inr v" "update_save D inp v d = Inr (u, d')"
    using assms(3) Inr by (auto simp: updateInvoice_def result_simps)
  obtain w where w: "own_draft (up_invoiceId inp) (up_sellerId inp) d = Inr w" "iv_id v = iv_id w"
    "iv_status v = iv_status w" "iv_invoiceNumber v = iv_invoiceNumber w" using update_read_row [OF v(1)] by blast
  obtain am disc v' where h: "with_hook D am disc v = Inr v'" and s: "save_entity v' d = Inr (u, d')"
    using v(2) by (auto simp: update_save_def result_simps Let_def split: prod.splits)
  have row: "invoices d (iv_id w) = Some w"
    using w(1) books_keyed [OF assms(2)] by (auto simp: own_draft_def result_simps find_invoice_def keyed_def split: option.splits if_splits)
  note f = with_hook_row [OF assms(1) h]
  show ?thesis by (rule books_save_entity [OF assms(2) s, of w]) (use f w row in auto)
qed

lemma books_upload:
  assumes "books_ok d is" "uploadDocument answer inp d = (r, d')"
  shows "books_ok d' is"
proof (cases r)
  case (Inl e)
  then show ?thesis using assms by (simp add: uploadDocument_def result_simps)
next
  case (Inr u)
  obtain v hash where v: "upload_read inp d = Inr v" and s: "save_entity (v\<lparr>iv_ipfsHash := Some hash\<rparr>) d = Inr (u, d')"
    using assms(2) Inr by (auto simp: uploadDocument_def result_simps upload_save_def)
  have row: "invoices d (iv_id v) = Some v"
    using v books_keyed [OF assms(1)]
    by (auto simp: upload_read_def result_simps find_invoice_def keyed_def Let_def split: option.splits if_splits)
  have "net_ok v" using assms(1) row by (simp add: books_ok_def)
  then show ?thesis using books_save_entity [OF assms(1) s, of v] row by (simp add: net_ok_def)
qed

lemma books_publish_batch:
  assumes "books_ok (sv_db s) (sv_ids s)" "publishInvoicesBatch True effects ids seller now now' s = (r, s')"
  shows "books_ok (sv_db s') (sv_ids s')"
proof (cases r)
  case (Inl e)
  then have "s' = s" using assms(2) by (auto simp: publishInvoicesBatch_def split: if_splits sum.splits prod.splits)
  then show ?thesis using assms(1) by simp
next
  case (Inr vs)
  obtain good ts where c: "check_batch seller now (sv_db s) (unique ids) [] [] = Inr (good, [])"
    and t: "transition_all seller now' good (sv_next s) (sv_db s) = Inr (ts, sv_db s')" "sv_ids s' = sv_ids s"
    using assms(2) Inr by (auto simp: publishInvoicesBatch_def run_tx_def split: if_splits sum.splits prod.splits)
  have "list_all2 (loaded (sv_db s)) (filter (batch_ready (sv_db s) seller now) (unique ids)) good"
    using check_batch_result [OF c] by simp
  from loaded_ids [OF this books_keyed [OF assms(1)]]
  have "\<forall>p \<in> set good. invoices (sv_db s) (iv_id (fst p)) = Some (fst p)" "distinct (map (iv_id \<circ> fst) good)" by simp_all
  from books_batch [OF assms(1) this t(1)] show ?thesis by (simp add: t(2))
qed

lemma books_applied:
  assumes "books_ok (sv_db s) (sv_ids s)" "find_invoice i (sv_db s) = Inr v"
    "applyTransition True effects v to actor trigger context now s = (r, s')"
  shows "books_ok (sv_db s') (sv_ids s')"
  using books_apply [OF assms(1) found [OF books_keyed [OF assms(1)] assms(2)], of effects to actor trigger "context" now] assms(3)
  by simp

lemma svc_step_books:
  assumes "decimal_ok D" "books_ok (sv_db s) (sv_ids s)"
  shows "books_ok (sv_db (svc_step D effects s c)) (sv_ids (svc_step D effects s c))"
proof -
  show ?thesis
  proof (cases c)
    case (Create inp i now)
    then show ?thesis using books_create [OF assms, of inp i now] by (metis prod.collapse svc_step.simps(1))
  next
    case (Update inp)
    then show ?thesis using books_update [OF assms, of inp] by (simp add: prod_eq_iff)
  next
    case (Delete i seller)
    then show ?thesis using books_delete [OF assms(2), of i seller] by (simp add: prod_eq_iff)
  next
    case (Publish i seller now)
    then show ?thesis
      using assms(2) books_applied [OF assms(2)]
      by (fastforce simp: publishInvoice_def result_simps split: sum.splits prod.splits if_splits)
  next
    case (Reject i reason actor now)
    then show ?thesis
      using assms(2) books_applied [OF assms(2)]
      by (fastforce simp: rejectInvoice_def result_simps Let_def split: sum.splits prod.splits error.splits if_splits)
  next
    case (Submit i seller now)
    then show ?thesis
      using assms(2) books_applied [OF assms(2) _ prod.collapse [symmetric]]
      by (auto simp: submitInvoiceForReview_def result_simps split: sum.splits if_splits)
  next
    case (Approve i actor now)
    then show ?thesis
      using assms(2) books_applied [OF assms(2) _ prod.collapse [symmetric]] by (auto simp: approveInvoice_def split: sum.splits)
  next
    case (Batch ids seller now now')
    then show ?thesis using books_publish_batch [OF assms(2), of effects ids seller now now'] by (metis prod.collapse svc_step.simps(8))
  next
    case (Upload answer inp)
    then show ?thesis using books_upload [OF assms(2), of answer inp] by (simp add: prod_eq_iff)
  qed
qed

interpretation books: step_invariant "svc_step D effects" "\<lambda>s. decimal_ok D \<longrightarrow> books_ok (sv_db s) (sv_ids s)" for D effects
  by unfold_locales (blast intro: svc_step_books)

definition empty_service :: "'w \<Rightarrow> (string \<rightharpoonup> user) \<Rightarrow> 'w svc" where
  "empty_service w us = \<lparr>sv_db = (fresh_db [])\<lparr>users := us\<rparr>, sv_ids = [], sv_machine = \<lparr>m_dispatched = {}, m_world = w, m_warnings = []\<rparr>,
     sv_next = 0\<rparr>"

lemma empty_books: "books_ok (sv_db (empty_service w us)) (sv_ids (empty_service w us))"
  by (simp add: books_ok_def trail_ok_def empty_service_def fresh_db_def numbers_def map_filter_def)


definition sample_create :: create_input where
  "sample_create = \<lparr>ci_sellerId = ''s1'', ci_invoiceNumber = '' N1 '', ci_customerName = ''acme'', ci_issuerName = None,
     ci_description = None, ci_amount = Num 1000, ci_discountRate = Num 5, ci_dueDate = DateOnly 20000,
     ci_ipfsHash = Some ''Qm'', ci_riskScore = None, ci_submission = no_submission, ci_fundingDeadline = None\<rparr>"

definition sample_calls :: "svc_call list" where
  "sample_calls = [Create sample_create ''i1'' 5, Create sample_create ''i2'' 6, Submit ''i1'' ''s1'' (19990 * 86400000)]"

definition created_invoice :: invoice where
  "created_invoice = (new_invoice sample_create ''N1'' 9500000 ''i1'' 5)\<lparr>iv_amount := 10000000, iv_discountRate := 500\<rparr>"

lemma exact_net: "toFixed4 exact_decimal 950 = 9500000" "toFixed2 exact_decimal 5 = 500"
  "dminus exact_decimal 1000 (dtimes exact_decimal 1000 (ddiv exact_decimal 5 100)) = 950"
  by (simp_all add: toFixed4_def toFixed2_def exact_decimal_def floor_unique dminus_def dtimes_def ddiv_def)

lemma trims: "js_trim ''acme'' = ''acme''" "js_trim '' N1 '' = ''N1''" "js_trim ''Qm'' = ''Qm''"
  by (simp_all add: js_trim_def is_ws_def)

lemma created:
  "createInvoice exact_decimal sample_create ''i1'' 5 (empty_service w us) =
     (Inr created_invoice, (empty_service w us)\<lparr>sv_db := save_invoice created_invoice (sv_db (empty_service w us)), sv_ids := [''i1'']\<rparr>)"
proof -
  have h: "with_hook exact_decimal (Num 1000) (Num 5) (new_invoice sample_create ''N1'' 9500000 ''i1'' 5) = Inr created_invoice"
    by (simp add: with_hook_def calculateAndFormatAmounts_def format_number_def exact_1000 calculateNetAmount_def exact_net
        num_of_def fits_column_def created_invoice_def new_invoice_def sample_create_def trims Let_def)
  have "live (empty_service w us) = []" by (simp add: live_def empty_service_def map_filter_simps)
  then show ?thesis using h
    by (simp add: createInvoice_def run_tx_def sanitizeInvoiceNumber_def sample_create_def trims service_net_amount_def
        exact_net caught_def insert_invoice_def empty_service_def fresh_db_def created_invoice_def new_invoice_def Let_def)
qed

lemma number_refused:
  "v \<in> set (live s) \<Longrightarrow> iv_invoiceNumber v = sanitizeInvoiceNumber (ci_invoiceNumber inp) \<Longrightarrow>
     sanitizeInvoiceNumber (ci_invoiceNumber inp) \<noteq> [] \<Longrightarrow> snd (createInvoice D inp i now s) = s"
  by (auto simp: createInvoice_def run_tx_def require_def Let_def)


end
