(* ===== verification/Payments.thy ===== *)
theory Payments
  imports Investing
begin

section \<open>Verifying payments\<close>

text \<open>
  \<open>src/services/stellar/verify-payment.service.ts\<close> with the readers of \<open>src/utils/horizon-response.ts\<close>:
  an investment is confirmed when a payment operation on the Stellar network matches it. What Horizon
  answers is an argument. The reads inside the transaction take no lock (\<open>findOne\<close> without a lock
  mode, whatever the name says), so the transaction is a read step and a commit step; the insert of a
  claim under its primary key belongs to the commit.
\<close>

subsection \<open>Rows\<close>

datatype tx_type = TxINVESTMENT | TxPAYMENT | TxWITHDRAWAL | TxREFUND

datatype tx_status = TxPENDING | TxCOMPLETED | TxFAILED

record tx_row =
  tr_id :: string
  tr_userId :: string
  tr_investmentId :: "string option"
  tr_invoiceId :: "string option"
  tr_type :: tx_type
  tr_amount :: amt
  tr_hash :: "string option"
  tr_op :: "int option"
  tr_status :: tx_status
  tr_timestamp :: int

text \<open>A claim is a payment operation (transaction hash and index) with its investment.\<close>

type_synonym claim_row = "(string \<times> int) \<times> string"

record pay_db =
  py_db :: db
  py_rows :: "tx_row list"
  py_claims :: "claim_row list"

definition upper_char :: "char \<Rightarrow> char" where
  "upper_char c = (if 97 \<le> (of_char c :: nat) \<and> (of_char c :: nat) \<le> 122 then char_of ((of_char c :: nat) - 32) else c)"

definition toUpperCase :: "string \<Rightarrow> string" where
  "toUpperCase s = map upper_char s"

text \<open>The hook before a transaction row is saved; the amount is a stored number already.\<close>

definition sanitizeTransactionData :: "tx_row \<Rightarrow> tx_row result" where
  "sanitizeTransactionData r =
     (if tr_amount r < 0 then Inl (ServiceError ''INVALID_TRANSACTION_AMOUNT'' 400)
      else Inr (r\<lparr>tr_hash := (case tr_hash r of None \<Rightarrow> None
                              | Some h \<Rightarrow> Some (if h = [] then h else toUpperCase (js_trim h)))\<rparr>))"

subsection \<open>Amounts\<close>

definition toScaledBigInt :: "string \<Rightarrow> nat \<Rightarrow> int result" where
  "toScaledBigInt v scale =
     (let normalized = js_trim v;
          negative = (normalized \<noteq> [] \<and> hd normalized = CHR ''-'');
          u = (if negative then tl normalized else normalized);
          whole = takeWhile is_digit u;
          rest = dropWhile is_digit u;
          fraction = tl rest
      in if whole = [] \<or> (rest \<noteq> [] \<and> (hd rest \<noteq> CHR ''.'' \<or> fraction = [] \<or> \<not> list_all is_digit fraction))
         then Inl (ServiceError ''invalid_amount'' 500)
         else case digits_val 10 0 (whole @ take scale ((if rest = [] then [] else fraction) @ replicate scale (CHR ''0''))) of
                None \<Rightarrow> Inl (ServiceError ''invalid_amount'' 500)
              | Some n \<Rightarrow> Inr (if negative then - int n else int n))"

text \<open>The expected amount is a stored amount of ten-thousandths, so seven decimals hold it exactly.\<close>

definition amountsWithinDelta :: "string \<Rightarrow> amt \<Rightarrow> string \<Rightarrow> bool result" where
  "amountsWithinDelta actual expected delta =
     and_then (toScaledBigInt actual 7) (\<lambda>a.
     and_then (toScaledBigInt delta 7) (\<lambda>dl. Inr (\<bar>a - expected * 1000\<bar> \<le> dl)))"

subsection \<open>Asking Horizon\<close>

datatype http_reply = NoReply | Reply nat "native option"

record verify_config =
  vc_asset :: string
  vc_issuer :: string
  vc_escrow :: string
  vc_delta :: string
  vc_retryAttempts :: nat
  vc_baseDelay :: nat

definition read_reply :: "http_reply \<Rightarrow> native result" where
  "read_reply r =
     (case r of
        NoReply \<Rightarrow> Inl (JsError ''TypeError'')
      | Reply st body \<Rightarrow>
          if st = 404 then Inl (ServiceError ''transaction_not_found'' 404)
          else if st \<ge> 500 \<or> st = 429 then Inl (JsError ''RetryableHorizonError'')
          else if st < 200 \<or> st > 299 then Inl (ServiceError ''horizon_request_failed'' 502)
          else (case body of None \<Rightarrow> Inl (JsError ''SyntaxError'') | Some j \<Rightarrow> Inr j))"

definition horizon_unavailable :: error where
  "horizon_unavailable = ServiceError ''horizon_unavailable'' 503"

text \<open>The answer to each attempt, and the delays slept between attempts.\<close>

function fetch_json :: "nat \<Rightarrow> nat \<Rightarrow> (nat \<Rightarrow> http_reply) \<Rightarrow> nat \<Rightarrow> native result \<times> nat list" where
  "fetch_json retryAttempts baseDelay answer attempt =
     (if attempt > retryAttempts then (Inl horizon_unavailable, [])
      else case read_reply (answer attempt) of
             Inr j \<Rightarrow> (Inr j, [])
           | Inl (ServiceError c st) \<Rightarrow> (Inl (ServiceError c st), [])
           | Inl (JsError e) \<Rightarrow>
               if attempt = retryAttempts then (Inl horizon_unavailable, [])
               else let (r, ds) = fetch_json retryAttempts baseDelay answer (attempt + 1)
                    in (r, baseDelay * 2 ^ (attempt - 1) # ds))"
  by pat_completeness auto
termination
  by (relation "measure (\<lambda>(n, b, a, k). n + 1 - k)") auto

declare fetch_json.simps [simp del]

definition fetchJson :: "verify_config \<Rightarrow> (nat \<Rightarrow> http_reply) \<Rightarrow> native result" where
  "fetchJson cfg answer = fst (fetch_json (vc_retryAttempts cfg) (vc_baseDelay cfg) answer 1)"

subsection \<open>What Horizon says\<close>

definition optionalString :: "native option \<Rightarrow> string option" where
  "optionalString v = (case v of Some (NStr s) \<Rightarrow> Some s | _ \<Rightarrow> None)"

definition horizon_invalid :: error where
  "horizon_invalid = JsError ''HorizonValidationError''"

definition normalizeHorizonTransaction :: "native \<Rightarrow> bool result" where
  "normalizeHorizonTransaction v = (case nfield v ''successful'' of Some (NBool b) \<Rightarrow> Inr b | _ \<Rightarrow> Inl horizon_invalid)"

record horizon_payment =
  hp_index :: int
  hp_amount :: string
  hp_destination :: string
  hp_source :: "string option"
  hp_asset :: "string option"
  hp_issuer :: "string option"

definition normalizeHorizonPayment :: "int \<Rightarrow> native \<Rightarrow> horizon_payment result" where
  "normalizeHorizonPayment k v =
     (case (nfield v ''type'', nfield v ''amount'', nfield v ''to'') of
        (Some (NStr ty), Some (NStr am), Some (NStr dst)) \<Rightarrow>
          Inr \<lparr>hp_index = k, hp_amount = am, hp_destination = dst,
               hp_source = optionalString (non_null_or (nfield v ''source_account'') (nfield v ''sourceAccount'')),
               hp_asset = optionalString (non_null_or (nfield v ''asset_code'') (nfield v ''assetCode'')),
               hp_issuer = optionalString (non_null_or (nfield v ''asset_issuer'') (nfield v ''assetIssuer''))\<rparr>
      | _ \<Rightarrow> Inl horizon_invalid)"

definition records_of :: "native \<Rightarrow> native list result" where
  "records_of v =
     (case v of
        NNull \<Rightarrow> Inl (JsError ''TypeError'')
      | _ \<Rightarrow> (case non_null_or (nfield v ''_embedded'') None of
                None \<Rightarrow> Inr []
              | Some e \<Rightarrow> (case non_null_or (nfield e ''records'') None of
                   None \<Rightarrow> Inr []
                 | Some (NArr xs) \<Rightarrow> Inr xs
                 | Some _ \<Rightarrow> Inl (JsError ''TypeError''))))"

text \<open>The payment operations with their index among all operations of the transaction.\<close>

fun payment_operations :: "int \<Rightarrow> native list \<Rightarrow> horizon_payment list result" where
  "payment_operations k [] = Inr []"
| "payment_operations k (v # vs) =
     (if nfield v ''type'' \<noteq> Some (NStr ''payment'') then payment_operations (k + 1) vs
      else and_then (normalizeHorizonPayment k v) (\<lambda>p.
             and_then (payment_operations (k + 1) vs) (\<lambda>ps. Inr (p # ps))))"

definition payment_matches ::
    "verify_config \<Rightarrow> amt \<Rightarrow> string option \<Rightarrow> int option \<Rightarrow> horizon_payment \<Rightarrow> bool result" where
  "payment_matches cfg expected wallet op p =
     (if (op \<noteq> None \<and> op \<noteq> Some (hp_index p)) \<or> hp_asset p \<noteq> Some (vc_asset cfg) \<or> hp_issuer p \<noteq> Some (vc_issuer cfg) \<or>
         hp_destination p \<noteq> vc_escrow cfg \<or> wallet = None \<or> hp_source p \<noteq> wallet
      then Inr False else amountsWithinDelta (hp_amount p) expected (vc_delta cfg))"

fun filter_result :: "('a \<Rightarrow> bool result) \<Rightarrow> 'a list \<Rightarrow> 'a list result" where
  "filter_result f [] = Inr []"
| "filter_result f (x # xs) =
     and_then (f x) (\<lambda>b. and_then (filter_result f xs) (\<lambda>ys. Inr (if b then x # ys else ys)))"

definition invalid_payment :: error where
  "invalid_payment = ServiceError ''invalid_payment'' 422"

definition fetchAndValidatePayment ::
    "verify_config \<Rightarrow> (nat \<Rightarrow> http_reply) \<Rightarrow> (nat \<Rightarrow> http_reply) \<Rightarrow> amt \<Rightarrow> string option \<Rightarrow> int option \<Rightarrow> horizon_payment result" where
  "fetchAndValidatePayment cfg tx_answer ops_answer expected wallet op =
     and_then (fetchJson cfg tx_answer) (\<lambda>tx.
     and_then (normalizeHorizonTransaction tx) (\<lambda>successful.
     if \<not> successful then Inl invalid_payment
     else and_then (fetchJson cfg ops_answer) (\<lambda>ops.
          and_then (records_of ops) (\<lambda>rs.
          and_then (payment_operations 0 rs) (\<lambda>ps.
          and_then (filter_result (payment_matches cfg expected wallet op) ps) (\<lambda>ms.
          case ms of [m] \<Rightarrow> Inr m | _ \<Rightarrow> Inl invalid_payment))))))"

subsection \<open>Confirming the investment\<close>

record verify_input =
  vi_investmentId :: string
  vi_hash :: string
  vi_op :: "int option"

datatype outcome = Verified | AlreadyVerified

record verify_result =
  vo_outcome :: outcome
  vo_investmentId :: string
  vo_op :: int
  vo_transactionId :: string

definition find_held :: "string \<Rightarrow> pay_db \<Rightarrow> investment result" where
  "find_held i d =
     (case find (\<lambda>m. im_id m = i) (investments (py_db d)) of
        None \<Rightarrow> Inl (ServiceError ''investment_not_found'' 404) | Some m \<Rightarrow> Inr m)"

definition reconciliation_conflict :: error where
  "reconciliation_conflict = ServiceError ''reconciliation_conflict'' 409"

definition already :: "string \<Rightarrow> int \<Rightarrow> string \<Rightarrow> verify_result" where
  "already i op t = \<lparr>vo_outcome = AlreadyVerified, vo_investmentId = i, vo_op = op, vo_transactionId = t\<rparr>"

text \<open>The first look, outside any transaction: done already (\<open>Inl\<close>), or the investment to match.\<close>

definition verify_check :: "verify_input \<Rightarrow> pay_db \<Rightarrow> (verify_result + investment) result" where
  "verify_check inp d =
     and_then (find_held (vi_investmentId inp) d) (\<lambda>m.
       if im_status m \<noteq> InvCONFIRMED then Inr (Inr m)
       else if im_transactionHash m = Some (vi_hash inp) \<and>
               im_operationIndex m = (case vi_op inp of None \<Rightarrow> im_operationIndex m | Some k \<Rightarrow> Some k)
       then Inr (Inl (already (im_id m)
              (case im_operationIndex m of Some k \<Rightarrow> k | None \<Rightarrow> (case vi_op inp of Some k \<Rightarrow> k | None \<Rightarrow> 0)) []))
       else Inl reconciliation_conflict)"

definition verify_load :: "verify_input \<Rightarrow> horizon_payment \<Rightarrow> pay_db \<Rightarrow> (verify_result + investment \<times> tx_row option) result" where
  "verify_load inp p d =
     and_then (find_held (vi_investmentId inp) d) (\<lambda>m.
       let linked = filter (\<lambda>r. tr_investmentId r = Some (im_id m)) (py_rows d);
           row = (case linked of [] \<Rightarrow> None | r # rs \<Rightarrow> Some r)
       in if hp_source p \<noteq> im_wallet m then Inl invalid_payment
          else if length linked > 1 then Inl reconciliation_conflict
          else if im_status m = InvCONFIRMED
          then if im_transactionHash m = Some (vi_hash inp) \<and> im_operationIndex m = Some (hp_index p)
               then Inr (Inl (already (im_id m) (hp_index p) (case row of None \<Rightarrow> [] | Some r \<Rightarrow> tr_id r)))
               else Inl reconciliation_conflict
          else if (case row of None \<Rightarrow> False | Some r \<Rightarrow> truthy (tr_hash r) \<and> tr_hash r \<noteq> Some (vi_hash inp))
          then Inl reconciliation_conflict
          else Inr (Inr (m, row)))"

definition claimPayment :: "string \<Rightarrow> int \<Rightarrow> string \<Rightarrow> pay_db \<Rightarrow> error + pay_db" where
  "claimPayment hash op i d =
     (case map_of (py_claims d) (toUpperCase hash, op) of
        Some j \<Rightarrow> if j = i then Inr d else Inl (ServiceError ''stellar_payment_already_used'' 409)
      | None \<Rightarrow> Inr (d\<lparr>py_claims := py_claims d @ [((toUpperCase hash, op), i)]\<rparr>))"

definition completed_row :: "string \<Rightarrow> int \<Rightarrow> verify_input \<Rightarrow> horizon_payment \<Rightarrow> investment \<Rightarrow> tx_row option \<Rightarrow> tx_row" where
  "completed_row new_id now inp p m row =
     (case row of
        None \<Rightarrow> \<lparr>tr_id = new_id, tr_userId = im_investorId m, tr_investmentId = Some (im_id m), tr_invoiceId = Some (im_invoiceId m),
                 tr_type = TxINVESTMENT, tr_amount = im_amount m, tr_hash = Some (vi_hash inp), tr_op = Some (hp_index p),
                 tr_status = TxCOMPLETED, tr_timestamp = now\<rparr>
      | Some r \<Rightarrow> r\<lparr>tr_userId := im_investorId m, tr_investmentId := Some (im_id m), tr_invoiceId := Some (im_invoiceId m),
                 tr_type := TxINVESTMENT, tr_amount := im_amount m, tr_hash := Some (vi_hash inp), tr_op := Some (hp_index p),
                 tr_status := TxCOMPLETED\<rparr>)"

definition confirmed :: "verify_input \<Rightarrow> horizon_payment \<Rightarrow> investment \<Rightarrow> investment" where
  "confirmed inp p m = m\<lparr>im_status := InvCONFIRMED, im_transactionHash := Some (vi_hash inp), im_operationIndex := Some (hp_index p)\<rparr>"

definition verify_commit ::
    "string \<Rightarrow> int \<Rightarrow> verify_input \<Rightarrow> horizon_payment \<Rightarrow> investment \<Rightarrow> tx_row option \<Rightarrow> pay_db \<Rightarrow> error + (verify_result \<times> pay_db)" where
  "verify_commit new_id now inp p m row d =
     and_then (claimPayment (vi_hash inp) (hp_index p) (im_id m) d) (\<lambda>d1.
     and_then (sanitizeTransactionData (completed_row new_id now inp p m row)) (\<lambda>r.
       Inr (\<lparr>vo_outcome = Verified, vo_investmentId = im_id m, vo_op = hp_index p, vo_transactionId = tr_id r\<rparr>,
            d1\<lparr>py_rows := upsert tr_id r (py_rows d1), py_db := save_investment (confirmed inp p m) (py_db d1)\<rparr>)))"

definition verifyPayment ::
    "verify_config \<Rightarrow> (nat \<Rightarrow> http_reply) \<Rightarrow> (nat \<Rightarrow> http_reply) \<Rightarrow> string \<Rightarrow> int \<Rightarrow> verify_input \<Rightarrow> pay_db \<Rightarrow>
     verify_result result \<times> pay_db" where
  "verifyPayment cfg tx_answer ops_answer new_id now inp =
     run_tx (\<lambda>d. and_then (verify_check inp d) (\<lambda>c.
       case c of
         Inl r \<Rightarrow> Inr (r, d)
       | Inr m \<Rightarrow>
           and_then (fetchAndValidatePayment cfg tx_answer ops_answer (im_amount m) (im_wallet m) (vi_op inp)) (\<lambda>p.
           and_then (verify_load inp p d) (\<lambda>l.
             case l of Inl r \<Rightarrow> Inr (r, d) | Inr (m', row) \<Rightarrow> verify_commit new_id now inp p m' row d))))"

end
