(* ===== verification/Payment_Steps.thy ===== *)
theory Payment_Steps
  imports Payments
begin

section \<open>What a verified payment guarantees\<close>

text \<open>
  Asking Horizon ends after the configured attempts; a verified payment is the only operation of a
  successful transaction that pays the amount from the investor's wallet to the escrow account; and
  under any interleaving a payment operation is credited to one investment only.
\<close>

subsection \<open>Attempts and delays\<close>

lemma fetch_json_attempts:
  "1 \<le> k \<Longrightarrow> fetch_json n b a k = (r, ds) \<Longrightarrow>
     length ds \<le> n - k \<and> (\<forall>j < length ds. ds ! j = b * 2 ^ (k + j - 1)) \<and>
     (k \<le> n \<longrightarrow> r = (case read_reply (a (k + length ds)) of
        Inl (JsError e) \<Rightarrow> Inl horizon_unavailable | x \<Rightarrow> x)) \<and>
     (\<forall>j < length ds. \<exists>e. read_reply (a (k + j)) = Inl (JsError e))"
proof (induction n b a k arbitrary: r ds rule: fetch_json.induct)
  case (1 n b a k)
  show ?case
  proof (cases "k < n \<and> (\<exists>e. read_reply (a k) = Inl (JsError e))")
    case False
    then have "ds = [] \<and> (k \<le> n \<longrightarrow> r = (case read_reply (a k) of Inl (JsError e) \<Rightarrow> Inl horizon_unavailable | x \<Rightarrow> x))"
      using 1(3) by (subst (asm) fetch_json.simps) (auto split: if_splits sum.splits error.splits)
    then show ?thesis by simp
  next
    case True
    then obtain e where e: "read_reply (a k) = Inl (JsError e)" "k < n" by blast
    obtain r' ds' where f: "fetch_json n b a (k + 1) = (r', ds')" by fastforce
    have eq: "r = r'" "ds = b * 2 ^ (k - 1) # ds'" using 1(3) e f by (subst (asm) fetch_json.simps; simp)+
    have ih: "length ds' \<le> n - (k + 1) \<and> (\<forall>j < length ds'. ds' ! j = b * 2 ^ (k + 1 + j - 1)) \<and>
     (k + 1 \<le> n \<longrightarrow> r' = (case read_reply (a (k + 1 + length ds')) of
        Inl (JsError e) \<Rightarrow> Inl horizon_unavailable | x \<Rightarrow> x)) \<and>
     (\<forall>j < length ds'. \<exists>e. read_reply (a (k + 1 + j)) = Inl (JsError e))"
      by (rule 1(1) [OF _ e(1) refl _ _ f]) (use e in auto)
    have "ds ! j = b * 2 ^ (k + j - 1) \<and> (\<exists>e. read_reply (a (k + j)) = Inl (JsError e))" if "j < length ds" for j
    proof (cases j)
      case 0
      then show ?thesis using eq(2) e(1) by simp
    next
      case (Suc i)
      then show ?thesis using that eq(2) ih by simp
    qed
    moreover have "length ds \<le> n - k" using ih eq(2) e(2) by auto
    ultimately show ?thesis using ih eq e(2) by simp
  qed
qed

text \<open>C37: asking Horizon makes at most the configured number of attempts, waits \<open>base * 2^(k-1)\<close>
  after the k-th, repeats only what may succeed later (no answer, 429, 5xx, an unreadable body), and
  returns the last answer, or \<open>horizon_unavailable\<close> when that one failed too.\<close>

theorem horizon_is_asked_boundedly:
  assumes "fetch_json n b a 1 = (r, ds)" "1 \<le> n"
  shows "length ds < n \<and> ds = map (\<lambda>j. b * 2 ^ j) [0..<length ds] \<and>
     (\<forall>j \<in> {1..length ds}. \<exists>e. read_reply (a j) = Inl (JsError e)) \<and>
     r = (case read_reply (a (1 + length ds)) of Inl (JsError e) \<Rightarrow> Inl horizon_unavailable | x \<Rightarrow> x)"
proof (intro conjI)
  note f = fetch_json_attempts [OF order_refl assms(1)]
  have "length ds \<le> n - 1" using f by blast
  then show "length ds < n" using assms(2) by linarith
  show "r = (case read_reply (a (1 + length ds)) of Inl (JsError e) \<Rightarrow> Inl horizon_unavailable | x \<Rightarrow> x)"
    using f assms(2) by simp
  show "ds = map (\<lambda>j. b * 2 ^ j) [0..<length ds]" using f by (intro nth_equalityI) simp_all
  show "\<forall>j \<in> {1..length ds}. \<exists>e. read_reply (a j) = Inl (JsError e)"
  proof
    fix j assume "j \<in> {1..length ds}"
    then have "j - 1 < length ds" "1 + (j - 1) = j" by auto
    then show "\<exists>e. read_reply (a j) = Inl (JsError e)" using f by metis
  qed
qed

definition third_time :: "nat \<Rightarrow> http_reply" where
  "third_time k = (if k = 1 then NoReply else if k = 2 then Reply 503 None else Reply 200 (Some NNull))"

theorem horizon_is_asked_boundedly_witness:
  "fetch_json 3 100 third_time 1 = (Inr NNull, [100, 200]) \<and> length [100, 200 :: nat] < 3"
proof -
  have f: "fetch_json 3 100 third_time 1 = (Inr NNull, [100, 200])"
    by (simp add: fetch_json.simps third_time_def read_reply_def)
  show ?thesis using f horizon_is_asked_boundedly [OF f] by simp
qed

subsection \<open>What was paid\<close>

lemma and_then_if: "and_then (if c then Inl e else m) f = (if c then Inl e else and_then m f)"
  by simp

lemma filter_result_Inr: "filter_result f xs = Inr ys \<Longrightarrow>
    ys = filter (\<lambda>x. f x = Inr True) xs \<and> (\<forall>x \<in> set xs. \<exists>b. f x = Inr b)"
  by (induction xs arbitrary: ys) (auto simp: result_simps split: if_splits)

lemma payment_operations_Inr:
  "payment_operations k vs = Inr ps \<Longrightarrow> p \<in> set ps \<Longrightarrow>
     \<exists>j < length vs. hp_index p = k + int j \<and> nfield (vs ! j) ''type'' = Some (NStr ''payment'') \<and>
       normalizeHorizonPayment (hp_index p) (vs ! j) = Inr p"
proof (induction k vs arbitrary: ps rule: payment_operations.induct)
  case (2 k v vs)
  have later: "\<exists>j < length (v # vs). hp_index p = k + int j \<and> nfield ((v # vs) ! j) ''type'' = Some (NStr ''payment'') \<and>
       normalizeHorizonPayment (hp_index p) ((v # vs) ! j) = Inr p"
    if h: "\<exists>j < length vs. hp_index p = k + 1 + int j \<and> nfield (vs ! j) ''type'' = Some (NStr ''payment'') \<and>
       normalizeHorizonPayment (hp_index p) (vs ! j) = Inr p"
  proof -
    obtain j where j: "j < length vs" "hp_index p = k + 1 + int j" "nfield (vs ! j) ''type'' = Some (NStr ''payment'')"
      "normalizeHorizonPayment (hp_index p) (vs ! j) = Inr p" using h by blast
    show ?thesis by (rule exI [of _ "Suc j"]) (use j in simp)
  qed
  show ?case
  proof (cases "nfield v ''type'' \<noteq> Some (NStr ''payment'')")
    case True
    show ?thesis by (rule later, rule 2(1) [OF True _ 2(4)]) (use 2(3) True in simp)
  next
    case False
    then obtain q qs where q: "normalizeHorizonPayment k v = Inr q" "payment_operations (k + 1) vs = Inr qs" "ps = q # qs"
      using 2(3) by (auto simp: result_simps)
    show ?thesis
    proof (cases "p = q")
      case True
      have "hp_index q = k" using q(1) by (auto simp: normalizeHorizonPayment_def split: option.splits native.splits)
      then show ?thesis using True q(1) False by (intro exI [of _ 0]) simp
    next
      case neq: False
      show ?thesis by (rule later, rule 2(2) [OF _ q(2)]) (use False neq q(3) 2(4) in auto)
    qed
  qed
qed simp

text \<open>The money of a payment record: it has seven decimals at most when Horizon wrote it.\<close>

definition pays :: "verify_config \<Rightarrow> amt \<Rightarrow> string option \<Rightarrow> horizon_payment \<Rightarrow> bool" where
  "pays cfg expected wallet p \<longleftrightarrow> hp_asset p = Some (vc_asset cfg) \<and> hp_issuer p = Some (vc_issuer cfg) \<and>
     hp_destination p = vc_escrow cfg \<and> wallet \<noteq> None \<and> hp_source p = wallet \<and>
     (\<exists>paid delta. toScaledBigInt (hp_amount p) 7 = Inr paid \<and> toScaledBigInt (vc_delta cfg) 7 = Inr delta \<and>
        \<bar>paid - expected * 1000\<bar> \<le> delta)"

lemma payment_matches_True: "payment_matches cfg expected wallet op p = Inr True \<longleftrightarrow>
    (op = None \<or> op = Some (hp_index p)) \<and> pays cfg expected wallet p"
  by (auto simp: payment_matches_def pays_def amountsWithinDelta_def result_simps)

lemma single_Inr: "(case ms of [m] \<Rightarrow> Inr m | _ \<Rightarrow> Inl e) = Inr p \<longleftrightarrow> ms = [p]"
  by (cases ms rule: remdups_adj.cases) auto

text \<open>The operations of a transaction as Horizon reported them.\<close>

definition reported :: "verify_config \<Rightarrow> (nat \<Rightarrow> http_reply) \<Rightarrow> horizon_payment list \<Rightarrow> bool" where
  "reported cfg answer ps \<longleftrightarrow> (\<exists>ops rs. fetchJson cfg answer = Inr ops \<and> records_of ops = Inr rs \<and> payment_operations 0 rs = Inr ps)"

lemma fetched_payment:
  assumes "fetchAndValidatePayment cfg ta oa expected wallet op = Inr p"
  shows "\<exists>tx ps. fetchJson cfg ta = Inr tx \<and> nfield tx ''successful'' = Some (NBool True) \<and> reported cfg oa ps \<and>
     filter (\<lambda>q. (op = None \<or> op = Some (hp_index q)) \<and> pays cfg expected wallet q) ps = [p]"
proof -
  obtain tx ops rs ps ms where e: "fetchJson cfg ta = Inr tx" "normalizeHorizonTransaction tx = Inr True"
    "fetchJson cfg oa = Inr ops" "records_of ops = Inr rs" "payment_operations 0 rs = Inr ps"
    "filter_result (payment_matches cfg expected wallet op) ps = Inr ms" "ms = [p]"
    using assms unfolding fetchAndValidatePayment_def
    by (auto simp: result_simps single_Inr split: if_splits)
  have "nfield tx ''successful'' = Some (NBool True)"
    using e(2) by (auto simp: normalizeHorizonTransaction_def split: option.splits native.splits)
  moreover have "ms = filter (\<lambda>q. (op = None \<or> op = Some (hp_index q)) \<and> pays cfg expected wallet q) ps"
    using filter_result_Inr [OF e(6)] by (simp add: payment_matches_True)
  ultimately show ?thesis using e unfolding reported_def by auto
qed

subsection \<open>What is written\<close>

lemma find_saved_row: "k r = x \<Longrightarrow> find (\<lambda>m. k m = x) (upsert k r xs) = Some r"
  by (induction xs) auto

lemma claimed: "claimPayment h op i d = Inr d1 \<Longrightarrow>
    map_of (py_claims d1) (toUpperCase h, op) = Some i \<and>
    (\<forall>k j. map_of (py_claims d) k = Some j \<longrightarrow> map_of (py_claims d1) k = Some j) \<and>
    py_db d1 = py_db d \<and> py_rows d1 = py_rows d \<and> map_of (py_claims d) (toUpperCase h, op) \<in> {None, Some i}"
  by (auto simp: claimPayment_def map_add_def split: option.splits if_splits)

lemma committed:
  assumes "verify_commit x now inp p m row d = Inr (r, d')"
  shows "vo_outcome r = Verified" "vo_investmentId r = im_id m" "vo_op r = hp_index p"
    and "py_db d' = save_investment (confirmed inp p m) (py_db d)"
    and "map_of (py_claims d') (toUpperCase (vi_hash inp), hp_index p) = Some (im_id m)"
    and "map_of (py_claims d) (toUpperCase (vi_hash inp), hp_index p) \<in> {None, Some (im_id m)}"
    and "\<And>k j. map_of (py_claims d) k = Some j \<Longrightarrow> map_of (py_claims d') k = Some j"
    and "\<exists>t \<in> set (py_rows d'). tr_id t = vo_transactionId r \<and> tr_status t = TxCOMPLETED \<and> tr_investmentId t = Some (im_id m) \<and>
           tr_userId t = im_investorId m \<and> tr_amount t = im_amount m \<and> 0 \<le> im_amount m \<and> tr_op t = Some (hp_index p)"
proof -
  let ?t = "completed_row x now inp p m row"
  obtain d1 t where e: "claimPayment (vi_hash inp) (hp_index p) (im_id m) d = Inr d1" "sanitizeTransactionData ?t = Inr t"
    "r = \<lparr>vo_outcome = Verified, vo_investmentId = im_id m, vo_op = hp_index p, vo_transactionId = tr_id t\<rparr>"
    "d' = d1\<lparr>py_rows := upsert tr_id t (py_rows d1), py_db := save_investment (confirmed inp p m) (py_db d1)\<rparr>"
    using assms by (auto simp: verify_commit_def result_simps)
  note c = claimed [OF e(1)]
  show "vo_outcome r = Verified" "vo_investmentId r = im_id m" "vo_op r = hp_index p" using e(3) by simp_all
  show "py_db d' = save_investment (confirmed inp p m) (py_db d)" using e(4) c by simp
  show "map_of (py_claims d') (toUpperCase (vi_hash inp), hp_index p) = Some (im_id m)"
    "map_of (py_claims d) (toUpperCase (vi_hash inp), hp_index p) \<in> {None, Some (im_id m)}" using e(4) c by simp_all
  show "map_of (py_claims d') k = Some j" if "map_of (py_claims d) k = Some j" for k j
    using that e(4) c by (cases k) simp
  have "tr_status t = TxCOMPLETED \<and> tr_investmentId t = Some (im_id m) \<and>
           tr_userId t = im_investorId m \<and> tr_amount t = im_amount m \<and> 0 \<le> im_amount m \<and> tr_op t = Some (hp_index p)"
    using e(2) by (auto simp: sanitizeTransactionData_def completed_row_def split: if_splits option.splits)
  moreover have "t \<in> set (py_rows d')" using e(4) by (simp add: set_upsert)
  ultimately show "\<exists>t \<in> set (py_rows d'). tr_id t = vo_transactionId r \<and> tr_status t = TxCOMPLETED \<and>
      tr_investmentId t = Some (im_id m) \<and> tr_userId t = im_investorId m \<and> tr_amount t = im_amount m \<and> 0 \<le> im_amount m \<and>
      tr_op t = Some (hp_index p)"
    using e(3) by auto
qed

lemma loaded:
  assumes "verify_load inp p d = Inr (Inr (m, row))"
  shows "find (\<lambda>m. im_id m = vi_investmentId inp) (investments (py_db d)) = Some m" "im_id m = vi_investmentId inp"
    "hp_source p = im_wallet m" "im_status m \<noteq> InvCONFIRMED"
    "row = None \<longrightarrow> filter (\<lambda>r. tr_investmentId r = Some (im_id m)) (py_rows d) = []"
    "row \<noteq> None \<longrightarrow> (\<exists>r. row = Some r \<and> filter (\<lambda>r. tr_investmentId r = Some (im_id m)) (py_rows d) = [r])"
  using assms by (auto simp: verify_load_def find_held_def result_simps Let_def
      split: option.splits if_splits list.splits dest!: find_SomeD)

lemma checked_before: "verify_check inp d = Inr (Inl q) \<Longrightarrow> vo_outcome q = AlreadyVerified"
  by (auto simp: verify_check_def result_simps already_def split: if_splits)

lemma loaded_before: "verify_load inp p d = Inr (Inl q) \<Longrightarrow> vo_outcome q = AlreadyVerified"
  by (auto simp: verify_load_def result_simps already_def Let_def split: if_splits)

text \<open>C7: a verification that reports success found exactly one operation of the successful
  transaction that pays the investment's amount, within the delta, in the configured asset, from the
  investor's wallet to the escrow account; it confirms that investment alone, claims the operation
  for it and completes its transaction row; and asking again changes nothing.\<close>

theorem verified_payment_is_credited_once:
  assumes "verifyPayment cfg ta oa x now inp d = (Inr r, d')" "vo_outcome r = Verified"
  shows "\<exists>m p tx ps. find (\<lambda>m. im_id m = vi_investmentId inp) (investments (py_db d)) = Some m \<and> im_status m \<noteq> InvCONFIRMED \<and>
     fetchJson cfg ta = Inr tx \<and> nfield tx ''successful'' = Some (NBool True) \<and> reported cfg oa ps \<and>
     filter (\<lambda>q. (vi_op inp = None \<or> vi_op inp = Some (hp_index q)) \<and> pays cfg (im_amount m) (im_wallet m) q) ps = [p] \<and>
     investments (py_db d') = upsert im_id (confirmed inp p m) (investments (py_db d)) \<and>
     map_of (py_claims d) (toUpperCase (vi_hash inp), hp_index p) \<in> {None, Some (im_id m)} \<and>
     map_of (py_claims d') (toUpperCase (vi_hash inp), hp_index p) = Some (im_id m) \<and>
     (\<exists>t \<in> set (py_rows d'). tr_id t = vo_transactionId r \<and> tr_status t = TxCOMPLETED \<and> tr_investmentId t = Some (im_id m) \<and>
        tr_amount t = im_amount m) \<and>
     verifyPayment cfg ta' oa' x' now' inp d' = (Inr (already (vi_investmentId inp) (vo_op r) []), d')"
proof -
  obtain c where c: "verify_check inp d = Inr c" and c2: "(case c of Inl q \<Rightarrow> Inr (q, d) | Inr m \<Rightarrow>
           and_then (fetchAndValidatePayment cfg ta oa (im_amount m) (im_wallet m) (vi_op inp)) (\<lambda>p.
           and_then (verify_load inp p d) (\<lambda>l.
             case l of Inl r \<Rightarrow> Inr (r, d) | Inr (m', row) \<Rightarrow> verify_commit x now inp p m' row d))) = Inr (r, d')"
    using assms(1) by (auto simp: verifyPayment_def result_simps)
  obtain m where m: "c = Inr m" using c c2 assms(2) checked_before by (cases c) auto
  obtain p l where p: "fetchAndValidatePayment cfg ta oa (im_amount m) (im_wallet m) (vi_op inp) = Inr p"
    "verify_load inp p d = Inr l" "(case l of Inl r \<Rightarrow> Inr (r, d) | Inr (m', row) \<Rightarrow> verify_commit x now inp p m' row d) = Inr (r, d')"
    using c2 m by (auto simp: result_simps)
  obtain m' row where mr: "l = Inr (m', row)" using p(2,3) assms(2) loaded_before by (cases l) auto
  have e: "verify_check inp d = Inr (Inr m)"
    "fetchAndValidatePayment cfg ta oa (im_amount m) (im_wallet m) (vi_op inp) = Inr p"
    "verify_load inp p d = Inr (Inr (m', row))" "verify_commit x now inp p m' row d = Inr (r, d')"
    using c m p mr by simp_all
  note c = committed [OF e(4)] and l = loaded [OF e(3)]
  have m: "m' = m" using e(1) l(1)
    by (auto simp: verify_check_def find_held_def result_simps split: if_splits option.splits)
  obtain tx ps where f: "fetchJson cfg ta = Inr tx" "nfield tx ''successful'' = Some (NBool True)" "reported cfg oa ps"
    "filter (\<lambda>q. (vi_op inp = None \<or> vi_op inp = Some (hp_index q)) \<and> pays cfg (im_amount m) (im_wallet m) q) ps = [p]"
    using fetched_payment [OF e(2)] by blast
  have op: "vi_op inp = None \<or> vi_op inp = Some (hp_index p)"
  proof -
    have "p \<in> set (filter (\<lambda>q. (vi_op inp = None \<or> vi_op inp = Some (hp_index q)) \<and> pays cfg (im_amount m) (im_wallet m) q) ps)"
      using f(4) by simp
    then show ?thesis by simp
  qed
  have "find (\<lambda>m. im_id m = vi_investmentId inp) (investments (py_db d')) = Some (confirmed inp p m)"
    unfolding c(4) save_investment_simps m by (rule find_saved_row) (use l(2) m in \<open>simp add: confirmed_def\<close>)
  then have "verifyPayment cfg ta' oa' x' now' inp d' = (Inr (already (vi_investmentId inp) (vo_op r) []), d')"
    using op c(3) l(2) m by (auto simp: verifyPayment_def verify_check_def find_held_def confirmed_def run_tx_def)
  then show ?thesis
    using f c(4-6,8) l(1,4) m by (intro exI [of _ m] exI [of _ p] exI [of _ tx] exI [of _ ps]) (auto simp: frame_simps)
qed

definition sample_config :: verify_config where
  "sample_config = \<lparr>vc_asset = ''USDC'', vc_issuer = ''GI'', vc_escrow = ''GE'', vc_delta = ''0.0000001'', vc_retryAttempts = 3, vc_baseDelay = 100\<rparr>"

definition always :: "native \<Rightarrow> nat \<Rightarrow> http_reply" where
  "always j k = Reply 200 (Some j)"

definition payment_of :: "string \<Rightarrow> string \<Rightarrow> native" where
  "payment_of source amount = NObj [(''type'', NStr ''payment''), (''amount'', NStr amount), (''to'', NStr ''GE''),
     (''source_account'', NStr source), (''asset_code'', NStr ''USDC''), (''asset_issuer'', NStr ''GI'')]"

definition sample_tx :: native where
  "sample_tx = NObj [(''successful'', NBool True)]"

definition sample_ops :: native where
  "sample_ops = NObj [(''_embedded'', NObj [(''records'', NArr [NObj [(''type'', NStr ''create_account'')], payment_of ''GA'' ''100.0000001''])])]"

definition waiting_db :: "investment_status \<Rightarrow> pay_db" where
  "waiting_db st = \<lparr>py_db = (fresh_db [])\<lparr>investments := [(holding ''m1'' 1000000 None st)\<lparr>im_wallet := Some ''GA''\<rparr>]\<rparr>,
     py_rows = [], py_claims = []\<rparr>"

definition sample_verify :: verify_input where
  "sample_verify = \<lparr>vi_investmentId = ''m1'', vi_hash = ''ab'', vi_op = None\<rparr>"

text \<open>The witness is an investment that was cancelled: only the status \<open>confirmed\<close> is treated apart.\<close>

lemma always_fetched: "fetchJson sample_config (always j) = Inr j"
  by (simp add: fetchJson_def fetch_json.simps always_def read_reply_def sample_config_def)

lemma replicate7: "replicate 7 c = [c, c, c, c, c, c, c]"
  by (simp add: numeral_eq_Suc)

lemma sample_scaled: "toScaledBigInt ''100.0000001'' 7 = Inr 1000000001" "toScaledBigInt ''0.0000001'' 7 = Inr 1"
  by (simp_all add: toScaledBigInt_def js_trim_def is_ws_def is_digit_def Let_def digit_of_def replicate7)

lemma sample_upper: "toUpperCase ''ab'' = ''AB''"
  by (simp add: toUpperCase_def upper_char_def char_of_def bit_iff_odd)

lemma sample_fetch:
  "fetchAndValidatePayment sample_config (always sample_tx) (always sample_ops) 1000000 (Some ''GA'') None =
     Inr \<lparr>hp_index = 1, hp_amount = ''100.0000001'', hp_destination = ''GE'', hp_source = Some ''GA'', hp_asset = Some ''USDC'', hp_issuer = Some ''GI''\<rparr>"
  by (simp add: fetchAndValidatePayment_def always_fetched sample_tx_def sample_ops_def normalizeHorizonTransaction_def nfield_def
      records_of_def non_null_or_def payment_of_def normalizeHorizonPayment_def optionalString_def payment_matches_def
      amountsWithinDelta_def sample_scaled) (simp add: sample_config_def amountsWithinDelta_def sample_scaled)

theorem verified_payment_is_credited_once_witness:
  "\<exists>r d'. verifyPayment sample_config (always sample_tx) (always sample_ops) ''t1'' 5 sample_verify (waiting_db InvCANCELLED) = (Inr r, d') \<and>
     vo_outcome r = Verified \<and> map im_status (investments (py_db d')) = [InvCONFIRMED] \<and> py_claims d' = [((''AB'', 1), ''m1'')] \<and>
     map tr_status (py_rows d') = [TxCOMPLETED] \<and>
     fst (verifyPayment sample_config (always sample_tx) (always sample_ops) ''t2'' 6 sample_verify d') = Inr (already ''m1'' 1 [])"
proof -
  obtain r d' where v: "verifyPayment sample_config (always sample_tx) (always sample_ops) ''t1'' 5 sample_verify (waiting_db InvCANCELLED) = (Inr r, d')"
    "vo_outcome r = Verified" "vo_op r = 1" "map im_status (investments (py_db d')) = [InvCONFIRMED]" "py_claims d' = [((''AB'', 1), ''m1'')]"
    "map tr_status (py_rows d') = [TxCOMPLETED]"
    using sample_fetch
    by (simp add: verifyPayment_def verify_check_def find_held_def waiting_db_def sample_verify_def holding_def verify_load_def
        verify_commit_def claimPayment_def sample_upper completed_row_def sanitizeTransactionData_def
        confirmed_def save_investment_def run_tx_def)
  from verified_payment_is_credited_once [OF v(1,2), of "always sample_tx" "always sample_ops" "''t2''" 6] v
  show ?thesis by (auto simp: sample_verify_def)
qed

subsection \<open>Concurrent verifications\<close>

text \<open>
  Any number of verifications at any point between the check, the reads and the commit, beside other
  writers that keep the claims. \<open>vw_credits\<close> notes which operation was credited to which investment.
\<close>

datatype vpc = VIdle | VChecked verify_input horizon_payment | VLoaded verify_input horizon_payment investment "tx_row option"

record vworld =
  vw_db :: pay_db
  vw_procs :: "nat \<Rightarrow> vpc"
  vw_credits :: "((string \<times> int) \<times> string \<times> horizon_payment) list"

inductive verify_step :: "verify_config \<Rightarrow> vworld \<Rightarrow> vworld \<Rightarrow> bool" for cfg where
  check: "verify_check inp (vw_db w) = Inr (Inr m) \<Longrightarrow>
    fetchAndValidatePayment cfg ta oa (im_amount m) (im_wallet m) (vi_op inp) = Inr p \<Longrightarrow>
    verify_step cfg w (w\<lparr>vw_procs := (vw_procs w)(i := VChecked inp p)\<rparr>)"
| load: "vw_procs w i = VChecked inp p \<Longrightarrow> verify_load inp p (vw_db w) = Inr (Inr (m, row)) \<Longrightarrow>
    verify_step cfg w (w\<lparr>vw_procs := (vw_procs w)(i := VLoaded inp p m row)\<rparr>)"
| commit: "vw_procs w i = VLoaded inp p m row \<Longrightarrow> verify_commit x now inp p m row (vw_db w) = Inr (r, d') \<Longrightarrow>
    verify_step cfg w \<lparr>vw_db = d', vw_procs = (vw_procs w)(i := VIdle),
      vw_credits = vw_credits w @ [((toUpperCase (vi_hash inp), hp_index p), im_id m, p)]\<rparr>"
| stop: "verify_step cfg w (w\<lparr>vw_procs := (vw_procs w)(i := VIdle)\<rparr>)"
| others: "(\<And>k j. map_of (py_claims (vw_db w)) k = Some j \<Longrightarrow> map_of (py_claims d') k = Some j) \<Longrightarrow>
    verify_step cfg w (w\<lparr>vw_db := d'\<rparr>)"

definition paid_by :: "verify_config \<Rightarrow> horizon_payment \<Rightarrow> bool" where
  "paid_by cfg p \<longleftrightarrow> (\<exists>amount wallet. pays cfg amount wallet p)"

definition proc_paid :: "verify_config \<Rightarrow> vpc \<Rightarrow> bool" where
  "proc_paid cfg s \<longleftrightarrow> (case s of VIdle \<Rightarrow> True | VChecked inp p \<Rightarrow> paid_by cfg p
     | VLoaded inp p m row \<Rightarrow> paid_by cfg p \<and> hp_source p = im_wallet m)"

definition credits_ok :: "verify_config \<Rightarrow> vworld \<Rightarrow> bool" where
  "credits_ok cfg w \<longleftrightarrow> (\<forall>i. proc_paid cfg (vw_procs w i)) \<and>
     (\<forall>(k, i, p) \<in> set (vw_credits w). map_of (py_claims (vw_db w)) k = Some i \<and> snd k = hp_index p \<and> paid_by cfg p)"

lemma fetched_paid: "fetchAndValidatePayment cfg ta oa a w op = Inr p \<Longrightarrow> paid_by cfg p"
proof -
  assume "fetchAndValidatePayment cfg ta oa a w op = Inr p"
  then obtain ps where "filter (\<lambda>q. (op = None \<or> op = Some (hp_index q)) \<and> pays cfg a w q) ps = [p]"
    using fetched_payment by blast
  then have "p \<in> set (filter (\<lambda>q. (op = None \<or> op = Some (hp_index q)) \<and> pays cfg a w q) ps)" by simp
  then show "paid_by cfg p" by (auto simp: paid_by_def)
qed

lemma credits_kept:
  assumes "credits_ok cfg w" "verify_step cfg w w'"
  shows "credits_ok cfg w'"
  using assms(2)
proof cases
  case (check inp m ta oa p i)
  then show ?thesis using fetched_paid [OF check(3)] assms(1) by (simp add: credits_ok_def proc_paid_def)
next
  case (load i inp p m row)
  have "paid_by cfg p" using load(2) assms(1) by (auto simp: credits_ok_def proc_paid_def dest!: spec [of _ i])
  then show ?thesis using load assms(1) loaded(3) [OF load(3)] by (simp add: credits_ok_def proc_paid_def)
next
  case (commit i inp p m row x now r d')
  have "paid_by cfg p" using commit(2) assms(1) by (auto simp: credits_ok_def proc_paid_def dest!: spec [of _ i])
  then show ?thesis using commit(1) assms(1) committed(5,7) [OF commit(3)] by (auto simp: credits_ok_def proc_paid_def)
next
  case (stop i)
  then show ?thesis using assms(1) by (simp add: credits_ok_def proc_paid_def)
next
  case (others d')
  then show ?thesis using assms(1) by (auto simp: credits_ok_def)
qed

interpretation credits: kept_by_steps "verify_step cfg" "credits_ok cfg" for cfg
  by unfold_locales (rule credits_kept)

text \<open>C6: however verifications interleave, stop half-way and race, one payment operation is never
  credited to two investments, and every credited operation paid the escrow account in the
  configured asset within the delta of some expected amount.\<close>

theorem payment_credits_one_investment:
  assumes "rtranclp (verify_step cfg) w w'" "vw_credits w = []" "\<forall>i. vw_procs w i = VIdle"
    and "(k, i, p) \<in> set (vw_credits w')" "(k, j, q) \<in> set (vw_credits w')"
  shows "i = j \<and> snd k = hp_index p \<and> paid_by cfg p"
proof -
  have "credits_ok cfg w" using assms(2,3) by (simp add: credits_ok_def proc_paid_def)
  then have "credits_ok cfg w'" using credits.reached_good [OF assms(1)] by blast
  then have "map_of (py_claims (vw_db w')) k = Some i \<and> snd k = hp_index p \<and> paid_by cfg p"
    "map_of (py_claims (vw_db w')) k = Some j" using assms(4,5) unfolding credits_ok_def by fast+
  then show ?thesis by simp
qed

text \<open>The reads of the transaction take no lock, so two verifications of one pending investment
  with different payments both succeed when each reads before the other commits: both payments are
  used up for it, the later one is recorded on the investment, and without an earlier row two
  completed transaction rows remain, which every later verification refuses.\<close>

theorem racing_payments_are_both_accepted:
  assumes "verify_load inp p d = Inr (Inr (m, None))" "verify_load inp' p' d = Inr (Inr (m, None))" "0 \<le> im_amount m"
    and "(toUpperCase (vi_hash inp), hp_index p) \<noteq> (toUpperCase (vi_hash inp'), hp_index p')"
    and "map_of (py_claims d) (toUpperCase (vi_hash inp), hp_index p) = None"
    and "map_of (py_claims d) (toUpperCase (vi_hash inp'), hp_index p') = None"
    and "x \<noteq> y" "x \<notin> tr_id ` set (py_rows d)" "y \<notin> tr_id ` set (py_rows d)"
  shows "\<exists>r d1 r' d2. verify_commit x now inp p m None d = Inr (r, d1) \<and> verify_commit y now' inp' p' m None d1 = Inr (r', d2) \<and>
     vo_outcome r = Verified \<and> vo_outcome r' = Verified \<and>
     find (\<lambda>m. im_id m = vi_investmentId inp) (investments (py_db d2)) = Some (confirmed inp' p' m) \<and>
     map tr_status (filter (\<lambda>t. tr_investmentId t = Some (im_id m)) (py_rows d2)) = [TxCOMPLETED, TxCOMPLETED] \<and>
     py_claims d2 = py_claims d @ [((toUpperCase (vi_hash inp), hp_index p), im_id m), ((toUpperCase (vi_hash inp'), hp_index p'), im_id m)]"
proof -
  note l = loaded [OF assms(1)]
  have rows: "filter (\<lambda>t. tr_investmentId t = Some (im_id m)) (py_rows d) = []" using l(5) by simp
  obtain t where t: "sanitizeTransactionData (completed_row x now inp p m None) = Inr t" "tr_id t = x" "tr_status t = TxCOMPLETED"
    "tr_investmentId t = Some (im_id m)" using assms(3) by (auto simp: sanitizeTransactionData_def completed_row_def)
  obtain t' where t': "sanitizeTransactionData (completed_row y now' inp' p' m None) = Inr t'" "tr_id t' = y" "tr_status t' = TxCOMPLETED"
    "tr_investmentId t' = Some (im_id m)" using assms(3) by (auto simp: sanitizeTransactionData_def completed_row_def)
  let ?k = "(toUpperCase (vi_hash inp), hp_index p)" and ?k' = "(toUpperCase (vi_hash inp'), hp_index p')"
  let ?d1 = "d\<lparr>py_claims := py_claims d @ [(?k, im_id m)], py_rows := py_rows d @ [t],
                py_db := save_investment (confirmed inp p m) (py_db d)\<rparr>"
  let ?d2 = "?d1\<lparr>py_claims := py_claims ?d1 @ [(?k', im_id m)], py_rows := py_rows ?d1 @ [t'],
                py_db := save_investment (confirmed inp' p' m) (py_db ?d1)\<rparr>"
  have c1: "verify_commit x now inp p m None d = Inr (\<lparr>vo_outcome = Verified, vo_investmentId = im_id m, vo_op = hp_index p, vo_transactionId = x\<rparr>, ?d1)"
    using t assms(5,8) by (simp add: verify_commit_def claimPayment_def upsert_new)
  have n: "y \<notin> tr_id ` set (py_rows ?d1)" using assms(7,9) t(2) by auto
  have c2: "verify_commit y now' inp' p' m None ?d1 =
      Inr (\<lparr>vo_outcome = Verified, vo_investmentId = im_id m, vo_op = hp_index p', vo_transactionId = y\<rparr>, ?d2)"
    using t' assms(4,6) n by (auto simp: verify_commit_def claimPayment_def upsert_new map_add_def)
  have "find (\<lambda>m. im_id m = vi_investmentId inp) (investments (py_db ?d2)) = Some (confirmed inp' p' m)"
    by (simp add: save_investment_simps, rule find_saved_row) (use l(2) in \<open>simp add: confirmed_def\<close>)
  then have "find (\<lambda>m. im_id m = vi_investmentId inp) (investments (py_db ?d2)) = Some (confirmed inp' p' m) \<and>
     map tr_status (filter (\<lambda>t. tr_investmentId t = Some (im_id m)) (py_rows ?d2)) = [TxCOMPLETED, TxCOMPLETED] \<and>
     py_claims ?d2 = py_claims d @ [(?k, im_id m), (?k', im_id m)]"
    using rows t t' by simp
  with c1 c2 show ?thesis by fastforce
qed

definition sample_paid :: "string \<Rightarrow> horizon_payment" where
  "sample_paid a = \<lparr>hp_index = 1, hp_amount = a, hp_destination = ''GE'', hp_source = Some ''GA'', hp_asset = Some ''USDC'', hp_issuer = Some ''GI''\<rparr>"

definition sample_waiting :: investment where
  "sample_waiting = (holding ''m1'' 1000000 None InvPENDING)\<lparr>im_wallet := Some ''GA''\<rparr>"

lemma sample_loads: "verify_load (sample_verify\<lparr>vi_hash := h\<rparr>) (sample_paid a) (waiting_db InvPENDING) = Inr (Inr (sample_waiting, None))"
  by (simp add: verify_load_def find_held_def waiting_db_def sample_verify_def holding_def sample_paid_def sample_waiting_def)

theorem racing_payments_are_both_accepted_witness:
  "\<exists>r d1 r' d2. verify_commit ''t1'' 5 (sample_verify\<lparr>vi_hash := ''AB''\<rparr>) (sample_paid ''100'') sample_waiting None (waiting_db InvPENDING) = Inr (r, d1) \<and>
     verify_commit ''t2'' 6 (sample_verify\<lparr>vi_hash := ''12''\<rparr>) (sample_paid ''100'') sample_waiting None d1 = Inr (r', d2) \<and>
     length (filter (\<lambda>t. tr_investmentId t = Some ''m1'') (py_rows d2)) = 2"
proof -
  have u: "toUpperCase ''AB'' = ''AB''" "toUpperCase ''12'' = ''12''" by (simp_all add: toUpperCase_def upper_char_def)
  have a: "\<exists>r d1 r' d2. verify_commit ''t1'' 5 (sample_verify\<lparr>vi_hash := ''AB''\<rparr>) (sample_paid ''100'') sample_waiting None (waiting_db InvPENDING) = Inr (r, d1) \<and>
     verify_commit ''t2'' 6 (sample_verify\<lparr>vi_hash := ''12''\<rparr>) (sample_paid ''100'') sample_waiting None d1 = Inr (r', d2) \<and>
     vo_outcome r = Verified \<and> vo_outcome r' = Verified \<and>
     find (\<lambda>m. im_id m = vi_investmentId (sample_verify\<lparr>vi_hash := ''AB''\<rparr>)) (investments (py_db d2)) =
       Some (confirmed (sample_verify\<lparr>vi_hash := ''12''\<rparr>) (sample_paid ''100'') sample_waiting) \<and>
     map tr_status (filter (\<lambda>t. tr_investmentId t = Some (im_id sample_waiting)) (py_rows d2)) = [TxCOMPLETED, TxCOMPLETED] \<and>
     py_claims d2 = py_claims (waiting_db InvPENDING) @
       [((toUpperCase (vi_hash (sample_verify\<lparr>vi_hash := ''AB''\<rparr>)), hp_index (sample_paid ''100'')), im_id sample_waiting),
        ((toUpperCase (vi_hash (sample_verify\<lparr>vi_hash := ''12''\<rparr>)), hp_index (sample_paid ''100'')), im_id sample_waiting)]"
    by (rule racing_payments_are_both_accepted [OF sample_loads sample_loads])
       (simp_all add: sample_waiting_def holding_def waiting_db_def u)
  have i: "im_id sample_waiting = ''m1''" by (simp add: sample_waiting_def holding_def)
  from a show ?thesis unfolding i by (elim exE conjE) (intro exI conjI, assumption+, drule arg_cong [of _ _ length], simp)
qed

theorem payment_credits_one_investment_witness:
  "\<exists>w'. rtranclp (verify_step sample_config) \<lparr>vw_db = waiting_db InvPENDING, vw_procs = (\<lambda>i. VIdle), vw_credits = []\<rparr> w' \<and>
     vw_credits w' = [((''AB'', 1), ''m1'', sample_paid ''100.0000001'')] \<and> paid_by sample_config (sample_paid ''100.0000001'')"
proof -
  let ?w = "\<lparr>vw_db = waiting_db InvPENDING, vw_procs = (\<lambda>i. VIdle), vw_credits = []\<rparr>" and ?p = "sample_paid ''100.0000001''"
  have ck: "verify_check sample_verify (waiting_db InvPENDING) = Inr (Inr sample_waiting)"
    by (simp add: verify_check_def find_held_def waiting_db_def sample_verify_def holding_def sample_waiting_def)
  have ft: "fetchAndValidatePayment sample_config (always sample_tx) (always sample_ops) (im_amount sample_waiting)
      (im_wallet sample_waiting) (vi_op sample_verify) = Inr ?p"
    using sample_fetch by (simp add: sample_waiting_def holding_def sample_verify_def sample_paid_def)
  have ld: "verify_load sample_verify ?p (waiting_db InvPENDING) = Inr (Inr (sample_waiting, None))"
    using sample_loads [of "''ab''"] by (simp add: sample_verify_def)
  obtain r d' where cm: "verify_commit ''t1'' 5 sample_verify ?p sample_waiting None (waiting_db InvPENDING) = Inr (r, d')"
    by (simp add: verify_commit_def claimPayment_def waiting_db_def sanitizeTransactionData_def completed_row_def sample_waiting_def holding_def)
  define w1 where "w1 = ?w\<lparr>vw_procs := (vw_procs ?w)(7 := VChecked sample_verify ?p)\<rparr>"
  define w2 where "w2 = w1\<lparr>vw_procs := (vw_procs w1)(7 := VLoaded sample_verify ?p sample_waiting None)\<rparr>"
  define w3 where "w3 = \<lparr>vw_db = d', vw_procs = (vw_procs w2)(7 := VIdle), vw_credits = vw_credits w2 @
      [((toUpperCase (vi_hash sample_verify), hp_index ?p), im_id sample_waiting, ?p)]\<rparr>"
  have p: "vw_db w1 = waiting_db InvPENDING" "vw_procs w1 7 = VChecked sample_verify ?p" "vw_db w2 = waiting_db InvPENDING"
    "vw_procs w2 7 = VLoaded sample_verify ?p sample_waiting None" by (simp_all add: w1_def w2_def)
  have s1: "verify_step sample_config ?w w1" unfolding w1_def by (rule verify_step.check [OF _ ft]) (simp add: ck)
  have s2: "verify_step sample_config w1 w2" unfolding w2_def by (rule verify_step.load [OF p(2)]) (simp add: p ld)
  have s3: "verify_step sample_config w2 w3" unfolding w3_def by (rule verify_step.commit [OF p(4) cm [folded p(3)]])
  have r: "rtranclp (verify_step sample_config) ?w w3" 
    by (rule three_steps [of "verify_step sample_config" ?w w1 w2 w3, OF s1 s2 s3])
  have c: "vw_credits w3 = [((''AB'', 1), ''m1'', ?p)]"
    by (simp add: w1_def w2_def w3_def sample_verify_def sample_upper sample_paid_def sample_waiting_def holding_def)
  have "paid_by sample_config ?p"
    using payment_credits_one_investment [OF r, of "(''AB'', 1)" "''m1''" ?p "''m1''" ?p] c by simp
  with r c show ?thesis by blast
qed

end
