(* ===== verification/Auth.thy ===== *)
theory Auth
  imports Units Domain Ttl_Cache
begin

section \<open>Wallet login\<close>

text \<open>
  \<open>src/services/auth.service.ts\<close>: a challenge is issued to a wallet, the wallet signs its message, and
  the signature is exchanged once for a bearer token. The Stellar SDK (key format, signatures), SHA-256,
  base64 decoding, the printing of dates and the jsonwebtoken package are arguments. Metrics and logging
  are not kept; in-flight maps, which share the promise of a running call, are not state here.
\<close>

text \<open>\<open>new HttpError(status, message)\<close> of \<open>src/utils/http-error.ts\<close>.\<close>

definition http_error :: "nat \<Rightarrow> error" where
  "http_error st = ServiceError (''HTTP_'' @ nat_str st) st"

lemma http_error_eq [simp]: "http_error a = http_error b \<longleftrightarrow> a = b"
  by (auto simp: http_error_def)

subsection \<open>The LRU cache\<close>

type_synonym 'v lru = "(string \<times> 'v \<times> int) list"

definition lru_new :: "int \<Rightarrow> 'v lru result" where
  "lru_new maxSize = (if maxSize \<le> 0 then Inl (JsError ''Error'') else Inr [])"

definition lru_get :: "string \<Rightarrow> int \<Rightarrow> 'v lru \<Rightarrow> 'v option \<times> 'v lru" where
  "lru_get k now m =
     (case map_of m k of
        None \<Rightarrow> (None, m)
      | Some (v, e) \<Rightarrow> if now > e then (None, map_delete k m) else (Some v, map_delete k m @ [(k, v, e)]))"

definition lru_set :: "int \<Rightarrow> int \<Rightarrow> string \<Rightarrow> 'v \<Rightarrow> int \<Rightarrow> 'v lru \<Rightarrow> 'v lru" where
  "lru_set maxSize ttlMs k v now m =
     (if ttlMs \<le> 0 then m
      else (if map_of m k \<noteq> None then map_delete k m
            else if int (length m) \<ge> maxSize then (case m of [] \<Rightarrow> [] | (o', x) # r \<Rightarrow> map_delete o' m)
            else m) @ [(k, v, now + ttlMs)])"

definition lru_has :: "string \<Rightarrow> int \<Rightarrow> 'v lru \<Rightarrow> bool \<times> 'v lru" where
  "lru_has k now m = (let (v, m') = lru_get k now m in (v \<noteq> None, m'))"

datatype 'v lru_op = LruGet string int | LruSet string 'v int | LruDelete string | LruClear

definition lru_step :: "int \<Rightarrow> int \<Rightarrow> 'v lru \<Rightarrow> 'v lru_op \<Rightarrow> 'v lru" where
  "lru_step maxSize ttlMs m op' =
     (case op' of LruGet k now \<Rightarrow> snd (lru_get k now m) | LruSet k v now \<Rightarrow> lru_set maxSize ttlMs k v now m
      | LruDelete k \<Rightarrow> map_delete k m | LruClear \<Rightarrow> [])"

definition lru_ok :: "int \<Rightarrow> 'v lru \<Rightarrow> bool" where
  "lru_ok maxSize m \<longleftrightarrow> distinct (map fst m) \<and> int (length m) \<le> maxSize"

lemma map_delete_ok: "distinct (map fst m) \<Longrightarrow> distinct (map fst (map_delete k m)) \<and> k \<notin> fst ` set (map_delete k m) \<and>
    length (map_delete k m) \<le> length m"
  by (auto simp: map_delete_def distinct_map_filter)

lemma map_delete_shorter: "map_of m k \<noteq> None \<Longrightarrow> length (map_delete k m) < length m"
proof -
  assume "map_of m k \<noteq> None"
  then obtain v where "(k, v) \<in> set m" by (metis map_of_SomeD not_None_eq)
  then show ?thesis unfolding map_delete_def by (intro length_filter_less [of "(k, v)"]) auto
qed

lemma lru_step_ok: "0 < maxSize \<Longrightarrow> lru_ok maxSize m \<Longrightarrow> lru_ok maxSize (lru_step maxSize ttl m op')"
proof (cases op')
  case (LruGet k now)
  assume a: "0 < maxSize" "lru_ok maxSize m"
  show ?thesis
  proof (cases "map_of m k")
    case None
    then show ?thesis using a LruGet by (simp add: lru_step_def lru_get_def)
  next
    case (Some p)
    then show ?thesis using a LruGet map_delete_ok [of m k] map_delete_shorter [of m k]
      by (cases p) (auto simp: lru_step_def lru_get_def lru_ok_def)
  qed
next
  case (LruSet k v now)
  assume a: "0 < maxSize" "lru_ok maxSize m"
  define m' where "m' = (if map_of m k \<noteq> None then map_delete k m
            else if int (length m) \<ge> maxSize then (case m of [] \<Rightarrow> [] | (o', x) # r \<Rightarrow> map_delete o' m) else m)"
  have "distinct (map fst m') \<and> k \<notin> fst ` set m' \<and> int (length m') < maxSize"
  proof (cases "map_of m k = None")
    case False
    then have "m' = map_delete k m" "length (map_delete k m) < length m" using map_delete_shorter [of m k] by (simp_all add: m'_def)
    then show ?thesis using a(2) map_delete_ok [of m k] by (simp add: lru_ok_def)
  next
    case True
    then have k: "k \<notin> fst ` set m" by (simp add: map_of_eq_None_iff)
    show ?thesis
    proof (cases "m \<noteq> [] \<and> int (length m) \<ge> maxSize")
      case False
      then have "m' = m" using True a(1) by (cases m) (auto simp: m'_def)
      then show ?thesis using False a k by (cases m) (auto simp: lru_ok_def)
    next
      case full: True
      then obtain x y r where m: "m = (x, y) # r" by (cases m) auto
      have d: "m' = map_delete x m" using full True m by (simp add: m'_def)
      have "length (map_delete x m) < length m" by (rule map_delete_shorter) (simp add: m)
      moreover have "k \<notin> fst ` set (map_delete x m)" using k by (auto simp: map_delete_def)
      ultimately show ?thesis using a(2) d map_delete_ok [of m x] by (simp add: lru_ok_def)
    qed
  qed
  moreover have "lru_step maxSize ttl m op' = (if ttl \<le> 0 then m else m' @ [(k, v, now + ttl)])"
    unfolding LruSet lru_step_def lru_set_def m'_def by (simp only: lru_op.case)
  ultimately show ?thesis using a(2) by (simp add: lru_ok_def)
next
  case (LruDelete k)
  assume "0 < maxSize" "lru_ok maxSize m"
  then show ?thesis using LruDelete map_delete_ok [of m k] by (auto simp: lru_step_def lru_ok_def)
next
  case LruClear
  assume "0 < maxSize" "lru_ok maxSize m"
  then show ?thesis using LruClear by (simp add: lru_step_def lru_ok_def)
qed

interpretation lru: step_invariant "lru_step (int (Suc n)) ttl" "lru_ok (int (Suc n))" for n ttl
  by unfold_locales (rule lru_step_ok, auto)

lemma lru_stays_bounded: "length (foldl (lru_step (int (Suc n)) ttl) [] ops) \<le> Suc n"
  using lru.run_inv [of n "[]" ttl ops] by (simp add: lru_ok_def)

subsection \<open>What is not the program's own\<close>

record auth_env =
  ae_validKey :: "string \<Rightarrow> bool"
  ae_sha256 :: "string \<Rightarrow> string"
  ae_verify :: "string \<Rightarrow> string \<Rightarrow> nat list \<Rightarrow> bool option"
  ae_base64 :: "string \<Rightarrow> nat list"
  ae_iso :: "int \<Rightarrow> string"

text \<open>jsonwebtoken: signing at an instant with an algorithm and a secret, verifying with the accepted
  algorithms (all that fit the key when none are given), and decoding without verification.\<close>

datatype jwt_error = TokenExpired | JsonWebToken string | OtherJwtError

record jwt_lib =
  jl_sign :: "int \<Rightarrow> string \<Rightarrow> string \<Rightarrow> native \<Rightarrow> string"
  jl_verify :: "int \<Rightarrow> string list option \<Rightarrow> string \<Rightarrow> string \<Rightarrow> jwt_error + native"
  jl_decode :: "string \<Rightarrow> native option"

subsection \<open>Rows and state\<close>

record challenge =
  ch_id :: string
  ch_address :: string
  ch_nonceHash :: string
  ch_message :: string
  ch_network :: string
  ch_issuedAt :: int
  ch_expiresAt :: int
  ch_consumedAt :: "int option"

text \<open>A user row with its soft deletion; finders leave deleted rows out.\<close>

record account =
  ac_user :: user
  ac_deleted :: bool

record auth_config =
  au_network :: string
  au_passphrase :: string
  au_challengeTtl :: "int option"
  au_secret :: string
  au_publicKey :: "string option"
  au_userCacheTtl :: int
  au_metricsCacheTtl :: int

record auth_state =
  as_challenges :: "challenge list"
  as_accounts :: "account list"
  as_userCache :: "user lru"
  as_metricsCache :: "(nat \<times> nat \<times> nat) lru"

definition find_account :: "string \<Rightarrow> account list \<Rightarrow> user option" where
  "find_account k as = map_option ac_user (find (\<lambda>a. us_stellarAddress (ac_user a) = Some k \<and> \<not> ac_deleted a) as)"

subsection \<open>Issuing a challenge\<close>

fun join_lines :: "string list \<Rightarrow> string" where
  "join_lines [] = []"
| "join_lines [l] = l"
| "join_lines (l # m # ls) = l @ CHR 0x0A # join_lines (m # ls)"

definition buildChallengeMessage :: "auth_env \<Rightarrow> string \<Rightarrow> string \<Rightarrow> string \<Rightarrow> string \<Rightarrow> int \<Rightarrow> int \<Rightarrow> string" where
  "buildChallengeMessage env k nonce network passphrase issued expires =
     join_lines [''StellarSettle Authentication Challenge'', ''Public Key: '' @ k, ''Network: '' @ network,
       ''Network Passphrase: '' @ passphrase, ''Nonce: '' @ nonce, ''Issued At: '' @ ae_iso env issued,
       ''Expires At: '' @ ae_iso env expires, [], ''Sign this exact message to authenticate with the StellarSettle API.'']"

definition assertValidPublicKey :: "auth_env \<Rightarrow> native option \<Rightarrow> string result" where
  "assertValidPublicKey env v =
     (case v of
        Some (NStr s) \<Rightarrow> if js_trim s = [] \<or> \<not> ae_validKey env (js_trim s) then Inl (http_error 400) else Inr (js_trim s)
      | _ \<Rightarrow> Inl (http_error 400))"

definition challenge_ttl :: "auth_config \<Rightarrow> int" where
  "challenge_ttl cfg = (case au_challengeTtl cfg of Some t \<Rightarrow> if t > 0 then t else 60000 | None \<Rightarrow> 60000)"

record challenge_response =
  cr_publicKey :: string
  cr_nonce :: string
  cr_message :: string
  cr_issuedAt :: int
  cr_expiresAt :: int
  cr_network :: string

text \<open>The random nonce and the row's id are arguments; a failing insert (here a second row of one
  address and nonce hash, against the unique index) is reported as 500.\<close>

definition createChallenge ::
    "auth_env \<Rightarrow> auth_config \<Rightarrow> native option \<Rightarrow> string \<Rightarrow> string \<Rightarrow> int \<Rightarrow> auth_state \<Rightarrow> error + (challenge_response \<times> auth_state)" where
  "createChallenge env cfg key nonce x now s =
     and_then (assertValidPublicKey env key) (\<lambda>k.
       let expires = now + challenge_ttl cfg;
           message = buildChallengeMessage env k nonce (au_network cfg) (au_passphrase cfg) now expires
       in if \<exists>c \<in> set (as_challenges s). ch_address c = k \<and> ch_nonceHash c = ae_sha256 env nonce then Inl (http_error 500)
          else Inr (\<lparr>cr_publicKey = k, cr_nonce = nonce, cr_message = message, cr_issuedAt = now, cr_expiresAt = expires, cr_network = au_network cfg\<rparr>,
                    s\<lparr>as_challenges := as_challenges s @ [\<lparr>ch_id = x, ch_address = k, ch_nonceHash = ae_sha256 env nonce, ch_message = message,
                        ch_network = au_network cfg, ch_issuedAt = now, ch_expiresAt = expires, ch_consumedAt = None\<rparr>]\<rparr>))"

subsection \<open>Reading the answer\<close>

definition is_hex :: "char \<Rightarrow> bool" where
  "is_hex c \<longleftrightarrow> (case digit_of c of Some d \<Rightarrow> d < 16 | None \<Rightarrow> False)"

text \<open>\<open>Buffer.from(s, "hex")\<close>: up to the first pair that is not two hex digits.\<close>

fun hex_bytes :: "string \<Rightarrow> nat list" where
  "hex_bytes (a # b # r) =
     (if is_hex a \<and> is_hex b then (16 * the (digit_of a) + the (digit_of b)) # hex_bytes r else [])"
| "hex_bytes _ = []"

definition is_alnum :: "char \<Rightarrow> bool" where
  "is_alnum c \<longleftrightarrow> digit_of c \<noteq> None"

definition is_base64 :: "char \<Rightarrow> bool" where
  "is_base64 c \<longleftrightarrow> is_alnum c \<or> c \<in> set ''+/_=-''"

definition url_char :: "char \<Rightarrow> char" where
  "url_char c = (if c = CHR ''-'' then CHR ''+'' else if c = CHR ''_'' then CHR ''/'' else c)"

definition MAX_SIGNATURE_LENGTH :: nat where "MAX_SIGNATURE_LENGTH = 2048"

definition decodeSignature :: "auth_env \<Rightarrow> string \<Rightarrow> nat list result" where
  "decodeSignature env sg =
     (let t = js_trim sg; h = (if take 2 t = ''0x'' then drop 2 t else t);
          b = map url_char t; pad = length b mod 4
      in if t = [] then Inl (http_error 400)
         else if length t > MAX_SIGNATURE_LENGTH then Inl (http_error 400)
         else if h \<noteq> [] \<and> list_all is_hex h \<and> even (length h) then Inr (hex_bytes h)
         else if \<not> list_all is_base64 t then Inl (http_error 401)
         else Inr (ae_base64 env (if pad = 0 then b else b @ replicate (4 - pad) (CHR ''=''))))"

record login_input =
  lo_publicKey :: "native option"
  lo_wallet :: "native option"
  lo_nonce :: "native option"
  lo_challenge :: "native option"
  lo_signature :: "native option"

definition assertNonEmptyString :: "native option \<Rightarrow> string result" where
  "assertNonEmptyString v = (case v of Some (NStr s) \<Rightarrow> Inr s | _ \<Rightarrow> Inl (http_error 400))"

definition MIN_NONCE_LENGTH :: nat where "MIN_NONCE_LENGTH = 16"
definition MAX_NONCE_LENGTH :: nat where "MAX_NONCE_LENGTH = 512"

text \<open>Everything that is checked before the database is asked: wallet, nonce and signature bytes.\<close>

definition login_request :: "auth_env \<Rightarrow> login_input \<Rightarrow> (string \<times> string \<times> nat list) result" where
  "login_request env inp =
     (let rawKey = non_null_or (lo_publicKey inp) (lo_wallet inp);
          rawNonce = non_null_or (lo_nonce inp) (lo_challenge inp)
      in if \<not> js_truthy rawKey then Inl (http_error 400)
         else and_then (assertValidPublicKey env rawKey) (\<lambda>k.
              if \<not> js_truthy rawNonce then Inl (http_error 400)
              else and_then (assertNonEmptyString rawNonce) (\<lambda>n.
                   let nonce = js_trim n
                   in if length nonce < MIN_NONCE_LENGTH \<or> length nonce > MAX_NONCE_LENGTH then Inl (http_error 400)
                      else and_then (assertNonEmptyString (lo_signature inp)) (\<lambda>g.
                           let sg = js_trim g
                           in if length sg > MAX_SIGNATURE_LENGTH then Inl (http_error 400)
                              else and_then (decodeSignature env sg) (\<lambda>bytes. Inr (k, nonce, bytes))))))"

text \<open>The challenge the answer is for, still open, with a valid signature over its message.\<close>

definition open_challenge :: "auth_env \<Rightarrow> auth_config \<Rightarrow> string \<Rightarrow> string \<Rightarrow> nat list \<Rightarrow> int \<Rightarrow> auth_state \<Rightarrow> challenge result" where
  "open_challenge env cfg k nonce bytes now s =
     (case find (\<lambda>c. ch_address c = k \<and> ch_nonceHash c = ae_sha256 env nonce) (as_challenges s) of
        None \<Rightarrow> Inl (http_error 401)
      | Some c \<Rightarrow>
          if ch_network c \<noteq> au_network cfg then Inl (http_error 401)
          else if ch_consumedAt c \<noteq> None then Inl (http_error 401)
          else if ch_expiresAt c \<le> now then Inl (http_error 401)
          else if ae_verify env k (ch_message c) bytes \<noteq> Some True then Inl (http_error 401)
          else Inr c)"

subsection \<open>Using the challenge up\<close>

text \<open>The conditional update of the row, and the account of the wallet, found or made. A second insert
  of one address meets the unique index; the account is then looked up again.\<close>

definition consume :: "string \<Rightarrow> int \<Rightarrow> auth_state \<Rightarrow> bool \<times> auth_state" where
  "consume x now s =
     (\<exists>c \<in> set (as_challenges s). ch_id c = x \<and> ch_consumedAt c = None,
      s\<lparr>as_challenges := map (\<lambda>c. if ch_id c = x \<and> ch_consumedAt c = None then c\<lparr>ch_consumedAt := Some now\<rparr> else c) (as_challenges s)\<rparr>)"

definition new_user :: "string \<Rightarrow> string \<Rightarrow> user" where
  "new_user x k = \<lparr>us_id = x, us_stellarAddress = Some k, us_userType = INVESTOR, us_kycStatus = KycPENDING, us_isKycVerified = False,
     us_isSuspended = False\<rparr>"

definition upsertUser :: "string \<Rightarrow> string \<Rightarrow> auth_state \<Rightarrow> user result \<times> auth_state" where
  "upsertUser k x s =
     (case find_account k (as_accounts s) of
        Some u \<Rightarrow> (Inr u, s)
      | None \<Rightarrow>
          if \<exists>a \<in> set (as_accounts s). us_stellarAddress (ac_user a) = Some k then (Inl (JsError ''duplicate key''), s)
          else (Inr (new_user x k), s\<lparr>as_accounts := as_accounts s @ [\<lparr>ac_user = new_user x k, ac_deleted = False\<rparr>]\<rparr>))"

subsection \<open>Tokens\<close>

definition user_type_str :: "user_type \<Rightarrow> string" where
  "user_type_str t = (case t of SELLER \<Rightarrow> ''seller'' | INVESTOR \<Rightarrow> ''investor'' | BOTH \<Rightarrow> ''both'' | ADMIN \<Rightarrow> ''admin'')"

definition kyc_str :: "kyc_status \<Rightarrow> string" where
  "kyc_str k = (case k of KycPENDING \<Rightarrow> ''pending'' | KycINREVIEW \<Rightarrow> ''in_review'' | KycAPPROVED \<Rightarrow> ''approved''
     | KycREJECTED \<Rightarrow> ''rejected'' | KycEXPIRED \<Rightarrow> ''expired'')"

definition address_of :: "user \<Rightarrow> string" where
  "address_of u = (case us_stellarAddress u of Some a \<Rightarrow> a | None \<Rightarrow> [])"

definition token_algorithm :: "auth_config \<Rightarrow> string" where
  "token_algorithm cfg = (if sublist ''BEGIN'' (au_secret cfg) then ''RS256'' else ''HS256'')"

definition token_claims :: "user \<Rightarrow> native" where
  "token_claims u = NObj [(''sub'', NStr (address_of u)), (''stellarAddress'', NStr (address_of u)), (''wallet'', NStr (address_of u)),
     (''walletAddress'', NStr (address_of u)), (''role'', NStr (user_type_str (us_userType u))),
     (''userType'', NStr (user_type_str (us_userType u))), (''userId'', NStr (us_id u))]"

definition signToken :: "jwt_lib \<Rightarrow> auth_config \<Rightarrow> int \<Rightarrow> user \<Rightarrow> string" where
  "signToken J cfg now u = jl_sign J now (token_algorithm cfg) (au_secret cfg) (token_claims u)"

text \<open>The address is trimmed, and the id falls back to it.\<close>

definition generateToken :: "jwt_lib \<Rightarrow> auth_config \<Rightarrow> int \<Rightarrow> string \<Rightarrow> string \<Rightarrow> string" where
  "generateToken J cfg now x k =
     (let a = js_trim k; i = (if js_trim x \<noteq> [] then js_trim x else a)
      in jl_sign J now (token_algorithm cfg) (au_secret cfg)
           (NObj [(''stellarAddress'', NStr a), (''walletAddress'', NStr a), (''userId'', NStr i), (''sub'', NStr a)]))"

definition verify_key :: "auth_config \<Rightarrow> string" where
  "verify_key cfg = (case au_publicKey cfg of Some k \<Rightarrow> k | None \<Rightarrow> au_secret cfg)"

definition verifyToken :: "jwt_lib \<Rightarrow> auth_config \<Rightarrow> int \<Rightarrow> string \<Rightarrow> string option \<Rightarrow> error + jwt_error + native" where
  "verifyToken J cfg now token key =
     (if js_trim token = [] then Inl (http_error 401)
      else Inr (jl_verify J now None (case key of Some k \<Rightarrow> k | None \<Rightarrow> verify_key cfg) (js_trim token)))"

subsection \<open>Logging in\<close>

record login_response =
  lr_token :: string
  lr_user :: user

definition login_result ::
    "jwt_lib \<Rightarrow> auth_config \<Rightarrow> string \<Rightarrow> int \<Rightarrow> bool \<Rightarrow> user result \<Rightarrow> auth_state \<Rightarrow> login_response result \<times> auth_state" where
  "login_result J cfg k now consumed u s =
     (case u of
        Inl (ServiceError c st) \<Rightarrow> (Inl (ServiceError c st), s)
      | Inl (JsError m) \<Rightarrow> (Inl (ServiceError ''AUTH_PROCESSING_FAILED'' 500), s)
      | Inr usr \<Rightarrow>
          if \<not> consumed then (Inl (http_error 401), s)
          else (Inr \<lparr>lr_token = signToken J cfg now usr, lr_user = usr\<rparr>,
                s\<lparr>as_userCache := lru_set 2000 (au_userCacheTtl cfg) k usr now (as_userCache s)\<rparr>))"

definition verifyChallenge ::
    "auth_env \<Rightarrow> jwt_lib \<Rightarrow> auth_config \<Rightarrow> login_input \<Rightarrow> string \<Rightarrow> int \<Rightarrow> auth_state \<Rightarrow> login_response result \<times> auth_state" where
  "verifyChallenge env J cfg inp x now s =
     (case login_request env inp of
        Inl e \<Rightarrow> (Inl e, s)
      | Inr (k, nonce, bytes) \<Rightarrow>
          (case open_challenge env cfg k nonce bytes now s of
             Inl e \<Rightarrow> (Inl e, s)
           | Inr c \<Rightarrow>
               let (consumed, s1) = consume (ch_id c) now s;
                   (u, s2) = upsertUser k x s1
               in login_result J cfg k now consumed u s2))"

subsection \<open>Maintenance and lookups\<close>

definition deleteExpired :: "int \<Rightarrow> auth_state \<Rightarrow> nat \<times> auth_state" where
  "deleteExpired before s =
     (let gone = (\<lambda>c. ch_expiresAt c < before \<or> (case ch_consumedAt c of Some t \<Rightarrow> t < before | None \<Rightarrow> False))
      in (length (filter gone (as_challenges s)), s\<lparr>as_challenges := filter (\<lambda>c. \<not> gone c) (as_challenges s)\<rparr>))"

text \<open>An absent, negative or non-finite age (\<open>None\<close>) is a day.\<close>

definition cleanupExpiredChallenges :: "int option \<Rightarrow> int \<Rightarrow> auth_state \<Rightarrow> nat \<times> auth_state" where
  "cleanupExpiredChallenges maxAge now s =
     (let age = (case maxAge of Some a \<Rightarrow> if a \<ge> 0 then a else 86400000 | None \<Rightarrow> 86400000) in deleteExpired (now - age) s)"

definition countByStatus :: "string \<Rightarrow> int \<Rightarrow> auth_state \<Rightarrow> nat" where
  "countByStatus st now s =
     length (filter (\<lambda>c. if st = ''active'' then ch_consumedAt c = None \<and> ch_expiresAt c > now
                         else if st = ''consumed'' then ch_consumedAt c \<noteq> None
                         else ch_consumedAt c = None \<and> ch_expiresAt c \<le> now) (as_challenges s))"

definition getChallengeMetrics :: "auth_config \<Rightarrow> int \<Rightarrow> auth_state \<Rightarrow> (nat \<times> nat \<times> nat) \<times> auth_state" where
  "getChallengeMetrics cfg now s =
     (let (cached, m) = lru_get ''metrics'' now (as_metricsCache s)
      in case cached of
           Some r \<Rightarrow> (r, s\<lparr>as_metricsCache := m\<rparr>)
         | None \<Rightarrow>
             let r = (countByStatus ''active'' now s, countByStatus ''consumed'' now s, countByStatus ''expired'' now s)
             in (r, s\<lparr>as_metricsCache := lru_set 10 (au_metricsCacheTtl cfg) ''metrics'' r now m\<rparr>))"

definition invalidateUserCache :: "string option \<Rightarrow> auth_state \<Rightarrow> auth_state" where
  "invalidateUserCache k s =
     s\<lparr>as_userCache := (if truthy k then map_delete (js_trim (the k)) (as_userCache s) else [])\<rparr>"

definition MAX_TOKEN_LENGTH :: nat where "MAX_TOKEN_LENGTH = 8192"

definition getCurrentUser :: "jwt_lib \<Rightarrow> auth_config \<Rightarrow> int \<Rightarrow> string \<Rightarrow> auth_state \<Rightarrow> user result \<times> auth_state" where
  "getCurrentUser J cfg now token s =
     (let t = js_trim token
      in if t = [] \<or> length t > MAX_TOKEN_LENGTH then (Inl (http_error 401), s)
         else case jl_verify J now None (verify_key cfg) t of
                Inl e \<Rightarrow> (Inl (http_error 401), s)
              | Inr payload \<Rightarrow>
                  let sub = (case nfield payload ''sub'' of Some (NStr v) \<Rightarrow> js_trim v | _ \<Rightarrow> [])
                  in if sub = [] then (Inl (http_error 401), s)
                     else let (cached, m) = lru_get sub now (as_userCache s); s1 = s\<lparr>as_userCache := m\<rparr>
                          in case cached of
                               Some u \<Rightarrow> (Inr u, s1)
                             | None \<Rightarrow>
                                 (case find_account sub (as_accounts s) of
                                    None \<Rightarrow> (Inl (http_error 401), s1)
                                  | Some u \<Rightarrow> (Inr u, s1\<lparr>as_userCache := lru_set 2000 (au_userCacheTtl cfg) sub u now m\<rparr>)))"

end
