(* ===== verification/Auth_Steps.thy ===== *)
theory Auth_Steps
  imports Auth
begin

section \<open>What a login guarantees\<close>

text \<open>
  The message of a challenge identifies wallet, nonce and network; a challenge answered in time with
  a valid signature logs its wallet in, and logs in at most once under any interleaving of requests,
  clean-ups and other writers.
\<close>

subsection \<open>Messages\<close>

definition one_line :: "string \<Rightarrow> bool" where
  "one_line s \<longleftrightarrow> CHR 0x0A \<notin> set s"

lemma split_at_newline:
  "one_line a \<Longrightarrow> one_line b \<Longrightarrow> a @ CHR 0x0A # xs = b @ CHR 0x0A # ys \<longleftrightarrow> a = b \<and> xs = ys"
proof (induction a arbitrary: b)
  case Nil
  then show ?case by (cases b) (auto simp: one_line_def)
next
  case (Cons c a)
  then show ?case by (cases b) (auto simp: one_line_def)
qed

lemma join_lines_inj:
  "list_all one_line xs \<Longrightarrow> list_all one_line ys \<Longrightarrow> length xs = length ys \<Longrightarrow> join_lines xs = join_lines ys \<longleftrightarrow> xs = ys"
proof (induction xs arbitrary: ys rule: join_lines.induct)
  case 1
  then show ?case by simp
next
  case (2 l)
  then obtain y where "ys = [y]" by (cases ys) auto
  then show ?case by simp
next
  case (3 l m ls)
  then obtain y z zs where y: "ys = y # z # zs" by (metis length_Suc_conv)
  have "join_lines (m # ls) = join_lines (z # zs) \<longleftrightarrow> m # ls = z # zs"
    using 3 y by (intro 3(1)) auto
  then show ?case using 3(2-) y split_at_newline [of l y] by simp
qed

text \<open>Two challenge messages are the same text only for the same wallet, nonce, network and printed
  times, so a signature over one challenge's message is no answer to any other challenge.\<close>

theorem challenge_message_identifies:
  assumes "\<forall>s \<in> {k, k', nonce, nonce', network, network', pass, pass'}. one_line s" "\<forall>t. one_line (ae_iso env t)"
  shows "buildChallengeMessage env k nonce network pass t e = buildChallengeMessage env k' nonce' network' pass' t' e' \<longleftrightarrow>
     k = k' \<and> nonce = nonce' \<and> network = network' \<and> pass = pass' \<and> ae_iso env t = ae_iso env t' \<and> ae_iso env e = ae_iso env e'"
  unfolding buildChallengeMessage_def
  by (subst join_lines_inj) (use assms in \<open>auto simp: one_line_def\<close>)

definition sample_env :: auth_env where
  "sample_env = \<lparr>ae_validKey = (\<lambda>k. hd k = CHR ''G''), ae_sha256 = (\<lambda>s. s), ae_verify = (\<lambda>k m b. Some (b = [1, 171])),
     ae_base64 = (\<lambda>s. []), ae_iso = (\<lambda>t. if t < 0 then ''before'' else replicate (nat t) CHR ''1'')\<rparr>"

theorem challenge_message_identifies_witness:
  "buildChallengeMessage sample_env ''GA'' ''0123456789abcdef'' ''testnet'' ''Test'' 1 2 \<noteq>
   buildChallengeMessage sample_env ''GB'' ''0123456789abcdef'' ''testnet'' ''Test'' 1 2"
  by (subst challenge_message_identifies) (auto simp: one_line_def sample_env_def)

subsection \<open>Answering in time\<close>

lemma js_trim_idem [simp]: "js_trim (js_trim s) = js_trim s"
proof -
  let ?d = "dropWhile is_ws"
  have a: "?d (?d xs) = ?d xs" for xs by (induction xs) auto
  have b: "rev (?d (rev (?d xs))) = js_trim xs" for xs by (simp add: js_trim_def)
  have "?d (rev (?d (rev (?d s)))) = rev (?d (rev (?d s)))"
  proof (cases "rev (?d (rev (?d s)))")
    case (Cons c r)
    have "\<not> is_ws c"
    proof -
      obtain zs where z: "?d s = rev (?d (rev (?d s))) @ zs"
        by (metis append.assoc rev_append rev_rev_ident takeWhile_dropWhile_id)
      then have "hd (?d s) = c" "?d s \<noteq> []" using Cons by auto
      then show ?thesis using hd_dropWhile by metis
    qed
    then show ?thesis using Cons by simp
  next
    case Nil
    then show ?thesis by (simp only: Nil dropWhile.simps)
  qed
  then show ?thesis by (simp add: js_trim_def a)
qed

lemma valid_key: "assertValidPublicKey env v = Inr k \<Longrightarrow> js_trim k = k \<and> k \<noteq> [] \<and> ae_validKey env k"
proof -
  assume "assertValidPublicKey env v = Inr k"
  then obtain x where "k = js_trim x" "js_trim x \<noteq> []" "ae_validKey env (js_trim x)"
    by (auto simp: assertValidPublicKey_def split: option.splits native.splits if_splits)
  then show ?thesis by simp
qed

lemma consume_simps [simp]:
  "as_accounts (snd (consume x now s)) = as_accounts s" "as_userCache (snd (consume x now s)) = as_userCache s"
  by (simp_all add: consume_def)

lemma upsert_simps [simp]: "as_challenges (snd (upsertUser k x s)) = as_challenges s"
  by (simp add: upsertUser_def split: option.splits)

lemma upsert_address: "upsertUser k x s = (Inr u, s') \<Longrightarrow> us_stellarAddress u = Some k"
  by (auto simp: upsertUser_def find_account_def new_user_def split: option.splits if_splits dest!: find_SomeD)

lemma upsert_live:
  assumes "\<forall>a \<in> set (as_accounts s). us_stellarAddress (ac_user a) = Some k \<longrightarrow> \<not> ac_deleted a"
  shows "\<exists>u. fst (upsertUser k x s) = Inr u"
proof (cases "find_account k (as_accounts s)")
  case None
  then have "\<not> (\<exists>a \<in> set (as_accounts s). us_stellarAddress (ac_user a) = Some k)"
    using assms by (auto simp: find_account_def find_None_iff)
  then show ?thesis using None by (simp add: upsertUser_def)
qed (simp add: upsertUser_def)

lemma login_result_challenges [simp]: "as_challenges (snd (login_result J cfg k now ok u s)) = as_challenges s"
  by (auto simp: login_result_def split: sum.splits error.splits)

definition answer :: "string \<Rightarrow> string \<Rightarrow> string \<Rightarrow> login_input" where
  "answer k nonce sg = \<lparr>lo_publicKey = Some (NStr k), lo_wallet = None, lo_nonce = Some (NStr nonce), lo_challenge = None,
     lo_signature = Some (NStr sg)\<rparr>"

lemma answer_request:
  assumes "js_trim k = k" "k \<noteq> []" "ae_validKey env k" "js_trim nonce = nonce" "MIN_NONCE_LENGTH \<le> length nonce"
    "length nonce \<le> MAX_NONCE_LENGTH" "js_trim sg = sg" "length sg \<le> MAX_SIGNATURE_LENGTH" "decodeSignature env sg = Inr bytes"
  shows "login_request env (answer k nonce sg) = Inr (k, nonce, bytes)"
proof -
  have "nonce \<noteq> []" using assms(5) by (auto simp: MIN_NONCE_LENGTH_def)
  then show ?thesis using assms by (simp add: login_request_def answer_def non_null_or_def js_truthy_def assertValidPublicKey_def assertNonEmptyString_def Let_def)
qed

text \<open>A challenge answered before it expires with a signature the wallet's key accepts logs the
  wallet in with a token for its account; the same answer is refused from then on, and so is the
  answer when it comes too late.\<close>

theorem challenge_logs_in_and_is_used_up:
  assumes "createChallenge env cfg key nonce x t s = Inr (r, s1)"
    and "js_trim nonce = nonce" "MIN_NONCE_LENGTH \<le> length nonce" "length nonce \<le> MAX_NONCE_LENGTH"
    and "js_trim sg = sg" "length sg \<le> MAX_SIGNATURE_LENGTH" "decodeSignature env sg = Inr bytes"
    and "ae_verify env (cr_publicKey r) (cr_message r) bytes = Some True"
    and "\<forall>a \<in> set (as_accounts s). us_stellarAddress (ac_user a) = Some (cr_publicKey r) \<longrightarrow> \<not> ac_deleted a"
  shows "(now < cr_expiresAt r \<longrightarrow>
      (\<exists>u s2. verifyChallenge env J cfg (answer (cr_publicKey r) nonce sg) y now s1 =
          (Inr \<lparr>lr_token = signToken J cfg now u, lr_user = u\<rparr>, s2) \<and> us_stellarAddress u = Some (cr_publicKey r) \<and>
        (\<forall>z later. fst (verifyChallenge env J cfg (answer (cr_publicKey r) nonce sg) z later s2) = Inl (http_error 401)))) \<and>
     (cr_expiresAt r \<le> now \<longrightarrow> verifyChallenge env J cfg (answer (cr_publicKey r) nonce sg) y now s1 = (Inl (http_error 401), s1))"
proof -
  let ?k = "cr_publicKey r" and ?h = "ae_sha256 env nonce"
  let ?c = "\<lparr>ch_id = x, ch_address = ?k, ch_nonceHash = ?h, ch_message = cr_message r, ch_network = au_network cfg, ch_issuedAt = t,
             ch_expiresAt = cr_expiresAt r, ch_consumedAt = None\<rparr>"
  let ?P = "\<lambda>c. ch_address c = ?k \<and> ch_nonceHash c = ?h"
  have cr: "assertValidPublicKey env key = Inr ?k" "s1 = s\<lparr>as_challenges := as_challenges s @ [?c]\<rparr>"
    "\<not> (\<exists>c \<in> set (as_challenges s). ?P c)"
    using assms(1) by (auto simp: createChallenge_def result_simps Let_def split: if_splits)
  have key: "js_trim ?k = ?k" "?k \<noteq> []" "ae_validKey env ?k"
    using valid_key [OF cr(1)] by simp_all
  have req: "login_request env (answer ?k nonce sg) = Inr (?k, nonce, bytes)"
    by (rule answer_request [OF key assms(2-7)])
  have f0: "find ?P (as_challenges s) = None" using cr(3) by (auto simp: find_None_iff)
  have app: "find ?P (xs @ ys) = (case find ?P xs of None \<Rightarrow> find ?P ys | Some c \<Rightarrow> Some c)" for xs ys by (induction xs) auto
  have found: "find ?P (as_challenges s1) = Some ?c" using cr(2) f0 by (simp add: app)
  have late: "verifyChallenge env J cfg (answer ?k nonce sg) y now s1 = (Inl (http_error 401), s1)" if "cr_expiresAt r \<le> now"
    using req found that by (simp add: verifyChallenge_def open_challenge_def)
  have in_time: "\<exists>u s2. verifyChallenge env J cfg (answer ?k nonce sg) y now s1 =
          (Inr \<lparr>lr_token = signToken J cfg now u, lr_user = u\<rparr>, s2) \<and> us_stellarAddress u = Some ?k \<and>
        (\<forall>z later. fst (verifyChallenge env J cfg (answer ?k nonce sg) z later s2) = Inl (http_error 401))" if lt: "now < cr_expiresAt r"
  proof -
    have op': "open_challenge env cfg ?k nonce bytes now s1 = Inr ?c"
      using found lt assms(8) by (simp add: open_challenge_def)
    obtain s2 where con: "consume x now s1 = (True, s2)" using cr(2) by (auto simp: consume_def)
    have s2: "s2 = snd (consume x now s1)" using con by simp
    have chs: "as_challenges s2 = map (\<lambda>c. if ch_id c = x \<and> ch_consumedAt c = None then c\<lparr>ch_consumedAt := Some now\<rparr> else c) (as_challenges s) @
        [?c\<lparr>ch_consumedAt := Some now\<rparr>]"
      unfolding s2 using cr(2) by (simp add: consume_def)
    obtain u where u: "fst (upsertUser ?k y s2) = Inr u"
      using upsert_live [of s2 ?k y] assms(9) cr(2) s2 by auto
    obtain s3 where s3: "upsertUser ?k y s2 = (Inr u, s3)" using u by (cases "upsertUser ?k y s2") auto
    let ?s4 = "snd (login_result J cfg ?k now True (Inr u) s3)"
    have v: "verifyChallenge env J cfg (answer ?k nonce sg) y now s1 = (Inr \<lparr>lr_token = signToken J cfg now u, lr_user = u\<rparr>, ?s4)"
      using req op' con s3 by (simp add: verifyChallenge_def login_result_def)
    have "as_challenges ?s4 = as_challenges s2" using upsert_simps [of ?k y s2] s3 by simp
    moreover have "find ?P (map (\<lambda>c. if ch_id c = x \<and> ch_consumedAt c = None then c\<lparr>ch_consumedAt := Some now\<rparr> else c) (as_challenges s)) = None"
      using cr(3) by (auto simp: find_None_iff)
    ultimately have "find ?P (as_challenges ?s4) = Some (?c\<lparr>ch_consumedAt := Some now\<rparr>)" using chs by (simp add: app)
    then have "fst (verifyChallenge env J cfg (answer ?k nonce sg) z later ?s4) = Inl (http_error 401)" for z later
      using req by (simp add: verifyChallenge_def open_challenge_def)
    then show ?thesis using v upsert_address [OF s3] by blast
  qed
  show ?thesis using late in_time by blast
qed

definition sample_auth :: auth_config where
  "sample_auth = \<lparr>au_network = ''testnet'', au_passphrase = ''Test'', au_challengeTtl = None, au_secret = ''secret'', au_publicKey = None,
     au_userCacheTtl = 0, au_metricsCacheTtl = 5000\<rparr>"

definition sample_jwt :: jwt_lib where
  "sample_jwt = \<lparr>jl_sign = (\<lambda>t alg secret p. ''aa.bb.cc''), jl_verify = (\<lambda>t algs secret s. Inl OtherJwtError), jl_decode = (\<lambda>s. None)\<rparr>"

definition no_logins :: auth_state where
  "no_logins = \<lparr>as_challenges = [], as_accounts = [], as_userCache = [], as_metricsCache = []\<rparr>"

lemma sample_signature: "decodeSignature sample_env ''01ab'' = Inr [1, 171]" "js_trim ''01ab'' = ''01ab''"
  "js_trim ''0123456789abcdef'' = ''0123456789abcdef''" "js_trim ''GA'' = ''GA''"
  by (simp_all add: decodeSignature_def js_trim_def is_ws_def is_hex_def digit_of_def Let_def MAX_SIGNATURE_LENGTH_def)

theorem challenge_logs_in_and_is_used_up_witness:
  "\<exists>r s1 u s2. createChallenge sample_env sample_auth (Some (NStr ''GA'')) ''0123456789abcdef'' ''c1'' 0 no_logins = Inr (r, s1) \<and>
     verifyChallenge sample_env sample_jwt sample_auth (answer ''GA'' ''0123456789abcdef'' ''01ab'') ''u1'' 7 s1 = (Inr \<lparr>lr_token = signToken sample_jwt sample_auth 7 u, lr_user = u\<rparr>, s2) \<and>
     fst (verifyChallenge sample_env sample_jwt sample_auth (answer ''GA'' ''0123456789abcdef'' ''01ab'') ''u2'' 8 s2) = Inl (http_error 401)"
proof -
  obtain r s1 where c: "createChallenge sample_env sample_auth (Some (NStr ''GA'')) ''0123456789abcdef'' ''c1'' 0 no_logins = Inr (r, s1)"
    "cr_publicKey r = ''GA''" "cr_expiresAt r = 60000"
    by (simp add: createChallenge_def assertValidPublicKey_def sample_signature sample_env_def no_logins_def Let_def challenge_ttl_def sample_auth_def)
  have v: "ae_verify sample_env (cr_publicKey r) (cr_message r) [1, 171] = Some True" by (simp add: sample_env_def)
  have l: "MIN_NONCE_LENGTH \<le> length ''0123456789abcdef''" "length ''0123456789abcdef'' \<le> MAX_NONCE_LENGTH" "length ''01ab'' \<le> MAX_SIGNATURE_LENGTH"
    by (simp_all add: MIN_NONCE_LENGTH_def MAX_NONCE_LENGTH_def MAX_SIGNATURE_LENGTH_def)
  have a: "\<forall>a \<in> set (as_accounts no_logins). us_stellarAddress (ac_user a) = Some (cr_publicKey r) \<longrightarrow> \<not> ac_deleted a"
    by (simp add: no_logins_def)
  from challenge_logs_in_and_is_used_up [OF c(1) sample_signature(3) l(1,2) sample_signature(2) l(3) sample_signature(1) v a, of 7 sample_jwt "''u1''"]
  show ?thesis using c by fastforce
qed

subsection \<open>Concurrent logins\<close>

text \<open>
  A request that has passed its checks uses the challenge up and finds or makes the account, in either
  order, and then answers. Beside the requests challenges are issued and cleaned up, the clock runs and
  other code changes the accounts.
\<close>

datatype lpc = LIdle | LOpen string challenge "nat list" int "bool option" "user result option"

record lworld =
  lw_state :: auth_state
  lw_now :: int
  lw_procs :: "nat \<Rightarrow> lpc"
  lw_issued :: "(challenge \<times> string) list"
  lw_logins :: "(challenge \<times> nat list \<times> int \<times> user) list"

inductive login_step :: "auth_env \<Rightarrow> auth_config \<Rightarrow> lworld \<Rightarrow> lworld \<Rightarrow> bool" for env cfg where
  issue: "createChallenge env cfg key nonce x (lw_now w) (lw_state w) = Inr (r, s') \<Longrightarrow> x \<notin> ch_id ` fst ` set (lw_issued w) \<Longrightarrow>
    login_step env cfg w (w\<lparr>lw_state := s', lw_issued := lw_issued w @ [(last (as_challenges s'), nonce)]\<rparr>)"
| check: "login_request env inp = Inr (k, nonce, bytes) \<Longrightarrow> open_challenge env cfg k nonce bytes (lw_now w) (lw_state w) = Inr c \<Longrightarrow>
    login_step env cfg w (w\<lparr>lw_procs := (lw_procs w)(p := LOpen k c bytes (lw_now w) None None)\<rparr>)"
| use_up: "lw_procs w p = LOpen k c bytes t None u \<Longrightarrow> consume (ch_id c) (lw_now w) (lw_state w) = (ok, s') \<Longrightarrow>
    login_step env cfg w (w\<lparr>lw_state := s', lw_procs := (lw_procs w)(p := LOpen k c bytes t (Some ok) u)\<rparr>)"
| account: "lw_procs w p = LOpen k c bytes t ok None \<Longrightarrow> upsertUser k x (lw_state w) = (u, s') \<Longrightarrow>
    login_step env cfg w (w\<lparr>lw_state := s', lw_procs := (lw_procs w)(p := LOpen k c bytes t ok (Some u))\<rparr>)"
| log_in: "lw_procs w p = LOpen k c bytes t (Some True) (Some (Inr u)) \<Longrightarrow>
    login_step env cfg w (w\<lparr>lw_procs := (lw_procs w)(p := LIdle), lw_logins := lw_logins w @ [(c, bytes, t, u)]\<rparr>)"
| give_up: "login_step env cfg w (w\<lparr>lw_procs := (lw_procs w)(p := LIdle)\<rparr>)"
| clean: "login_step env cfg w (w\<lparr>lw_state := snd (deleteExpired before (lw_state w))\<rparr>)"
| tick: "lw_now w \<le> t \<Longrightarrow> login_step env cfg w (w\<lparr>lw_now := t\<rparr>)"
| others: "as_challenges s' = as_challenges (lw_state w) \<Longrightarrow> login_step env cfg w (w\<lparr>lw_state := s'\<rparr>)"

text \<open>What is known of an issued challenge, and of a request or login for it.\<close>

definition issued_ok :: "auth_env \<Rightarrow> auth_config \<Rightarrow> challenge \<times> string \<Rightarrow> bool" where
  "issued_ok env cfg i \<longleftrightarrow> (case i of (c, nonce) \<Rightarrow> ch_consumedAt c = None \<and> ch_nonceHash c = ae_sha256 env nonce \<and>
     ch_network c = au_network cfg \<and> ch_expiresAt c = ch_issuedAt c + challenge_ttl cfg \<and> ae_validKey env (ch_address c) \<and>
     ch_message c = buildChallengeMessage env (ch_address c) nonce (au_network cfg) (au_passphrase cfg) (ch_issuedAt c) (ch_expiresAt c))"

definition signed_in_time :: "auth_env \<Rightarrow> lworld \<Rightarrow> challenge \<Rightarrow> nat list \<Rightarrow> int \<Rightarrow> bool" where
  "signed_in_time env w c bytes t \<longleftrightarrow> c \<in> fst ` set (lw_issued w) \<and>
     ae_verify env (ch_address c) (ch_message c) bytes = Some True \<and> t < ch_expiresAt c"

definition proc_fits :: "auth_env \<Rightarrow> lworld \<Rightarrow> lpc \<Rightarrow> bool" where
  "proc_fits env w s \<longleftrightarrow> (case s of LIdle \<Rightarrow> True
     | LOpen k c bytes t ok u \<Rightarrow> k = ch_address c \<and> signed_in_time env w c bytes t \<and>
         (\<forall>usr. u = Some (Inr usr) \<longrightarrow> us_stellarAddress usr = Some k))"

definition login_fits :: "auth_env \<Rightarrow> lworld \<Rightarrow> challenge \<times> nat list \<times> int \<times> user \<Rightarrow> bool" where
  "login_fits env w l \<longleftrightarrow> (case l of (c, bytes, t, u) \<Rightarrow> signed_in_time env w c bytes t \<and> us_stellarAddress u = Some (ch_address c))"

definition login_id :: "challenge \<times> nat list \<times> int \<times> user \<Rightarrow> string" where
  "login_id l = ch_id (fst l)"

definition won :: "lpc \<Rightarrow> string option" where
  "won s = (case s of LOpen k c bytes t (Some True) u \<Rightarrow> Some (ch_id c) | _ \<Rightarrow> None)"

definition rows_issued :: "lworld \<Rightarrow> bool" where
  "rows_issued w \<longleftrightarrow> distinct (map ch_id (as_challenges (lw_state w))) \<and>
     (\<forall>c \<in> set (as_challenges (lw_state w)). c\<lparr>ch_consumedAt := None\<rparr> \<in> fst ` set (lw_issued w))"

definition once :: "lworld \<Rightarrow> bool" where
  "once w \<longleftrightarrow> (\<forall>p q i. won (lw_procs w p) = Some i \<longrightarrow> won (lw_procs w q) = Some i \<longrightarrow> p = q) \<and>
     (\<forall>p i. won (lw_procs w p) = Some i \<longrightarrow> i \<notin> login_id ` set (lw_logins w)) \<and> distinct (map login_id (lw_logins w)) \<and>
     (\<forall>c \<in> set (as_challenges (lw_state w)). (\<exists>p. won (lw_procs w p) = Some (ch_id c)) \<or> ch_id c \<in> login_id ` set (lw_logins w) \<longrightarrow>
        ch_consumedAt c \<noteq> None)"

definition login_inv :: "auth_env \<Rightarrow> auth_config \<Rightarrow> lworld \<Rightarrow> bool" where
  "login_inv env cfg w \<longleftrightarrow> (\<forall>i \<in> set (lw_issued w). issued_ok env cfg i) \<and> rows_issued w \<and>
     (\<forall>p. proc_fits env w (lw_procs w p)) \<and> (\<forall>l \<in> set (lw_logins w). login_fits env w l) \<and> once w"

lemma once_less:
  assumes "once w" "\<And>q. won (lw_procs w' q) = won (lw_procs w q) \<or> won (lw_procs w' q) = None" "lw_logins w' = lw_logins w"
    "set (as_challenges (lw_state w')) \<subseteq> set (as_challenges (lw_state w))"
  shows "once w'"
proof -
  have le: "won (lw_procs w' q) = Some i \<Longrightarrow> won (lw_procs w q) = Some i" for q i using assms(2) [of q] by auto
  have o: "\<And>p q i. won (lw_procs w p) = Some i \<Longrightarrow> won (lw_procs w q) = Some i \<Longrightarrow> p = q"
    "\<And>p i. won (lw_procs w p) = Some i \<Longrightarrow> i \<notin> login_id ` set (lw_logins w)" "distinct (map login_id (lw_logins w))"
    "\<And>c. c \<in> set (as_challenges (lw_state w)) \<Longrightarrow> (\<exists>p. won (lw_procs w p) = Some (ch_id c)) \<or> ch_id c \<in> login_id ` set (lw_logins w) \<Longrightarrow>
       ch_consumedAt c \<noteq> None"
    using assms(1) unfolding once_def by blast+
  show ?thesis unfolding once_def assms(3)
  proof (intro conjI allI impI ballI)
    show "p = q" if "won (lw_procs w' p) = Some i" "won (lw_procs w' q) = Some i" for p q i using o(1) le that by blast
    show "i \<notin> login_id ` set (lw_logins w)" if "won (lw_procs w' p) = Some i" for p i using o(2) le that by blast
    show "distinct (map login_id (lw_logins w))" by (rule o(3))
    show "ch_consumedAt c \<noteq> None" if "c \<in> set (as_challenges (lw_state w'))"
      "(\<exists>p. won (lw_procs w' p) = Some (ch_id c)) \<or> ch_id c \<in> login_id ` set (lw_logins w)" for c
      using o(4) [of c] le that assms(4) by blast
  qed
qed

lemma signed_mono: "set (lw_issued w) \<subseteq> set (lw_issued w') \<Longrightarrow> signed_in_time env w c b t \<Longrightarrow> signed_in_time env w' c b t"
  by (auto simp: signed_in_time_def)

lemma fits_mono: "set (lw_issued w) \<subseteq> set (lw_issued w') \<Longrightarrow>
    (proc_fits env w s \<longrightarrow> proc_fits env w' s) \<and> (login_fits env w l \<longrightarrow> login_fits env w' l)"
  by (auto simp: proc_fits_def login_fits_def split: lpc.splits intro: signed_mono)

lemma won_issued: "proc_fits env w s \<Longrightarrow> won s = Some i \<Longrightarrow> i \<in> ch_id ` fst ` set (lw_issued w)"
  by (auto simp: proc_fits_def won_def signed_in_time_def split: lpc.splits option.splits bool.splits)

lemma login_issued: "login_fits env w l \<Longrightarrow> login_id l \<in> ch_id ` fst ` set (lw_issued w)"
  by (force simp: login_fits_def login_id_def signed_in_time_def)

lemma rows_less:
  assumes "rows_issued w" "set (as_challenges (lw_state w')) \<subseteq> set (as_challenges (lw_state w))"
    "distinct (map ch_id (as_challenges (lw_state w')))" "lw_issued w' = lw_issued w"
  shows "rows_issued w'"
  using assms by (auto simp: rows_issued_def)

lemma proc_fits_upd: "\<forall>q. proc_fits env w (f q) \<Longrightarrow> proc_fits env w s \<Longrightarrow> \<forall>q. proc_fits env w ((f(p := s)) q)"
  by simp

lemma issued_step:
  assumes "login_inv env cfg w" "createChallenge env cfg key nonce x (lw_now w) (lw_state w) = Inr (r, s')"
    "x \<notin> ch_id ` fst ` set (lw_issued w)"
  shows "login_inv env cfg (w\<lparr>lw_state := s', lw_issued := lw_issued w @ [(last (as_challenges s'), nonce)]\<rparr>)"
proof -
  let ?w = "w\<lparr>lw_state := s', lw_issued := lw_issued w @ [(last (as_challenges s'), nonce)]\<rparr>"
  note inv = assms(1) [unfolded login_inv_def]
  obtain c where c: "as_challenges s' = as_challenges (lw_state w) @ [c]" "ch_id c = x" "ch_consumedAt c = None"
    and ok: "issued_ok env cfg (c, nonce)"
  proof -
    obtain k where k: "assertValidPublicKey env key = Inr k" using assms(2) by (auto simp: createChallenge_def result_simps)
    show ?thesis
      by (rule that [of "last (as_challenges s')"])
         (use assms(2) k valid_key [OF k] in \<open>auto simp: createChallenge_def issued_ok_def Let_def split: if_splits\<close>)
  qed
  have sub: "set (lw_issued w) \<subseteq> set (lw_issued ?w)" by auto
  have new: "x \<notin> ch_id ` set (as_challenges (lw_state w))"
    using inv assms(3) by (force simp: rows_issued_def image_iff)
  have "rows_issued ?w" using inv c new by (auto simp: rows_issued_def)
  moreover have "once ?w"
  proof -
    have "won (lw_procs w p) \<noteq> Some x" for p using inv won_issued [of env w "lw_procs w p" x] assms(3) by blast
    moreover have "x \<notin> login_id ` set (lw_logins w)" using inv login_issued [of env w] assms(3) by auto
    ultimately show ?thesis using inv c(1,2) unfolding once_def by auto
  qed
  moreover have "\<forall>i \<in> set (lw_issued ?w). issued_ok env cfg i" using inv ok c(1) by auto
  moreover have "\<forall>p. proc_fits env ?w (lw_procs ?w p)" "\<forall>l \<in> set (lw_logins ?w). login_fits env ?w l"
    using inv fits_mono [OF sub] by auto
  ultimately show ?thesis by (simp add: login_inv_def)
qed

lemma consume_effect:
  assumes "consume x t s = (ok, s')"
  shows "ok \<longleftrightarrow> (\<exists>c \<in> set (as_challenges s). ch_id c = x \<and> ch_consumedAt c = None)"
    and "as_challenges s' = map (\<lambda>c. if ch_id c = x \<and> ch_consumedAt c = None then c\<lparr>ch_consumedAt := Some t\<rparr> else c) (as_challenges s)"
  using assms by (auto simp: consume_def)

lemma use_up_step:
  assumes "login_inv env cfg w" "lw_procs w p = LOpen k c bytes t None u" "consume (ch_id c) (lw_now w) (lw_state w) = (ok, s')"
  shows "login_inv env cfg (w\<lparr>lw_state := s', lw_procs := (lw_procs w)(p := LOpen k c bytes t (Some ok) u)\<rparr>)"
proof -
  let ?w = "w\<lparr>lw_state := s', lw_procs := (lw_procs w)(p := LOpen k c bytes t (Some ok) u)\<rparr>"
  let ?f = "\<lambda>d. if ch_id d = ch_id c \<and> ch_consumedAt d = None then d\<lparr>ch_consumedAt := Some (lw_now w)\<rparr> else d"
  note inv = assms(1) [unfolded login_inv_def]
  note con = consume_effect [OF assms(3)]
  have chs: "as_challenges s' = map ?f (as_challenges (lw_state w))" by (rule con(2))
  have f: "map ch_id (map ?f xs) = map ch_id xs" for xs by simp
  have "rows_issued ?w" unfolding rows_issued_def
  proof (intro conjI ballI)
    show "distinct (map ch_id (as_challenges (lw_state ?w)))"
    proof -
      have "lw_state ?w = s'" by simp
      then have "map ch_id (as_challenges (lw_state ?w)) = map ch_id (as_challenges (lw_state w))" by (simp only: chs f)
      then show ?thesis using inv by (simp only: rows_issued_def)
    qed
    fix d assume "d \<in> set (as_challenges (lw_state ?w))"
    then obtain e where e: "e \<in> set (as_challenges (lw_state w))" "d = ?f e" using chs by auto
    then have "d\<lparr>ch_consumedAt := None\<rparr> = e\<lparr>ch_consumedAt := None\<rparr>" by simp
    then show "d\<lparr>ch_consumedAt := None\<rparr> \<in> fst ` set (lw_issued ?w)" using inv e(1) by (simp add: rows_issued_def)
  qed
  moreover have "proc_fits env w (LOpen k c bytes t (Some ok) u)"
  proof -
    have "proc_fits env w (lw_procs w p)" using inv by blast
    then show ?thesis unfolding assms(2) by (simp add: proc_fits_def)
  qed
  then have "\<forall>q. proc_fits env ?w (lw_procs ?w q)" "\<forall>l \<in> set (lw_logins ?w). login_fits env ?w l"
    using inv fits_mono [of w ?w env] by auto
  moreover have "once ?w"
  proof -
    have o: "\<And>p q i. won (lw_procs w p) = Some i \<Longrightarrow> won (lw_procs w q) = Some i \<Longrightarrow> p = q"
      "\<And>p i. won (lw_procs w p) = Some i \<Longrightarrow> i \<notin> login_id ` set (lw_logins w)" "distinct (map login_id (lw_logins w))"
      "\<And>c. c \<in> set (as_challenges (lw_state w)) \<Longrightarrow> (\<exists>p. won (lw_procs w p) = Some (ch_id c)) \<or> ch_id c \<in> login_id ` set (lw_logins w) \<Longrightarrow>
         ch_consumedAt c \<noteq> None"
      using inv unfolding once_def by blast+
    have other: "won (lw_procs ?w q) = (if q = p then (if ok then Some (ch_id c) else None) else won (lw_procs w q))" for q
      by (simp add: won_def)
    have free: "ok \<Longrightarrow> won (lw_procs w q) \<noteq> Some (ch_id c)" "ok \<Longrightarrow> ch_id c \<notin> login_id ` set (lw_logins w)" for q
      using con(1) o(4) by metis+
    show ?thesis unfolding once_def
    proof (intro conjI allI impI ballI)
      show "q = q'" if "won (lw_procs ?w q) = Some i" "won (lw_procs ?w q') = Some i" for q q' i
        using that free(1) o(1) unfolding other by (auto split: if_splits)
      show "i \<notin> login_id ` set (lw_logins ?w)" if "won (lw_procs ?w q) = Some i" for q i
        using that free(2) o(2) unfolding other by (auto split: if_splits)
      show "distinct (map login_id (lw_logins ?w))" using o(3) by simp
      show "ch_consumedAt d \<noteq> None" if d: "d \<in> set (as_challenges (lw_state ?w))"
        "(\<exists>q. won (lw_procs ?w q) = Some (ch_id d)) \<or> ch_id d \<in> login_id ` set (lw_logins ?w)" for d
      proof -
        obtain e where e: "e \<in> set (as_challenges (lw_state w))" "d = ?f e" using d(1) chs by auto
        then have "ch_id d = ch_id e" by simp
        then have "ch_id e = ch_id c \<or> (\<exists>q. won (lw_procs w q) = Some (ch_id e)) \<or> ch_id e \<in> login_id ` set (lw_logins w)"
          using d(2) unfolding other by (auto split: if_splits)
        then show ?thesis using e o(4) [OF e(1)] by auto
      qed
    qed
  qed
  ultimately show ?thesis using inv by (simp add: login_inv_def)
qed

lemma quiet_step:
  assumes "login_inv env cfg w" "lw_issued w' = lw_issued w" "lw_logins w' = lw_logins w"
    and "set (as_challenges (lw_state w')) \<subseteq> set (as_challenges (lw_state w))" "distinct (map ch_id (as_challenges (lw_state w')))"
    and "\<And>q. won (lw_procs w' q) = won (lw_procs w q) \<or> won (lw_procs w' q) = None" "\<And>q. proc_fits env w (lw_procs w' q)"
  shows "login_inv env cfg w'"
proof -
  note inv = assms(1) [unfolded login_inv_def]
  have "rows_issued w'" by (rule rows_less [of w]) (use inv assms in auto)
  moreover have "once w'" by (rule once_less [of w]) (use inv assms in auto)
  moreover have "\<forall>q. proc_fits env w' (lw_procs w' q)" "\<forall>l \<in> set (lw_logins w'). login_fits env w' l"
    using inv assms(2,3,7) fits_mono [of w w' env] by auto
  ultimately show ?thesis using inv assms(2) by (simp add: login_inv_def)
qed

lemma log_in_step:
  assumes "login_inv env cfg w" "lw_procs w p = LOpen k c bytes t (Some True) (Some (Inr u))"
  shows "login_inv env cfg (w\<lparr>lw_procs := (lw_procs w)(p := LIdle), lw_logins := lw_logins w @ [(c, bytes, t, u)]\<rparr>)"
proof -
  let ?w = "w\<lparr>lw_procs := (lw_procs w)(p := LIdle), lw_logins := lw_logins w @ [(c, bytes, t, u)]\<rparr>"
  note inv = assms(1) [unfolded login_inv_def]
  have fit: "proc_fits env w (lw_procs w p)" using inv by blast
  have l: "login_fits env w (c, bytes, t, u)" using fit assms(2) by (simp add: proc_fits_def login_fits_def)
  have o: "\<And>p q i. won (lw_procs w p) = Some i \<Longrightarrow> won (lw_procs w q) = Some i \<Longrightarrow> p = q"
    "\<And>p i. won (lw_procs w p) = Some i \<Longrightarrow> i \<notin> login_id ` set (lw_logins w)" "distinct (map login_id (lw_logins w))"
    "\<And>c. c \<in> set (as_challenges (lw_state w)) \<Longrightarrow> (\<exists>p. won (lw_procs w p) = Some (ch_id c)) \<or> ch_id c \<in> login_id ` set (lw_logins w) \<Longrightarrow>
       ch_consumedAt c \<noteq> None"
    using inv unfolding once_def by blast+
  have w: "won (lw_procs w p) = Some (ch_id c)" using assms(2) by (simp add: won_def)
  have other: "won (lw_procs ?w q) = (if q = p then None else won (lw_procs w q))" for q by (simp add: won_def)
  have i: "login_id (c, bytes, t, u) = ch_id c" by (simp add: login_id_def)
  have "once ?w" unfolding once_def
  proof (intro conjI allI impI ballI)
    show "q = q'" if "won (lw_procs ?w q) = Some i" "won (lw_procs ?w q') = Some i" for q q' i
      using that o(1) unfolding other by (auto split: if_splits)
    show "i \<notin> login_id ` set (lw_logins ?w)" if "won (lw_procs ?w q) = Some i" for q i
      using that o(1) [OF _ w] o(2) i unfolding other by (auto split: if_splits)
    show "distinct (map login_id (lw_logins ?w))" using o(2,3) w i by auto
    show "ch_consumedAt d \<noteq> None" if "d \<in> set (as_challenges (lw_state ?w))"
      "(\<exists>q. won (lw_procs ?w q) = Some (ch_id d)) \<or> ch_id d \<in> login_id ` set (lw_logins ?w)" for d
      using that o(4) [of d] w i unfolding other by (auto split: if_splits)
  qed
  moreover have "rows_issued ?w" using inv by (simp add: rows_issued_def)
  moreover have "\<forall>q. proc_fits env ?w (lw_procs ?w q)" "\<forall>l \<in> set (lw_logins ?w). login_fits env ?w l"
    using inv l fits_mono [of w ?w env] by (auto simp: proc_fits_def)
  ultimately show ?thesis using inv by (simp add: login_inv_def)
qed

lemma login_inv_kept:
  assumes "login_inv env cfg w" "login_step env cfg w w'"
  shows "login_inv env cfg w'"
  using assms(2)
proof cases
  case (issue key nonce x r s')
  show ?thesis unfolding issue(1) by (rule issued_step [OF assms(1) issue(2,3)])
next
  case (check inp k nonce bytes c p)
  have "c \<in> set (as_challenges (lw_state w))" "ch_consumedAt c = None" "k = ch_address c"
    "ae_verify env (ch_address c) (ch_message c) bytes = Some True" "lw_now w < ch_expiresAt c"
    using check(3) by (auto simp: open_challenge_def split: option.splits if_splits dest!: find_SomeD)
  moreover have "c\<lparr>ch_consumedAt := None\<rparr> \<in> fst ` set (lw_issued w)" using calculation(1) assms(1) by (auto simp: login_inv_def rows_issued_def)
  moreover have "c\<lparr>ch_consumedAt := None\<rparr> = c" using calculation(2) by simp
  ultimately have "signed_in_time env w c bytes (lw_now w)" "k = ch_address c" by (simp_all add: signed_in_time_def)
  then have fit: "proc_fits env w (LOpen k c bytes (lw_now w) None None)" by (simp add: proc_fits_def)
  show ?thesis unfolding check(1)
    by (rule quiet_step [OF assms(1)]) (use assms(1) fit in \<open>auto simp: won_def login_inv_def rows_issued_def\<close>)
next
  case (use_up p k c bytes t u ok s')
  show ?thesis unfolding use_up(1) by (rule use_up_step [OF assms(1) use_up(2,3)])
next
  case (account p k c bytes t ok x u s')
  have fit: "proc_fits env w (lw_procs w p)" using assms(1) by (simp add: login_inv_def)
  have "as_challenges s' = as_challenges (lw_state w)" using upsert_simps [of k x "lw_state w"] account(3) by simp
  moreover have "proc_fits env w (LOpen k c bytes t ok (Some u))"
    using fit account(2,3) upsert_address by (auto simp: proc_fits_def)
  moreover have "won (LOpen k c bytes t ok (Some u)) = won (lw_procs w p)" using account(2) by (simp add: won_def)
  ultimately show ?thesis unfolding account(1)
    by (intro quiet_step [OF assms(1)]) (use assms(1) in \<open>auto simp: login_inv_def rows_issued_def\<close>)
next
  case (log_in p k c bytes t u)
  show ?thesis unfolding log_in(1) by (rule log_in_step [OF assms(1) log_in(2)])
next
  case (give_up p)
  show ?thesis unfolding give_up
    by (rule quiet_step [OF assms(1)]) (use assms(1) in \<open>auto simp: won_def login_inv_def rows_issued_def proc_fits_def\<close>)
next
  case (clean before)
  have "distinct (map ch_id (as_challenges (lw_state w)))" using assms(1) by (simp add: login_inv_def rows_issued_def)
  then show ?thesis unfolding clean
    by (intro quiet_step [OF assms(1)]) (use assms(1) in \<open>auto simp: login_inv_def deleteExpired_def Let_def distinct_map_filter\<close>)
next
  case tick
  then show ?thesis
    by (intro quiet_step [OF assms(1)]) (use assms(1) in \<open>auto simp: login_inv_def rows_issued_def\<close>)
next
  case others
  then show ?thesis
    by (intro quiet_step [OF assms(1)]) (use assms(1) in \<open>auto simp: login_inv_def rows_issued_def\<close>)
qed

interpretation logins: kept_by_steps "login_step env cfg" "login_inv env cfg" for env cfg
  by unfold_locales (rule login_inv_kept)

definition login_start :: "lworld \<Rightarrow> bool" where
  "login_start w \<longleftrightarrow> as_challenges (lw_state w) = [] \<and> lw_issued w = [] \<and> lw_logins w = [] \<and> (\<forall>p. lw_procs w p = LIdle)"

text \<open>C8: however requests for challenges, answers, clean-ups and other writers interleave, no challenge
  logs in twice; and every login is for the account of the wallet that the challenge was issued to,
  against a signature over exactly the issued message (which names the wallet, the nonce and this
  network), checked before the challenge expired.\<close>

theorem challenge_logs_in_at_most_once:
  assumes "rtranclp (login_step env cfg) w w'" "login_start w"
  shows "distinct (map login_id (lw_logins w')) \<and>
     (\<forall>(c, bytes, t, u) \<in> set (lw_logins w'). us_stellarAddress u = Some (ch_address c) \<and> t < ch_expiresAt c \<and>
        ae_verify env (ch_address c) (ch_message c) bytes = Some True \<and> ae_validKey env (ch_address c) \<and>
        (\<exists>nonce. (c, nonce) \<in> set (lw_issued w') \<and> ch_message c =
           buildChallengeMessage env (ch_address c) nonce (au_network cfg) (au_passphrase cfg) (ch_issuedAt c) (ch_expiresAt c)))"
proof -
  have "login_inv env cfg w" using assms(2)
    by (auto simp: login_inv_def login_start_def rows_issued_def once_def won_def proc_fits_def)
  then have "login_inv env cfg w'" using logins.reached_good [OF assms(1)] by blast
  then show ?thesis
    by (fastforce simp: login_inv_def once_def login_fits_def signed_in_time_def issued_ok_def)
qed

definition first_world :: lworld where
  "first_world = \<lparr>lw_state = no_logins, lw_now = 0, lw_procs = (\<lambda>p. LIdle), lw_issued = [], lw_logins = []\<rparr>"

theorem challenge_logs_in_at_most_once_witness:
  "\<exists>w. rtranclp (login_step sample_env sample_auth) first_world w \<and> map login_id (lw_logins w) = [''c1''] \<and>
     (\<forall>(c, bytes, t, u) \<in> set (lw_logins w). us_stellarAddress u = Some (ch_address c))"
proof -
  let ?m = "buildChallengeMessage sample_env ''GA'' ''0123456789abcdef'' ''testnet'' ''Test'' 0 60000"
  define c where "c = \<lparr>ch_id = ''c1'', ch_address = ''GA'', ch_nonceHash = ''0123456789abcdef'', ch_message = ?m, ch_network = ''testnet'',
      ch_issuedAt = 0, ch_expiresAt = 60000, ch_consumedAt = None\<rparr>"
  define s1 where "s1 = no_logins\<lparr>as_challenges := [c]\<rparr>"
  define s2 where "s2 = no_logins\<lparr>as_challenges := [c\<lparr>ch_consumedAt := Some 0\<rparr>]\<rparr>"
  define s3 where "s3 = snd (upsertUser ''GA'' ''u1'' s2)"
  define w1 where "w1 = first_world\<lparr>lw_state := s1, lw_issued := [(c, ''0123456789abcdef'')]\<rparr>"
  define w2 where "w2 = w1\<lparr>lw_procs := (lw_procs w1)(0 := LOpen ''GA'' c [1, 171] 0 None None)\<rparr>"
  define w3 where "w3 = w2\<lparr>lw_state := s2, lw_procs := (lw_procs w2)(0 := LOpen ''GA'' c [1, 171] 0 (Some True) None)\<rparr>"
  define w4 where "w4 = w3\<lparr>lw_state := s3, lw_procs := (lw_procs w3)(0 := LOpen ''GA'' c [1, 171] 0 (Some True) (Some (Inr (new_user ''u1'' ''GA''))))\<rparr>"
  define w5 where "w5 = w4\<lparr>lw_procs := (lw_procs w4)(0 := LIdle), lw_logins := lw_logins w4 @ [(c, [1, 171], 0, new_user ''u1'' ''GA'')]\<rparr>"
  have cr: "\<exists>r. createChallenge sample_env sample_auth (Some (NStr ''GA'')) ''0123456789abcdef'' ''c1'' 0 no_logins = Inr (r, s1)"
    by (simp add: createChallenge_def assertValidPublicKey_def sample_signature sample_env_def no_logins_def Let_def challenge_ttl_def
        sample_auth_def s1_def c_def)
  then obtain r where r: "createChallenge sample_env sample_auth (Some (NStr ''GA'')) ''0123456789abcdef'' ''c1'' (lw_now first_world) (lw_state first_world) = Inr (r, s1)"
    by (auto simp: first_world_def)
  have t1: "login_step sample_env sample_auth first_world w1"
    using login_step.issue [OF r] by (simp add: w1_def s1_def first_world_def)
  have rq: "login_request sample_env (answer ''GA'' ''0123456789abcdef'' ''01ab'') = Inr (''GA'', ''0123456789abcdef'', [1, 171])"
    by (rule answer_request)
       (simp_all add: sample_signature, simp_all add: sample_env_def MIN_NONCE_LENGTH_def MAX_NONCE_LENGTH_def MAX_SIGNATURE_LENGTH_def)
  have op': "open_challenge sample_env sample_auth ''GA'' ''0123456789abcdef'' [1, 171] (lw_now w1) (lw_state w1) = Inr c"
    by (simp add: open_challenge_def w1_def s1_def c_def sample_env_def sample_auth_def first_world_def)
  have t2: "login_step sample_env sample_auth w1 w2"
    using login_step.check [OF rq op', of 0] by (simp add: w2_def w1_def first_world_def)
  have p2: "lw_procs w2 0 = LOpen ''GA'' c [1, 171] 0 None None" by (simp add: w2_def)
  have cn: "consume (ch_id c) (lw_now w2) (lw_state w2) = (True, s2)"
    by (simp add: consume_def w2_def w1_def s1_def s2_def c_def first_world_def)
  have t3: "login_step sample_env sample_auth w2 w3" unfolding w3_def by (rule login_step.use_up [OF p2 cn])
  have p3: "lw_procs w3 0 = LOpen ''GA'' c [1, 171] 0 (Some True) None" by (simp add: w3_def)
  have up: "upsertUser ''GA'' ''u1'' (lw_state w3) = (Inr (new_user ''u1'' ''GA''), s3)"
    by (simp add: w3_def s3_def s2_def upsertUser_def find_account_def no_logins_def)
  have t4: "login_step sample_env sample_auth w3 w4" unfolding w4_def by (rule login_step.account [OF p3 up])
  have p4: "lw_procs w4 0 = LOpen ''GA'' c [1, 171] 0 (Some True) (Some (Inr (new_user ''u1'' ''GA'')))" by (simp add: w4_def)
  have t5: "login_step sample_env sample_auth w4 w5" unfolding w5_def by (rule login_step.log_in [OF p4])
  have rt: "rtranclp (login_step sample_env sample_auth) first_world w5"
    by (rule five_steps [of "login_step sample_env sample_auth" first_world w1 w2 w3 w4 w5, OF t1 t2 t3 t4 t5])
  have "login_start first_world" by (simp add: login_start_def first_world_def no_logins_def)
  from challenge_logs_in_at_most_once [OF rt this]
  have "\<forall>(c, bytes, t, u) \<in> set (lw_logins w5). us_stellarAddress u = Some (ch_address c)" by blast
  moreover have l: "map login_id (lw_logins w5) = [''c1'']"
    by (simp add: w5_def w4_def w3_def w2_def w1_def first_world_def login_id_def c_def)
  ultimately show ?thesis by (intro exI [of _ w5] conjI rt) simp_all
qed

end
