(* ===== verification/Access.thy ===== *)
theory Access
  imports Auth_Steps
begin

section \<open>Who may make a request\<close>

text \<open>
  \<open>src/middleware/auth.middleware.ts\<close>, \<open>suspended-wallet.middleware.ts\<close>, \<open>require-admin-role.middleware.ts\<close>,
  \<open>admin-auth.middleware.ts\<close>, \<open>src/lib/admin-auth-helper.ts\<close> and their order in \<open>src/app.ts\<close>. A middleware is
  the error it passes to \<open>next\<close> or the user it leaves on the request. What jsonwebtoken answers is an argument.
\<close>

record request_user =
  ru_id :: string
  ru_address :: string
  ru_userType :: native
  ru_kycStatus :: native
  ru_isKycVerified :: bool
  ru_isSuspended :: "bool option"
  ru_role :: "string option"

subsection \<open>Bearer tokens\<close>

definition MAX_BEARER_TOKEN_LENGTH :: nat where "MAX_BEARER_TOKEN_LENGTH = 4096"

text \<open>The text after the scheme; a line break in it is no match.\<close>

definition bearer_text :: "string \<Rightarrow> string option" where
  "bearer_text header =
     (let t = dropWhile is_ws header; r = drop 6 t; v = dropWhile is_ws r
      in if toLowerCase (take 6 t) = ''bearer'' \<and> r \<noteq> [] \<and> is_ws (hd r) \<and> CHR 0x0A \<notin> set v \<and> CHR 0x0D \<notin> set v then Some v else None)"

datatype bearer = MissingToken | OversizedToken | BearerToken string

definition extractBearerToken :: "string option \<Rightarrow> bearer" where
  "extractBearerToken header =
     (case header of
        None \<Rightarrow> MissingToken
      | Some h \<Rightarrow>
          (case bearer_text h of
             None \<Rightarrow> MissingToken
           | Some v \<Rightarrow>
               let token = js_trim v
               in if token = [] then MissingToken
                  else if length token > MAX_BEARER_TOKEN_LENGTH then OversizedToken else BearerToken token))"

definition is_base64url :: "char \<Rightarrow> bool" where
  "is_base64url c \<longleftrightarrow> is_alnum c \<or> c = CHR ''_'' \<or> c = CHR ''-''"

definition JWT_SHAPE :: "string \<Rightarrow> bool" where
  "JWT_SHAPE t =
     (let a = takeWhile is_base64url t; r = dropWhile is_base64url t;
          b = takeWhile is_base64url (tl r); q = dropWhile is_base64url (tl r)
      in a \<noteq> [] \<and> r \<noteq> [] \<and> hd r = CHR ''.'' \<and> b \<noteq> [] \<and> q \<noteq> [] \<and> hd q = CHR ''.'' \<and> list_all is_base64url (tl q))"

definition nonEmptyString :: "native option \<Rightarrow> string option" where
  "nonEmptyString v = (case v of Some (NStr s) \<Rightarrow> if js_trim s \<noteq> [] then Some (js_trim s) else None | _ \<Rightarrow> None)"

subsection \<open>Authentication\<close>

definition of_user :: "user \<Rightarrow> request_user" where
  "of_user u = \<lparr>ru_id = us_id u, ru_address = address_of u, ru_userType = NStr (user_type_str (us_userType u)),
     ru_kycStatus = NStr (kyc_str (us_kycStatus u)), ru_isKycVerified = us_isKycVerified u, ru_isSuspended = Some (us_isSuspended u),
     ru_role = None\<rparr>"

text \<open>Looking the user up; \<open>in_time\<close> says whether the lookup answers before the timeout.\<close>

definition createAuthMiddleware ::
    "jwt_lib \<Rightarrow> auth_config \<Rightarrow> int \<Rightarrow> bool \<Rightarrow> string option \<Rightarrow> auth_state \<Rightarrow> request_user result \<times> auth_state" where
  "createAuthMiddleware J cfg now in_time header s =
     (case extractBearerToken header of
        BearerToken token \<Rightarrow>
          if \<not> in_time then (Inl (ServiceError ''AUTH_UNAVAILABLE'' 503), s)
          else let (r, s') = getCurrentUser J cfg now token s
               in (case r of
                     Inl e \<Rightarrow> (Inl e, s')
                   | Inr u \<Rightarrow> if us_isSuspended u then (Inl (ServiceError ''ACCOUNT_SUSPENDED'' 403), s') else (Inr (of_user u), s'))
      | _ \<Rightarrow> (Inl (http_error 401), s))"

text \<open>Reading the claims only. \<open>secret\<close> is the environment's \<open>JWT_SECRET\<close>, \<open>suspended\<close> the set kept in memory.\<close>

definition authenticateJWT ::
    "jwt_lib \<Rightarrow> string option \<Rightarrow> string set \<Rightarrow> int \<Rightarrow> string option \<Rightarrow> request_user result" where
  "authenticateJWT J secret suspended now header =
     (case extractBearerToken header of
        BearerToken token \<Rightarrow>
          if \<not> JWT_SHAPE token then Inl (http_error 401)
          else if \<not> truthy secret then Inl (ServiceError ''AUTH_MISCONFIGURED'' 500)
          else (case jl_verify J now (Some [''HS256'']) (the secret) token of
                  Inl OtherJwtError \<Rightarrow> Inl (ServiceError ''AUTH_PROCESSING_FAILED'' 500)
                | Inl e \<Rightarrow> Inl (http_error 401)
                | Inr payload \<Rightarrow>
                    (case nonEmptyString (nfield payload ''sub'') of
                       None \<Rightarrow> Inl (http_error 401)
                     | Some subject \<Rightarrow>
                         let addr = (case nonEmptyString (nfield payload ''wallet'') of Some a \<Rightarrow> a
                               | None \<Rightarrow> (case nonEmptyString (nfield payload ''stellarAddress'') of Some a \<Rightarrow> a | None \<Rightarrow> subject));
                             kyc = (case non_null_or (nfield payload ''kycStatus'') None of Some v \<Rightarrow> v | None \<Rightarrow> NNull)
                         in if addr \<in> suspended then Inl (http_error 403)
                            else Inr \<lparr>ru_id = (case nonEmptyString (nfield payload ''userId'') of Some i \<Rightarrow> i | None \<Rightarrow> subject),
                                      ru_address = addr,
                                      ru_userType = (if js_truthy (nfield payload ''userType'') then the (nfield payload ''userType'')
                                                     else if js_truthy (nfield payload ''role'') then the (nfield payload ''role'') else NNull),
                                      ru_kycStatus = kyc,
                                      ru_isKycVerified = (js_truthy (nfield payload ''isKycVerified'') \<or> kyc = NStr (kyc_str KycAPPROVED)),
                                      ru_isSuspended = None, ru_role = None\<rparr>))
      | _ \<Rightarrow> Inl (http_error 401))"

text \<open>An admin token, verified with \<open>ADMIN_JWT_SECRET\<close> or \<open>JWT_SECRET\<close>.\<close>

definition admin_bearer :: "string \<Rightarrow> string option" where
  "admin_bearer h =
     (let r = drop 6 h in if toLowerCase (take 6 h) = ''bearer'' \<and> r \<noteq> [] \<and> is_ws (hd r) then Some (dropWhile is_ws r) else None)"

definition authenticateAdminJWT :: "jwt_lib \<Rightarrow> string option \<Rightarrow> string option \<Rightarrow> int \<Rightarrow> string option \<Rightarrow> request_user result" where
  "authenticateAdminJWT J admin_secret secret now header =
     (case (case header of None \<Rightarrow> None | Some h \<Rightarrow> admin_bearer h) of
        None \<Rightarrow> Inl (http_error 401)
      | Some token \<Rightarrow>
          let key = (case admin_secret of Some k \<Rightarrow> Some k | None \<Rightarrow> secret)
          in if \<not> truthy key then Inl (http_error 401)
             else (case jl_verify J now None (the key) token of
                     Inl e \<Rightarrow> Inl (http_error 401)
                   | Inr payload \<Rightarrow>
                       if nfield payload ''role'' \<noteq> Some (NStr ''admin'') then Inl (http_error 403)
                       else let sub = (case nfield payload ''sub'' of Some (NStr v) \<Rightarrow> v | _ \<Rightarrow> [])
                            in Inr \<lparr>ru_id = sub, ru_address = sub, ru_userType = NStr (user_type_str BOTH),
                                    ru_kycStatus = NStr (kyc_str KycAPPROVED), ru_isKycVerified = True, ru_isSuspended = None,
                                    ru_role = Some ''admin''\<rparr>))"

subsection \<open>The suspension guard\<close>

definition walletFromToken :: "jwt_lib \<Rightarrow> string \<Rightarrow> string option" where
  "walletFromToken J token =
     (case jl_decode J token of
        Some (NObj obj) \<Rightarrow> nonEmptyString (non_null_or (map_of obj ''stellarAddress'') (map_of obj ''sub''))
      | _ \<Rightarrow> None)"

definition createDataSourceSuspensionLookup :: "bool \<Rightarrow> account list \<Rightarrow> string \<Rightarrow> bool result" where
  "createDataSourceSuspensionLookup initialized as k =
     Inr (initialized \<and> (case find_account k as of Some u \<Rightarrow> us_isSuspended u | None \<Rightarrow> False))"

definition suspendedWalletGuard :: "jwt_lib \<Rightarrow> (string \<Rightarrow> bool result) \<Rightarrow> string option \<Rightarrow> unit result" where
  "suspendedWalletGuard J lookup header =
     (case extractBearerToken header of
        BearerToken token \<Rightarrow>
          (case walletFromToken J token of
             None \<Rightarrow> Inr ()
           | Some wallet \<Rightarrow>
               (case lookup wallet of
                  Inl e \<Rightarrow> Inl (ServiceError ''AUTH_UNAVAILABLE'' 503)
                | Inr b \<Rightarrow> if b then Inl (ServiceError ''ACCOUNT_SUSPENDED'' 403) else Inr ()))
      | _ \<Rightarrow> Inr ())"

subsection \<open>Roles and KYC\<close>

definition requireRole :: "user_type list \<Rightarrow> request_user option \<Rightarrow> unit result" where
  "requireRole allowed u =
     (case u of
        None \<Rightarrow> Inl (http_error 401)
      | Some r \<Rightarrow>
          if \<not> js_truthy (Some (ru_userType r)) \<or>
             (ru_userType r \<notin> (\<lambda>t. NStr (user_type_str t)) ` set allowed \<and> ru_userType r \<noteq> NStr (user_type_str BOTH))
          then Inl (http_error 403) else Inr ())"

definition requireKYC :: "bool \<Rightarrow> request_user option \<Rightarrow> unit result" where
  "requireKYC skipVerification u =
     (if skipVerification then Inr ()
      else case u of
             None \<Rightarrow> Inl (http_error 401)
           | Some r \<Rightarrow> if ru_kycStatus r \<noteq> NStr (kyc_str KycAPPROVED) then Inl (http_error 403) else Inr ())"

definition checkKycVerified :: "request_user option \<Rightarrow> unit result" where
  "checkKycVerified u =
     (case u of
        None \<Rightarrow> Inl (http_error 401)
      | Some r \<Rightarrow> if ru_kycStatus r \<noteq> NStr (kyc_str KycAPPROVED) then Inl (ServiceError ''KYC_NOT_APPROVED'' 403) else Inr ())"

definition requireSeller :: "request_user option \<Rightarrow> unit result" where
  "requireSeller u =
     (case u of
        None \<Rightarrow> Inl (http_error 401)
      | Some r \<Rightarrow> if ru_userType r \<noteq> NStr (user_type_str SELLER) \<and> ru_userType r \<noteq> NStr (user_type_str BOTH)
                  then Inl (http_error 403) else Inr ())"

definition requireInvestor :: "request_user option \<Rightarrow> unit result" where
  "requireInvestor u =
     (case u of
        None \<Rightarrow> Inl (http_error 401)
      | Some r \<Rightarrow> if ru_userType r \<noteq> NStr (user_type_str INVESTOR) \<and> ru_userType r \<noteq> NStr (user_type_str BOTH)
                  then Inl (http_error 403) else Inr ())"

definition requireAdmin :: "string list \<Rightarrow> request_user option \<Rightarrow> unit result" where
  "requireAdmin adminWallets u =
     (case u of
        None \<Rightarrow> Inl (http_error 401)
      | Some r \<Rightarrow> if ru_userType r = NStr (user_type_str ADMIN) \<or> ru_address r \<in> set adminWallets then Inr ()
                  else Inl (ServiceError ''ADMIN_REQUIRED'' 403))"

definition requireAdminRole :: "string list \<Rightarrow> request_user option \<Rightarrow> unit result" where
  "requireAdminRole roles u =
     (case u of
        None \<Rightarrow> Inl (http_error 401)
      | Some r \<Rightarrow>
          (case (if ru_userType r = NNull then map_option NStr (ru_role r) else Some (ru_userType r)) of
             Some (NStr role) \<Rightarrow> if toLowerCase role \<in> toLowerCase ` set roles then Inr () else Inl (http_error 403)
           | _ \<Rightarrow> Inl (http_error 403)))"

text \<open>An admin by token, or by the shared key, compared as a whole; the key is text of one byte per character.\<close>

definition isValidAdminAuth :: "bool \<Rightarrow> string option \<Rightarrow> request_user option \<Rightarrow> string option \<Rightarrow> bool" where
  "isValidAdminAuth production expectedKey u suppliedKey =
     ((case u of Some r \<Rightarrow> ru_role r = Some ''admin'' | None \<Rightarrow> False) \<or>
      (case (suppliedKey, expectedKey) of
         (Some k, Some e) \<Rightarrow> e \<noteq> [] \<and> \<not> (e = ''dev-admin-key'' \<and> production) \<and> k = e
       | _ \<Rightarrow> False))"

subsection \<open>The chain of a request\<close>

text \<open>\<open>src/app.ts\<close> puts the guard before everything under \<open>/api/v1\<close>; the routers that authenticate by the
  claims are mounted both there and, without the guard, at the root (\<open>/invoices\<close>).\<close>

definition invoice_request ::
    "bool \<Rightarrow> jwt_lib \<Rightarrow> string option \<Rightarrow> account list \<Rightarrow> int \<Rightarrow> string option \<Rightarrow> request_user result" where
  "invoice_request under_api J secret as now header =
     and_then (if under_api then suspendedWalletGuard J (createDataSourceSuspensionLookup True as) header else Inr ())
       (\<lambda>x. authenticateJWT J secret {} now header)"

definition gated_invoice_request ::
    "bool \<Rightarrow> bool \<Rightarrow> jwt_lib \<Rightarrow> string option \<Rightarrow> account list \<Rightarrow> int \<Rightarrow> string option \<Rightarrow> request_user result" where
  "gated_invoice_request under_api skipVerification J secret as now header =
     and_then (invoice_request under_api J secret as now header)
       (\<lambda>r. and_then (requireKYC skipVerification (Some r)) (\<lambda>x. Inr r))"

text \<open>The handler of invoice submission has a gate of its own, before it reads the body.\<close>

definition submit_gate :: "bool \<Rightarrow> request_user option \<Rightarrow> unit result" where
  "submit_gate skipKyc u =
     (case u of
        None \<Rightarrow> Inl (http_error 401)
      | Some r \<Rightarrow>
          if ru_userType r = NStr (user_type_str INVESTOR) then Inl (ServiceError ''FORBIDDEN'' 403)
          else if \<not> skipKyc \<and> \<not> (ru_kycStatus r = NStr (kyc_str KycAPPROVED) \<or> ru_isKycVerified r)
            then Inl (ServiceError ''KYC_APPROVAL_REQUIRED'' 403)
          else Inr ())"

definition submit_request ::
    "bool \<Rightarrow> bool \<Rightarrow> jwt_lib \<Rightarrow> string option \<Rightarrow> account list \<Rightarrow> int \<Rightarrow> string option \<Rightarrow> request_user result" where
  "submit_request under_api skipKyc J secret as now header =
     and_then (invoice_request under_api J secret as now header) (\<lambda>r. and_then (submit_gate skipKyc (Some r)) (\<lambda>x. Inr r))"

subsection \<open>Tokens of the service\<close>

lemma base64url_no_ws: "is_base64url c \<Longrightarrow> \<not> is_ws c"
proof -
  assume "is_base64url c"
  then have "(of_char c :: nat) \<ge> 45"
    by (auto simp: is_base64url_def is_alnum_def digit_of_def Let_def split: if_splits)
  then show ?thesis by (auto simp: is_ws_def)
qed

lemma shape_no_ws: "JWT_SHAPE t \<Longrightarrow> t \<noteq> [] \<and> (\<forall>c \<in> set t. \<not> is_ws c)"
proof -
  assume j: "JWT_SHAPE t"
  define a r b q where d: "a = takeWhile is_base64url t" "r = dropWhile is_base64url t" "b = takeWhile is_base64url (tl r)"
    "q = dropWhile is_base64url (tl r)"
  have p: "a \<noteq> []" "r \<noteq> []" "hd r = CHR ''.''" "q \<noteq> []" "hd q = CHR ''.''" "list_all is_base64url (tl q)"
    using j by (simp_all add: JWT_SHAPE_def Let_def d)
  have sp: "set xs = set (takeWhile is_base64url xs) \<union> set (dropWhile is_base64url xs)" for xs
    by (metis set_append takeWhile_dropWhile_id)
  have hd: "set xs = insert (hd xs) (set (tl xs))" if "xs \<noteq> []" for xs :: string using that by (cases xs) auto
  have "set t = set a \<union> {CHR ''.''} \<union> set b \<union> set (tl q)"
    using sp [of t] sp [of "tl r"] hd [of r] hd [of q] p by (auto simp flip: d)
  moreover have "\<forall>c \<in> set a \<union> set b. is_base64url c" by (auto simp: d dest: set_takeWhileD)
  moreover have "\<not> is_ws (CHR ''.'')" by (simp add: is_ws_def)
  moreover have "t \<noteq> []" using p(1) d(1) by auto
  ultimately show ?thesis using p(6) base64url_no_ws by (auto simp: list_all_iff)
qed

definition bearer_header :: "string \<Rightarrow> string option" where
  "bearer_header token = Some (''Bearer '' @ token)"

lemma bearer_extracted:
  assumes "JWT_SHAPE t" "length t \<le> MAX_BEARER_TOKEN_LENGTH"
  shows "extractBearerToken (bearer_header t) = BearerToken t"
proof -
  note s = shape_no_ws [OF assms(1)]
  have d: "dropWhile is_ws t = t" using s by (cases t) auto
  have "CHR 0x0A \<notin> set t" "CHR 0x0D \<notin> set t" using s by (force simp: is_ws_def)+
  moreover have "toLowerCase ''Bearer'' = ''bearer''" by (simp add: toLowerCase_def lower_char_def char_of_def bit_iff_odd)
  ultimately have "bearer_text (''Bearer '' @ t) = Some t" using d by (simp add: bearer_text_def Let_def is_ws_def)
  then show ?thesis using assms(2) s js_trim_id [of t] by (simp add: extractBearerToken_def bearer_header_def)
qed

text \<open>What jsonwebtoken documents: a token that was signed with a secret and has not expired verifies with it
  under its algorithm, and gives its claims, with those the package adds itself.\<close>

definition jwt_accepts :: "jwt_lib \<Rightarrow> string \<Rightarrow> int \<Rightarrow> string \<Rightarrow> native \<Rightarrow> bool" where
  "jwt_accepts J secret now token p \<longleftrightarrow> JWT_SHAPE token \<and> length token \<le> MAX_BEARER_TOKEN_LENGTH \<and>
     (\<exists>kvs. jl_verify J now None secret token = Inr (NObj kvs) \<and> jl_verify J now (Some [''HS256'']) secret token = Inr (NObj kvs) \<and>
        jl_decode J token = Some (NObj kvs) \<and> (\<forall>k. k \<noteq> ''iat'' \<longrightarrow> k \<noteq> ''exp'' \<longrightarrow> nfield (NObj kvs) k = nfield p k))"

definition live_user :: "user \<Rightarrow> string \<Rightarrow> account list \<Rightarrow> bool" where
  "live_user u k as \<longleftrightarrow> us_stellarAddress u = Some k \<and> find_account k as = Some u \<and> js_trim k = k \<and> k \<noteq> [] \<and>
     js_trim (us_id u) = us_id u \<and> us_id u \<noteq> []"

lemma token_fields:
  "nfield (token_claims u) ''sub'' = Some (NStr (address_of u))" "nfield (token_claims u) ''wallet'' = Some (NStr (address_of u))"
  "nfield (token_claims u) ''stellarAddress'' = Some (NStr (address_of u))" "nfield (token_claims u) ''userId'' = Some (NStr (us_id u))"
  "nfield (token_claims u) ''userType'' = Some (NStr (user_type_str (us_userType u)))" "nfield (token_claims u) ''kycStatus'' = None"
  "nfield (token_claims u) ''isKycVerified'' = None"
  by (simp_all add: token_claims_def nfield_def)

lemma claims_user:
  assumes "jwt_accepts J secret now token (token_claims u)" "live_user u k as" "secret \<noteq> []"
  shows "authenticateJWT J (Some secret) {} now (bearer_header token) =
     Inr \<lparr>ru_id = us_id u, ru_address = k, ru_userType = NStr (user_type_str (us_userType u)), ru_kycStatus = NNull,
          ru_isKycVerified = False, ru_isSuspended = None, ru_role = None\<rparr>"
proof -
  obtain kvs where j: "JWT_SHAPE token" "length token \<le> MAX_BEARER_TOKEN_LENGTH"
    "jl_verify J now (Some [''HS256'']) secret token = Inr (NObj kvs)"
    "\<And>k. k \<noteq> ''iat'' \<Longrightarrow> k \<noteq> ''exp'' \<Longrightarrow> nfield (NObj kvs) k = nfield (token_claims u) k"
    using assms(1) by (auto simp: jwt_accepts_def)
  have u: "address_of u = k" "js_trim k = k" "k \<noteq> []" "js_trim (us_id u) = us_id u" "us_id u \<noteq> []"
    using assms(2) by (auto simp: live_user_def address_of_def)
  have t: "user_type_str (us_userType u) \<noteq> []" by (cases "us_userType u") (simp_all add: user_type_str_def)
  show ?thesis using j(3) assms(3) u t
    by (simp add: authenticateJWT_def bearer_extracted [OF j(1,2)] j(1,4) token_fields truthy_def nonEmptyString_def non_null_or_def js_truthy_def kyc_str_def)
qed

lemma current_user:
  assumes "jwt_accepts J secret now token (token_claims u)" "live_user u k (as_accounts s)" "verify_key cfg = secret"
    and "as_userCache s = []"
  shows "fst (createAuthMiddleware J cfg now True (bearer_header token) s) =
     (if us_isSuspended u then Inl (ServiceError ''ACCOUNT_SUSPENDED'' 403) else Inr (of_user u))"
proof -
  obtain kvs where j: "JWT_SHAPE token" "length token \<le> MAX_BEARER_TOKEN_LENGTH" "jl_verify J now None secret token = Inr (NObj kvs)"
    "\<And>k. k \<noteq> ''iat'' \<Longrightarrow> k \<noteq> ''exp'' \<Longrightarrow> nfield (NObj kvs) k = nfield (token_claims u) k"
    using assms(1) by (auto simp: jwt_accepts_def)
  have u: "address_of u = k" "js_trim k = k" "k \<noteq> []" "find_account k (as_accounts s) = Some u"
    using assms(2) by (auto simp: live_user_def address_of_def)
  have t: "js_trim token = token" "token \<noteq> []" "\<not> MAX_TOKEN_LENGTH < length token"
    using shape_no_ws [OF j(1)] js_trim_id j(2) by (auto simp: MAX_TOKEN_LENGTH_def MAX_BEARER_TOKEN_LENGTH_def)
  have sb: "nfield (NObj kvs) ''sub'' = Some (NStr k)" using j(4) [of "''sub''"] u(1) by (simp add: token_fields)
  have "fst (getCurrentUser J cfg now token s) = Inr u"
    using t j(3) sb u assms(3,4) by (simp add: getCurrentUser_def lru_get_def)
  then show ?thesis by (cases "getCurrentUser J cfg now token s") (simp add: createAuthMiddleware_def bearer_extracted [OF j(1,2)])
qed

text \<open>C21: the KYC gate of the invoice routes reads the status from the token, and no token of a login
  carries one: an approved user is refused there, and when submitting an invoice, with every token the service issues, though the
  middleware that looks the user up admits the same token and its user passes the same gate.\<close>

theorem kyc_gate_refuses_every_login_token:
  assumes "jwt_accepts J (au_secret cfg) now (signToken J cfg t u) (token_claims u)" "live_user u k (as_accounts s)"
    and "us_kycStatus u = KycAPPROVED" "\<not> us_isSuspended u" "au_secret cfg \<noteq> []" "au_publicKey cfg = None" "as_userCache s = []"
  shows "gated_invoice_request False False J (Some (au_secret cfg)) (as_accounts s) now (bearer_header (signToken J cfg t u)) = Inl (http_error 403) \<and>
     (\<exists>e. submit_request False False J (Some (au_secret cfg)) (as_accounts s) now (bearer_header (signToken J cfg t u)) = Inl e) \<and>
     (\<exists>r. fst (createAuthMiddleware J cfg now True (bearer_header (signToken J cfg t u)) s) = Inr r \<and> requireKYC False (Some r) = Inr ())"
  using claims_user [OF assms(1,2,5)] current_user [OF assms(1,2) _ assms(7)] assms(3-6)
  by (auto simp: gated_invoice_request_def submit_request_def submit_gate_def invoice_request_def requireKYC_def kyc_str_def of_user_def verify_key_def)

text \<open>C22: under \<open>/api/v1\<close> a suspended account is refused, and so it is wherever the user is looked up; at the
  root, where the routers that read the claims are mounted a second time, the guard does not stand
  before them and the account is served as before.\<close>

theorem suspended_account_is_served_at_the_root:
  assumes "jwt_accepts J (au_secret cfg) now (signToken J cfg t u) (token_claims u)" "live_user u k (as_accounts s)"
    and "us_isSuspended u" "au_secret cfg \<noteq> []" "au_publicKey cfg = None" "as_userCache s = []"
  shows "invoice_request True J (Some (au_secret cfg)) (as_accounts s) now (bearer_header (signToken J cfg t u)) = Inl (ServiceError ''ACCOUNT_SUSPENDED'' 403) \<and>
     fst (createAuthMiddleware J cfg now True (bearer_header (signToken J cfg t u)) s) = Inl (ServiceError ''ACCOUNT_SUSPENDED'' 403) \<and>
     (\<exists>r. invoice_request False J (Some (au_secret cfg)) (as_accounts s) now (bearer_header (signToken J cfg t u)) = Inr r \<and>
        ru_id r = us_id u \<and> ru_address r = k)"
proof -
  let ?tok = "signToken J cfg t u"
  obtain kvs where j: "JWT_SHAPE ?tok" "length ?tok \<le> MAX_BEARER_TOKEN_LENGTH" "jl_decode J ?tok = Some (NObj kvs)"
    "\<And>k. k \<noteq> ''iat'' \<Longrightarrow> k \<noteq> ''exp'' \<Longrightarrow> nfield (NObj kvs) k = nfield (token_claims u) k"
    using assms(1) by (auto simp: jwt_accepts_def)
  have k: "address_of u = k" "js_trim k = k" "k \<noteq> []" "find_account k (as_accounts s) = Some u"
    using assms(2) by (auto simp: live_user_def address_of_def)
  have "map_of kvs ''stellarAddress'' = Some (NStr k)" using j(4) [of "''stellarAddress''"] k(1) by (simp add: token_fields) (simp add: nfield_def)
  then have "walletFromToken J ?tok = Some k" using j(3) k by (simp add: walletFromToken_def non_null_or_def nonEmptyString_def)
  then have "suspendedWalletGuard J (createDataSourceSuspensionLookup True (as_accounts s)) (bearer_header ?tok) = Inl (ServiceError ''ACCOUNT_SUSPENDED'' 403)"
    using k(4) assms(3) by (simp add: suspendedWalletGuard_def bearer_extracted [OF j(1,2)] createDataSourceSuspensionLookup_def)
  then show ?thesis using claims_user [OF assms(1,2,4)] current_user [OF assms(1,2) _ assms(6)] assms(3,5)
    by (simp add: invoice_request_def verify_key_def)
qed

text \<open>C36: where the user is looked up, a request is admitted exactly for a token that verifies and names, as its
  subject, a wallet with an account that is neither deleted nor suspended, and it is that account's.\<close>

theorem lookup_admits_exactly_live_accounts:
  assumes "as_userCache s = []" "au_userCacheTtl cfg \<le> 0"
  shows "fst (createAuthMiddleware J cfg now in_time header s) = Inr r \<longleftrightarrow>
     (\<exists>token payload k u. extractBearerToken header = BearerToken token \<and> in_time \<and>
        jl_verify J now None (verify_key cfg) token = Inr payload \<and> nonEmptyString (nfield payload ''sub'') = Some k \<and>
        find_account k (as_accounts s) = Some u \<and> \<not> us_isSuspended u \<and> r = of_user u)"
proof (cases "extractBearerToken header")
  case (BearerToken token)
  have t: "js_trim token = token" "token \<noteq> []" "length token \<le> MAX_BEARER_TOKEN_LENGTH"
    using BearerToken by (auto simp: extractBearerToken_def Let_def split: option.splits if_splits)
  have "fst (getCurrentUser J cfg now token s) =
      (case jl_verify J now None (verify_key cfg) token of
         Inl e \<Rightarrow> Inl (http_error 401)
       | Inr payload \<Rightarrow> (case nonEmptyString (nfield payload ''sub'') of
            None \<Rightarrow> Inl (http_error 401)
          | Some k \<Rightarrow> (case find_account k (as_accounts s) of None \<Rightarrow> Inl (http_error 401) | Some u \<Rightarrow> Inr u)))"
    using t assms(1) by (auto simp: getCurrentUser_def lru_get_def Let_def nonEmptyString_def MAX_TOKEN_LENGTH_def MAX_BEARER_TOKEN_LENGTH_def
        split: sum.splits option.splits native.splits)
  then show ?thesis using BearerToken
    by (cases "getCurrentUser J cfg now token s") (auto simp: createAuthMiddleware_def split: sum.splits option.splits if_splits)
qed (simp_all add: createAuthMiddleware_def)

subsection \<open>Witnesses\<close>

definition claims_jwt :: "user \<Rightarrow> jwt_lib" where
  "claims_jwt u = \<lparr>jl_sign = (\<lambda>t alg secret p. ''aa.bb.cc''),
     jl_verify = (\<lambda>t algs secret tok. if tok = ''aa.bb.cc'' then Inr (token_claims u) else Inl (JsonWebToken ''invalid token'')),
     jl_decode = (\<lambda>tok. if tok = ''aa.bb.cc'' then Some (token_claims u) else None)\<rparr>"

definition approved_user :: "bool \<Rightarrow> user" where
  "approved_user suspended = \<lparr>us_id = ''u1'', us_stellarAddress = Some ''GA'', us_userType = SELLER, us_kycStatus = KycAPPROVED,
     us_isKycVerified = True, us_isSuspended = suspended\<rparr>"

definition with_user :: "user \<Rightarrow> auth_state" where
  "with_user u = no_logins\<lparr>as_accounts := [\<lparr>ac_user = u, ac_deleted = False\<rparr>]\<rparr>"

lemma sample_accepts: "jwt_accepts (claims_jwt u) secret now (signToken (claims_jwt u) cfg t u) (token_claims u)"
proof -
  have "JWT_SHAPE ''aa.bb.cc''" by (simp add: JWT_SHAPE_def is_base64url_def is_alnum_def digit_of_def Let_def)
  then show ?thesis by (simp add: jwt_accepts_def signToken_def claims_jwt_def MAX_BEARER_TOKEN_LENGTH_def token_claims_def)
qed

lemma sample_live: "live_user (approved_user b) ''GA'' (as_accounts (with_user (approved_user b)))"
  by (simp add: live_user_def approved_user_def with_user_def find_account_def js_trim_def is_ws_def)

lemma sample_auth_simps: "au_secret sample_auth \<noteq> []" "au_publicKey sample_auth = None" "au_userCacheTtl sample_auth \<le> 0"
  "as_userCache (with_user u) = []" "us_kycStatus (approved_user b) = KycAPPROVED" "us_isSuspended (approved_user b) = b"
  by (simp_all add: sample_auth_def with_user_def no_logins_def approved_user_def)

theorem kyc_gate_refuses_every_login_token_witness:
  "gated_invoice_request False False (claims_jwt (approved_user False)) (Some (au_secret sample_auth))
     (as_accounts (with_user (approved_user False))) 9 (bearer_header (signToken (claims_jwt (approved_user False)) sample_auth 0 (approved_user False))) =
   Inl (http_error 403)"
  by (rule kyc_gate_refuses_every_login_token [THEN conjunct1, OF sample_accepts sample_live])
     (simp_all add: sample_auth_simps)

theorem suspended_account_is_served_at_the_root_witness:
  "\<exists>r. invoice_request False (claims_jwt (approved_user True)) (Some (au_secret sample_auth)) (as_accounts (with_user (approved_user True))) 9
     (bearer_header (signToken (claims_jwt (approved_user True)) sample_auth 0 (approved_user True))) = Inr r \<and> ru_address r = ''GA''"
  using suspended_account_is_served_at_the_root [OF sample_accepts [of "approved_user True" "au_secret sample_auth" 9 sample_auth 0] sample_live [of True]]
  by (auto simp: sample_auth_simps)

theorem lookup_admits_exactly_live_accounts_witness:
  "fst (createAuthMiddleware (claims_jwt (approved_user False)) sample_auth 9 True (bearer_header ''aa.bb.cc'') (with_user (approved_user False))) =
     Inr (of_user (approved_user False))"
proof -
  have e: "extractBearerToken (bearer_header ''aa.bb.cc'') = BearerToken ''aa.bb.cc''"
    by (rule bearer_extracted) (simp_all add: JWT_SHAPE_def is_base64url_def is_alnum_def digit_of_def Let_def MAX_BEARER_TOKEN_LENGTH_def)
  have v: "jl_verify (claims_jwt (approved_user False)) 9 None (verify_key sample_auth) ''aa.bb.cc'' = Inr (token_claims (approved_user False))"
    by (simp add: claims_jwt_def)
  have f: "nonEmptyString (nfield (token_claims (approved_user False)) ''sub'') = Some ''GA''"
    "find_account ''GA'' (as_accounts (with_user (approved_user False))) = Some (approved_user False)"
    by (simp_all add: token_fields nonEmptyString_def address_of_def approved_user_def js_trim_def is_ws_def with_user_def find_account_def)
  show ?thesis
    unfolding lookup_admits_exactly_live_accounts [OF sample_auth_simps(4,3)]
    by (rule exI [of _ "''aa.bb.cc''"], rule exI [of _ "token_claims (approved_user False)"], rule exI [of _ "''GA''"],
        rule exI [of _ "approved_user False"]) (simp only: e v f sample_auth_simps simp_thms)
qed

end
