(* ===== verification/Reconcile.thy ===== *)
theory Reconcile
  imports Payment_Steps Ttl_Cache
begin

section \<open>The reconciliation workers\<close>

text \<open>
  \<open>src/workers/reconcile-pending-stellar-state.worker.ts\<close> with \<open>src/services/stellar/reconciliation-retry.ts\<close>:
  a timer looks for payments that are still pending and verifies them, oldest first, a batch per tick; a
  second one asks for the verdict on submitted contract calls. The creation times of investments, the
  clock, what Horizon and the RPC server answer and what the event indexer does to the tables are
  arguments. The attempt counter only reaches the log and is left out, as are the timers' handles.
\<close>

subsection \<open>Which failures may pass\<close>

text \<open>What the classification looks at in a thrown value.\<close>

record thrown =
  th_is_error :: bool
  th_name :: string
  th_is_retryable_horizon :: bool
  th_errno :: string
  th_status :: "int option"
  th_service_code :: "string option"

datatype failure_kind = TransientProvider | PermanentValidation

record retry_decision =
  rd_retryable :: bool
  rd_kind :: failure_kind
  rd_attempt :: nat

definition TIMEOUT_ERROR_NAMES :: "string list" where "TIMEOUT_ERROR_NAMES = [''AbortError'', ''TimeoutError'']"

definition RETRYABLE_NETWORK_CODES :: "string list" where
  "RETRYABLE_NETWORK_CODES = [''ECONNRESET'', ''ECONNABORTED'', ''ETIMEDOUT'', ''EAI_AGAIN'', ''ENETUNREACH'', ''EHOSTUNREACH'', ''EPIPE'']"

definition RETRYABLE_SERVICE_CODES :: "string list" where "RETRYABLE_SERVICE_CODES = [''horizon_unavailable'']"

definition decision :: "bool \<Rightarrow> nat \<Rightarrow> retry_decision" where
  "decision r attempt = \<lparr>rd_retryable = r, rd_kind = (if r then TransientProvider else PermanentValidation), rd_attempt = attempt\<rparr>"

definition classifyReconciliationError :: "thrown \<Rightarrow> nat \<Rightarrow> retry_decision" where
  "classifyReconciliationError e attempt =
     (if th_is_error e \<and> th_name e \<in> set TIMEOUT_ERROR_NAMES then decision True attempt
      else if th_is_retryable_horizon e then decision True attempt
      else if th_is_error e \<and> th_errno e \<in> set RETRYABLE_NETWORK_CODES then decision True attempt
      else case (case th_status e of Some st \<Rightarrow> st = 429 \<or> st \<ge> 500 | None \<Rightarrow> False) of
             True \<Rightarrow> decision True attempt
           | False \<Rightarrow> (case th_service_code e of
                Some c \<Rightarrow> decision (c \<in> set RETRYABLE_SERVICE_CODES) attempt
              | None \<Rightarrow> decision False attempt))"

text \<open>An error of the services: \<open>ServiceError\<close> has its code and its status under the name \<open>statusCode\<close>.\<close>

definition thrown_error :: "error \<Rightarrow> thrown" where
  "thrown_error e =
     (case e of
        ServiceError c st \<Rightarrow> \<lparr>th_is_error = True, th_name = ''ServiceError'', th_is_retryable_horizon = False, th_errno = c, th_status = None,
                              th_service_code = Some c\<rparr>
      | JsError n \<Rightarrow> \<lparr>th_is_error = True, th_name = n, th_is_retryable_horizon = (n = ''RetryableHorizonError''), th_errno = [], th_status = None,
                      th_service_code = None\<rparr>)"

lemma classified_kind: "rd_retryable (classifyReconciliationError e k) \<longleftrightarrow> rd_kind (classifyReconciliationError e k) = TransientProvider"
  by (simp add: classifyReconciliationError_def decision_def split: option.splits bool.splits)

subsection \<open>Candidates\<close>

datatype candidate_source = FromInvestment | FromTransaction

record candidate =
  cd_investmentId :: string
  cd_hash :: string
  cd_op :: "int option"
  cd_source :: candidate_source
  cd_queuedAt :: int

definition pending_investments :: "(string \<Rightarrow> int) \<Rightarrow> int \<Rightarrow> nat \<Rightarrow> pay_db \<Rightarrow> investment list" where
  "pending_investments created old limit d =
     take limit (sort_key (\<lambda>m. created (im_id m))
       (filter (\<lambda>m. im_status m = InvPENDING \<and> created (im_id m) \<le> old \<and> im_transactionHash m \<noteq> None) (investments (py_db d))))"

definition pending_row :: "int \<Rightarrow> tx_row \<Rightarrow> bool" where
  "pending_row old r \<longleftrightarrow> tr_status r = TxPENDING \<and> tr_type r = TxINVESTMENT \<and> tr_timestamp r \<le> old \<and>
     tr_investmentId r \<noteq> None \<and> tr_hash r \<noteq> None"

definition pending_rows :: "int \<Rightarrow> nat \<Rightarrow> pay_db \<Rightarrow> tx_row list" where
  "pending_rows old limit d = take limit (sort_key tr_timestamp (filter (pending_row old) (py_rows d)))"

definition add_investment :: "(string \<Rightarrow> int) \<Rightarrow> (string \<times> candidate) list \<Rightarrow> investment \<Rightarrow> (string \<times> candidate) list" where
  "add_investment created c m =
     (if truthy (im_transactionHash m)
      then map_set (im_id m) \<lparr>cd_investmentId = im_id m, cd_hash = the (im_transactionHash m), cd_op = im_operationIndex m,
             cd_source = FromInvestment, cd_queuedAt = created (im_id m)\<rparr> c
      else c)"

definition add_row :: "(string \<times> candidate) list \<Rightarrow> tx_row \<Rightarrow> (string \<times> candidate) list" where
  "add_row c r =
     (case (tr_investmentId r, tr_hash r) of
        (Some i, Some h) \<Rightarrow>
          if i = [] \<or> h = [] \<or> map_of c i \<noteq> None then c
          else map_set i \<lparr>cd_investmentId = i, cd_hash = h, cd_op = tr_op r, cd_source = FromTransaction, cd_queuedAt = tr_timestamp r\<rparr> c
      | _ \<Rightarrow> c)"

definition findPendingCandidates :: "(string \<Rightarrow> int) \<Rightarrow> int \<Rightarrow> nat \<Rightarrow> pay_db \<Rightarrow> candidate list" where
  "findPendingCandidates created old limit d =
     take limit (sort_key cd_queuedAt (map snd
       (foldl add_row (foldl (add_investment created) [] (pending_investments created old limit d)) (pending_rows old limit d))))"

subsection \<open>A tick\<close>

record tick =
  tk_fetched :: nat
  tk_processed :: nat
  tk_verified :: nat
  tk_already :: nat
  tk_failed :: nat
  tk_deferred :: nat

text \<open>\<open>clock k\<close> is the reading of the clock before the k-th candidate.\<close>

fun reconcile_loop ::
    "(candidate \<Rightarrow> pay_db \<Rightarrow> verify_result result \<times> pay_db) \<Rightarrow> (nat \<Rightarrow> int) \<Rightarrow> int \<Rightarrow> nat \<Rightarrow> candidate list \<Rightarrow> tick \<Rightarrow> pay_db \<Rightarrow> tick \<times> pay_db" where
  "reconcile_loop verify clock deadline k [] t d = (t, d)"
| "reconcile_loop verify clock deadline k (c # cs) t d =
     (if clock k \<ge> deadline then (t\<lparr>tk_deferred := length (c # cs)\<rparr>, d)
      else (case verify c d of
              (Inr r, d') \<Rightarrow>
                reconcile_loop verify clock deadline (Suc k) cs
                  (if vo_outcome r = Verified then t\<lparr>tk_processed := tk_processed t + 1, tk_verified := tk_verified t + 1\<rparr>
                   else t\<lparr>tk_processed := tk_processed t + 1, tk_already := tk_already t + 1\<rparr>) d'
            | (Inl e, d') \<Rightarrow>
                reconcile_loop verify clock deadline (Suc k) cs
                  (t\<lparr>tk_processed := tk_processed t + 1, tk_failed := tk_failed t + 1\<rparr>) d'))"

record tick_config =
  tc_batchSize :: nat
  tc_gracePeriodMs :: int
  tc_maxRuntimeMs :: int

definition empty_tick :: tick where
  "empty_tick = \<lparr>tk_fetched = 0, tk_processed = 0, tk_verified = 0, tk_already = 0, tk_failed = 0, tk_deferred = 0\<rparr>"

definition run_reconciliation ::
    "tick_config \<Rightarrow> (string \<Rightarrow> int) \<Rightarrow> (candidate \<Rightarrow> pay_db \<Rightarrow> verify_result result \<times> pay_db) \<Rightarrow> (nat \<Rightarrow> int) \<Rightarrow> (pay_db \<Rightarrow> pay_db) \<Rightarrow>
     pay_db \<Rightarrow> tick \<times> pay_db" where
  "run_reconciliation tc created verify clock poll d =
     (let startedAt = clock 0;
          cs = findPendingCandidates created (startedAt - tc_gracePeriodMs tc) (tc_batchSize tc) d;
          (t, d') = reconcile_loop verify clock (startedAt + tc_maxRuntimeMs tc) 1 cs (empty_tick\<lparr>tk_fetched := length cs\<rparr>) d
      in (t, poll d'))"

text \<open>What is verified for a candidate: \<open>answers\<close> gives the replies of Horizon for a transaction hash.\<close>

definition verify_candidate ::
    "verify_config \<Rightarrow> (string \<Rightarrow> nat \<Rightarrow> http_reply) \<Rightarrow> (string \<Rightarrow> nat \<Rightarrow> http_reply) \<Rightarrow> (candidate \<Rightarrow> string) \<Rightarrow> int \<Rightarrow> candidate \<Rightarrow>
     pay_db \<Rightarrow> verify_result result \<times> pay_db" where
  "verify_candidate cfg ta oa new_id now c =
     verifyPayment cfg (ta (cd_hash c)) (oa (cd_hash c)) (new_id c) now
       \<lparr>vi_investmentId = cd_investmentId c, vi_hash = cd_hash c, vi_op = cd_op c\<rparr>"

subsection \<open>Verdicts on submitted contract calls\<close>

datatype pending_status = PendingConfirmation | PtCompleted | PtFailed

record pending_tx =
  pt_hash :: string
  pt_status :: pending_status
  pt_lastCheckedAt :: "int option"
  pt_confirmedLedger :: "int option"
  pt_failureReason :: "string option"
  pt_createdAt :: int

datatype confirmation_status = TxSuccess | TxFailure | TxNotFound

text \<open>The conditional update of one row: a row that is no longer pending is left alone.\<close>

definition apply_verdict :: "int \<Rightarrow> string \<Rightarrow> confirmation_status \<times> int option \<Rightarrow> pending_tx list \<Rightarrow> pending_tx list" where
  "apply_verdict now h v =
     map (\<lambda>r. if pt_hash r = h \<and> pt_status r = PendingConfirmation
              then (case v of
                      (TxSuccess, l) \<Rightarrow> r\<lparr>pt_lastCheckedAt := Some now, pt_status := PtCompleted, pt_confirmedLedger := l\<rparr>
                    | (TxFailure, l) \<Rightarrow> r\<lparr>pt_lastCheckedAt := Some now, pt_status := PtFailed,
                                          pt_failureReason := Some ''Soroban RPC reported that the transaction failed.''\<rparr>
                    | (TxNotFound, l) \<Rightarrow> r\<lparr>pt_lastCheckedAt := Some now\<rparr>)
              else r)"

definition pending_batch :: "nat \<Rightarrow> pending_tx list \<Rightarrow> pending_tx list" where
  "pending_batch n rs = take n (sort_key pt_createdAt (filter (\<lambda>r. pt_status r = PendingConfirmation) rs))"

text \<open>A status read that fails (\<open>None\<close>) leaves the row as it is.\<close>

definition confirmation_tick :: "nat \<Rightarrow> int \<Rightarrow> (string \<Rightarrow> (confirmation_status \<times> int option) option) \<Rightarrow> pending_tx list \<Rightarrow> pending_tx list" where
  "confirmation_tick n now status rs =
     foldl (\<lambda>s r. case status (pt_hash r) of None \<Rightarrow> s | Some v \<Rightarrow> apply_verdict now (pt_hash r) v s) rs (pending_batch n rs)"

end
