(* ===== verification/Reconcile_Steps.thy ===== *)
theory Reconcile_Steps
  imports Reconcile
begin

section \<open>What the reconciliation workers guarantee\<close>

text \<open>
  A tick's counts add up and its verifications are steps of the concurrent model of payments, so what
  holds there holds with the worker running; but candidates that fail for good stay at the head of the
  queue, and a full batch of them keeps every later one from being verified.
\<close>

subsection \<open>Ticks are verifications\<close>

lemma verify_failed_keeps: "verifyPayment cfg ta oa x now inp d = (Inl e, d') \<Longrightarrow> d' = d"
  by (simp add: verifyPayment_def result_simps)

lemma verify_already_keeps:
  assumes "verifyPayment cfg ta oa x now inp d = (Inr r, d')" "vo_outcome r \<noteq> Verified"
  shows "d' = d"
proof -
  obtain c where c: "verify_check inp d = Inr c" and c2: "(case c of Inl q \<Rightarrow> Inr (q, d) | Inr m \<Rightarrow>
           and_then (fetchAndValidatePayment cfg ta oa (im_amount m) (im_wallet m) (vi_op inp)) (\<lambda>p.
           and_then (verify_load inp p d) (\<lambda>l.
             case l of Inl r \<Rightarrow> Inr (r, d) | Inr (m', row) \<Rightarrow> verify_commit x now inp p m' row d))) = Inr (r, d')"
    using assms(1) by (auto simp: verifyPayment_def result_simps)
  show ?thesis
  proof (cases c)
    case (Inl q)
    then show ?thesis using c2 by simp
  next
    case (Inr m)
    then obtain p l where l: "verify_load inp p d = Inr l"
      "(case l of Inl r \<Rightarrow> Inr (r, d) | Inr (m', row) \<Rightarrow> verify_commit x now inp p m' row d) = Inr (r, d')"
      using c2 by (auto simp: result_simps)
    then show ?thesis using assms(2) committed(1) by (auto split: sum.splits prod.splits)
  qed
qed

text \<open>A verification that nothing interrupts is a run of the concurrent model.\<close>

lemma verification_is_a_run:
  assumes "verifyPayment cfg ta oa x now inp (vw_db w) = (res, d')" "vw_procs w i = VIdle"
  shows "\<exists>cs. rtranclp (verify_step cfg) w (w\<lparr>vw_db := d', vw_credits := vw_credits w @ cs\<rparr>)"
proof (cases "\<exists>r. res = Inr r \<and> vo_outcome r = Verified")
  case False
  then have "d' = vw_db w" using assms(1) verify_failed_keeps verify_already_keeps by (cases res) blast+
  then have "w\<lparr>vw_db := d', vw_credits := vw_credits w @ []\<rparr> = w" by simp
  then show ?thesis by (metis rtranclp.rtrancl_refl)
next
  case True
  then obtain r where r: "res = Inr r" "vo_outcome r = Verified" by blast
  let ?d = "vw_db w"
  obtain c where c: "verify_check inp ?d = Inr c" and c2: "(case c of Inl q \<Rightarrow> Inr (q, ?d) | Inr m \<Rightarrow>
           and_then (fetchAndValidatePayment cfg ta oa (im_amount m) (im_wallet m) (vi_op inp)) (\<lambda>p.
           and_then (verify_load inp p ?d) (\<lambda>l.
             case l of Inl r \<Rightarrow> Inr (r, ?d) | Inr (m', row) \<Rightarrow> verify_commit x now inp p m' row ?d))) = Inr (r, d')"
    using assms(1) r(1) by (auto simp: verifyPayment_def result_simps)
  obtain m where m: "c = Inr m" using c c2 r(2) checked_before by (cases c) auto
  obtain p l where p: "fetchAndValidatePayment cfg ta oa (im_amount m) (im_wallet m) (vi_op inp) = Inr p"
    "verify_load inp p ?d = Inr l" "(case l of Inl r \<Rightarrow> Inr (r, ?d) | Inr (m', row) \<Rightarrow> verify_commit x now inp p m' row ?d) = Inr (r, d')"
    using c2 m by (auto simp: result_simps)
  obtain m' row where l: "l = Inr (m', row)" using p(2,3) r(2) loaded_before by (cases l) auto
  define w1 where "w1 = w\<lparr>vw_procs := (vw_procs w)(i := VChecked inp p)\<rparr>"
  define w2 where "w2 = w1\<lparr>vw_procs := (vw_procs w1)(i := VLoaded inp p m' row)\<rparr>"
  define w3 where "w3 = \<lparr>vw_db = d', vw_procs = (vw_procs w2)(i := VIdle),
      vw_credits = vw_credits w2 @ [((toUpperCase (vi_hash inp), hp_index p), im_id m', p)]\<rparr>"
  have s1: "verify_step cfg w w1" unfolding w1_def by (rule verify_step.check [OF c [unfolded m] p(1)])
  have q1: "vw_procs w1 i = VChecked inp p" "vw_db w1 = ?d" by (simp_all add: w1_def)
  have s2: "verify_step cfg w1 w2" unfolding w2_def by (rule verify_step.load [OF q1(1)]) (simp add: q1 p(2) l)
  have q2: "vw_procs w2 i = VLoaded inp p m' row" "vw_db w2 = ?d" by (simp_all add: w2_def q1)
  have s3: "verify_step cfg w2 w3" unfolding w3_def
    by (rule verify_step.commit [OF q2(1)]) (use p(3) l in \<open>simp add: q2\<close>)
  have "(vw_procs w2)(i := VIdle) = vw_procs w" using assms(2) by (auto simp: w2_def w1_def)
  then have "w3 = w\<lparr>vw_db := d', vw_credits := vw_credits w @ [((toUpperCase (vi_hash inp), hp_index p), im_id m', p)]\<rparr>"
    by (simp add: w3_def w2_def w1_def)
  then show ?thesis using three_steps [of "verify_step cfg" w w1 w2 w3, OF s1 s2 s3] by auto
qed

lemma loop_is_a_run:
  "reconcile_loop (verify_candidate cfg ta oa x now) clock deadline k cs t (vw_db w) = (t', d') \<Longrightarrow> vw_procs w i = VIdle \<Longrightarrow>
     \<exists>ls. rtranclp (verify_step cfg) w (w\<lparr>vw_db := d', vw_credits := vw_credits w @ ls\<rparr>)"
proof (induction cs arbitrary: k t w)
  case Nil
  then have "w\<lparr>vw_db := d', vw_credits := vw_credits w @ []\<rparr> = w" by simp
  then show ?case by (metis rtranclp.rtrancl_refl)
next
  case (Cons c cs)
  show ?case
  proof (cases "clock k \<ge> deadline")
    case True
    then have "w\<lparr>vw_db := d', vw_credits := vw_credits w @ []\<rparr> = w" using Cons.prems(1) by simp
    then show ?thesis by (metis rtranclp.rtrancl_refl)
  next
    case False
    obtain res d1 where v: "verify_candidate cfg ta oa x now c (vw_db w) = (res, d1)" by fastforce
    obtain ls where ls: "rtranclp (verify_step cfg) w (w\<lparr>vw_db := d1, vw_credits := vw_credits w @ ls\<rparr>)"
      using verification_is_a_run [OF v [unfolded verify_candidate_def] Cons.prems(2)] by blast
    let ?w = "w\<lparr>vw_db := d1, vw_credits := vw_credits w @ ls\<rparr>"
    obtain t1 where t1: "reconcile_loop (verify_candidate cfg ta oa x now) clock deadline (Suc k) cs t1 (vw_db ?w) = (t', d')"
      using Cons.prems(1) v False by (cases res) auto
    obtain ls' where "rtranclp (verify_step cfg) ?w (?w\<lparr>vw_db := d', vw_credits := vw_credits ?w @ ls'\<rparr>)"
      using Cons.IH [OF t1] Cons.prems(2) by auto
    moreover have "?w\<lparr>vw_db := d', vw_credits := vw_credits ?w @ ls'\<rparr> = w\<lparr>vw_db := d', vw_credits := vw_credits w @ (ls @ ls')\<rparr>" by simp
    ultimately show ?thesis using rtranclp_trans [OF ls] by metis
  qed
qed

lemma loop_counts:
  "reconcile_loop verify clock deadline k cs t d = (t', d') \<Longrightarrow> tk_processed t = tk_verified t + tk_already t + tk_failed t \<Longrightarrow>
     tk_deferred t = 0 \<Longrightarrow> tk_processed t' = tk_verified t' + tk_already t' + tk_failed t' \<and>
     tk_processed t' + tk_deferred t' = tk_processed t + length cs \<and> tk_fetched t' = tk_fetched t"
proof (induction cs arbitrary: k t d)
  case (Cons c cs)
  show ?case
  proof (cases "clock k \<ge> deadline")
    case True
    then show ?thesis using Cons.prems by auto
  next
    case False
    obtain res d1 where v: "verify c d = (res, d1)" by fastforce
    show ?thesis
    proof (cases res)
      case (Inl e)
      then show ?thesis using Cons.prems False v Cons.IH [of "Suc k" "t\<lparr>tk_processed := tk_processed t + 1, tk_failed := tk_failed t + 1\<rparr>" d1]
        by simp
    next
      case (Inr r)
      then show ?thesis using Cons.prems False v
          Cons.IH [of "Suc k" "t\<lparr>tk_processed := tk_processed t + 1, tk_verified := tk_verified t + 1\<rparr>" d1]
          Cons.IH [of "Suc k" "t\<lparr>tk_processed := tk_processed t + 1, tk_already := tk_already t + 1\<rparr>" d1]
        by (simp split: if_splits)
    qed
  qed
qed simp


subsection \<open>A full batch of failing candidates\<close>

lemma insort_before: "(\<And>z. z \<in> set zs \<Longrightarrow> f x < f z) \<Longrightarrow> insort_key f x (ys @ zs) = insort_key f x ys @ zs"
proof (induction ys)
  case Nil
  then show ?case by (cases zs) (auto simp: less_imp_le)
qed simp

lemma insort_after: "(\<And>y. y \<in> set ys \<Longrightarrow> f y < f x) \<Longrightarrow> insort_key f x (ys @ zs) = ys @ insort_key f x zs"
proof (induction ys)
  case (Cons y ys)
  have "f y < f x" by (rule Cons.prems) simp
  then have "\<not> f x \<le> f y" by simp
  then show ?case using Cons by simp
qed simp

lemma sort_key_parts:
  assumes "\<And>x y. x \<in> set xs \<Longrightarrow> y \<in> set xs \<Longrightarrow> P x \<Longrightarrow> \<not> P y \<Longrightarrow> f x < (f y :: int)"
  shows "sort_key f xs = sort_key f (filter P xs) @ sort_key f (filter (\<lambda>x. \<not> P x) xs)"
  using assms
proof (induction xs)
  case (Cons x xs)
  have ih: "sort_key f xs = sort_key f (filter P xs) @ sort_key f (filter (\<lambda>x. \<not> P x) xs)" using Cons by simp
  show ?case
  proof (cases "P x")
    case True
    then show ?thesis using ih Cons.prems insort_before [of "sort_key f (filter (\<lambda>x. \<not> P x) xs)" f x "sort_key f (filter P xs)"] by simp
  next
    case False
    then show ?thesis using ih Cons.prems insort_after [of "sort_key f (filter P xs)" f x "sort_key f (filter (\<lambda>x. \<not> P x) xs)"] by simp
  qed
qed simp

lemma map_set_keys: "length (map_set k v c) \<le> Suc (length c)"
  by (induction k v c rule: map_set.induct) auto

lemma added_length: "length (foldl (add_investment created) c ms) \<le> length c + length ms"
proof (induction ms arbitrary: c)
  case (Cons m ms)
  have "length (add_investment created c m) \<le> Suc (length c)" by (auto simp: add_investment_def intro: map_set_keys le_SucI)
  then show ?case using Cons [of "add_investment created c m"] by simp
qed simp

definition no_pending_rows :: "pay_db \<Rightarrow> bool" where
  "no_pending_rows d \<longleftrightarrow> (\<forall>r \<in> set (py_rows d). \<forall>old. \<not> pending_row old r)"

lemma candidates_from_investments:
  assumes "no_pending_rows d"
  shows "findPendingCandidates created old n d =
     take n (sort_key cd_queuedAt (map snd (foldl (add_investment created) [] (pending_investments created old n d))))"
proof -
  have "pending_rows old n d = []" using assms by (simp add: pending_rows_def no_pending_rows_def filter_empty_conv)
  then show ?thesis by (simp add: findPendingCandidates_def)
qed

lemma full_batch_stays:
  assumes "no_pending_rows d" "length (findPendingCandidates created old n d) = n" "old \<le> old'"
  shows "findPendingCandidates created old' n d = findPendingCandidates created old n d"
proof -
  let ?f = "\<lambda>m. created (im_id m)" and ?p = "\<lambda>m. im_status m = InvPENDING \<and> im_transactionHash m \<noteq> None"
  let ?ms = "filter (\<lambda>m. im_status m = InvPENDING \<and> created (im_id m) \<le> old' \<and> im_transactionHash m \<noteq> None) (investments (py_db d))"
  let ?now = "filter (\<lambda>m. im_status m = InvPENDING \<and> created (im_id m) \<le> old \<and> im_transactionHash m \<noteq> None) (investments (py_db d))"
  have now: "filter (\<lambda>m. ?f m \<le> old) ?ms = ?now" using assms(3) by (auto intro!: filter_cong)
  have split: "sort_key ?f ?ms = sort_key ?f ?now @ sort_key ?f (filter (\<lambda>m. \<not> ?f m \<le> old) ?ms)"
    using sort_key_parts [of ?ms "\<lambda>m. ?f m \<le> old" ?f] unfolding now by auto
  have "n \<le> length (pending_investments created old n d)"
  proof -
    have "n = length (findPendingCandidates created old n d)" using assms(2) by simp
    also have "\<dots> \<le> length (foldl (add_investment created) [] (pending_investments created old n d))"
      by (simp add: candidates_from_investments [OF assms(1)])
    also have "\<dots> \<le> length (pending_investments created old n d)" using added_length [of created "[]"] by simp
    finally show ?thesis .
  qed
  then have "n \<le> length (sort_key ?f ?now)" by (simp add: pending_investments_def)
  then have "pending_investments created old' n d = pending_investments created old n d"
    unfolding pending_investments_def split by simp
  then show ?thesis by (simp add: candidates_from_investments [OF assms(1)])
qed

lemma failing_loop:
  "\<forall>c \<in> set cs. \<exists>e. fst (verify_candidate cfg ta oa x now c d) = Inl e \<Longrightarrow>
     snd (reconcile_loop (verify_candidate cfg ta oa x now) clock deadline k cs t d) = d"
proof (induction cs arbitrary: k t)
  case (Cons c cs)
  obtain e where e: "fst (verify_candidate cfg ta oa x now c d) = Inl e" using Cons.prems by auto
  obtain d1 where v: "verify_candidate cfg ta oa x now c d = (Inl e, d1)"
    using e by (cases "verify_candidate cfg ta oa x now c d") auto
  have "d1 = d" using v unfolding verify_candidate_def by (rule verify_failed_keeps)
  then show ?case using v Cons by simp
qed simp

text \<open>The worker takes the oldest pending payments and has no way to give one up. Once a whole batch of
  them fails for good (say, with payments that do not match), every later tick fetches exactly this
  batch again and changes nothing, so no payment queued behind it is ever verified by the worker.\<close>

theorem failing_batch_blocks_the_queue:
  assumes "no_pending_rows d" "length (findPendingCandidates created old (tc_batchSize tc) d) = tc_batchSize tc"
    and "\<And>now c. c \<in> set (findPendingCandidates created old (tc_batchSize tc) d) \<Longrightarrow> \<exists>e. fst (verify_candidate cfg ta oa x now c d) = Inl e"
    and "\<forall>(now, clock) \<in> set ticks. old \<le> clock 0 - tc_gracePeriodMs tc"
  shows "foldl (\<lambda>d (now, clock). snd (run_reconciliation tc created (verify_candidate cfg ta oa x now) clock id d)) d ticks = d \<and>
     (\<forall>(now, clock) \<in> set ticks. findPendingCandidates created (clock 0 - tc_gracePeriodMs tc) (tc_batchSize tc) d =
        findPendingCandidates created old (tc_batchSize tc) d)"
proof -
  have same: "findPendingCandidates created (clock 0 - tc_gracePeriodMs tc) (tc_batchSize tc) d =
        findPendingCandidates created old (tc_batchSize tc) d" if "(now, clock) \<in> set ticks" for now clock
    using full_batch_stays [OF assms(1,2)] assms(4) that by blast
  have tick: "snd (run_reconciliation tc created (verify_candidate cfg ta oa x now) clock id d) = d" if "(now, clock) \<in> set ticks" for now clock
  proof -
    have "\<forall>c \<in> set (findPendingCandidates created (clock 0 - tc_gracePeriodMs tc) (tc_batchSize tc) d).
        \<exists>e. fst (verify_candidate cfg ta oa x now c d) = Inl e" using same [OF that] assms(3) by simp
    from failing_loop [OF this, of clock] show ?thesis by (simp add: run_reconciliation_def Let_def case_prod_beta)
  qed
  have "\<forall>y \<in> set ticks. snd (run_reconciliation tc created (verify_candidate cfg ta oa x (fst y)) (snd y) id d) = d" using tick by auto
  then have "foldl (\<lambda>d (now, clock). snd (run_reconciliation tc created (verify_candidate cfg ta oa x now) clock id d)) d ticks = d"
    by (induction ticks) (auto simp: case_prod_beta)
  then show ?thesis using same by blast
qed

subsection \<open>Verdicts\<close>

lemma verdict_row: "list_all2 (\<lambda>r r'. pt_hash r' = pt_hash r \<and> (pt_status r \<noteq> PendingConfirmation \<longrightarrow> r' = r)) rs (apply_verdict now h v rs)"
  by (cases v, cases "fst v") (auto simp: apply_verdict_def list_all2_conv_all_nth)

lemma verdicts_compose:
  "list_all2 (\<lambda>r r'. pt_hash r' = pt_hash r \<and> (pt_status r \<noteq> PendingConfirmation \<longrightarrow> r' = r)) rs
     (foldl (\<lambda>s r. case status (pt_hash r) of None \<Rightarrow> s | Some v \<Rightarrow> apply_verdict now (pt_hash r) v s) rs bs)"
proof (induction bs arbitrary: rs)
  case Nil
  then show ?case by (simp add: list_all2_refl)
next
  case (Cons b bs)
  show ?case
  proof (cases "status (pt_hash b)")
    case None
    then show ?thesis using Cons by simp
  next
    case (Some v)
    show ?thesis unfolding foldl_Cons Some option.case
      by (rule list_all2_trans [OF _ verdict_row [of rs now "pt_hash b" v] Cons]) simp
  qed
qed

text \<open>A verdict is final: whatever ticks follow, a completed or failed row stays as it is.\<close>

lemma verdicts_are_final:
  "list_all2 (\<lambda>r r'. pt_hash r' = pt_hash r \<and> (pt_status r \<noteq> PendingConfirmation \<longrightarrow> r' = r)) rs (confirmation_tick n now status rs)"
  unfolding confirmation_tick_def by (rule verdicts_compose)

subsection \<open>Witnesses\<close>

definition unknown_tx :: "string \<Rightarrow> nat \<Rightarrow> http_reply" where
  "unknown_tx h k = Reply 404 None"

definition waiting :: "string \<Rightarrow> investment" where
  "waiting x = (holding x 1000000 None InvPENDING)\<lparr>im_wallet := Some ''GA'', im_transactionHash := Some ''ab''\<rparr>"

definition two_waiting :: pay_db where
  "two_waiting = \<lparr>py_db = (fresh_db [])\<lparr>investments := [waiting ''m2'', waiting ''m1'']\<rparr>, py_rows = [], py_claims = []\<rparr>"

definition born :: "string \<Rightarrow> int" where
  "born x = (if x = ''m1'' then 1 else 2)"

definition one_by_one :: tick_config where
  "one_by_one = \<lparr>tc_batchSize = 1, tc_gracePeriodMs = 10, tc_maxRuntimeMs = 100\<rparr>"

definition head_candidate :: candidate where
  "head_candidate = \<lparr>cd_investmentId = ''m1'', cd_hash = ''ab'', cd_op = None, cd_source = FromInvestment, cd_queuedAt = 1\<rparr>"

lemma head_is_first: "5 \<le> old \<Longrightarrow> findPendingCandidates born old 1 two_waiting = [head_candidate]"
  by (simp add: findPendingCandidates_def pending_investments_def pending_rows_def two_waiting_def waiting_def holding_def born_def
      add_investment_def truthy_def head_candidate_def insort_key_def)

lemma unknown_fails: "\<exists>e. fst (verify_candidate sample_config unknown_tx oa x now head_candidate two_waiting) = Inl e"
proof -
  have "fetchJson sample_config (unknown_tx h) = Inl (ServiceError ''transaction_not_found'' 404)" for h
    by (simp add: fetchJson_def fetch_json.simps unknown_tx_def read_reply_def sample_config_def)
  then show ?thesis
    by (simp add: verify_candidate_def verifyPayment_def head_candidate_def verify_check_def find_held_def two_waiting_def waiting_def holding_def
        fetchAndValidatePayment_def run_tx_def)
qed

theorem failing_batch_blocks_the_queue_witness:
  "foldl (\<lambda>d (now, clock). snd (run_reconciliation one_by_one born (verify_candidate sample_config unknown_tx unknown_tx (\<lambda>c. ''t'') now) clock id d))
     two_waiting [(20, \<lambda>k. 20), (50, \<lambda>k. 50)] = two_waiting \<and> length (investments (py_db two_waiting)) = 2"
proof -
  have h: "findPendingCandidates born 5 (tc_batchSize one_by_one) two_waiting = [head_candidate]" using head_is_first [of 5] by (simp add: one_by_one_def)
  have "foldl (\<lambda>d (now, clock). snd (run_reconciliation one_by_one born (verify_candidate sample_config unknown_tx unknown_tx (\<lambda>c. ''t'') now) clock id d))
     two_waiting [(20, \<lambda>k. 20), (50, \<lambda>k. 50)] = two_waiting"
    by (rule failing_batch_blocks_the_queue [THEN conjunct1, of _ born 5])
       (use h unknown_fails in \<open>auto simp: no_pending_rows_def two_waiting_def one_by_one_def\<close>)
  then show ?thesis by (simp add: two_waiting_def)
qed


end
