(* ===== verification/Kyc.thy ===== *)
theory Kyc
  imports Auth
begin

section \<open>Identity verification\<close>

text \<open>
  \<open>src/services/kyc.service.ts\<close> and the older handlers of \<open>src/routes/admin/\<close> (\<open>approve-kyc\<close>, \<open>reject-kyc\<close>,
  \<open>revoke-kyc\<close>). Documents are the JSON they are stored as. A query without an order may return any of the
  rows it matches: \<open>pick\<close> chooses. PostgreSQL puts an absent time first when it sorts descending.
\<close>

datatype verification_type = IDENTITY | ADDRESS | BUSINESS

record kyc_row =
  kv_id :: string
  kv_userId :: string
  kv_type :: verification_type
  kv_status :: kyc_status
  kv_documents :: native
  kv_wallet :: "string option"
  kv_verifiedAt :: "int option"

record kyc_history =
  kh_userId :: string
  kh_wallet :: "string option"
  kh_type :: verification_type
  kh_status :: kyc_status
  kh_documents :: native
  kh_rejectionReason :: "string option"
  kh_providerReference :: "string option"
  kh_archivedAt :: int
  kh_createdAt :: int

record kyc_db =
  ky_accounts :: "account list"
  ky_rows :: "kyc_row list"
  ky_history :: "kyc_history list"

subsection \<open>Queries and updates\<close>

definition pick_ok :: "(kyc_row list \<Rightarrow> kyc_row option) \<Rightarrow> bool" where
  "pick_ok pick \<longleftrightarrow> (\<forall>rs. (pick rs = None \<longleftrightarrow> rs = []) \<and> (\<forall>r. pick rs = Some r \<longrightarrow> r \<in> set rs))"

definition user_with :: "(user \<Rightarrow> bool) \<Rightarrow> kyc_db \<Rightarrow> user result" where
  "user_with P d =
     (case find (\<lambda>a. P (ac_user a) \<and> \<not> ac_deleted a) (ky_accounts d) of None \<Rightarrow> Inl (http_error 404) | Some a \<Rightarrow> Inr (ac_user a))"

definition set_kyc :: "string \<Rightarrow> kyc_status \<Rightarrow> bool \<Rightarrow> kyc_db \<Rightarrow> kyc_db" where
  "set_kyc i st verified d =
     d\<lparr>ky_accounts := map (\<lambda>a. if us_id (ac_user a) = i
         then a\<lparr>ac_user := (ac_user a)\<lparr>us_kycStatus := st, us_isKycVerified := verified\<rparr>\<rparr> else a) (ky_accounts d)\<rparr>"

definition save_row :: "kyc_row \<Rightarrow> kyc_db \<Rightarrow> kyc_db" where
  "save_row r d = d\<lparr>ky_rows := upsert kv_id r (ky_rows d)\<rparr>"

definition archive :: "kyc_history \<Rightarrow> kyc_db \<Rightarrow> kyc_db" where
  "archive h d = d\<lparr>ky_history := ky_history d @ [h]\<rparr>"

text \<open>The first row by \<open>verifiedAt DESC\<close>, and the first history row by \<open>createdAt DESC\<close>.\<close>

definition verified_before :: "kyc_row \<Rightarrow> kyc_row \<Rightarrow> bool" where
  "verified_before r s \<longleftrightarrow> (case (kv_verifiedAt r, kv_verifiedAt s) of
     (Some a, Some b) \<Rightarrow> a < b | (Some a, None) \<Rightarrow> True | _ \<Rightarrow> False)"

definition latest :: "(kyc_row list \<Rightarrow> kyc_row option) \<Rightarrow> kyc_row list \<Rightarrow> kyc_row option" where
  "latest pick rs = pick (filter (\<lambda>r. list_all (\<lambda>s. \<not> verified_before r s) rs) rs)"

definition PENDING_STATUSES :: "kyc_status list" where "PENDING_STATUSES = [KycPENDING, KycAPPROVED]"

definition RESUBMITTABLE_STATUSES :: "kyc_status list" where "RESUBMITTABLE_STATUSES = [KycREJECTED, KycEXPIRED]"

definition doc_text :: "native \<Rightarrow> string \<Rightarrow> string option" where
  "doc_text docs k = (case nfield docs k of Some (NStr s) \<Rightarrow> Some s | _ \<Rightarrow> None)"

subsection \<open>Submitting by the provider or with one document\<close>

definition submitKycVerification ::
    "string \<Rightarrow> string \<Rightarrow> verification_type option \<Rightarrow> native option \<Rightarrow> string option \<Rightarrow> kyc_db \<Rightarrow> error + (kyc_row \<times> kyc_db)" where
  "submitKycVerification x userId ty documents reference d =
     and_then (user_with (\<lambda>u. us_id u = userId) d) (\<lambda>u.
       let r = \<lparr>kv_id = x, kv_userId = userId, kv_type = (case ty of Some t \<Rightarrow> t | None \<Rightarrow> IDENTITY), kv_status = KycPENDING,
                kv_documents = (case non_null_or documents None of Some v \<Rightarrow> v
                  | None \<Rightarrow> if truthy reference then NObj [(''providerReference'', NStr (the reference))] else NNull),
                kv_wallet = None, kv_verifiedAt = None\<rparr>
       in Inr (r, set_kyc userId KycPENDING False (save_row r d)))"

record document_submission =
  ds_documentType :: string
  ds_documentNumber :: string
  ds_ipfsDocumentUrl :: string

definition submission_row :: "string \<Rightarrow> user \<Rightarrow> string \<Rightarrow> document_submission \<Rightarrow> kyc_row" where
  "submission_row x u wallet p =
     \<lparr>kv_id = x, kv_userId = us_id u, kv_type = IDENTITY, kv_status = KycPENDING,
      kv_documents = NObj [(''documentType'', NStr (ds_documentType p)), (''documentNumber'', NStr (ds_documentNumber p)),
        (''ipfsDocumentUrl'', NStr (ds_ipfsDocumentUrl p))],
      kv_wallet = Some wallet, kv_verifiedAt = None\<rparr>"

definition submitKycVerificationByWallet ::
    "(kyc_row list \<Rightarrow> kyc_row option) \<Rightarrow> string \<Rightarrow> string \<Rightarrow> document_submission \<Rightarrow> kyc_db \<Rightarrow> error + (kyc_row \<times> kyc_db)" where
  "submitKycVerificationByWallet pick x wallet p d =
     and_then (user_with (\<lambda>u. us_stellarAddress u = Some wallet) d) (\<lambda>u.
       case pick (filter (\<lambda>r. kv_wallet r = Some wallet \<and> kv_status r \<in> set PENDING_STATUSES) (ky_rows d)) of
         Some r \<Rightarrow> Inl (http_error 409)
       | None \<Rightarrow> let r = submission_row x u wallet p in Inr (r, set_kyc (us_id u) KycPENDING False (save_row r d)))"

text \<open>After a rejection or an expiry: the row found is archived and a new one is made.\<close>

definition resubmitKycVerification ::
    "(kyc_row list \<Rightarrow> kyc_row option) \<Rightarrow> string \<Rightarrow> int \<Rightarrow> string \<Rightarrow> document_submission \<Rightarrow> kyc_db \<Rightarrow> error + (kyc_row \<times> kyc_db)" where
  "resubmitKycVerification pick x now wallet p d =
     and_then (user_with (\<lambda>u. us_stellarAddress u = Some wallet) d) (\<lambda>u.
       case pick (filter (\<lambda>r. kv_wallet r = Some wallet \<and> kv_status r \<in> set (PENDING_STATUSES @ RESUBMITTABLE_STATUSES)) (ky_rows d)) of
         None \<Rightarrow> Inl (http_error 404)
       | Some c \<Rightarrow>
           if kv_status c \<notin> set RESUBMITTABLE_STATUSES then Inl (http_error 400)
           else let h = \<lparr>kh_userId = us_id u, kh_wallet = kv_wallet c, kh_type = kv_type c, kh_status = kv_status c,
                         kh_documents = kv_documents c, kh_rejectionReason = (if kv_status c = KycREJECTED then Some ''Resubmitted'' else None),
                         kh_providerReference = (let t = doc_text (kv_documents c) ''providerReference'' in if truthy t then t else None),
                         kh_archivedAt = now, kh_createdAt = now\<rparr>;
                    r = submission_row x u wallet p
                in Inr (r, set_kyc (us_id u) KycPENDING False (save_row r (archive h d))))"

subsection \<open>Submitting details and documents\<close>

definition text_items :: "native list \<Rightarrow> string list" where
  "text_items vs = concat (map (\<lambda>v. case v of NStr s \<Rightarrow> if js_trim s \<noteq> [] then [s] else [] | _ \<Rightarrow> []) vs)"

definition trimmed_text :: "native option \<Rightarrow> string option" where
  "trimmed_text v = (case v of Some (NStr s) \<Rightarrow> if js_trim s \<noteq> [] then Some (js_trim s) else None | _ \<Rightarrow> None)"

definition array_of :: "native option \<Rightarrow> native list option" where
  "array_of v = (case v of Some (NArr vs) \<Rightarrow> Some vs | _ \<Rightarrow> None)"

definition document_cids :: "native \<Rightarrow> string list" where
  "document_cids p =
     (case nfield p ''documentCids'' of
        Some (NArr vs) \<Rightarrow> text_items vs
      | Some (NObj obj) \<Rightarrow> text_items (map snd obj)
      | _ \<Rightarrow> (case array_of (nfield p ''cids'') of
          Some vs \<Rightarrow> text_items vs
        | None \<Rightarrow> (case array_of (nfield p ''ipfsCids'') of
            Some vs \<Rightarrow> text_items vs
          | None \<Rightarrow> (case trimmed_text (nfield p ''documentCid'') of
              Some c \<Rightarrow> [c]
            | None \<Rightarrow> (case trimmed_text (nfield p ''ipfsDocumentUrl'') of
                Some c \<Rightarrow> [c]
              | None \<Rightarrow> (case array_of (nfield p ''documents'') of Some vs \<Rightarrow> text_items vs | None \<Rightarrow> []))))))"

definition detail_keys :: "string list" where
  "detail_keys = [''businessName'', ''companyName'', ''businessRegistrationNumber'', ''registrationNumber'', ''taxId'', ''contactEmail'',
     ''contactPhone'', ''address'']"

definition seller_details :: "native \<Rightarrow> (string \<times> native) list" where
  "seller_details p =
     foldl (\<lambda>obj k. if js_truthy (nfield p k) then map_set k (the (nfield p k)) obj else obj)
       (case nfield p ''sellerDetails'' of
          Some (NObj obj) \<Rightarrow> obj
        | Some (NArr vs) \<Rightarrow> map (\<lambda>i. (nat_str i, vs ! i)) [0..<length vs]
        | _ \<Rightarrow> []) detail_keys"

definition first_url :: "native \<Rightarrow> string list \<Rightarrow> native" where
  "first_url p cids =
     (case non_null_or (nfield p ''ipfsDocumentUrl'') None of
        Some v \<Rightarrow> v
      | None \<Rightarrow> (case cids of
          [] \<Rightarrow> NNull
        | c # cs \<Rightarrow> if take 7 c = ''ipfs://'' \<or> take 4 c = ''http'' then NStr c else NStr (''ipfs://'' @ c)))"

definition or_else :: "native option \<Rightarrow> native \<Rightarrow> native" where
  "or_else v x = (case non_null_or v None of Some y \<Rightarrow> y | None \<Rightarrow> x)"

definition kyc_documents :: "native \<Rightarrow> string \<Rightarrow> native" where
  "kyc_documents p submittedAt =
     (let cids = document_cids p; details = seller_details p
      in NObj [(''sellerDetails'', if details = [] then NNull else NObj details), (''documentCids'', NArr (map NStr cids)),
               (''documentType'', or_else (nfield p ''documentType'') (NStr ''business'')),
               (''documentNumber'', or_else (nfield p ''documentNumber'') NNull), (''ipfsDocumentUrl'', first_url p cids),
               (''providerReference'', or_else (nfield p ''providerReference'') NNull), (''rejectionReason'', NNull),
               (''submittedAt'', NStr submittedAt)])"

definition wallet_or_id :: "string \<Rightarrow> user \<Rightarrow> bool" where
  "wallet_or_id k u \<longleftrightarrow> us_stellarAddress u = Some k \<or> us_id u = k"

definition all_statuses :: "kyc_status list" where
  "all_statuses = PENDING_STATUSES @ RESUBMITTABLE_STATUSES"

definition submitKyc ::
    "(kyc_row list \<Rightarrow> kyc_row option) \<Rightarrow> (int \<Rightarrow> string) \<Rightarrow> string \<Rightarrow> int \<Rightarrow> string \<Rightarrow> verification_type option \<Rightarrow> native \<Rightarrow> kyc_db \<Rightarrow>
     error + (kyc_row \<times> kyc_db)" where
  "submitKyc pick isoStr x now k ty p d =
     and_then (user_with (wallet_or_id k) d) (\<lambda>u.
       let wallet = us_stellarAddress u; docs = kyc_documents p (isoStr now)
       in case latest pick (filter (\<lambda>r. (kv_wallet r = wallet \<or> kv_userId r = us_id u) \<and> kv_status r \<in> set all_statuses) (ky_rows d)) of
            Some e \<Rightarrow>
              if kv_status e = KycPENDING \<or> kv_status e = KycAPPROVED then Inl (http_error 409)
              else let h = \<lparr>kh_userId = us_id u, kh_wallet = (case kv_wallet e of Some w \<Rightarrow> Some w | None \<Rightarrow> wallet), kh_type = kv_type e,
                            kh_status = kv_status e, kh_documents = kv_documents e,
                            kh_rejectionReason = (case doc_text (kv_documents e) ''rejectionReason'' of Some t \<Rightarrow> Some t
                              | None \<Rightarrow> (case doc_text (kv_documents e) ''reason'' of Some t \<Rightarrow> Some t | None \<Rightarrow> Some ''Resubmitted'')),
                            kh_providerReference = doc_text (kv_documents e) ''providerReference'', kh_archivedAt = now, kh_createdAt = now\<rparr>;
                       r = e\<lparr>kv_status := KycPENDING, kv_verifiedAt := None, kv_documents := docs\<rparr>
                   in Inr (r, set_kyc (us_id u) KycPENDING False (save_row r (archive h d)))
          | None \<Rightarrow>
              let r = \<lparr>kv_id = x, kv_userId = us_id u, kv_type = (case ty of Some t \<Rightarrow> t | None \<Rightarrow> IDENTITY), kv_status = KycPENDING,
                       kv_documents = docs, kv_wallet = wallet, kv_verifiedAt = None\<rparr>
              in Inr (r, set_kyc (us_id u) KycPENDING False (save_row r d)))"

subsection \<open>Decisions\<close>

definition kyc_webhook_valid :: "(string \<Rightarrow> string \<Rightarrow> string) \<Rightarrow> string \<Rightarrow> string \<Rightarrow> string option \<Rightarrow> bool" where
  "kyc_webhook_valid hmac secret rawBody signature =
     (case signature of
        None \<Rightarrow> False
      | Some s \<Rightarrow>
          if s = [] \<or> secret = [] then False
          else hex_bytes (if take 7 s = ''sha256='' then drop 7 s else s) = hex_bytes (hmac secret rawBody))"

record webhook_payload =
  wp_userId :: string
  wp_status :: kyc_status
  wp_verificationId :: "string option"
  wp_reason :: "string option"

definition processWebhook ::
    "(kyc_row list \<Rightarrow> kyc_row option) \<Rightarrow> int \<Rightarrow> webhook_payload \<Rightarrow> kyc_db \<Rightarrow> error + (unit \<times> kyc_db)" where
  "processWebhook pick now p d =
     (if wp_status p \<notin> {KycAPPROVED, KycREJECTED} then Inl (http_error 400)
      else and_then (user_with (\<lambda>u. us_id u = wp_userId p) d) (\<lambda>u.
        case (if truthy (wp_verificationId p) then find (\<lambda>r. kv_id r = the (wp_verificationId p)) (ky_rows d)
              else pick (filter (\<lambda>r. kv_userId r = wp_userId p \<and> kv_status r = KycPENDING) (ky_rows d))) of
          None \<Rightarrow> Inl (http_error 404)
        | Some v \<Rightarrow>
            let r = v\<lparr>kv_status := wp_status p, kv_verifiedAt := Some now\<rparr>;
                h = \<lparr>kh_userId = us_id u, kh_wallet = kv_wallet v, kh_type = kv_type v, kh_status = kv_status v,
                     kh_documents = kv_documents v, kh_rejectionReason = (if wp_status p = KycREJECTED then wp_reason p else None),
                     kh_providerReference = (let t = doc_text (kv_documents v) ''providerReference'' in if truthy t then t else None),
                     kh_archivedAt = now, kh_createdAt = now\<rparr>
            in Inr ((), set_kyc (wp_userId p) (wp_status p) (wp_status p = KycAPPROVED) (archive h (save_row r d)))))"

definition review_decision :: "string \<Rightarrow> kyc_status result" where
  "review_decision raw =
     (let a = js_trim (toLowerCase raw)
      in if a = ''approved'' \<or> a = ''approve'' then Inr KycAPPROVED
         else if a = ''rejected'' \<or> a = ''reject'' then Inr KycREJECTED else Inl (http_error 400))"

definition reviewed_documents :: "bool \<Rightarrow> string \<Rightarrow> native \<Rightarrow> native" where
  "reviewed_documents approved reason docs =
     (let obj = (case docs of NObj obj \<Rightarrow> obj | _ \<Rightarrow> [])
      in NObj (if approved then map_delete ''reason'' (map_delete ''rejectionReason'' obj)
               else map_set ''rejectionReason'' (NStr reason) obj))"

text \<open>\<open>action\<close> and \<open>reason\<close> are the texts the first non-empty field of the input gives.\<close>

definition reviewKyc ::
    "(kyc_row list \<Rightarrow> kyc_row option) \<Rightarrow> string \<Rightarrow> int \<Rightarrow> string \<Rightarrow> string \<Rightarrow> string \<Rightarrow> kyc_db \<Rightarrow> error + (kyc_row \<times> kyc_db)" where
  "reviewKyc pick x now k action reason0 d =
     and_then (review_decision action) (\<lambda>decision.
       let reason = js_trim reason0; approved = (decision = KycAPPROVED)
       in if decision = KycREJECTED \<and> reason = [] then Inl (http_error 400)
          else let found = (case find (\<lambda>r. kv_id r = k) (ky_rows d) of
                     Some r \<Rightarrow> Some r
                   | None \<Rightarrow> latest pick (filter (\<lambda>r. kv_userId r = k \<or> kv_wallet r = Some k) (ky_rows d)))
          in and_then (case found of
               Some v \<Rightarrow> and_then (user_with (\<lambda>u. us_id u = kv_userId v \<or>
                 us_stellarAddress u = Some (case kv_wallet v of Some w \<Rightarrow> w | None \<Rightarrow> [])) d) (\<lambda>u. Inr (v, u))
             | None \<Rightarrow> and_then (user_with (wallet_or_id k) d) (\<lambda>u.
                 Inr (\<lparr>kv_id = x, kv_userId = us_id u, kv_type = IDENTITY, kv_status = us_kycStatus u, kv_documents = NObj [],
                       kv_wallet = us_stellarAddress u, kv_verifiedAt = None\<rparr>, u))) (\<lambda>(v, u).
               let docs = reviewed_documents approved reason (kv_documents v);
                   r = v\<lparr>kv_status := decision, kv_verifiedAt := Some now, kv_documents := docs\<rparr>;
                   h = \<lparr>kh_userId = us_id u, kh_wallet = (case kv_wallet v of Some w \<Rightarrow> Some w | None \<Rightarrow> us_stellarAddress u), kh_type = kv_type v,
                        kh_status = decision, kh_documents = docs, kh_rejectionReason = (if approved then None else Some reason),
                        kh_providerReference = None, kh_archivedAt = now, kh_createdAt = now\<rparr>
               in Inr (r, set_kyc (us_id u) decision approved (archive h (save_row r d)))))"

subsection \<open>Status and history\<close>

record kyc_status_response =
  ks_id :: "string option"
  ks_status :: kyc_status
  ks_rejectionReason :: "string option"
  ks_wallet :: "string option"
  ks_documents :: native
  ks_verifiedAt :: "int option"

definition latest_history :: "(kyc_history \<Rightarrow> bool) \<Rightarrow> kyc_db \<Rightarrow> kyc_history option" where
  "latest_history P d = (case rev (sort_key kh_createdAt (filter P (ky_history d))) of [] \<Rightarrow> None | h # hs \<Rightarrow> Some h)"

definition getKycStatus :: "(kyc_row list \<Rightarrow> kyc_row option) \<Rightarrow> string \<Rightarrow> kyc_db \<Rightarrow> kyc_status_response result" where
  "getKycStatus pick k d =
     and_then (user_with (wallet_or_id k) d) (\<lambda>u.
       let v = latest pick (filter (\<lambda>r. kv_wallet r = us_stellarAddress u \<or> kv_userId r = us_id u) (ky_rows d));
           st = (case v of Some r \<Rightarrow> kv_status r | None \<Rightarrow> us_kycStatus u);
           docs = (case v of Some r \<Rightarrow> kv_documents r | None \<Rightarrow> NNull);
           told = (case doc_text docs ''rejectionReason'' of Some t \<Rightarrow> Some t | None \<Rightarrow> doc_text docs ''reason'');
           reason = (if st \<noteq> KycREJECTED then None
                     else if truthy told then told
                     else case latest_history (\<lambda>h. (kh_wallet h = us_stellarAddress u \<or> kh_userId h = us_id u) \<and> kh_status h = KycREJECTED) d of
                            Some h \<Rightarrow> kh_rejectionReason h | None \<Rightarrow> None)
       in Inr \<lparr>ks_id = map_option kv_id v, ks_status = st, ks_rejectionReason = reason, ks_wallet = us_stellarAddress u,
               ks_documents = docs, ks_verifiedAt = (case v of Some r \<Rightarrow> kv_verifiedAt r | None \<Rightarrow> None)\<rparr>)"

definition getKycHistory :: "string \<Rightarrow> kyc_db \<Rightarrow> kyc_history list" where
  "getKycHistory wallet d = rev (sort_key kh_createdAt (filter (\<lambda>h. kh_wallet h = Some wallet) (ky_history d)))"

definition getKycHistoryByUserId :: "string \<Rightarrow> kyc_db \<Rightarrow> kyc_history list" where
  "getKycHistoryByUserId i d = rev (sort_key kh_createdAt (filter (\<lambda>h. kh_userId h = i) (ky_history d)))"

subsection \<open>The older admin handlers\<close>

definition set_status :: "string \<Rightarrow> kyc_status \<Rightarrow> kyc_db \<Rightarrow> kyc_db" where
  "set_status i st d =
     d\<lparr>ky_accounts := map (\<lambda>a. if us_id (ac_user a) = i then a\<lparr>ac_user := (ac_user a)\<lparr>us_kycStatus := st\<rparr>\<rparr> else a) (ky_accounts d)\<rparr>"

definition approveKYC :: "bool \<Rightarrow> string \<Rightarrow> kyc_db \<Rightarrow> error + (unit \<times> kyc_db)" where
  "approveKYC authorized i d =
     (if \<not> authorized then Inl (ServiceError ''Unauthorized'' 401)
      else and_then (user_with (\<lambda>u. us_id u = i) d) (\<lambda>u. Inr ((), set_status i KycAPPROVED d)))"

definition rejectKYC :: "bool \<Rightarrow> string \<Rightarrow> kyc_db \<Rightarrow> error + (unit \<times> kyc_db)" where
  "rejectKYC authorized i d =
     (if \<not> authorized then Inl (ServiceError ''Unauthorized'' 401)
      else and_then (user_with (\<lambda>u. us_id u = i) d) (\<lambda>u. Inr ((), set_status i KycREJECTED d)))"

definition revokeKYC :: "bool \<Rightarrow> string \<Rightarrow> kyc_db \<Rightarrow> error + (unit \<times> kyc_db)" where
  "revokeKYC authorized i d =
     (if \<not> authorized then Inl (ServiceError ''Unauthorized'' 401)
      else and_then (user_with (\<lambda>u. us_id u = i) d) (\<lambda>u.
        if us_kycStatus u \<noteq> KycAPPROVED then Inl (ServiceError ''KYC_NOT_APPROVED'' 409)
        else Inr ((), set_status i KycPENDING d)))"

end
