(* ===== verification/Kyc_Steps.thy ===== *)
theory Kyc_Steps
  imports Kyc
begin

section \<open>What identity verification guarantees\<close>

text \<open>
  The two flags of an account agree under every operation of the service; what a review decided is what the
  status call tells; and where the service, its webhook and the older admin handlers fall short of that.
\<close>

subsection \<open>Lookups after a decision\<close>

definition kyc_blind :: "(user \<Rightarrow> bool) \<Rightarrow> bool" where
  "kyc_blind P \<longleftrightarrow> (\<forall>u st b. P (u\<lparr>us_kycStatus := st, us_isKycVerified := b\<rparr>) = P u)"

lemma kyc_blind_intros [simp, intro]:
  "kyc_blind (\<lambda>u. us_id u = i)" "kyc_blind (wallet_or_id k)" "kyc_blind (\<lambda>u. us_stellarAddress u = w)"
  by (simp_all add: kyc_blind_def wallet_or_id_def)

lemma find_after_set:
  "kyc_blind P \<Longrightarrow>
   find (\<lambda>a. P (ac_user a) \<and> \<not> ac_deleted a)
     (map (\<lambda>a. if us_id (ac_user a) = i then a\<lparr>ac_user := (ac_user a)\<lparr>us_kycStatus := st, us_isKycVerified := b\<rparr>\<rparr> else a) as) =
   map_option (\<lambda>a. if us_id (ac_user a) = i then a\<lparr>ac_user := (ac_user a)\<lparr>us_kycStatus := st, us_isKycVerified := b\<rparr>\<rparr> else a)
     (find (\<lambda>a. P (ac_user a) \<and> \<not> ac_deleted a) as)"
  by (induction as) (auto simp: kyc_blind_def)

lemma user_with_set_kyc:
  assumes "kyc_blind P" "user_with P d = Inr u"
  shows "user_with P (set_kyc i st b d) = Inr (if us_id u = i then u\<lparr>us_kycStatus := st, us_isKycVerified := b\<rparr> else u)"
  using assms by (auto simp: user_with_def set_kyc_def find_after_set split: option.splits if_splits)

lemma user_with_other_tables [simp]:
  "user_with P (save_row r d) = user_with P d" "user_with P (archive h d) = user_with P d"
  by (simp_all add: user_with_def save_row_def archive_def)

lemma user_withD: "user_with P d = Inr u \<Longrightarrow> P u \<and> (\<exists>a \<in> set (ky_accounts d). ac_user a = u \<and> \<not> ac_deleted a)"
  by (auto simp: user_with_def find_Some_iff split: option.splits)

lemma kyc_tables [simp]:
  "ky_rows (set_kyc i st b d) = ky_rows d" "ky_history (set_kyc i st b d) = ky_history d"
  "ky_rows (archive h d) = ky_rows d" "ky_rows (save_row r d) = upsert kv_id r (ky_rows d)"
  "ky_history (save_row r d) = ky_history d" "ky_history (archive h d) = ky_history d @ [h]"
  "ky_accounts (save_row r d) = ky_accounts d" "ky_accounts (archive h d) = ky_accounts d"
  by (simp_all add: set_kyc_def archive_def save_row_def)

subsection \<open>The flags of an account\<close>

definition flags_agree :: "kyc_db \<Rightarrow> bool" where
  "flags_agree d \<longleftrightarrow> (\<forall>a \<in> set (ky_accounts d). us_isKycVerified (ac_user a) = (us_kycStatus (ac_user a) = KycAPPROVED))"

lemma flags_agree_set [simp]: "flags_agree d \<Longrightarrow> flags_agree (set_kyc i st (st = KycAPPROVED) d)"
  by (auto simp: flags_agree_def set_kyc_def)

lemma flags_agree_pending [simp]: "flags_agree d \<Longrightarrow> flags_agree (set_kyc i KycPENDING False d)"
  using flags_agree_set [of d i KycPENDING] by simp

lemma flags_agree_tables [simp]: "flags_agree (save_row r d) = flags_agree d" "flags_agree (archive h d) = flags_agree d"
  by (simp_all add: flags_agree_def)

text \<open>One call of the service, or the registration of a wallet at its first login.\<close>

inductive kyc_step :: "(kyc_row list \<Rightarrow> kyc_row option) \<Rightarrow> kyc_db \<Rightarrow> kyc_db \<Rightarrow> bool" for pick where
  by_provider: "submitKycVerification x i ty docs reference d = Inr (r, d') \<Longrightarrow> kyc_step pick d d'"
| by_wallet: "submitKycVerificationByWallet pick x w p d = Inr (r, d') \<Longrightarrow> kyc_step pick d d'"
| resubmits: "resubmitKycVerification pick x now w p d = Inr (r, d') \<Longrightarrow> kyc_step pick d d'"
| submits: "submitKyc pick isoStr x now k ty body d = Inr (r, d') \<Longrightarrow> kyc_step pick d d'"
| webhook: "processWebhook pick now wp d = Inr ((), d') \<Longrightarrow> kyc_step pick d d'"
| reviews: "reviewKyc pick x now k action reason d = Inr (r, d') \<Longrightarrow> kyc_step pick d d'"
| registers: "kyc_step pick d (d\<lparr>ky_accounts := ky_accounts d @ [\<lparr>ac_user = new_user x k, ac_deleted = False\<rparr>]\<rparr>)"

lemmas kyc_ops = submitKycVerification_def submitKycVerificationByWallet_def resubmitKycVerification_def submitKyc_def processWebhook_def
  reviewKyc_def

text \<open>Every call writes one verification row, adds at most to the history, and sets the flags of one account.\<close>

definition row_written :: "kyc_db \<Rightarrow> kyc_db \<Rightarrow> bool" where
  "row_written d d' \<longleftrightarrow> ky_accounts d' = ky_accounts d \<and> (\<exists>r. ky_rows d' = upsert kv_id r (ky_rows d)) \<and> (\<exists>hs. ky_history d' = ky_history d @ hs)"

lemma row_written_intros [simp, intro]:
  "row_written d (save_row r d)" "row_written d (archive h (save_row r d))" "row_written d (save_row r (archive h d))"
  by (auto simp: row_written_def)

inductive kyc_change :: "kyc_db \<Rightarrow> kyc_db \<Rightarrow> bool" where
  flags_set: "row_written d d1 \<Longrightarrow> b = (st = KycAPPROVED) \<Longrightarrow> kyc_change d (set_kyc i st b d1)"
| registered: "kyc_change d (d\<lparr>ky_accounts := ky_accounts d @ [\<lparr>ac_user = new_user x k, ac_deleted = False\<rparr>]\<rparr>)"

lemma submitKyc_change:
  assumes "submitKyc pick isoStr x now k ty body d = Inr (r, d')"
  shows "kyc_change d d'"
proof -
  obtain u where "user_with (wallet_or_id k) d = Inr u" using assms by (auto simp: submitKyc_def result_simps)
  then show ?thesis using assms
    by (cases "latest pick (filter (\<lambda>r. (kv_wallet r = us_stellarAddress u \<or> kv_userId r = us_id u) \<and> kv_status r \<in> set all_statuses) (ky_rows d))")
      (auto simp: submitKyc_def Let_def intro!: kyc_change.flags_set split: if_splits)
qed

lemma processWebhook_change:
  assumes "processWebhook pick now p d = Inr ((), d')"
  shows "kyc_change d d'"
proof -
  obtain u where u: "user_with (\<lambda>u. us_id u = wp_userId p) d = Inr u" and st: "wp_status p \<in> {KycAPPROVED, KycREJECTED}"
    using assms by (auto simp: processWebhook_def result_simps split: if_split_asm)
  obtain v where "(if truthy (wp_verificationId p) then find (\<lambda>r. kv_id r = the (wp_verificationId p)) (ky_rows d)
      else pick (filter (\<lambda>r. kv_userId r = wp_userId p \<and> kv_status r = KycPENDING) (ky_rows d))) = Some v"
    using assms u st by (cases "if truthy (wp_verificationId p) then find (\<lambda>r. kv_id r = the (wp_verificationId p)) (ky_rows d)
      else pick (filter (\<lambda>r. kv_userId r = wp_userId p \<and> kv_status r = KycPENDING) (ky_rows d))") (auto simp: processWebhook_def)
  then show ?thesis using assms u st by (auto simp: processWebhook_def Let_def intro!: kyc_change.flags_set)
qed

lemma reviewKyc_change:
  assumes "reviewKyc pick x now k action reason d = Inr (r, d')"
  shows "kyc_change d d'"
proof -
  obtain decision where "review_decision action = Inr decision" using assms by (auto simp: reviewKyc_def result_simps)
  then show ?thesis using assms by (clarsimp simp: reviewKyc_def result_simps Let_def kyc_change.flags_set split: if_split_asm)
qed

lemma kyc_step_change:
  assumes "kyc_step pick d d'"
  shows "kyc_change d d'"
  using assms
proof cases
  case (by_provider x i ty docs reference r)
  then show ?thesis by (auto simp: submitKycVerification_def Let_def result_simps intro!: kyc_change.flags_set)
next
  case (by_wallet x w p r)
  then show ?thesis by (auto simp: submitKycVerificationByWallet_def Let_def result_simps intro!: kyc_change.flags_set split: option.splits)
next
  case (resubmits x now w p r)
  then show ?thesis by (auto simp: resubmitKycVerification_def Let_def result_simps intro!: kyc_change.flags_set split: option.splits if_splits)
qed (auto intro: submitKyc_change processWebhook_change reviewKyc_change kyc_change.registered)

lemma kyc_step_keeps_flags: "kyc_step pick d d' \<Longrightarrow> flags_agree d \<Longrightarrow> flags_agree d'"
  by (drule kyc_step_change) (auto elim!: kyc_change.cases simp: flags_agree_def set_kyc_def row_written_def new_user_def)

text \<open>Whatever calls of the identity service and registrations happen, in any order, the two flags of every account agree: it is marked
  verified exactly when its status is approved.\<close>

theorem kyc_flags_agree:
  assumes "(kyc_step pick)\<^sup>*\<^sup>* d d'" "flags_agree d"
  shows "flags_agree d'"
  using assms by (induction rule: rtranclp_induct) (auto intro: kyc_step_keeps_flags)

definition sample_kyc_user :: user where
  "sample_kyc_user = \<lparr>us_id = ''u1'', us_stellarAddress = Some ''GA'', us_userType = SELLER, us_kycStatus = KycPENDING,
     us_isKycVerified = False, us_isSuspended = False\<rparr>"

definition sample_kyc_row :: kyc_row where
  "sample_kyc_row = \<lparr>kv_id = ''v1'', kv_userId = ''u1'', kv_type = IDENTITY, kv_status = KycPENDING, kv_documents = NNull,
     kv_wallet = Some ''GA'', kv_verifiedAt = None\<rparr>"

definition sample_kyc_db :: kyc_db where
  "sample_kyc_db = \<lparr>ky_accounts = [\<lparr>ac_user = sample_kyc_user, ac_deleted = False\<rparr>], ky_rows = [sample_kyc_row], ky_history = []\<rparr>"

definition first_of :: "kyc_row list \<Rightarrow> kyc_row option" where
  "first_of rs = (case rs of [] \<Rightarrow> None | r # _ \<Rightarrow> Some r)"

lemma first_of_ok [simp]: "pick_ok first_of"
  by (auto simp: pick_ok_def first_of_def split: list.splits)

definition sample_decision :: "kyc_status \<Rightarrow> webhook_payload" where
  "sample_decision st = \<lparr>wp_userId = ''u1'', wp_status = st, wp_verificationId = Some ''v1'', wp_reason = Some ''blurred''\<rparr>"

definition decided_db :: "kyc_status \<Rightarrow> kyc_db" where
  "decided_db st = (case processWebhook first_of 5 (sample_decision st) sample_kyc_db of Inr (_, d) \<Rightarrow> d | Inl _ \<Rightarrow> sample_kyc_db)"

lemma sample_decided: "st \<in> {KycAPPROVED, KycREJECTED} \<Longrightarrow> processWebhook first_of 5 (sample_decision st) sample_kyc_db = Inr ((), decided_db st)"
  by (auto simp: decided_db_def processWebhook_def sample_decision_def sample_kyc_db_def sample_kyc_user_def sample_kyc_row_def user_with_def Let_def truthy_def first_of_def)

theorem kyc_flags_agree_witness: "flags_agree (decided_db KycAPPROVED) \<and> ky_rows (decided_db KycAPPROVED) \<noteq> ky_rows sample_kyc_db"
proof
  have "kyc_step first_of sample_kyc_db (decided_db KycAPPROVED)"
    by (rule kyc_step.webhook [OF sample_decided]) simp
  then have "(kyc_step first_of)\<^sup>*\<^sup>* sample_kyc_db (decided_db KycAPPROVED)" by (rule r_into_rtranclp)
  then show "flags_agree (decided_db KycAPPROVED)"
    by (rule kyc_flags_agree) (simp add: flags_agree_def sample_kyc_db_def sample_kyc_user_def)
qed (simp add: decided_db_def processWebhook_def sample_decision_def sample_kyc_db_def sample_kyc_user_def sample_kyc_row_def user_with_def
    truthy_def Let_def set_kyc_def)

subsection \<open>Decisions that do not stay\<close>

definition row_known :: "string \<Rightarrow> kyc_db \<Rightarrow> bool" where
  "row_known k d \<longleftrightarrow> (\<exists>r \<in> set (ky_rows d). kv_id r = k)"

definition user_known :: "string \<Rightarrow> kyc_db \<Rightarrow> bool" where
  "user_known i d \<longleftrightarrow> (\<exists>a \<in> set (ky_accounts d). us_id (ac_user a) = i \<and> \<not> ac_deleted a)"

lemma user_known_set [simp]: "user_known i (set_kyc j st b d) = user_known i d"
proof -
  define f where "f = (\<lambda>a :: account. if us_id (ac_user a) = j then a\<lparr>ac_user := (ac_user a)\<lparr>us_kycStatus := st, us_isKycVerified := b\<rparr>\<rparr> else a)"
  have "us_id (ac_user (f a)) = us_id (ac_user a) \<and> ac_deleted (f a) = ac_deleted a" for a by (simp add: f_def)
  moreover have "ky_accounts (set_kyc j st b d) = map f (ky_accounts d)" by (simp add: set_kyc_def f_def)
  ultimately show ?thesis by (simp add: user_known_def)
qed

lemma upsert_keeps_keys: "\<exists>x \<in> set xs. f x = k \<Longrightarrow> \<exists>x \<in> set (upsert f r xs). f x = k"
  by (induction xs) auto

lemma kyc_step_forgets_nothing:
  assumes "kyc_step pick d d'" "row_known k d" "user_known i d"
  shows "row_known k d' \<and> user_known i d'"
  using kyc_step_change [OF assms(1)]
proof cases
  case (flags_set d1 b st j)
  then have "user_known i d1" using assms(3) by (simp add: row_written_def user_known_def)
  moreover obtain r where "ky_rows d1 = upsert kv_id r (ky_rows d)" using flags_set(2) by (auto simp: row_written_def)
  then have "row_known k d1" unfolding row_known_def using upsert_keeps_keys [OF assms(2) [unfolded row_known_def], of r] by simp
  ultimately have "user_known i d1" "row_known k d1" by blast+
  then show ?thesis using flags_set(1) by (simp add: row_known_def)
next
  case (registered x k)
  then show ?thesis using assms(2,3) by (auto simp: row_known_def user_known_def)
qed

lemma kyc_steps_forget_nothing:
  "(kyc_step pick)\<^sup>*\<^sup>* d d' \<Longrightarrow> row_known k d \<Longrightarrow> user_known i d \<Longrightarrow> row_known k d' \<and> user_known i d'"
  by (induction rule: rtranclp_induct) (auto dest: kyc_step_forgets_nothing)

lemma user_with_id: "user_known i d \<longleftrightarrow> (\<exists>u. user_with (\<lambda>w. us_id w = i) d = Inr u)"
proof (cases "find (\<lambda>a. us_id (ac_user a) = i \<and> \<not> ac_deleted a) (ky_accounts d)")
  case None
  then show ?thesis by (simp add: user_with_def user_known_def) (auto simp: find_None_iff)
next
  case (Some a)
  then show ?thesis using find_SomeD [OF Some] by (auto simp: user_known_def user_with_def)
qed

lemma row_known_find: "row_known k d \<longleftrightarrow> (\<exists>r. find (\<lambda>r. kv_id r = k) (ky_rows d) = Some r)"
  by (cases "find (\<lambda>r. kv_id r = k) (ky_rows d)") (auto simp: row_known_def find_None_iff dest: find_SomeD)

text \<open>The account of a user as the lookups by identifier see it.\<close>

definition standing :: "string \<Rightarrow> kyc_db \<Rightarrow> (kyc_status \<times> bool) option" where
  "standing i d = (case user_with (\<lambda>w. us_id w = i) d of Inr u \<Rightarrow> Some (us_kycStatus u, us_isKycVerified u) | Inl _ \<Rightarrow> None)"

lemma standing_after_set: "user_known i d \<Longrightarrow> standing i (set_kyc i st b d) = Some (st, b)"
  using user_withD by (fastforce simp: user_with_id standing_def user_with_set_kyc [OF kyc_blind_intros(1)])

lemma user_known_tables [simp]: "user_known i (save_row r d) = user_known i d" "user_known i (archive h d) = user_known i d"
  by (simp_all add: user_known_def)

lemma standing_tables [simp]: "standing i (save_row r d) = standing i d" "standing i (archive h d) = standing i d"
  by (simp_all add: standing_def)

lemma named_webhook_decides:
  assumes "wp_verificationId p = Some k" "k \<noteq> []" "wp_status p \<in> {KycAPPROVED, KycREJECTED}"
    "row_known k d" "user_known (wp_userId p) d"
  shows "\<exists>d'. processWebhook pick now p d = Inr ((), d') \<and> standing (wp_userId p) d' = Some (wp_status p, wp_status p = KycAPPROVED)"
proof -
  obtain u r where u: "user_with (\<lambda>w. us_id w = wp_userId p) d = Inr u" and r: "find (\<lambda>r. kv_id r = k) (ky_rows d) = Some r"
    using assms(4,5) by (auto simp: user_with_id row_known_find)
  have id: "us_id u = wp_userId p" using user_withD [OF u] by simp
  show ?thesis using assms(1-3) u r id
    by (auto simp: processWebhook_def Let_def truthy_def standing_after_set assms(5))
qed

text \<open>C25: A decision the provider has signed once can be sent again at any later time: the webhook carries no time and no number and the
  call does not look at the state of the verification it names. Whatever the service and its reviewers did since, a message that was
  accepted is accepted again and sets the account back to what it says, an approval that was withdrawn included.\<close>

theorem replayed_webhook_reverts_the_decision:
  assumes "processWebhook pick now p d = Inr ((), d1)" "truthy (wp_verificationId p)" "(kyc_step pick)\<^sup>*\<^sup>* d1 d2"
  shows "\<exists>d3. processWebhook pick later p d2 = Inr ((), d3) \<and> standing (wp_userId p) d3 = Some (wp_status p, wp_status p = KycAPPROVED)"
proof -
  obtain k where k: "wp_verificationId p = Some k" "k \<noteq> []" using assms(2) by (auto simp: truthy_def split: option.splits)
  have d1: "wp_status p \<in> {KycAPPROVED, KycREJECTED}" "row_known k d" "user_known (wp_userId p) d" "kyc_step pick d d1"
    using assms(1,2) k kyc_step.webhook [OF assms(1)]
    by (auto simp: processWebhook_def result_simps row_known_find user_with_id split: if_splits option.splits)
  have "row_known k d2 \<and> user_known (wp_userId p) d2"
    using kyc_steps_forget_nothing [OF converse_rtranclp_into_rtranclp [OF d1(4) assms(3)]] d1(2,3) by blast
  then show ?thesis using named_webhook_decides k d1(1) by blast
qed

definition rejected_later :: kyc_db where
  "rejected_later = (case reviewKyc first_of ''v2'' 9 ''v1'' ''reject'' ''forged'' (decided_db KycAPPROVED) of Inr (_, d) \<Rightarrow> d | Inl _ \<Rightarrow> sample_kyc_db)"

theorem replayed_webhook_reverts_the_decision_witness:
  "standing ''u1'' rejected_later = Some (KycREJECTED, False) \<and>
   (\<exists>d3. processWebhook first_of 20 (sample_decision KycAPPROVED) rejected_later = Inr ((), d3) \<and> standing ''u1'' d3 = Some (KycAPPROVED, True))"
proof
  have "\<not> isl (reviewKyc first_of ''v2'' 9 ''v1'' ''reject'' ''forged'' (decided_db KycAPPROVED))" by code_simp
  then obtain r where "reviewKyc first_of ''v2'' 9 ''v1'' ''reject'' ''forged'' (decided_db KycAPPROVED) = Inr (r, rejected_later)"
    by (cases "reviewKyc first_of ''v2'' 9 ''v1'' ''reject'' ''forged'' (decided_db KycAPPROVED)") (auto simp: rejected_later_def)
  then have "(kyc_step first_of)\<^sup>*\<^sup>* (decided_db KycAPPROVED) rejected_later" by (auto intro: r_into_rtranclp kyc_step.reviews)
  from replayed_webhook_reverts_the_decision [OF sample_decided _ this, where later = 20]
  show "\<exists>d3. processWebhook first_of 20 (sample_decision KycAPPROVED) rejected_later = Inr ((), d3) \<and> standing ''u1'' d3 = Some (KycAPPROVED, True)"
    by (simp add: sample_decision_def truthy_def)
qed code_simp

text \<open>Revoking an approval through the admin handler leaves the verification row approved and the account marked verified: the user
  cannot submit again, which the handler says revocation makes possible, and only a new review or the provider can decide afresh.\<close>

theorem revoked_user_cannot_resubmit:
  assumes "flags_agree d" "user_with (\<lambda>w. us_id w = i) d = Inr u" "user_with (wallet_or_id k) d = Inr u"
    "revokeKYC True i d = Inr ((), d')"
    "latest pick (filter (\<lambda>r. (kv_wallet r = us_stellarAddress u \<or> kv_userId r = us_id u) \<and> kv_status r \<in> set all_statuses) (ky_rows d)) = Some e"
    "kv_status e = KycAPPROVED"
  shows "submitKyc pick isoStr x now k ty p d' = Inl (http_error 409) \<and> standing i d' = Some (KycPENDING, True)"
proof -
  have u: "us_kycStatus u = KycAPPROVED" and d': "d' = set_status i KycPENDING d"
    using assms(4) by (auto simp: revokeKYC_def assms(2) split: if_splits)
  have verified: "us_isKycVerified u" using assms(1) u user_withD [OF assms(2)] by (auto simp: flags_agree_def)
  have id: "us_id u = i" using user_withD [OF assms(2)] by simp
  have found: "user_with P d' = Inr (u\<lparr>us_kycStatus := KycPENDING\<rparr>)" if "user_with P d = Inr u" "\<And>w. P (w\<lparr>us_kycStatus := KycPENDING\<rparr>) = P w" for P
  proof -
    have "find (\<lambda>a. P (ac_user a) \<and> \<not> ac_deleted a)
        (map (\<lambda>a. if us_id (ac_user a) = i then a\<lparr>ac_user := (ac_user a)\<lparr>us_kycStatus := KycPENDING\<rparr>\<rparr> else a) as) =
      map_option (\<lambda>a. if us_id (ac_user a) = i then a\<lparr>ac_user := (ac_user a)\<lparr>us_kycStatus := KycPENDING\<rparr>\<rparr> else a)
        (find (\<lambda>a. P (ac_user a) \<and> \<not> ac_deleted a) as)" for as :: "account list"
      by (induction as) (auto simp: that(2))
    then show ?thesis using that(1) id by (auto simp: user_with_def d' set_status_def split: option.splits)
  qed
  have "user_with (\<lambda>w. us_id w = i) d' = Inr (u\<lparr>us_kycStatus := KycPENDING\<rparr>)" by (rule found [OF assms(2)]) simp
  moreover have "user_with (wallet_or_id k) d' = Inr (u\<lparr>us_kycStatus := KycPENDING\<rparr>)" by (rule found [OF assms(3)]) (simp add: wallet_or_id_def)
  moreover have "ky_rows d' = ky_rows d" by (simp add: d' set_status_def)
  ultimately show ?thesis using assms(5,6) verified by (simp add: standing_def submitKyc_def Let_def)
qed

lemma decided_approved [simp]:
  "ky_accounts (decided_db KycAPPROVED) =
     [\<lparr>ac_user = sample_kyc_user\<lparr>us_kycStatus := KycAPPROVED, us_isKycVerified := True\<rparr>, ac_deleted = False\<rparr>]"
  "ky_rows (decided_db KycAPPROVED) = [sample_kyc_row\<lparr>kv_status := KycAPPROVED, kv_verifiedAt := Some 5\<rparr>]"
  by (simp_all add: decided_db_def processWebhook_def sample_decision_def sample_kyc_db_def sample_kyc_user_def sample_kyc_row_def user_with_def
      truthy_def Let_def set_kyc_def)

theorem revoked_user_cannot_resubmit_witness:
  "submitKyc first_of (\<lambda>t. []) ''v3'' 30 ''GA'' None (NObj []) (set_status ''u1'' KycPENDING (decided_db KycAPPROVED)) = Inl (http_error 409) \<and>
   standing ''u1'' (set_status ''u1'' KycPENDING (decided_db KycAPPROVED)) = Some (KycPENDING, True)"
proof (rule revoked_user_cannot_resubmit [where d = "decided_db KycAPPROVED" and e = "sample_kyc_row\<lparr>kv_status := KycAPPROVED, kv_verifiedAt := Some 5\<rparr>"
    and u = "sample_kyc_user\<lparr>us_kycStatus := KycAPPROVED, us_isKycVerified := True\<rparr>"])
  show "flags_agree (decided_db KycAPPROVED)" by (simp add: flags_agree_def)
  show u: "user_with (\<lambda>w. us_id w = ''u1'') (decided_db KycAPPROVED) = Inr (sample_kyc_user\<lparr>us_kycStatus := KycAPPROVED, us_isKycVerified := True\<rparr>)"
    and "user_with (wallet_or_id ''GA'') (decided_db KycAPPROVED) = Inr (sample_kyc_user\<lparr>us_kycStatus := KycAPPROVED, us_isKycVerified := True\<rparr>)"
    by (simp_all add: user_with_def sample_kyc_user_def wallet_or_id_def)
  show "revokeKYC True ''u1'' (decided_db KycAPPROVED) = Inr ((), set_status ''u1'' KycPENDING (decided_db KycAPPROVED))"
    by (simp add: revokeKYC_def u)
qed (simp_all add: latest_def first_of_def sample_kyc_row_def sample_kyc_user_def verified_before_def all_statuses_def PENDING_STATUSES_def)

subsection \<open>What the status call tells\<close>

definition of_user :: "user \<Rightarrow> kyc_row \<Rightarrow> bool" where
  "of_user u r \<longleftrightarrow> kv_wallet r = us_stellarAddress u \<or> kv_userId r = us_id u"

text \<open>The row decided at \<open>now\<close> is the one the status call looks at when the other rows of the user were decided before.\<close>

lemma upsert_elems: "set (upsert f r xs) \<subseteq> insert r (set xs)" "r \<in> set (upsert f r xs)"
  by (induction xs) auto

lemma upsert_others: "distinct (map f xs) \<Longrightarrow> y \<in> set (upsert f r xs) \<Longrightarrow> y \<noteq> r \<Longrightarrow> y \<in> set xs \<and> f y \<noteq> f r"
  by (induction xs) (auto simp: image_iff split: if_splits)

definition decided_before :: "int \<Rightarrow> kyc_row \<Rightarrow> bool" where
  "decided_before now r \<longleftrightarrow> (case kv_verifiedAt r of Some t \<Rightarrow> t < now | None \<Rightarrow> False)"

lemma latest_after_decision:
  assumes "pick_ok pick" "distinct (map kv_id rows)" "of_user u r" "kv_verifiedAt r = Some now"
    "\<forall>s \<in> set rows. of_user u s \<longrightarrow> kv_id s \<noteq> kv_id r \<longrightarrow> decided_before now s"
  shows "latest pick (filter (of_user u) (upsert kv_id r rows)) = Some r"
proof -
  let ?rs = "filter (of_user u) (upsert kv_id r rows)"
  have others: "s = r \<or> verified_before s r" if "s \<in> set ?rs" for s
  proof (cases "s = r")
    case False
    then have "decided_before now s" using that upsert_others [OF assms(2), of s r] assms(5) by auto
    then show ?thesis using assms(4) by (auto simp: decided_before_def verified_before_def split: option.splits)
  qed simp
  have not_before: "\<not> verified_before r s" if "s \<in> set ?rs" for s
    using others [OF that] assms(4) by (auto simp: verified_before_def split: option.splits)
  have "x = r" if "x \<in> set ?rs" "list_all (\<lambda>s. \<not> verified_before x s) ?rs" for x
    using others [OF that(1)] that(2) upsert_elems(2) [of r kv_id rows] assms(3) by (auto simp: list_all_iff)
  then have all: "\<forall>x \<in> set (filter (\<lambda>x. list_all (\<lambda>s. \<not> verified_before x s) ?rs) ?rs). x = r" by (simp only: set_filter mem_Collect_eq) blast
  have "r \<in> set ?rs" using upsert_elems(2) assms(3) by simp
  then have "r \<in> set (filter (\<lambda>x. list_all (\<lambda>s. \<not> verified_before x s) ?rs) ?rs)"
    using not_before by (simp only: set_filter mem_Collect_eq list_all_iff) blast
  then obtain x where x: "latest pick ?rs = Some x" "x \<in> set (filter (\<lambda>x. list_all (\<lambda>s. \<not> verified_before x s) ?rs) ?rs)"
    using assms(1) unfolding latest_def pick_ok_def by (metis empty_iff empty_set option.exhaust)
  have "x = r" by (rule bspec [OF all x(2)])
  then show ?thesis using x(1) by simp
qed

lemma map_set_lookup [simp]: "map_of (map_set k v m) k = Some v"
  by (induction m) auto

lemma doc_text_reviewed: "doc_text (reviewed_documents False t docs) ''rejectionReason'' = Some t"
  by (simp add: reviewed_documents_def doc_text_def nfield_def)


definition reviewed_db :: kyc_db where
  "reviewed_db = (case reviewKyc first_of ''v2'' 9 ''v1'' ''Reject'' '' blurred '' sample_kyc_db of Inr (_, d) \<Rightarrow> d | Inl _ \<Rightarrow> sample_kyc_db)"


text \<open>The provider's reason for a rejection is never told: the history row of a webhook decision carries the status before the decision, and
  the status call looks for a reason only in the documents and in history rows of rejections. After a rejection with a reason it answers
  what it would have answered from earlier rejections, which is nothing for a first one.\<close>

theorem webhook_rejection_reason_is_lost:
  assumes "pick_ok pick" "distinct (map kv_id (ky_rows d))" "wp_verificationId p = Some k" "k \<noteq> []" "wp_status p = KycREJECTED"
    "find (\<lambda>r. kv_id r = k) (ky_rows d) = Some v" "kv_userId v = us_id u" "us_id u = wp_userId p" "kv_status v \<noteq> KycREJECTED"
    "user_with (wallet_or_id (us_id u)) d = Inr u" "user_with (\<lambda>w. us_id w = us_id u) d = Inr u"
    "doc_text (kv_documents v) ''rejectionReason'' = None" "doc_text (kv_documents v) ''reason'' = None"
    "\<forall>s \<in> set (ky_rows d). of_user u s \<longrightarrow> kv_id s \<noteq> k \<longrightarrow> decided_before now s"
    "processWebhook pick now p d = Inr ((), d')"
  shows "\<exists>s. getKycStatus pick (us_id u) d' = Inr s \<and> ks_status s = KycREJECTED \<and>
    ks_rejectionReason s = (case latest_history (\<lambda>h. (kh_wallet h = us_stellarAddress u \<or> kh_userId h = us_id u) \<and> kh_status h = KycREJECTED) d of
      Some h \<Rightarrow> kh_rejectionReason h | None \<Rightarrow> None)"
proof -
  have k: "kv_id v = k" using find_SomeD [OF assms(6)] by simp
  define r' where "r' = v\<lparr>kv_status := KycREJECTED, kv_verifiedAt := Some now\<rparr>"
  obtain h where d': "d' = set_kyc (us_id u) KycREJECTED False (archive h (save_row r' d))" and h: "kh_status h = kv_status v"
    using assms(15) by (auto simp: processWebhook_def Let_def truthy_def assms(3-6,8) r'_def assms(11) [unfolded assms(8)])
  have u': "user_with (wallet_or_id (us_id u)) d' = Inr (u\<lparr>us_kycStatus := KycREJECTED, us_isKycVerified := False\<rparr>)"
    using user_with_set_kyc [OF kyc_blind_intros(2), of "us_id u" "archive h (save_row r' d)" u] assms(10) by (simp add: d')
  have "latest pick (filter (of_user u) (upsert kv_id r' (ky_rows d))) = Some r'"
    using assms(7,14) by (intro latest_after_decision [OF assms(1,2), of u r' now]) (auto simp: r'_def of_user_def k)
  moreover have "of_user u = (\<lambda>r. kv_wallet r = us_stellarAddress u \<or> kv_userId r = us_id u)" by (simp add: of_user_def fun_eq_iff)
  ultimately have told: "latest pick (filter (\<lambda>r. kv_wallet r = us_stellarAddress u \<or> kv_userId r = us_id u) (ky_rows d')) = Some r'"
    by (simp add: d')
  have "latest_history (\<lambda>h. (kh_wallet h = us_stellarAddress u \<or> kh_userId h = us_id u) \<and> kh_status h = KycREJECTED) d' =
      latest_history (\<lambda>h. (kh_wallet h = us_stellarAddress u \<or> kh_userId h = us_id u) \<and> kh_status h = KycREJECTED) d"
    using h assms(9) by (simp add: latest_history_def d')
  moreover have "kv_status r' = KycREJECTED" "kv_documents r' = kv_documents v" by (simp_all add: r'_def)
  ultimately show ?thesis using assms(12,13) by (simp add: getKycStatus_def u' told Let_def truthy_def)
qed

theorem webhook_rejection_reason_is_lost_witness:
  "wp_reason (sample_decision KycREJECTED) = Some ''blurred'' \<and>
   (\<exists>s. getKycStatus first_of ''u1'' (decided_db KycREJECTED) = Inr s \<and> ks_status s = KycREJECTED \<and> ks_rejectionReason s = None)"
proof
  have "\<exists>s. getKycStatus first_of (us_id sample_kyc_user) (decided_db KycREJECTED) = Inr s \<and> ks_status s = KycREJECTED \<and>
    ks_rejectionReason s = (case latest_history (\<lambda>h. (kh_wallet h = us_stellarAddress sample_kyc_user \<or> kh_userId h = us_id sample_kyc_user) \<and>
      kh_status h = KycREJECTED) sample_kyc_db of Some h \<Rightarrow> kh_rejectionReason h | None \<Rightarrow> None)"
    by (rule webhook_rejection_reason_is_lost [OF first_of_ok _ _ _ _ _ _ _ _ _ _ _ _ _ sample_decided, where v = sample_kyc_row and k = "''v1''"])
      (simp_all add: sample_kyc_db_def sample_kyc_row_def sample_kyc_user_def sample_decision_def user_with_def wallet_or_id_def doc_text_def nfield_def)
  then show "\<exists>s. getKycStatus first_of ''u1'' (decided_db KycREJECTED) = Inr s \<and> ks_status s = KycREJECTED \<and> ks_rejectionReason s = None"
    by (simp add: sample_kyc_user_def sample_kyc_db_def latest_history_def)
qed (simp add: sample_decision_def)

subsection \<open>Resubmitting\<close>

text \<open>A new submission after a rejection keeps the row: nothing but the time and the documents of a decided verification is lost, and what
  was there is in the history.\<close>

theorem resubmission_archives_the_old_one:
  assumes "user_with (wallet_or_id k) d = Inr u"
    "latest pick (filter (\<lambda>r. (kv_wallet r = us_stellarAddress u \<or> kv_userId r = us_id u) \<and> kv_status r \<in> set all_statuses) (ky_rows d)) = Some e"
  shows "if kv_status e \<in> {KycPENDING, KycAPPROVED} then submitKyc pick isoStr x now k ty p d = Inl (http_error 409)
    else \<exists>r d' h. submitKyc pick isoStr x now k ty p d = Inr (r, d') \<and> kv_id r = kv_id e \<and> kv_status r = KycPENDING \<and>
      ky_history d' = ky_history d @ [h] \<and> kh_status h = kv_status e \<and> kh_documents h = kv_documents e \<and> ky_rows d' = upsert kv_id r (ky_rows d)"
  using assms by (auto simp: submitKyc_def Let_def)

end
