(* ===== verification/Fee_Schedule.thy ===== *)
theory Fee_Schedule
  imports Domain
begin

section \<open>Fee schedules and their cache\<close>

text \<open>
  \<open>src/services/fee-schedule.service.ts\<close> and \<open>src/models/FeeSchedule.model.ts\<close>. A change of fees closes the
  active row and opens a new one; the current row is cached in Redis under a version, which a Lua script compares
  before it writes. The cache holds what \<open>JSON.parse\<close> makes of its text, \<open>None\<close> for a text that does not parse;
  \<open>fe_date\<close> is \<open>new Date(v)\<close> (\<open>None\<close> for an invalid date) and \<open>fe_iso\<close> the text of a time in JSON.
\<close>

record fees =
  fe_investment :: int
  fe_settlement :: int
  fe_platform :: int
  fe_secondary :: int

record fee_row =
  fs_id :: int
  fs_fees :: fees
  fs_active :: bool
  fs_from :: int
  fs_until :: "int option"

record fee_meta =
  fm_fees :: fees
  fm_from :: int
  fm_until :: "int option"
  fm_active :: bool

record fee_change =
  fc_investment :: "int option"
  fc_settlement :: "int option"
  fc_platform :: "int option"
  fc_secondary :: "int option"
  fc_reason :: "string option"

record fee_history =
  fh_schedule :: int
  fh_actor :: string
  fh_role :: string
  fh_old :: fees
  fh_new :: fees
  fh_reason :: "string option"
  fh_createdAt :: int

record fee_db =
  fd_rows :: "fee_row list"
  fd_nextId :: int
  fd_history :: "fee_history list"

record fee_dates =
  fe_date :: "native \<Rightarrow> int option"
  fe_iso :: "int \<Rightarrow> string"

record fee_redis =
  fr_version :: "int option"
  fr_cache :: "(native option \<times> int) option"

definition FEE_MIN :: int where "FEE_MIN = 0"

definition FEE_MAX :: int where "FEE_MAX = 1000"

definition CACHE_TTL :: int where "CACHE_TTL = 3600"

subsection \<open>The cache\<close>

definition number_field :: "native \<Rightarrow> string \<Rightarrow> int option" where
  "number_field v k = (case nfield v k of Some (NInt n) \<Rightarrow> Some n | _ \<Rightarrow> None)"

definition cached_until :: "fee_dates \<Rightarrow> native \<Rightarrow> int option option" where
  "cached_until D raw =
     (if js_truthy (nfield raw ''effectiveUntil'')
      then case fe_date D (the (nfield raw ''effectiveUntil'')) of Some t \<Rightarrow> Some (Some t) | None \<Rightarrow> None
      else Some None)"

definition raw_schedule :: "fee_dates \<Rightarrow> native \<Rightarrow> fee_meta option" where
  "raw_schedule D raw =
     (case (number_field raw ''investmentFeeBps'', number_field raw ''settlementFeeBps'', number_field raw ''platformFeeBps'',
            number_field raw ''secondaryMarketFeeBps'') of
        (Some i, Some s, Some p, Some m) \<Rightarrow>
          (case (case nfield raw ''effectiveFrom'' of Some v \<Rightarrow> fe_date D v | None \<Rightarrow> None, cached_until D raw) of
             (Some t, Some u) \<Rightarrow> Some \<lparr>fm_fees = \<lparr>fe_investment = i, fe_settlement = s, fe_platform = p, fe_secondary = m\<rparr>,
                                     fm_from = t, fm_until = u, fm_active = js_truthy (nfield raw ''isActive'')\<rparr>
           | _ \<Rightarrow> None)
      | _ \<Rightarrow> None)"

definition is_object :: "native \<Rightarrow> bool" where
  "is_object v = (case v of NObj obj \<Rightarrow> True | NArr vs \<Rightarrow> True | _ \<Rightarrow> False)"

definition parseCachedSchedule :: "fee_dates \<Rightarrow> native option \<Rightarrow> (int option \<times> fee_meta) option" where
  "parseCachedSchedule D cached =
     (case cached of
        None \<Rightarrow> None
      | Some parsed \<Rightarrow>
          if \<not> is_object parsed then None
          else let (version, raw) = (case nfield parsed ''data'' of
                     Some v \<Rightarrow> if is_object v then (number_field parsed ''version'', v) else (None, parsed)
                   | None \<Rightarrow> (None, parsed))
               in map_option (\<lambda>s. (version, s)) (raw_schedule D raw))"

definition fee_payload :: "fee_dates \<Rightarrow> int \<Rightarrow> fee_meta \<Rightarrow> native" where
  "fee_payload D version s =
     NObj [(''version'', NInt version),
           (''data'', NObj [(''investmentFeeBps'', NInt (fe_investment (fm_fees s))), (''settlementFeeBps'', NInt (fe_settlement (fm_fees s))),
              (''platformFeeBps'', NInt (fe_platform (fm_fees s))), (''secondaryMarketFeeBps'', NInt (fe_secondary (fm_fees s))),
              (''effectiveFrom'', NStr (fe_iso D (fm_from s))),
              (''effectiveUntil'', case fm_until s of Some t \<Rightarrow> NStr (fe_iso D t) | None \<Rightarrow> NNull),
              (''isActive'', NBool (fm_active s))])]"

text \<open>The script runs in one step; its answer 0 says that the version was old.\<close>

definition refill_script :: "int \<Rightarrow> int \<Rightarrow> native \<Rightarrow> fee_redis \<Rightarrow> int \<times> fee_redis" where
  "refill_script now version payload R =
     (if (case fr_version R of Some current \<Rightarrow> version < current | None \<Rightarrow> False) then (0, R)
      else (1, R\<lparr>fr_cache := Some (Some payload, now + CACHE_TTL * 1000),
                 fr_version := (case fr_version R of
                    Some current \<Rightarrow> if version > current then Some version else Some current | None \<Rightarrow> Some version)\<rparr>))"

definition guardedCacheRefill :: "fee_dates \<Rightarrow> bool \<Rightarrow> int \<Rightarrow> int \<Rightarrow> fee_meta \<Rightarrow> fee_redis \<Rightarrow> bool \<times> fee_redis" where
  "guardedCacheRefill D answers now version s R =
     (if answers then (let (n, R') = refill_script now version (fee_payload D version s) R in (n = 1, R')) else (False, R))"

definition cached_text :: "int \<Rightarrow> fee_redis \<Rightarrow> native option option" where
  "cached_text now R = (case fr_cache R of Some (v, t) \<Rightarrow> if now < t then Some v else None | None \<Rightarrow> None)"

definition cached_schedule :: "fee_dates \<Rightarrow> int \<Rightarrow> fee_redis \<Rightarrow> fee_meta option" where
  "cached_schedule D now R = (case cached_text now R of Some v \<Rightarrow> map_option snd (parseCachedSchedule D v) | None \<Rightarrow> None)"

definition fee_invalidate :: "int option \<Rightarrow> fee_redis \<Rightarrow> fee_redis" where
  "fee_invalidate committed R =
     R\<lparr>fr_version := (case committed of Some v \<Rightarrow> Some v | None \<Rightarrow> Some (case fr_version R of Some n \<Rightarrow> n + 1 | None \<Rightarrow> 1)),
       fr_cache := None\<rparr>"

subsection \<open>The current schedule\<close>

definition active_schedule :: "fee_db \<Rightarrow> fee_row option" where
  "active_schedule d = (case sort_key (\<lambda>r. - fs_from r) (filter fs_active (fd_rows d)) of [] \<Rightarrow> None | r # _ \<Rightarrow> Some r)"

definition meta_of :: "fee_row \<Rightarrow> fee_meta" where
  "meta_of r = \<lparr>fm_fees = fs_fees r, fm_from = fs_from r, fm_until = fs_until r, fm_active = fs_active r\<rparr>"

text \<open>\<open>reads\<close> and \<open>writes\<close> say whether Redis answers the lookup and the script.\<close>

definition getCurrentFeeSchedule :: "fee_dates \<Rightarrow> bool \<Rightarrow> bool \<Rightarrow> int \<Rightarrow> fee_db \<Rightarrow> fee_redis \<Rightarrow> fee_meta result \<times> fee_redis" where
  "getCurrentFeeSchedule D reads writes now d R =
     (case (if reads then cached_schedule D now R else None) of
        Some s \<Rightarrow> (Inr s, R)
      | None \<Rightarrow>
          (case active_schedule d of
             None \<Rightarrow> (Inl (ServiceError ''NO_ACTIVE_FEE_SCHEDULE'' 404), R)
           | Some r \<Rightarrow> (Inr (meta_of r), snd (guardedCacheRefill D writes now (fs_id r) (meta_of r) R))))"

datatype fee_type = InvestmentFee | SettlementFee | PlatformFee | SecondaryMarketFee

definition fee_rate :: "fee_type \<Rightarrow> fees \<Rightarrow> int" where
  "fee_rate k f = (case k of InvestmentFee \<Rightarrow> fe_investment f | SettlementFee \<Rightarrow> fe_settlement f | PlatformFee \<Rightarrow> fe_platform f
     | SecondaryMarketFee \<Rightarrow> fe_secondary f)"

definition getFeeRate :: "fee_dates \<Rightarrow> bool \<Rightarrow> bool \<Rightarrow> int \<Rightarrow> fee_type \<Rightarrow> fee_db \<Rightarrow> fee_redis \<Rightarrow> int result \<times> fee_redis" where
  "getFeeRate D reads writes now k d R =
     (let (r, R') = getCurrentFeeSchedule D reads writes now d R in (and_then r (\<lambda>s. Inr (fee_rate k (fm_fees s))), R'))"

subsection \<open>Changing fees\<close>

definition validateFeeRate :: "int option \<Rightarrow> unit result" where
  "validateFeeRate v =
     (case v of None \<Rightarrow> Inr ()
      | Some bps \<Rightarrow> if bps < FEE_MIN \<or> bps > FEE_MAX then Inl (ServiceError ''INVALID_FEE_RATE'' 400) else Inr ())"

definition check_change :: "fee_change \<Rightarrow> unit result" where
  "check_change c =
     and_then (validateFeeRate (fc_investment c)) (\<lambda>_. and_then (validateFeeRate (fc_settlement c)) (\<lambda>_.
     and_then (validateFeeRate (fc_platform c)) (\<lambda>_. and_then (validateFeeRate (fc_secondary c)) (\<lambda>_.
       if fc_investment c = None \<and> fc_settlement c = None \<and> fc_platform c = None \<and> fc_secondary c = None
       then Inl (ServiceError ''NO_CHANGES'' 400) else Inr ()))))"

definition changed :: "fee_change \<Rightarrow> fees \<Rightarrow> fees" where
  "changed c f = \<lparr>fe_investment = (case fc_investment c of Some n \<Rightarrow> n | None \<Rightarrow> fe_investment f),
     fe_settlement = (case fc_settlement c of Some n \<Rightarrow> n | None \<Rightarrow> fe_settlement f),
     fe_platform = (case fc_platform c of Some n \<Rightarrow> n | None \<Rightarrow> fe_platform f),
     fe_secondary = (case fc_secondary c of Some n \<Rightarrow> n | None \<Rightarrow> fe_secondary f)\<rparr>"

text \<open>What the transaction writes for the row it read. The row is saved by its identifier.\<close>

definition update_write :: "int \<Rightarrow> fee_change \<Rightarrow> string \<Rightarrow> string \<Rightarrow> fee_row \<Rightarrow> fee_db \<Rightarrow> fee_row \<times> fee_db" where
  "update_write now c actor role cur d =
     (let f = changed c (fs_fees cur);
          r = \<lparr>fs_id = fd_nextId d, fs_fees = f, fs_active = True, fs_from = now, fs_until = None\<rparr>
      in (r, d\<lparr>fd_rows := map (\<lambda>s. if fs_id s = fs_id cur then s\<lparr>fs_active := False, fs_until := Some now\<rparr> else s) (fd_rows d) @ [r],
               fd_nextId := fd_nextId d + 1,
               fd_history := fd_history d @ [\<lparr>fh_schedule = fs_id r, fh_actor = actor, fh_role = role, fh_old = fs_fees cur, fh_new = f,
                 fh_reason = fc_reason c, fh_createdAt = now\<rparr>]\<rparr>))"

definition update_tx :: "int \<Rightarrow> fee_change \<Rightarrow> string \<Rightarrow> string \<Rightarrow> fee_db \<Rightarrow> error + (fee_row \<times> fee_db)" where
  "update_tx now c actor role d =
     and_then (check_change c) (\<lambda>_.
       case active_schedule d of
         None \<Rightarrow> Inl (ServiceError ''NO_ACTIVE_FEE_SCHEDULE'' 404)
       | Some cur \<Rightarrow> Inr (update_write now c actor role cur d))"

definition updateFeeSchedule ::
    "bool \<Rightarrow> int \<Rightarrow> fee_change \<Rightarrow> string \<Rightarrow> string \<Rightarrow> fee_db \<Rightarrow> fee_redis \<Rightarrow> error + (fee_meta \<times> fee_db \<times> fee_redis)" where
  "updateFeeSchedule answers now c actor role d R =
     and_then (update_tx now c actor role d) (\<lambda>(r, d').
       Inr (meta_of r, d', if answers then fee_invalidate (Some (fs_id r)) R else R))"

definition getFeeScheduleHistory :: "nat option \<Rightarrow> nat option \<Rightarrow> fee_db \<Rightarrow> fee_history list \<times> nat" where
  "getFeeScheduleHistory limit offset d =
     (take (case limit of Some n \<Rightarrow> n | None \<Rightarrow> 50) (drop (case offset of Some n \<Rightarrow> n | None \<Rightarrow> 0)
        (sort_key (\<lambda>h. - fh_createdAt h) (fd_history d))), length (fd_history d))"

end
