(* ===== verification/Fee_Steps.thy ===== *)
theory Fee_Steps
  imports Fee_Schedule
begin

section \<open>What the fee cache guarantees\<close>

text \<open>
  Readers that were slow to fill the cache cannot bring an old schedule back while changes of fees follow one another;
  two changes that overlap can leave an old schedule in the cache, because the version is set without a comparison.
\<close>

subsection \<open>What is written is read back\<close>

definition dates_ok :: "fee_dates \<Rightarrow> bool" where
  "dates_ok D \<longleftrightarrow> (\<forall>t. fe_iso D t \<noteq> [] \<and> fe_date D (NStr (fe_iso D t)) = Some t)"

lemma fee_payload_roundtrip: "dates_ok D \<Longrightarrow> parseCachedSchedule D (Some (fee_payload D v s)) = Some (Some v, s)"
  by (cases "fm_until s")
    (simp_all add: parseCachedSchedule_def fee_payload_def is_object_def nfield_def raw_schedule_def number_field_def cached_until_def
      js_truthy_def dates_ok_def)

subsection \<open>Readers and writers\<close>

text \<open>A reader holds what it read from the database and has yet to put into the cache; a change holds the identifier it has committed
  and has yet to announce. \<open>serial\<close> says that a change starts only when no other is under way.\<close>

record fee_world =
  fw_db :: fee_db
  fw_redis :: fee_redis
  fw_readers :: "(int \<times> fee_meta) list"
  fw_updates :: "int list"

inductive fee_step :: "fee_dates \<Rightarrow> bool \<Rightarrow> fee_world \<Rightarrow> fee_world \<Rightarrow> bool" for D serial where
  reads_db: "active_schedule (fw_db w) = Some r \<Longrightarrow> fee_step D serial w (w\<lparr>fw_readers := fw_readers w @ [(fs_id r, meta_of r)]\<rparr>)"
| refills: "(v, s) \<in> set (fw_readers w) \<Longrightarrow>
    fee_step D serial w (w\<lparr>fw_readers := remove1 (v, s) (fw_readers w), fw_redis := snd (guardedCacheRefill D answers now v s (fw_redis w))\<rparr>)"
| changes: "update_tx now c actor role (fw_db w) = Inr (r, d') \<Longrightarrow> (serial \<Longrightarrow> fw_updates w = []) \<Longrightarrow>
    fee_step D serial w (w\<lparr>fw_db := d', fw_updates := fw_updates w @ [fs_id r]\<rparr>)"
| announces: "i \<in> set (fw_updates w) \<Longrightarrow>
    fee_step D serial w (w\<lparr>fw_updates := remove1 i (fw_updates w), fw_redis := fee_invalidate (Some i) (fw_redis w)\<rparr>)"
| expires: "fee_step D serial w (w\<lparr>fw_redis := (fw_redis w)\<lparr>fr_cache := None\<rparr>\<rparr>)"

subsection \<open>One active row\<close>

definition one_active :: "fee_row \<Rightarrow> fee_db \<Rightarrow> bool" where
  "one_active c d \<longleftrightarrow> filter fs_active (fd_rows d) = [c] \<and> (\<forall>r \<in> set (fd_rows d). fs_id r < fd_nextId d)"

lemma one_active_current: "one_active c d \<Longrightarrow> active_schedule d = Some c"
  by (simp add: one_active_def active_schedule_def)

lemma one_active_id: "one_active c d \<Longrightarrow> fs_id c < fd_nextId d"
proof -
  assume "one_active c d"
  then have "set (filter fs_active (fd_rows d)) = {c}" "\<forall>r \<in> set (fd_rows d). fs_id r < fd_nextId d" by (simp_all add: one_active_def)
  then show ?thesis by auto
qed

lemma closes_active:
  "filter fs_active rows = [c] \<Longrightarrow> filter fs_active (map (\<lambda>s. if fs_id s = fs_id c then s\<lparr>fs_active := False, fs_until := Some now\<rparr> else s) rows) = []"
proof -
  assume a: "filter fs_active rows = [c]"
  have "\<forall>s \<in> set rows. fs_active s \<longrightarrow> s = c" using arg_cong [OF a, of set] by auto
  then show ?thesis by (auto simp: filter_empty_conv)
qed

lemma update_opens_next:
  assumes "one_active c d" "update_tx now ch actor role d = Inr (r, d')"
  shows "one_active r d' \<and> fs_id r = fd_nextId d \<and> fs_fees r = changed ch (fs_fees c) \<and> check_change ch = Inr ()"
proof -
  have one: "filter fs_active (fd_rows d) = [c]" "\<forall>r \<in> set (fd_rows d). fs_id r < fd_nextId d" using assms(1) by (auto simp: one_active_def)
  define g where "g = (\<lambda>s :: fee_row. if fs_id s = fs_id c then s\<lparr>fs_active := False, fs_until := Some now\<rparr> else s)"
  have ids: "fs_id (g s) = fs_id s" for s by (simp add: g_def)
  have check: "check_change ch = Inr ()" and r: "r = \<lparr>fs_id = fd_nextId d, fs_fees = changed ch (fs_fees c), fs_active = True, fs_from = now, fs_until = None\<rparr>"
    and rows: "fd_rows d' = map g (fd_rows d) @ [r]" "fd_nextId d' = fd_nextId d + 1"
    using assms(2) by (auto simp: update_tx_def update_write_def result_simps one_active_current [OF assms(1)] Let_def g_def)
  have "filter fs_active (map g (fd_rows d)) = []" using closes_active [OF one(1), of now] by (simp add: g_def)
  then have "filter fs_active (fd_rows d') = [r]" by (simp add: rows r)
  moreover have "\<forall>s \<in> set (fd_rows d'). fs_id s < fd_nextId d'" using one(2) by (force simp: rows ids r)
  ultimately show ?thesis using check r by (simp add: one_active_def)
qed

subsection \<open>Changes that follow one another\<close>

lemma refill_effect:
  assumes "R' = snd (guardedCacheRefill D answers now v s R)"
  shows "R' = R \<or> (\<exists>t. fr_cache R' = Some (Some (fee_payload D v s), t) \<and> fr_version R' = Some v \<and> (\<forall>V. fr_version R = Some V \<longrightarrow> V \<le> v))"
  using assms by (cases answers; cases "fr_version R") (auto simp: guardedCacheRefill_def refill_script_def)

definition fee_ok :: "fee_dates \<Rightarrow> fee_row \<Rightarrow> fee_world \<Rightarrow> bool" where
  "fee_ok D c w \<longleftrightarrow> one_active c (fw_db w) \<and>
     (\<forall>(v, s) \<in> set (fw_readers w). v \<le> fs_id c \<and> (v = fs_id c \<longrightarrow> s = meta_of c)) \<and>
     (case fr_cache (fw_redis w) of None \<Rightarrow> True
      | Some (p, t) \<Rightarrow> \<exists>v s. p = Some (fee_payload D v s) \<and> v \<le> fs_id c \<and> (v = fs_id c \<longrightarrow> s = meta_of c) \<and> (fw_updates w = [] \<longrightarrow> v = fs_id c)) \<and>
     (fw_updates w = [] \<or> fw_updates w = [fs_id c]) \<and>
     (case fr_version (fw_redis w) of Some V \<Rightarrow> V \<le> fs_id c \<and> (fw_updates w = [] \<longrightarrow> V = fs_id c)
      | None \<Rightarrow> fw_updates w = [] \<longrightarrow> (\<forall>(v, s) \<in> set (fw_readers w). v = fs_id c))"

lemma fee_ok_step:
  assumes "fee_step D True w w'" "fee_ok D c w"
  shows "\<exists>c'. fee_ok D c' w'"
  using assms(1)
proof cases
  case (reads_db r)
  have "r = c" using reads_db(2) one_active_current [of c] assms(2) by (simp add: fee_ok_def)
  then have "fee_ok D c w'" using assms(2) reads_db(1) by (auto simp: fee_ok_def split: option.splits)
  then show ?thesis by blast
next
  case (refills v s answers now)
  have vs: "v \<le> fs_id c" "v = fs_id c \<longrightarrow> s = meta_of c" using refills(2) assms(2) by (auto simp: fee_ok_def)
  have sub: "\<forall>x \<in> set (remove1 (v, s) (fw_readers w)). x \<in> set (fw_readers w)" using set_remove1_subset by fast
  have "fee_ok D c w'"
  proof (cases "fw_redis w' = fw_redis w")
    case True
    then show ?thesis using assms(2) refills(1) sub by (auto simp: fee_ok_def split: option.splits)
  next
    case False
    then obtain t where 2: "fr_cache (fw_redis w') = Some (Some (fee_payload D v s), t)" "fr_version (fw_redis w') = Some v"
      "\<forall>V. fr_version (fw_redis w) = Some V \<longrightarrow> V \<le> v"
      using refill_effect [of "fw_redis w'" D answers now v s "fw_redis w"] refills(1) by auto
    have "fw_updates w = [] \<longrightarrow> v = fs_id c"
      using assms(2) 2(3) vs(1) refills(2) by (fastforce simp: fee_ok_def split: option.splits)
    then show ?thesis using assms(2) refills(1) 2(1,2) vs sub by (simp add: fee_ok_def) blast
  qed
  then show ?thesis by blast
next
  case (changes now ch actor role r d')
  have one: "one_active c (fw_db w)" using assms(2) by (simp add: fee_ok_def)
  have r: "one_active r d'" "fs_id r > fs_id c"
    using update_opens_next [OF one changes(2)] one_active_id [OF one] by auto
  have "fee_ok D r w'" using assms(2) changes(1,3) r by (fastforce simp: fee_ok_def split: option.splits prod.splits)
  then show ?thesis by blast
next
  case (announces i)
  have "i = fs_id c" "fw_updates w = [i]" using announces(2) assms(2) by (auto simp: fee_ok_def)
  then have "fee_ok D c w'" using assms(2) announces(1) by (auto simp: fee_ok_def fee_invalidate_def)
  then show ?thesis by blast
next
  case expires
  then have "fee_ok D c w'" using assms(2) by (auto simp: fee_ok_def split: option.splits)
  then show ?thesis by blast
qed

lemma fee_ok_reachable:
  "(fee_step D True)\<^sup>*\<^sup>* w w' \<Longrightarrow> fee_ok D c w \<Longrightarrow> \<exists>c'. fee_ok D c' w'"
  by (induction arbitrary: rule: rtranclp_induct) (auto dest: fee_ok_step)

definition fee_start :: "fee_row \<Rightarrow> fee_world \<Rightarrow> bool" where
  "fee_start c w \<longleftrightarrow> one_active c (fw_db w) \<and> fw_readers w = [] \<and> fw_updates w = [] \<and> fr_cache (fw_redis w) = None \<and>
     fr_version (fw_redis w) \<in> {None, Some (fs_id c)}"

lemma fee_start_ok: "fee_start c w \<Longrightarrow> fee_ok D c w"
  by (auto simp: fee_start_def fee_ok_def)

text \<open>C31: While changes of fees follow one another, the cache never serves an old schedule once a change has been announced: whatever readers
  were delayed between their query and their write, and whatever the script, expiry and lost writes do, a cached schedule is the one the
  database has as current.\<close>

theorem fee_cache_serves_the_current_schedule:
  assumes "dates_ok D" "fee_start c w0" "(fee_step D True)\<^sup>*\<^sup>* w0 w" "fw_updates w = []" "cached_schedule D now (fw_redis w) = Some s"
  shows "map_option meta_of (active_schedule (fw_db w)) = Some s"
proof -
  obtain c' where ok: "fee_ok D c' w" using fee_ok_reachable [OF assms(3) fee_start_ok [OF assms(2)]] by blast
  obtain p t where p: "fr_cache (fw_redis w) = Some (p, t)" "map_option snd (parseCachedSchedule D p) = Some s"
    using assms(5) by (auto simp: cached_schedule_def cached_text_def split: option.splits if_splits)
  obtain s' where "p = Some (fee_payload D (fs_id c') s')" "s' = meta_of c'" using ok p(1) assms(4) by (auto simp: fee_ok_def)
  then have "s = meta_of c'" using p(2) fee_payload_roundtrip [OF assms(1)] by simp
  then show ?thesis using ok one_active_current [of c' "fw_db w"] by (simp add: fee_ok_def)
qed

definition plain_dates :: fee_dates where
  "plain_dates = \<lparr>fe_date = (\<lambda>v. case v of NStr s \<Rightarrow> (case s of CHR ''-'' # r \<Rightarrow> Some (- int (length r)) | CHR ''+'' # r \<Rightarrow> Some (int (length r)) | _ \<Rightarrow> None)
       | _ \<Rightarrow> None),
     fe_iso = (\<lambda>t. if t < 0 then CHR ''-'' # replicate (nat (- t)) CHR ''1'' else CHR ''+'' # replicate (nat t) CHR ''1'')\<rparr>"

lemma plain_dates_ok: "dates_ok plain_dates"
  by (simp add: dates_ok_def plain_dates_def)

definition first_fees :: fee_row where
  "first_fees = \<lparr>fs_id = 1, fs_fees = \<lparr>fe_investment = 100, fe_settlement = 50, fe_platform = 100, fe_secondary = 150\<rparr>, fs_active = True,
     fs_from = 0, fs_until = None\<rparr>"

definition fees_world :: fee_world where
  "fees_world = \<lparr>fw_db = \<lparr>fd_rows = [first_fees], fd_nextId = 2, fd_history = []\<rparr>, fw_redis = \<lparr>fr_version = None, fr_cache = None\<rparr>,
     fw_readers = [], fw_updates = []\<rparr>"

lemma fees_world_start: "fee_start first_fees fees_world"
  by (simp add: fee_start_def fees_world_def first_fees_def one_active_def)

definition raise_investment :: fee_change where
  "raise_investment = \<lparr>fc_investment = Some 200, fc_settlement = None, fc_platform = None, fc_secondary = None, fc_reason = None\<rparr>"

lemma raise_ok: "check_change raise_investment = Inr ()"
  by (simp add: check_change_def raise_investment_def validateFeeRate_def FEE_MIN_def FEE_MAX_def)

theorem fee_cache_serves_the_current_schedule_witness:
  "cached_schedule plain_dates 7 (snd (guardedCacheRefill plain_dates True 5 1 (meta_of first_fees) (fw_redis fees_world))) = Some (meta_of first_fees) \<and>
   map_option meta_of (active_schedule (fw_db fees_world)) = Some (meta_of first_fees)"
proof
  define w1 where "w1 = fees_world\<lparr>fw_readers := [(1, meta_of first_fees)]\<rparr>"
  define w2 where "w2 = w1\<lparr>fw_readers := [], fw_redis := snd (guardedCacheRefill plain_dates True 5 1 (meta_of first_fees) (fw_redis w1))\<rparr>"
  have "fee_step plain_dates True fees_world w1"
    using fee_step.reads_db [of fees_world first_fees] by (simp add: w1_def fees_world_def first_fees_def active_schedule_def)
  moreover have "fee_step plain_dates True w1 w2"
    using fee_step.refills [of 1 "meta_of first_fees" w1 plain_dates True True 5] by (simp add: w2_def w1_def)
  ultimately have r: "(fee_step plain_dates True)\<^sup>*\<^sup>* fees_world w2" by (auto intro: rtranclp.rtrancl_into_rtrancl r_into_rtranclp)
  show c: "cached_schedule plain_dates 7 (snd (guardedCacheRefill plain_dates True 5 1 (meta_of first_fees) (fw_redis fees_world))) = Some (meta_of first_fees)"
    by (simp add: cached_schedule_def cached_text_def guardedCacheRefill_def refill_script_def fees_world_def CACHE_TTL_def fee_payload_roundtrip [OF plain_dates_ok])
  have "map_option meta_of (active_schedule (fw_db w2)) = Some (meta_of first_fees)"
    by (rule fee_cache_serves_the_current_schedule [OF plain_dates_ok fees_world_start r, where now = 7]) (use c in \<open>simp_all add: w2_def w1_def fees_world_def\<close>)
  then show "map_option meta_of (active_schedule (fw_db fees_world)) = Some (meta_of first_fees)" by (simp add: w2_def w1_def)
qed

subsection \<open>Changes that overlap\<close>

text \<open>When two changes overlap, the announcement of the first can arrive last and sets the version back; a reader that saw the first change
  then fills the cache, and for an hour the service answers with the fees of the first although the second is in force.\<close>

theorem overlapping_changes_serve_old_fees:
  assumes "dates_ok D" "fee_start c w0" "check_change ch1 = Inr ()" "check_change ch2 = Inr ()"
  shows "\<exists>w. (fee_step D False)\<^sup>*\<^sup>* w0 w \<and> fw_updates w = [] \<and>
    map_option fs_fees (active_schedule (fw_db w)) = Some (changed ch2 (changed ch1 (fs_fees c))) \<and>
    (\<forall>later < now + CACHE_TTL * 1000. map_option fm_fees (cached_schedule D later (fw_redis w)) = Some (changed ch1 (fs_fees c)))"
proof -
  have one0: "one_active c (fw_db w0)" using assms(2) by (simp add: fee_start_def)
  obtain r1 d1 where u1: "update_tx now ch1 [] [] (fw_db w0) = Inr (r1, d1)"
    using one_active_current [OF one0] assms(3) by (auto simp: update_tx_def update_write_def Let_def)
  note o1 = update_opens_next [OF one0 u1]
  obtain r2 d2 where u2: "update_tx now ch2 [] [] d1 = Inr (r2, d2)"
    using one_active_current [of r1 d1] o1 assms(4) by (auto simp: update_tx_def update_write_def Let_def)
  have o2: "one_active r2 d2 \<and> fs_id r2 = fd_nextId d1 \<and> fs_fees r2 = changed ch2 (fs_fees r1)"
    using update_opens_next [of r1 d1, OF _ u2] o1 by blast
  have lt: "fs_id r1 < fs_id r2" using one_active_id [of r1 d1] o1 o2 by simp
  define w1 where "w1 = w0\<lparr>fw_db := d1, fw_updates := [fs_id r1]\<rparr>"
  define w2 where "w2 = w1\<lparr>fw_readers := [(fs_id r1, meta_of r1)]\<rparr>"
  define w3 where "w3 = w2\<lparr>fw_db := d2, fw_updates := [fs_id r1, fs_id r2]\<rparr>"
  define w4 where "w4 = w3\<lparr>fw_updates := [fs_id r1], fw_redis := fee_invalidate (Some (fs_id r2)) (fw_redis w3)\<rparr>"
  define w5 where "w5 = w4\<lparr>fw_updates := [], fw_redis := fee_invalidate (Some (fs_id r1)) (fw_redis w4)\<rparr>"
  define w6 where "w6 = w5\<lparr>fw_readers := [], fw_redis := snd (guardedCacheRefill D True now (fs_id r1) (meta_of r1) (fw_redis w5))\<rparr>"
  have start: "fw_readers w0 = []" "fw_updates w0 = []" using assms(2) by (simp_all add: fee_start_def)
  have s1: "fee_step D False w0 w1" using fee_step.changes [OF u1] start by (simp add: w1_def)
  have s2: "fee_step D False w1 w2" using fee_step.reads_db [of w1 r1] one_active_current [of r1 d1] o1 start by (simp add: w2_def w1_def)
  have s3: "fee_step D False w2 w3" using fee_step.changes [of now ch2 "[]" "[]" w2 r2 d2 False D] u2 by (simp add: w3_def w2_def w1_def)
  have s4: "fee_step D False w3 w4" using fee_step.announces [of "fs_id r2" w3 D False] lt by (simp add: w4_def w3_def)
  have s5: "fee_step D False w4 w5" using fee_step.announces [of "fs_id r1" w4 D False] by (simp add: w5_def w4_def)
  have s6: "fee_step D False w5 w6" using fee_step.refills [of "fs_id r1" "meta_of r1" w5 D False True now]
    by (simp add: w6_def w5_def w4_def w3_def w2_def)
  have reach: "(fee_step D False)\<^sup>*\<^sup>* w0 w6" by (rule one_more_step [OF five_steps [of "fee_step D False", OF s1 s2 s3 s4 s5] s6])
  have db: "active_schedule (fw_db w6) = Some r2" using one_active_current [of r2 d2] o2 by (simp add: w6_def w5_def w4_def w3_def)
  have cache: "fr_cache (fw_redis w6) = Some (Some (fee_payload D (fs_id r1) (meta_of r1)), now + CACHE_TTL * 1000)"
    by (simp add: w6_def w5_def guardedCacheRefill_def refill_script_def fee_invalidate_def)
  have "map_option fm_fees (cached_schedule D later (fw_redis w6)) = Some (changed ch1 (fs_fees c))" if "later < now + CACHE_TTL * 1000" for later
    using that o1 by (simp add: cached_schedule_def cached_text_def cache fee_payload_roundtrip [OF assms(1)] meta_of_def)
  moreover have "fw_updates w6 = []" by (simp add: w6_def w5_def)
  ultimately show ?thesis using reach db o1 o2 by auto
qed

definition lower_investment :: fee_change where
  "lower_investment = \<lparr>fc_investment = Some 10, fc_settlement = None, fc_platform = None, fc_secondary = None, fc_reason = None\<rparr>"

theorem overlapping_changes_serve_old_fees_witness:
  "\<exists>w. (fee_step plain_dates False)\<^sup>*\<^sup>* fees_world w \<and> fw_updates w = [] \<and>
     map_option (\<lambda>r. fe_investment (fs_fees r)) (active_schedule (fw_db w)) = Some 10 \<and>
     map_option (\<lambda>s. fe_investment (fm_fees s)) (cached_schedule plain_dates 99 (fw_redis w)) = Some 200"
proof -
  have "check_change lower_investment = Inr ()"
    by (simp add: check_change_def lower_investment_def validateFeeRate_def FEE_MIN_def FEE_MAX_def)
  from overlapping_changes_serve_old_fees [OF plain_dates_ok fees_world_start raise_ok this, where now = 50]
  obtain w where w: "(fee_step plain_dates False)\<^sup>*\<^sup>* fees_world w" "fw_updates w = []"
    "map_option fs_fees (active_schedule (fw_db w)) = Some (changed lower_investment (changed raise_investment (fs_fees first_fees)))"
    "\<forall>later < 50 + CACHE_TTL * 1000. map_option fm_fees (cached_schedule plain_dates later (fw_redis w)) = Some (changed raise_investment (fs_fees first_fees))"
    by blast
  have "map_option fm_fees (cached_schedule plain_dates 99 (fw_redis w)) = Some (changed raise_investment (fs_fees first_fees))"
    using w(4) by (simp add: CACHE_TTL_def)
  then show ?thesis using w(1-3)
    by (intro exI [of _ w]) (auto simp: changed_def lower_investment_def raise_investment_def)
qed

text \<open>Two changes that read the same row, as two transactions may, both open a row: the later one loses what the earlier changed and the
  database has two active schedules.\<close>

lemma racing_changes_leave_two_active:
  assumes "one_active c d" "update_write t1 ch1 a1 b1 c d = (r1, d1)" "update_write t2 ch2 a2 b2 c d1 = (r2, d2)"
  shows "filter fs_active (fd_rows d2) = [r1, r2] \<and> fs_fees r2 = changed ch2 (fs_fees c)"
proof -
  have f: "filter fs_active (map (\<lambda>s. if fs_id s = fs_id c then s\<lparr>fs_active := False, fs_until := Some t1\<rparr> else s) (fd_rows d)) = []"
    using assms(1) closes_active [of "fd_rows d" c t1] by (simp add: one_active_def)
  have g: "filter fs_active (map (\<lambda>s. if fs_id s = fs_id c then s\<lparr>fs_active := False, fs_until := Some t2\<rparr> else s) rows) = []"
    if "filter fs_active rows = []" for rows :: "fee_row list"
    using that by (auto simp: filter_empty_conv)
  have r1: "fs_id r1 = fd_nextId d" "fs_active r1" "fs_active r2" "fs_fees r2 = changed ch2 (fs_fees c)"
    and rows: "fd_rows d1 = map (\<lambda>s. if fs_id s = fs_id c then s\<lparr>fs_active := False, fs_until := Some t1\<rparr> else s) (fd_rows d) @ [r1]"
      "fd_rows d2 = map (\<lambda>s. if fs_id s = fs_id c then s\<lparr>fs_active := False, fs_until := Some t2\<rparr> else s) (fd_rows d1) @ [r2]"
    using assms(2,3) by (auto simp: update_write_def Let_def)
  have "fs_id r1 \<noteq> fs_id c" using one_active_id [OF assms(1)] r1 by simp
  then show ?thesis unfolding rows using g [OF f] r1 by simp
qed


end
