(* ===== verification/Subscription_Expiry.thy ===== *)
theory Subscription_Expiry
  imports Units Domain
begin

section \<open>Warnings before a subscription expires\<close>

text \<open>
  \<open>src/services/subscription-expiry-notifier.service.ts\<close>, the schedule of \<open>src/workers/subscription-expiry.worker.ts\<close> and the rows
  of \<open>src/models/KeySubscription.model.ts\<close>. Times are milliseconds; quotients of times are exact, as the comparisons with whole days
  and hours are. \<open>decimal.js\<close> (\<open>sb_decimal\<close>, \<open>sb_text\<close>), the names of keys, the users of wallets and what the chain says of a holding
  are arguments.
\<close>

datatype warning_window = W7d | W24h

definition MS_PER_DAY :: int where "MS_PER_DAY = 24 * 60 * 60 * 1000"

definition MS_PER_HOUR :: int where "MS_PER_HOUR = 60 * 60 * 1000"

definition LEDGERS_PER_DAY :: int where "LEDGERS_PER_DAY = 17280"

record candidate_sub =
  sc_wallet :: string
  sc_keyId :: string
  sc_keyName :: "string option"
  sc_expiryDate :: "int option"
  sc_expiryLedger :: "int option"
  sc_currentLedger :: "int option"
  sc_minHolding :: "native option"
  sc_minBalance :: "native option"
  sc_currentBalance :: "native option"
  sc_balance :: "native option"
  sc_cycleId :: "string option"
  sc_hasToppedUp :: bool
  sc_toppedUp :: bool
  sc_meetsMinimum :: bool

record subscription =
  sn_wallet :: string
  sn_keyId :: string
  sn_keyName :: "string option"
  sn_minHolding :: string
  sn_currentBalance :: "string option"
  sn_expiryLedger :: "int option"
  sn_expiryDate :: "int option"
  sn_lastCycle :: "string option"
  sn_lastWindow :: "warning_window option"
  sn_isActive :: bool

record sub_notification =
  no_userId :: string
  no_title :: string
  no_message :: string
  no_data :: "(string \<times> native) list"
  no_dedupeKey :: string

record sub_env =
  sb_decimal :: "string \<Rightarrow> rat option"
  sb_text :: "rat \<Rightarrow> string"
  sb_iso :: "int \<Rightarrow> string"
  sb_keyName :: "string \<Rightarrow> string option"
  sb_userId :: "string \<Rightarrow> string option"
  sb_reading :: "string \<Rightarrow> string \<Rightarrow> (native option \<times> native option) option"
  sb_ledgersPerDay :: "int option"

record sub_state =
  su_rows :: "subscription list"
  su_sent :: "string list"
  su_notifications :: "sub_notification list"

text \<open>What fails during a check: the lookup of a notification, its insertion (for another reason than its key), the note on the row.\<close>

record sub_faults =
  sf_lookup :: bool
  sf_create :: bool
  sf_note :: bool

subsection \<open>The window\<close>

definition ledgers_per_day :: "sub_env \<Rightarrow> int" where
  "ledgers_per_day E = (case sb_ledgersPerDay E of Some n \<Rightarrow> if n > 0 then n else LEDGERS_PER_DAY | None \<Rightarrow> LEDGERS_PER_DAY)"

record expiry_view =
  ev_date :: "int option"
  ev_window :: "warning_window option"
  ev_hours :: rat
  ev_days :: rat

definition window_of :: "rat \<Rightarrow> rat \<Rightarrow> warning_window option" where
  "window_of hours days = (if hours > 0 \<and> hours \<le> 24 then Some W24h else if days > 0 \<and> days \<le> 7 then Some W7d else None)"

definition calculateExpiryWindow :: "sub_env \<Rightarrow> candidate_sub \<Rightarrow> int \<Rightarrow> expiry_view" where
  "calculateExpiryWindow E c now =
     (case sc_expiryDate c of
        Some t \<Rightarrow> let hours = of_int (t - now) / of_int MS_PER_HOUR; days = of_int (t - now) / of_int MS_PER_DAY
                  in \<lparr>ev_date = Some t, ev_window = window_of hours days, ev_hours = hours, ev_days = days\<rparr>
      | None \<Rightarrow> (case sc_expiryLedger c of
          Some l \<Rightarrow> let cur = (case sc_currentLedger c of Some n \<Rightarrow> n | None \<Rightarrow> 0);
                        days = of_int (l - cur) / of_int (ledgers_per_day E); hours = days * 24;
                        millis = \<lfloor>days * of_int MS_PER_DAY + 1 / 2\<rfloor>
                    in \<lparr>ev_date = Some (now + millis), ev_window = window_of hours days, ev_hours = hours, ev_days = days\<rparr>
        | None \<Rightarrow> \<lparr>ev_date = None, ev_window = window_of 0 0, ev_hours = 0, ev_days = 0\<rparr>))"

subsection \<open>The holding\<close>

definition toDecimal :: "sub_env \<Rightarrow> native option \<Rightarrow> rat" where
  "toDecimal E v =
     (case v of
        Some (NInt n) \<Rightarrow> of_int n
      | Some (NStr s) \<Rightarrow> (case sb_decimal E (if js_trim s = [] then ''0'' else js_trim s) of Some r \<Rightarrow> r | None \<Rightarrow> 0)
      | _ \<Rightarrow> 0)"

definition given :: "native option \<Rightarrow> native option \<Rightarrow> native option" where
  "given a b = (case non_null_or a b of Some NNull \<Rightarrow> None | v \<Rightarrow> v)"

definition verifyHolding :: "sub_env \<Rightarrow> candidate_sub \<Rightarrow> bool \<times> rat \<times> rat" where
  "verifyHolding E c =
     (if sc_meetsMinimum c \<or> sc_hasToppedUp c \<or> sc_toppedUp c
      then let lo = toDecimal E (given (sc_minHolding c) (sc_minBalance c));
               bal = (case given (sc_currentBalance c) (sc_balance c) of Some v \<Rightarrow> toDecimal E (Some v) | None \<Rightarrow> lo)
           in (True, bal, lo)
      else let bal = map_option (\<lambda>v. toDecimal E (Some v)) (given (sc_currentBalance c) (sc_balance c));
               lo = map_option (\<lambda>v. toDecimal E (Some v)) (given (sc_minHolding c) (sc_minBalance c));
               (rb, rm) = (if bal = None \<or> lo = None
                 then case sb_reading E (sc_wallet c) (sc_keyId c) of Some (b, m) \<Rightarrow> (Some (toDecimal E b), Some (toDecimal E m)) | None \<Rightarrow> (None, None)
                 else (None, None));
               b = (case bal of Some x \<Rightarrow> x | None \<Rightarrow> (case rb of Some x \<Rightarrow> x | None \<Rightarrow> 0));
               m = (case lo of Some x \<Rightarrow> x | None \<Rightarrow> (case rm of Some x \<Rightarrow> x | None \<Rightarrow> 0))
           in (b \<ge> m, b, m))"

subsection \<open>Keys and names\<close>

definition resolveCycleId :: "sub_env \<Rightarrow> candidate_sub \<Rightarrow> int option \<Rightarrow> string" where
  "resolveCycleId E c date =
     (if truthy (sc_cycleId c) then the (sc_cycleId c)
      else case sc_expiryLedger c of
             Some l \<Rightarrow> int_str l
           | None \<Rightarrow> (case date of Some t \<Rightarrow> take 10 (sb_iso E t) | None \<Rightarrow> ''default-cycle''))"

definition window_str :: "warning_window \<Rightarrow> string" where
  "window_str w = (case w of W7d \<Rightarrow> ''7d'' | W24h \<Rightarrow> ''24h'')"

definition dedupe_key :: "candidate_sub \<Rightarrow> string \<Rightarrow> warning_window \<Rightarrow> string" where
  "dedupe_key c cycle w = ''sub_expiry:'' @ sc_wallet c @ '':'' @ sc_keyId c @ '':'' @ cycle @ '':'' @ window_str w"

definition resolveKeyName :: "sub_env \<Rightarrow> candidate_sub \<Rightarrow> string" where
  "resolveKeyName E c =
     (if truthy (sc_keyName c) \<and> js_trim (the (sc_keyName c)) \<noteq> [] then js_trim (the (sc_keyName c))
      else case sb_keyName E (sc_keyId c) of Some n \<Rightarrow> (if n \<noteq> [] then n else sc_keyId c) | None \<Rightarrow> sc_keyId c)"

definition resolveRecipientUserId :: "sub_env \<Rightarrow> string \<Rightarrow> string" where
  "resolveRecipientUserId E w = (case sb_userId E w of Some i \<Rightarrow> (if i \<noteq> [] then i else w) | None \<Rightarrow> w)"

definition has_key :: "string \<Rightarrow> sub_state \<Rightarrow> bool" where
  "has_key k s \<longleftrightarrow> (\<exists>n \<in> set (su_notifications s). no_dedupeKey n = k)"

definition record_sent :: "string \<Rightarrow> sub_state \<Rightarrow> sub_state" where
  "record_sent k s = s\<lparr>su_sent := List.insert k (su_sent s)\<rparr>"

definition isDuplicate :: "sub_faults \<Rightarrow> string \<Rightarrow> sub_state \<Rightarrow> bool \<times> sub_state" where
  "isDuplicate f k s =
     (if k \<in> set (su_sent s) then (True, s)
      else if \<not> sf_lookup f \<and> has_key k s then (True, record_sent k s)
      else (False, s))"

subsection \<open>One subscription\<close>

datatype check_status = Notified | MeetsHolding | Duplicate | OutsideWindow | AlreadyExpired

record check_result =
  cr_status :: check_status
  cr_window :: "warning_window option"
  cr_cycleId :: "string option"
  cr_dedupeKey :: "string option"

definition warning_title :: "warning_window \<Rightarrow> string \<Rightarrow> string" where
  "warning_title w name =
     (case w of W24h \<Rightarrow> ''Urgent: Subscription Expiring in 24 Hours - '' @ name | W7d \<Rightarrow> ''Subscription Expiring Soon: '' @ name)"

definition warning_message :: "warning_window \<Rightarrow> string \<Rightarrow> string \<Rightarrow> string \<Rightarrow> string" where
  "warning_message w name expiry lo =
     (case w of
        W24h \<Rightarrow> ''Urgent: Your subscription for key \"'' @ name @ ''\" expires in less than 24 hours on '' @ expiry @
          ''. Maintain a minimum holding of '' @ lo @ '' tokens to prevent service disruption.''
      | W7d \<Rightarrow> ''Your subscription for key \"'' @ name @ ''\" expires on '' @ expiry @
          ''. Maintain a minimum holding of '' @ lo @ '' tokens to retain uninterrupted access.'')"

definition warning :: "sub_env \<Rightarrow> candidate_sub \<Rightarrow> expiry_view \<Rightarrow> warning_window \<Rightarrow> string \<Rightarrow> string \<Rightarrow> string \<Rightarrow> sub_notification" where
  "warning E c v w cycle bal lo =
     (let name = resolveKeyName E c; expiry = (case ev_date v of Some t \<Rightarrow> sb_iso E t | None \<Rightarrow> ''approaching ledger expiry'')
      in \<lparr>no_userId = resolveRecipientUserId E (sc_wallet c), no_title = warning_title w name, no_message = warning_message w name expiry lo,
          no_data = [(''keyId'', NStr (sc_keyId c)), (''keyName'', NStr name), (''expiryDate'', NStr expiry), (''expiry'', NStr expiry),
            (''minHolding'', NStr lo), (''minimumHolding'', NStr lo), (''currentBalance'', NStr bal), (''window'', NStr (window_str w)),
            (''cycleId'', NStr cycle), (''daysRemaining'', NInt (max 0 \<lceil>ev_days v\<rceil>)), (''hoursRemaining'', NInt (max 0 \<lceil>ev_hours v\<rceil>))],
          no_dedupeKey = dedupe_key c cycle w\<rparr>)"

text \<open>The source notes the cycle and the window on the row of the subscription.\<close>

definition recordNotificationSent :: "string \<Rightarrow> string \<Rightarrow> string \<Rightarrow> warning_window \<Rightarrow> sub_state \<Rightarrow> sub_state" where
  "recordNotificationSent wallet keyId cycle w s =
     s\<lparr>su_rows := map (\<lambda>r. if sn_wallet r = wallet \<and> sn_keyId r = keyId then r\<lparr>sn_lastCycle := Some cycle, sn_lastWindow := Some w\<rparr> else r)
        (su_rows s)\<rparr>"

definition checkSubscription :: "sub_env \<Rightarrow> sub_faults \<Rightarrow> int \<Rightarrow> candidate_sub \<Rightarrow> sub_state \<Rightarrow> check_result result \<times> sub_state" where
  "checkSubscription E f now c s =
     (let v = calculateExpiryWindow E c now
      in if ev_hours v \<le> 0 then (Inr \<lparr>cr_status = AlreadyExpired, cr_window = None, cr_cycleId = None, cr_dedupeKey = None\<rparr>, s)
         else case ev_window v of
           None \<Rightarrow> (Inr \<lparr>cr_status = OutsideWindow, cr_window = None, cr_cycleId = None, cr_dedupeKey = None\<rparr>, s)
         | Some w \<Rightarrow>
             (case verifyHolding E c of (meets, bal, lo) \<Rightarrow>
                if meets then (Inr \<lparr>cr_status = MeetsHolding, cr_window = Some w, cr_cycleId = None, cr_dedupeKey = None\<rparr>, s)
                else let cycle = resolveCycleId E c (ev_date v); k = dedupe_key c cycle w; (dup, s1) = isDuplicate f k s;
                         told = (\<lambda>st. Inr \<lparr>cr_status = st, cr_window = Some w, cr_cycleId = Some cycle, cr_dedupeKey = Some k\<rparr>)
                     in if dup then (told Duplicate, s1)
                        else if sf_create f then (Inl (JsError ''create failed''), s1)
                        else if has_key k s1 then (told Duplicate, record_sent k s1)
                        else let s2 = record_sent k (s1\<lparr>su_notifications := su_notifications s1 @
                                   [warning E c v w cycle (sb_text E bal) (sb_text E lo)]\<rparr>)
                             in (told Notified, if sf_note f then s2 else recordNotificationSent (sc_wallet c) (sc_keyId c) cycle w s2)))"

subsection \<open>The daily run\<close>

definition findExpiringCandidates :: "int \<Rightarrow> int \<Rightarrow> sub_state \<Rightarrow> candidate_sub list" where
  "findExpiringCandidates withinDays current s =
     map (\<lambda>r. \<lparr>sc_wallet = sn_wallet r, sc_keyId = sn_keyId r, sc_keyName = sn_keyName r, sc_expiryDate = sn_expiryDate r,
            sc_expiryLedger = sn_expiryLedger r, sc_currentLedger = None, sc_minHolding = Some (NStr (sn_minHolding r)), sc_minBalance = None,
            sc_currentBalance = map_option NStr (sn_currentBalance r), sc_balance = None, sc_cycleId = sn_lastCycle r,
            sc_hasToppedUp = False, sc_toppedUp = False, sc_meetsMinimum = False\<rparr>)
       (filter (\<lambda>r. sn_isActive r \<and> (case sn_expiryDate r of Some t \<Rightarrow> t > current \<and> t \<le> current + withinDays * MS_PER_DAY | None \<Rightarrow> False))
         (su_rows s))"

record run_tally =
  rt_7d :: nat
  rt_24h :: nat
  rt_meets :: nat
  rt_duplicate :: nat
  rt_outside :: nat
  rt_expired :: nat
  rt_errors :: nat

definition count_result :: "check_result result \<Rightarrow> run_tally \<Rightarrow> run_tally" where
  "count_result r t =
     (case r of
        Inl e \<Rightarrow> t\<lparr>rt_errors := rt_errors t + 1\<rparr>
      | Inr c \<Rightarrow> (case cr_status c of
            Notified \<Rightarrow> if cr_window c = Some W24h then t\<lparr>rt_24h := rt_24h t + 1\<rparr>
              else if cr_window c = Some W7d then t\<lparr>rt_7d := rt_7d t + 1\<rparr> else t
          | MeetsHolding \<Rightarrow> t\<lparr>rt_meets := rt_meets t + 1\<rparr>
          | Duplicate \<Rightarrow> t\<lparr>rt_duplicate := rt_duplicate t + 1\<rparr>
          | OutsideWindow \<Rightarrow> t\<lparr>rt_outside := rt_outside t + 1\<rparr>
          | AlreadyExpired \<Rightarrow> t\<lparr>rt_expired := rt_expired t + 1\<rparr>))"

text \<open>Every candidate is checked at its own time and with its own faults; an error is counted and the next one is checked.\<close>

fun process_subs :: "sub_env \<Rightarrow> (sub_faults \<times> int \<times> candidate_sub) list \<Rightarrow> run_tally \<Rightarrow> sub_state \<Rightarrow> run_tally \<times> sub_state" where
  "process_subs E [] t s = (t, s)"
| "process_subs E ((f, now, c) # cs) t s = (let (r, s') = checkSubscription E f now c s in process_subs E cs (count_result r t) s')"

definition no_tally :: run_tally where
  "no_tally = \<lparr>rt_7d = 0, rt_24h = 0, rt_meets = 0, rt_duplicate = 0, rt_outside = 0, rt_expired = 0, rt_errors = 0\<rparr>"

definition processExpiringSubscriptions ::
    "sub_env \<Rightarrow> (nat \<Rightarrow> sub_faults \<times> int) \<Rightarrow> int \<Rightarrow> candidate_sub list option \<Rightarrow> sub_state \<Rightarrow> run_tally \<times> sub_state" where
  "processExpiringSubscriptions E fault now candidates s =
     (let cs = (case candidates of Some xs \<Rightarrow> xs | None \<Rightarrow> findExpiringCandidates 7 now s)
      in process_subs E (map (\<lambda>i. (fst (fault i), snd (fault i), cs ! i)) [0..<length cs]) no_tally s)"

definition msUntilMidnightUTC :: "int \<Rightarrow> int" where
  "msUntilMidnightUTC now = (now div MS_PER_DAY + 1) * MS_PER_DAY - now"

text \<open>The k-th run of the job scheduled at \<open>now\<close>.\<close>

definition run_time :: "int \<Rightarrow> nat \<Rightarrow> int" where
  "run_time now k = now + msUntilMidnightUTC now + int k * MS_PER_DAY"

end
