(* ===== verification/Subscription_Steps.thy ===== *)
theory Subscription_Steps
  imports Subscription_Expiry
begin

section \<open>What subscribers are told\<close>

text \<open>
  A check warns exactly the holders below their minimum that are inside a window and were not told yet; the daily runs
  meet every expiry within its last day; and the note of the last cycle on the row silences every later one.
\<close>

definition no_faults :: sub_faults where
  "no_faults = \<lparr>sf_lookup = False, sf_create = False, sf_note = False\<rparr>"

subsection \<open>Runs and their tally\<close>

definition tally_sum :: "run_tally \<Rightarrow> nat" where
  "tally_sum t = rt_7d t + rt_24h t + rt_meets t + rt_duplicate t + rt_outside t + rt_expired t + rt_errors t"

lemma check_window: "checkSubscription E f now c s = (Inr r, s') \<Longrightarrow> cr_status r = Notified \<Longrightarrow> \<exists>w. cr_window r = Some w"
  by (auto simp: checkSubscription_def Let_def split: if_splits option.splits prod.splits)

lemma count_one:
  "checkSubscription E f now c s = (r, s') \<Longrightarrow> tally_sum (count_result r t) = tally_sum t + 1"
proof -
  assume c: "checkSubscription E f now c s = (r, s')"
  show ?thesis
  proof (cases r)
    case (Inl e)
    then show ?thesis by (simp add: count_result_def tally_sum_def)
  next
    case (Inr q)
    then have "cr_status q = Notified \<Longrightarrow> cr_window q = Some W24h \<or> cr_window q = Some W7d"
      using check_window [of E f now c s q s'] c by (metis warning_window.exhaust)
    then show ?thesis using Inr by (cases "cr_status q") (auto simp: count_result_def tally_sum_def)
  qed
qed

lemma every_candidate_is_counted: "tally_sum (fst (process_subs E cs t s)) = tally_sum t + length cs"
proof (induction E cs t s rule: process_subs.induct)
  case (2 E f now c cs t s)
  obtain r s' where "checkSubscription E f now c s = (r, s')" by fastforce
  then show ?case using 2 [of "(r, s')" r s'] count_one [of E f now c s r s' t] by simp
qed simp

subsection \<open>Who is warned\<close>

text \<open>A check of a subscription adds a notification exactly when its expiry is ahead by at most seven days, the holding is below the
  minimum and no notification has the key of this cycle and window; it is one notification, and it names the key, the expiry and the
  minimum to its user.\<close>

theorem warned_exactly_when_below_minimum:
  assumes "checkSubscription E no_faults now c s = (r, s')" "set (su_sent s) \<subseteq> no_dedupeKey ` set (su_notifications s)"
    "v = calculateExpiryWindow E c now" "verifyHolding E c = (meets, bal, lo)"
  shows "su_notifications s' =
    (case ev_window v of
       Some w \<Rightarrow>
         (let cycle = resolveCycleId E c (ev_date v)
          in if 0 < ev_days v \<and> \<not> meets \<and> \<not> has_key (dedupe_key c cycle w) s
             then su_notifications s @ [warning E c v w cycle (sb_text E bal) (sb_text E lo)] else su_notifications s)
     | None \<Rightarrow> su_notifications s)"
proof -
  have day: "0 < ev_days v \<longleftrightarrow> 0 < ev_hours v"
    unfolding assms(3) calculateExpiryWindow_def
    by (auto simp: Let_def MS_PER_HOUR_def MS_PER_DAY_def zero_less_divide_iff split: option.splits)
  have sent: "k \<in> set (su_sent s) \<Longrightarrow> has_key k s" for k using assms(2) by (auto simp: has_key_def)
  show ?thesis using assms(1,4) day sent
    by (auto simp: checkSubscription_def assms(3) [symmetric] no_faults_def isDuplicate_def record_sent_def recordNotificationSent_def
        Let_def not_le split: option.splits if_splits prod.splits)
qed

subsection \<open>The daily runs\<close>

lemma run_time_step: "run_time now k = run_time now 0 + int k * MS_PER_DAY"
  by (simp add: run_time_def)

lemma run_times_are_midnights: "run_time now k mod MS_PER_DAY = 0 \<and> now < run_time now 0 \<and> run_time now 0 \<le> now + MS_PER_DAY"
proof -
  have k: "run_time now k = (now div MS_PER_DAY + 1 + int k) * MS_PER_DAY"
    by (simp add: run_time_def msUntilMidnightUTC_def algebra_simps)
  have "now = now div MS_PER_DAY * MS_PER_DAY + now mod MS_PER_DAY" "0 \<le> now mod MS_PER_DAY" "now mod MS_PER_DAY < MS_PER_DAY"
    by (simp_all add: MS_PER_DAY_def)
  moreover have "run_time now 0 = now div MS_PER_DAY * MS_PER_DAY + MS_PER_DAY"
    by (simp add: run_time_def msUntilMidnightUTC_def algebra_simps)
  ultimately have "now < run_time now 0" "run_time now 0 \<le> now + MS_PER_DAY" by linarith+
  then show ?thesis using k by simp
qed

text \<open>The last run before an expiry.\<close>

definition last_run :: "int \<Rightarrow> int \<Rightarrow> nat" where
  "last_run now expiry = nat ((expiry - run_time now 0 - 1) div MS_PER_DAY)"

lemma last_run_meets:
  assumes "run_time now 0 < expiry"
  shows "0 < expiry - run_time now (last_run now expiry) \<and> expiry - run_time now (last_run now expiry) \<le> MS_PER_DAY"
proof -
  let ?d = "expiry - run_time now 0 - 1"
  have d: "0 \<le> ?d" using assms by simp
  then have k: "int (last_run now expiry) = ?d div MS_PER_DAY" by (simp add: last_run_def MS_PER_DAY_def)
  have "?d = ?d div MS_PER_DAY * MS_PER_DAY + ?d mod MS_PER_DAY" "0 \<le> ?d mod MS_PER_DAY" "?d mod MS_PER_DAY < MS_PER_DAY"
    by (simp_all add: MS_PER_DAY_def)
  moreover have "run_time now (last_run now expiry) = run_time now 0 + ?d div MS_PER_DAY * MS_PER_DAY"
    using k run_time_step [of now "last_run now expiry"] by simp
  ultimately have "0 < expiry - run_time now (last_run now expiry)" "expiry - run_time now (last_run now expiry) \<le> MS_PER_DAY" by linarith+
  then show ?thesis by blast
qed

definition candidate_of :: "subscription \<Rightarrow> candidate_sub" where
  "candidate_of r = \<lparr>sc_wallet = sn_wallet r, sc_keyId = sn_keyId r, sc_keyName = sn_keyName r, sc_expiryDate = sn_expiryDate r,
     sc_expiryLedger = sn_expiryLedger r, sc_currentLedger = None, sc_minHolding = Some (NStr (sn_minHolding r)), sc_minBalance = None,
     sc_currentBalance = map_option NStr (sn_currentBalance r), sc_balance = None, sc_cycleId = sn_lastCycle r,
     sc_hasToppedUp = False, sc_toppedUp = False, sc_meetsMinimum = False\<rparr>"

lemma candidates_are: "findExpiringCandidates d now s = map candidate_of
   (filter (\<lambda>r. sn_isActive r \<and> (case sn_expiryDate r of Some t \<Rightarrow> t > now \<and> t \<le> now + d * MS_PER_DAY | None \<Rightarrow> False)) (su_rows s))"
  by (simp add: findExpiringCandidates_def candidate_of_def)

text \<open>C28: Timers on time, the last daily run before an expiry finds the subscription, sees it within its last day, and warns its holder
  urgently: when the holding is below the minimum, this cycle's last-day warning has not been sent and nothing fails, the check ends with a
  notification.\<close>

theorem every_expiry_meets_an_urgent_run:
  assumes "r \<in> set (su_rows s)" "sn_isActive r" "sn_expiryDate r = Some expiry" "run_time now 0 < expiry"
    "t = run_time now (last_run now expiry)" "verifyHolding E (candidate_of r) = (False, bal, lo)"
    "key = dedupe_key (candidate_of r) (resolveCycleId E (candidate_of r) (Some expiry)) W24h" "key \<notin> set (su_sent s)" "\<not> has_key key s"
  shows "candidate_of r \<in> set (findExpiringCandidates 7 t s) \<and>
    (\<exists>q s'. checkSubscription E no_faults t (candidate_of r) s = (Inr q, s') \<and> cr_status q = Notified \<and> cr_window q = Some W24h \<and>
       cr_dedupeKey q = Some key \<and> has_key key s')"
proof -
  have gap: "0 < expiry - t" "expiry - t \<le> MS_PER_DAY" using last_run_meets [OF assms(4)] assms(5) by auto
  have found: "candidate_of r \<in> set (findExpiringCandidates 7 t s)"
    using assms(1-3) gap by (auto simp: candidates_are MS_PER_DAY_def)
  have hours: "0 < rat_of_int (expiry - t) / of_int MS_PER_HOUR" "rat_of_int (expiry - t) / of_int MS_PER_HOUR \<le> 24"
  proof -
    show "0 < rat_of_int (expiry - t) / of_int MS_PER_HOUR" using gap(1) by (simp add: MS_PER_HOUR_def)
    have "rat_of_int (expiry - t) \<le> of_int (24 * 3600000)" using gap(2) by (simp only: of_int_le_iff) (simp add: MS_PER_DAY_def)
    then show "rat_of_int (expiry - t) / of_int MS_PER_HOUR \<le> 24" by (simp add: MS_PER_HOUR_def field_simps)
  qed
  have date: "sc_expiryDate (candidate_of r) = Some expiry" using assms(3) by (simp add: candidate_of_def)
  let ?v = "calculateExpiryWindow E (candidate_of r) t"
  have v: "ev_window ?v = Some W24h" "0 < ev_hours ?v" "ev_date ?v = Some expiry"
    using hours by (simp_all add: calculateExpiryWindow_def date Let_def window_of_def)
  have "\<exists>q s'. checkSubscription E no_faults t (candidate_of r) s = (Inr q, s') \<and> cr_status q = Notified \<and> cr_window q = Some W24h \<and>
       cr_dedupeKey q = Some key \<and> has_key key s'"
    using v assms(6-9)
    by (auto simp: checkSubscription_def Let_def not_le isDuplicate_def no_faults_def record_sent_def recordNotificationSent_def has_key_def
        warning_def)
  then show ?thesis using found by blast
qed

definition sample_sub :: subscription where
  "sample_sub = \<lparr>sn_wallet = ''GA'', sn_keyId = ''k1'', sn_keyName = Some ''VIP'', sn_minHolding = ''5'', sn_currentBalance = Some ''1'',
     sn_expiryLedger = Some 7, sn_expiryDate = Some (3 * MS_PER_DAY + 1), sn_lastCycle = None, sn_lastWindow = None, sn_isActive = True\<rparr>"

definition sample_sub_env :: sub_env where
  "sample_sub_env = \<lparr>sb_decimal = (\<lambda>s. Some (of_nat (length s) + (if s = ''5'' then 4 else 0))), sb_text = (\<lambda>r. if r = 5 then ''5'' else ''1''),
     sb_iso = (\<lambda>t. ''2025-01-01T00:00:00.000Z''), sb_keyName = (\<lambda>k. None), sb_userId = (\<lambda>w. Some ''u1''), sb_reading = (\<lambda>w k. None),
     sb_ledgersPerDay = None\<rparr>"

definition sample_subs :: sub_state where
  "sample_subs = \<lparr>su_rows = [sample_sub], su_sent = [], su_notifications = []\<rparr>"

lemma sample_holding: "verifyHolding sample_sub_env (candidate_of sample_sub) = (False, 1, 5)"
  by (simp add: verifyHolding_def candidate_of_def sample_sub_def given_def non_null_or_def toDecimal_def sample_sub_env_def js_trim_def is_ws_def)

theorem every_expiry_meets_an_urgent_run_witness:
  "last_run 5 (3 * MS_PER_DAY + 1) = 2 \<and>
   (\<exists>q s'. checkSubscription sample_sub_env no_faults (3 * MS_PER_DAY) (candidate_of sample_sub) sample_subs = (Inr q, s') \<and> cr_status q = Notified)"
proof -
  have k: "last_run 5 (3 * MS_PER_DAY + 1) = 2" "run_time 5 2 = 3 * MS_PER_DAY" "run_time 5 0 < 3 * MS_PER_DAY + 1"
    by (simp_all add: last_run_def run_time_def msUntilMidnightUTC_def MS_PER_DAY_def)
  have "candidate_of sample_sub \<in> set (findExpiringCandidates 7 (3 * MS_PER_DAY) sample_subs) \<and>
    (\<exists>q s'. checkSubscription sample_sub_env no_faults (3 * MS_PER_DAY) (candidate_of sample_sub) sample_subs = (Inr q, s') \<and> cr_status q = Notified \<and>
       cr_window q = Some W24h \<and> cr_dedupeKey q = Some (dedupe_key (candidate_of sample_sub)
         (resolveCycleId sample_sub_env (candidate_of sample_sub) (Some (3 * MS_PER_DAY + 1))) W24h) \<and>
       has_key (dedupe_key (candidate_of sample_sub) (resolveCycleId sample_sub_env (candidate_of sample_sub) (Some (3 * MS_PER_DAY + 1))) W24h) s')"
    by (rule every_expiry_meets_an_urgent_run [where now = 5 and r = sample_sub and expiry = "3 * MS_PER_DAY + 1" and E = sample_sub_env
          and s = sample_subs and t = "3 * MS_PER_DAY", OF _ _ _ k(3) _ sample_holding refl])
       (use k in \<open>simp_all add: sample_subs_def sample_sub_def has_key_def\<close>)
  then show ?thesis using k by blast
qed

theorem warned_exactly_when_below_minimum_witness:
  "length (su_notifications (snd (checkSubscription sample_sub_env no_faults (3 * MS_PER_DAY) (candidate_of sample_sub) sample_subs))) = 1"
proof -
  have "ev_window (calculateExpiryWindow sample_sub_env (candidate_of sample_sub) (3 * MS_PER_DAY)) = Some W24h"
    "0 < ev_days (calculateExpiryWindow sample_sub_env (candidate_of sample_sub) (3 * MS_PER_DAY))"
    by (simp_all add: calculateExpiryWindow_def candidate_of_def sample_sub_def window_of_def Let_def MS_PER_HOUR_def MS_PER_DAY_def)
  then show ?thesis
    using warned_exactly_when_below_minimum [OF prod.collapse [symmetric, of "checkSubscription sample_sub_env no_faults (3 * MS_PER_DAY)
        (candidate_of sample_sub) sample_subs"] _ refl sample_holding]
    by (simp add: sample_subs_def has_key_def Let_def)
qed

subsection \<open>Renewals\<close>

text \<open>A daily run with any failures and any times of its checks, a change of the subscription made elsewhere (a renewal, a new
  balance), a new subscription, a restart.\<close>

inductive sub_step :: "sub_env \<Rightarrow> sub_state \<Rightarrow> sub_state \<Rightarrow> bool" for E where
  daily: "sub_step E s (snd (processExpiringSubscriptions E fault now None s))"
| renews: "sub_step E s (s\<lparr>su_rows := map (\<lambda>r. if sn_wallet r = w \<and> sn_keyId r = k
      then r\<lparr>sn_expiryDate := date, sn_expiryLedger := ledger, sn_currentBalance := balance, sn_minHolding := lo, sn_isActive := active\<rparr> else r)
      (su_rows s)\<rparr>)"
| subscribes: "\<forall>x \<in> set (su_rows s). sn_wallet x \<noteq> sn_wallet r \<or> sn_keyId x \<noteq> sn_keyId r \<Longrightarrow> sub_step E s (s\<lparr>su_rows := su_rows s @ [r]\<rparr>)"
| restarts: "sub_step E s (s\<lparr>su_sent := []\<rparr>)"

definition told_in :: "string \<Rightarrow> string \<Rightarrow> string \<Rightarrow> sub_state \<Rightarrow> bool" where
  "told_in w k cycle s \<longleftrightarrow>
     (\<exists>r \<in> set (su_rows s). sn_wallet r = w \<and> sn_keyId r = k) \<and>
     (\<forall>r \<in> set (su_rows s). sn_wallet r = w \<and> sn_keyId r = k \<longrightarrow> sn_lastCycle r = Some cycle) \<and>
     (\<forall>x. has_key (''sub_expiry:'' @ w @ '':'' @ k @ '':'' @ cycle @ '':'' @ window_str x) s)"

definition same_cycle :: "string \<Rightarrow> string \<Rightarrow> string \<Rightarrow> candidate_sub \<Rightarrow> bool" where
  "same_cycle w k cycle c \<longleftrightarrow> (sc_wallet c = w \<and> sc_keyId c = k \<longrightarrow> sc_cycleId c = Some cycle)"

lemma told_rows: "told_in w k cycle s \<Longrightarrow> c \<in> set (findExpiringCandidates d now s) \<Longrightarrow> same_cycle w k cycle c"
  by (auto simp: told_in_def candidates_are candidate_of_def same_cycle_def)

lemma told_is_silent:
  assumes "told_in w k cycle s" "cycle \<noteq> []" "sc_wallet c = w" "sc_keyId c = k" "same_cycle w k cycle c"
    "checkSubscription E f now c s = (r, s')"
  shows "su_rows s' = su_rows s \<and> su_notifications s' = su_notifications s \<and> (\<forall>q. r = Inr q \<longrightarrow> cr_status q \<noteq> Notified)"
proof -
  have cyc: "resolveCycleId E c date = cycle" for date using assms(2-5) by (simp add: same_cycle_def resolveCycleId_def truthy_def)
  have key: "has_key (dedupe_key c cycle x) s" for x using assms(1,3,4) by (simp add: told_in_def dedupe_key_def)
  show ?thesis using assms(6) key
    by (auto simp: checkSubscription_def Let_def cyc isDuplicate_def record_sent_def has_key_def split: if_splits option.splits prod.splits)
qed

lemma check_keeps_told:
  assumes "told_in w k cycle s" "cycle \<noteq> []" "same_cycle w k cycle c" "checkSubscription E f now c s = (r, s')"
  shows "told_in w k cycle s'"
proof (cases "sc_wallet c = w \<and> sc_keyId c = k")
  case True
  then show ?thesis using told_is_silent [OF assms(1,2) _ _ assms(3,4)] assms(1) by (simp add: told_in_def has_key_def)
next
  case False
  have "set (su_notifications s) \<subseteq> set (su_notifications s')"
    using assms(4) by (auto simp: checkSubscription_def Let_def isDuplicate_def record_sent_def recordNotificationSent_def
        split: if_splits option.splits prod.splits)
  then have keys: "has_key x s \<Longrightarrow> has_key x s'" for x by (auto simp: has_key_def)
  define noted where "noted = (\<lambda>cy x. map (\<lambda>r. if sn_wallet r = sc_wallet c \<and> sn_keyId r = sc_keyId c
      then r\<lparr>sn_lastCycle := Some cy, sn_lastWindow := Some x\<rparr> else r) (su_rows s))"
  have "su_rows t = su_rows s \<Longrightarrow> su_rows (recordNotificationSent (sc_wallet c) (sc_keyId c) cy x t) = noted cy x" for t cy x
    by (simp add: recordNotificationSent_def noted_def)
  then have "su_rows s' = su_rows s \<or> (\<exists>cy x. su_rows s' = noted cy x)"
    using assms(4) by (auto simp: checkSubscription_def Let_def isDuplicate_def record_sent_def split: if_splits option.splits prod.splits) blast
  then show ?thesis
  proof (elim disjE exE)
    assume "su_rows s' = su_rows s"
    then show ?thesis using assms(1) keys by (simp add: told_in_def)
  next
    fix cy x assume "su_rows s' = noted cy x"
    then have rows: "su_rows s' = map (\<lambda>r. if sn_wallet r = sc_wallet c \<and> sn_keyId r = sc_keyId c
      then r\<lparr>sn_lastCycle := Some cy, sn_lastWindow := Some x\<rparr> else r) (su_rows s)" by (simp add: noted_def)
    then have "r \<in> set (su_rows s) \<Longrightarrow> sn_wallet r = w \<Longrightarrow> sn_keyId r = k \<Longrightarrow> r \<in> set (su_rows s')" for r using False by force
    then have "\<exists>r \<in> set (su_rows s'). sn_wallet r = w \<and> sn_keyId r = k" using assms(1) by (auto simp: told_in_def)
    moreover have "\<forall>r \<in> set (su_rows s'). sn_wallet r = w \<and> sn_keyId r = k \<longrightarrow> sn_lastCycle r = Some cycle"
      using assms(1) False unfolding rows told_in_def by auto
    ultimately show ?thesis using assms(1) keys by (simp add: told_in_def)
  qed
qed

lemma run_keeps_told:
  "told_in w k cycle s \<Longrightarrow> cycle \<noteq> [] \<Longrightarrow> \<forall>(f, now, c) \<in> set cs. same_cycle w k cycle c \<Longrightarrow> told_in w k cycle (snd (process_subs E cs t s))"
proof (induction E cs t s rule: process_subs.induct)
  case (2 E f now c cs t s)
  obtain r s' where c: "checkSubscription E f now c s = (r, s')" by fastforce
  then have "told_in w k cycle s'" using check_keeps_told [OF 2(2,3) _ c] 2(4) by simp
  then show ?case using 2(1) [OF c [symmetric] refl] 2(3,4) c by simp
qed simp

lemma told_map:
  assumes "told_in w k cycle s" "\<And>r. sn_wallet (g r) = sn_wallet r \<and> sn_keyId (g r) = sn_keyId r \<and> sn_lastCycle (g r) = sn_lastCycle r"
  shows "told_in w k cycle (s\<lparr>su_rows := map g (su_rows s)\<rparr>)"
  using assms by (simp add: told_in_def has_key_def)

lemma step_keeps_told: "sub_step E s s' \<Longrightarrow> told_in w k cycle s \<Longrightarrow> cycle \<noteq> [] \<Longrightarrow> told_in w k cycle s'"
proof (induction rule: sub_step.induct)
  case (daily s fault now)
  let ?cs = "findExpiringCandidates 7 now s"
  have "\<forall>i < length ?cs. same_cycle w k cycle (?cs ! i)" using told_rows [OF daily(1) nth_mem] by blast
  then show ?case unfolding processExpiringSubscriptions_def Let_def option.case
    by (intro run_keeps_told [OF daily]) simp
next
  case (renews s w' k' date ledger balance lo active)
  then show ?case by (intro told_map) simp_all
qed (auto simp: told_in_def has_key_def)

text \<open>C27: The note of the cycle last notified is read back as the cycle of every later candidate: a subscription that has had both warnings once
  is never warned again, however often it is renewed and lapses, whatever runs, failures and restarts follow.\<close>

theorem renewed_subscription_is_never_warned_again:
  assumes "(sub_step E)\<^sup>*\<^sup>* s s'" "told_in w k cycle s" "cycle \<noteq> []"
    "c \<in> set (findExpiringCandidates 7 now s')" "sc_wallet c = w" "sc_keyId c = k"
  shows "su_notifications (snd (checkSubscription E f later c s')) = su_notifications s' \<and>
    (\<forall>q. fst (checkSubscription E f later c s') = Inr q \<longrightarrow> cr_status q \<noteq> Notified)"
proof -
  have "told_in w k cycle s'" using assms(1,2) by (induction rule: rtranclp_induct) (use assms(3) step_keeps_told in \<open>blast+\<close>)
  then show ?thesis using told_is_silent [OF _ assms(3,5,6) _ prod.collapse [symmetric]] told_rows [OF _ assms(4)] by blast
qed

text \<open>After both warnings of one cycle and a renewal for another year the holder is below the minimum again, a day before the new expiry.\<close>

definition renewed_sub :: subscription where
  "renewed_sub = sample_sub\<lparr>sn_lastCycle := Some ''7'', sn_lastWindow := Some W24h\<rparr>"

definition renewed_subs :: "int \<Rightarrow> sub_state" where
  "renewed_subs expiry = \<lparr>su_rows = [renewed_sub\<lparr>sn_expiryDate := Some expiry, sn_expiryLedger := Some 9\<rparr>], su_sent = [],
     su_notifications = map (\<lambda>w. \<lparr>no_userId = ''u1'', no_title = [], no_message = [], no_data = [],
       no_dedupeKey = ''sub_expiry:GA:k1:7:'' @ window_str w\<rparr>) [W7d, W24h]\<rparr>"

theorem renewed_subscription_is_never_warned_again_witness:
  "verifyHolding sample_sub_env (candidate_of (renewed_sub\<lparr>sn_expiryDate := Some (400 * MS_PER_DAY), sn_expiryLedger := Some 9\<rparr>)) = (False, 1, 5) \<and>
   su_notifications (snd (checkSubscription sample_sub_env no_faults (399 * MS_PER_DAY)
     (candidate_of (renewed_sub\<lparr>sn_expiryDate := Some (400 * MS_PER_DAY), sn_expiryLedger := Some 9\<rparr>)) (renewed_subs (400 * MS_PER_DAY)))) =
   su_notifications (renewed_subs (400 * MS_PER_DAY))"
proof
  show "verifyHolding sample_sub_env (candidate_of (renewed_sub\<lparr>sn_expiryDate := Some (400 * MS_PER_DAY), sn_expiryLedger := Some 9\<rparr>)) = (False, 1, 5)"
    by (simp add: verifyHolding_def candidate_of_def renewed_sub_def sample_sub_def given_def non_null_or_def toDecimal_def sample_sub_env_def
        js_trim_def is_ws_def)
  have told: "told_in ''GA'' ''k1'' ''7'' (renewed_subs (400 * MS_PER_DAY))"
  proof -
    have "has_key (''sub_expiry:GA:k1:7:'' @ window_str x) (renewed_subs (400 * MS_PER_DAY))" for x
      by (cases x) (simp_all add: has_key_def renewed_subs_def)
    then show ?thesis by (simp add: told_in_def) (simp add: renewed_subs_def renewed_sub_def sample_sub_def)
  qed
  have c: "candidate_of (renewed_sub\<lparr>sn_expiryDate := Some (400 * MS_PER_DAY), sn_expiryLedger := Some 9\<rparr>)
      \<in> set (findExpiringCandidates 7 (399 * MS_PER_DAY) (renewed_subs (400 * MS_PER_DAY)))"
    by (simp add: candidates_are renewed_subs_def renewed_sub_def sample_sub_def MS_PER_DAY_def)
  show "su_notifications (snd (checkSubscription sample_sub_env no_faults (399 * MS_PER_DAY)
     (candidate_of (renewed_sub\<lparr>sn_expiryDate := Some (400 * MS_PER_DAY), sn_expiryLedger := Some 9\<rparr>)) (renewed_subs (400 * MS_PER_DAY)))) =
   su_notifications (renewed_subs (400 * MS_PER_DAY))"
    by (rule renewed_subscription_is_never_warned_again [OF rtranclp.rtrancl_refl told _ c, THEN conjunct1])
      (simp_all add: candidate_of_def renewed_sub_def sample_sub_def)
qed

end
