(* ===== verification/Maturity.thy ===== *)
theory Maturity
  imports Settlement
begin

section \<open>The jobs that act on due invoices\<close>

text \<open>
  \<open>src/workers/invoice-maturity.worker.ts\<close>, \<open>src/workers/settlement.worker.ts\<close> and
  \<open>src/services/invoice-extension.service.ts\<close>, over the same database as the services they call.
  The distributor, the effects of the state machine and the listeners of the event bus are
  arguments; a listener may raise, and its error surfaces in \<open>emit\<close>. Rows come from a list of
  identifiers \<open>ids\<close> that stands for the order of the table.
\<close>

definition MATURITY_JOB_ACTOR :: string where "MATURITY_JOB_ACTOR = ''system:invoice-maturity-job''"

text \<open>A \<open>date\<close> column holds a calendar day.\<close>

definition due_day :: "invoice \<Rightarrow> int option" where
  "due_day v = map_option (\<lambda>t. t div DAY_MS) (date_value (iv_dueDate v))"

definition due_before :: "invoice \<Rightarrow> invoice \<Rightarrow> bool" where
  "due_before v w =
     (case (due_day v, due_day w) of (Some a, Some b) \<Rightarrow> a < b | (Some a, None) \<Rightarrow> True | (None, b) \<Rightarrow> False)"

definition rows_of :: "string list \<Rightarrow> db \<Rightarrow> invoice list" where
  "rows_of ids d = List.map_filter (invoices d) ids"

subsection \<open>The maturity worker\<close>

record matured_invoice =
  mi_id :: string
  mi_status :: invoice_status
  mi_amount :: amt

definition is_matured :: "int \<Rightarrow> invoice \<Rightarrow> bool" where
  "is_matured asOf v \<longleftrightarrow>
     (iv_status v \<in> {PUBLISHED, FUNDED} \<and> (case due_day v of None \<Rightarrow> False | Some n \<Rightarrow> n \<le> asOf div DAY_MS)) \<or>
     (iv_status v = PUBLISHED \<and> (case iv_fundingDeadline v of None \<Rightarrow> False | Some t \<Rightarrow> t \<le> asOf))"

definition findMaturedInvoices :: "string list \<Rightarrow> int \<Rightarrow> nat \<Rightarrow> db \<Rightarrow> matured_invoice list" where
  "findMaturedInvoices ids asOf limit d =
     map (\<lambda>v. \<lparr>mi_id = iv_id v, mi_status = iv_status v, mi_amount = iv_amount v\<rparr>)
       (take limit (isort_by due_before (filter (is_matured asOf) (rows_of ids d))))"

definition maturity_context :: transition_context where
  "maturity_context = empty_context\<lparr>x_reason := Some ''Not fully funded by maturity date.''\<rparr>"

definition maturity_actor :: transition_actor where
  "maturity_actor = \<lparr>a_role = System, a_id = None, a_wallet = Some MATURITY_JOB_ACTOR\<rparr>"

text \<open>The body of the transaction; \<open>None\<close> is the invoice that no longer qualifies.\<close>

definition markUnderfunded :: "string \<Rightarrow> int \<Rightarrow> nat \<Rightarrow> db \<Rightarrow> error + (invoice_transition option \<times> db)" where
  "markUnderfunded invoiceId now ref d =
     (case invoices d invoiceId of
        None \<Rightarrow> Inr (None, d)
      | Some v \<Rightarrow>
          if iv_status v \<noteq> PUBLISHED then Inr (None, d)
          else if dec (iv_fundedAmount v) \<ge> dec (iv_netAmount v) then Inr (None, d)
          else and_then (transition entityManagerTransitionStore v FAILED maturity_actor ''maturity_underfunded''
                           maturity_context now ref d) (\<lambda>(t, d'). Inr (Some t, d')))"

datatype job_event = InvoiceSettled settle_result int | MaturityFailed string int

record ('c, 'w, 'e) job_env =
  je_lib :: decimal_lib
  je_distributor :: "'c distributor option"
  je_config :: "distributor_config option"
  je_effects :: "'w effect list"
  je_emit :: "job_event \<Rightarrow> 'e \<Rightarrow> error option \<times> 'e"
  je_intent_id :: "string \<Rightarrow> string"
  je_ref :: "string \<Rightarrow> nat"

record ('c, 'w, 'e) job_state =
  jb_db :: db
  jb_chain :: 'c
  jb_machine :: "'w machine"
  jb_listeners :: 'e

record tick_result =
  tk_detected :: "string list"
  tk_settled :: "string list"
  tk_failed :: "string list"
  tk_skipped :: "string list"
  tk_errored :: "string list"

definition no_result :: "string list \<Rightarrow> tick_result" where
  "no_result detected = \<lparr>tk_detected = detected, tk_settled = [], tk_failed = [], tk_skipped = [], tk_errored = []\<rparr>"

definition maturity_input :: "matured_invoice \<Rightarrow> settle_input" where
  "maturity_input m = \<lparr>si_invoiceId = mi_id m, si_proceeds = dec (mi_amount m), si_actorWallet = MATURITY_JOB_ACTOR,
     si_txHash = None, si_trigger = Some ''maturity_settled'', si_systemTrigger = False, si_sellerId = None\<rparr>"

text \<open>\<open>emit\<close>: what a listener raises is the error of the call.\<close>

definition emit_event ::
    "('c, 'w, 'e) job_env \<Rightarrow> job_event \<Rightarrow> ('c, 'w, 'e) job_state \<Rightarrow> unit result \<times> ('c, 'w, 'e) job_state" where
  "emit_event E ev s =
     (let (err, l) = je_emit E ev (jb_listeners s)
      in (case err of None \<Rightarrow> Inr () | Some e \<Rightarrow> Inl e, s\<lparr>jb_listeners := l\<rparr>))"

text \<open>A settlement as the jobs see it: the database steps of \<open>settleInvoice\<close>, and the effects
  dispatched after its commit.\<close>

definition job_settles ::
    "('c, 'w, 'e) job_env \<Rightarrow> settle_input \<Rightarrow> int \<Rightarrow> ('c, 'w, 'e) job_state \<Rightarrow>
     settle_result result \<times> ('c, 'w, 'e) job_state" where
  "job_settles E inp now s =
     (case settleInvoice (je_lib E) (je_distributor E) (je_config E) inp (je_intent_id E (si_invoiceId inp)) now
             (je_ref E (si_invoiceId inp)) (jb_db s) (jb_chain s) of
        (Inl e, d, c) \<Rightarrow> (Inl e, s\<lparr>jb_db := d, jb_chain := c\<rparr>)
      | (Inr (res, t), d, c) \<Rightarrow>
          (Inr res, s\<lparr>jb_db := d, jb_chain := c, jb_machine := dispatch (je_effects E) t (jb_machine s)\<rparr>))"

text \<open>\<open>settle\<close> and \<open>fail\<close>: the lists of the result are changed before what follows may raise.\<close>

definition tick_settle ::
    "('c, 'w, 'e) job_env \<Rightarrow> int \<Rightarrow> matured_invoice \<Rightarrow> tick_result \<Rightarrow> ('c, 'w, 'e) job_state \<Rightarrow>
     unit result \<times> tick_result \<times> ('c, 'w, 'e) job_state" where
  "tick_settle E now m r s =
     (case job_settles E (maturity_input m) now s of
        (Inl e, s1) \<Rightarrow> (Inl e, r, s1)
      | (Inr res, s1) \<Rightarrow>
          let r1 = r\<lparr>tk_settled := tk_settled r @ [mi_id m]\<rparr>;
              (x, s2) = emit_event E (InvoiceSettled res now) s1
          in (x, r1, s2))"

definition tick_fail ::
    "('c, 'w, 'e) job_env \<Rightarrow> int \<Rightarrow> matured_invoice \<Rightarrow> tick_result \<Rightarrow> ('c, 'w, 'e) job_state \<Rightarrow>
     unit result \<times> tick_result \<times> ('c, 'w, 'e) job_state" where
  "tick_fail E now m r s =
     (case run_tx (markUnderfunded (mi_id m) now (je_ref E (mi_id m))) (jb_db s) of
        (Inl e, d) \<Rightarrow> (Inl e, r, s\<lparr>jb_db := d\<rparr>)
      | (Inr None, d) \<Rightarrow> (Inr (), r\<lparr>tk_skipped := tk_skipped r @ [mi_id m]\<rparr>, s\<lparr>jb_db := d\<rparr>)
      | (Inr (Some t), d) \<Rightarrow>
          let r1 = r\<lparr>tk_failed := tk_failed r @ [mi_id m]\<rparr>;
              s1 = s\<lparr>jb_db := d, jb_machine := dispatch (je_effects E) t (jb_machine s)\<rparr>;
              (x, s2) = emit_event E (MaturityFailed (mi_id m) now) s1
          in (x, r1, s2))"

definition tick_row ::
    "('c, 'w, 'e) job_env \<Rightarrow> int \<Rightarrow> matured_invoice \<Rightarrow> tick_result \<times> ('c, 'w, 'e) job_state \<Rightarrow>
     tick_result \<times> ('c, 'w, 'e) job_state" where
  "tick_row E now m rs =
     (let (r, s) = rs
      in case (if mi_status m = FUNDED then tick_settle E now m r s else tick_fail E now m r s) of
           (Inl e, r1, s1) \<Rightarrow> (r1\<lparr>tk_errored := tk_errored r1 @ [mi_id m]\<rparr>, s1)
         | (Inr x, r1, s1) \<Rightarrow> (r1, s1))"

definition runTick ::
    "('c, 'w, 'e) job_env \<Rightarrow> string list \<Rightarrow> nat \<Rightarrow> int \<Rightarrow> ('c, 'w, 'e) job_state \<Rightarrow>
     tick_result \<times> ('c, 'w, 'e) job_state" where
  "runTick E ids limit now s =
     (let rows = findMaturedInvoices ids now limit (jb_db s)
      in fold (tick_row E now) rows (no_result (map mi_id rows), s))"

subsection \<open>The settlement worker\<close>

definition matured_input :: "invoice \<Rightarrow> settle_input" where
  "matured_input v = \<lparr>si_invoiceId = iv_id v, si_proceeds = dec (iv_amount v), si_actorWallet = SYSTEM_SETTLEMENT_ACTOR,
     si_txHash = None, si_trigger = None, si_systemTrigger = True, si_sellerId = Some (iv_sellerId v)\<rparr>"

definition eligible_invoices :: "string list \<Rightarrow> int \<Rightarrow> db \<Rightarrow> invoice list" where
  "eligible_invoices ids now d =
     filter (\<lambda>v. case date_value (iv_dueDate v) of None \<Rightarrow> False | Some t \<Rightarrow> t \<le> now)
       (isort_by due_before (filter (\<lambda>v. iv_status v = FUNDED) (rows_of ids d)))"

text \<open>The counts are those of the settlements that went through and of those that raised.\<close>

definition settle_matured ::
    "('c, 'w, 'e) job_env \<Rightarrow> int \<Rightarrow> invoice \<Rightarrow> (nat \<times> nat) \<times> ('c, 'w, 'e) job_state \<Rightarrow>
     (nat \<times> nat) \<times> ('c, 'w, 'e) job_state" where
  "settle_matured E now v ns =
     (let ((processed, failed), s) = ns
      in case job_settles E (matured_input v) now s of
           (Inl e, s1) \<Rightarrow> ((processed, failed + 1), s1)
         | (Inr res, s1) \<Rightarrow> ((processed + 1, failed), s1))"

definition processMaturedInvoices ::
    "('c, 'w, 'e) job_env \<Rightarrow> string list \<Rightarrow> int \<Rightarrow> ('c, 'w, 'e) job_state \<Rightarrow>
     (nat \<times> nat) \<times> ('c, 'w, 'e) job_state" where
  "processMaturedInvoices E ids now s = fold (settle_matured E now) (eligible_invoices ids now (jb_db s)) ((0, 0), s)"

definition triggerManualSettlement ::
    "('c, 'w, 'e) job_env \<Rightarrow> string \<Rightarrow> decimal \<Rightarrow> string \<Rightarrow> int \<Rightarrow> ('c, 'w, 'e) job_state \<Rightarrow>
     unit result \<times> ('c, 'w, 'e) job_state" where
  "triggerManualSettlement E invoiceId proceeds actorWallet now s =
     (case job_settles E \<lparr>si_invoiceId = invoiceId, si_proceeds = proceeds, si_actorWallet = actorWallet,
               si_txHash = None, si_trigger = None, si_systemTrigger = False, si_sellerId = None\<rparr> now s of
        (Inl e, s1) \<Rightarrow> (Inl e, s1) | (Inr res, s1) \<Rightarrow> (Inr (), s1))"

subsection \<open>One run at a time\<close>

text \<open>The in-flight tick of the maturity worker and its interval: a tick that comes due while one
  runs is dropped. Starting it again while it has an interval does nothing.\<close>

record scheduler =
  sd_enabled :: bool
  sd_interval :: bool
  sd_running :: bool
  sd_runs :: nat
  sd_dropped :: nat

datatype sched_event = SchedStart | SchedDue | SchedFinished | SchedStop

definition schedule_tick :: "scheduler \<Rightarrow> scheduler" where
  "schedule_tick s =
     (if sd_running s then s\<lparr>sd_dropped := sd_dropped s + 1\<rparr>
      else s\<lparr>sd_running := True, sd_runs := sd_runs s + 1\<rparr>)"

fun sched_step :: "scheduler \<Rightarrow> sched_event \<Rightarrow> scheduler" where
  "sched_step s SchedStart =
     (if \<not> sd_enabled s \<or> sd_interval s then s else (schedule_tick s)\<lparr>sd_interval := True\<rparr>)"
| "sched_step s SchedDue = (if sd_interval s then schedule_tick s else s)"
| "sched_step s SchedFinished = s\<lparr>sd_running := False\<rparr>"
| "sched_step s SchedStop = s\<lparr>sd_interval := False\<rparr>"

end
