(* ===== verification/Maturity_Steps.thy ===== *)
theory Maturity_Steps
  imports Maturity
begin

section \<open>What the jobs on due invoices do\<close>

text \<open>
  The outcome of a tick of the maturity worker and of a cycle of the settlement worker, row by
  row, and where the extension of a deadline and the jobs cross.
\<close>

subsection \<open>A settlement started by a job\<close>

text \<open>A finished settlement moved a funded invoice to settled and touched no other invoice; a
  refused one touched none.\<close>

definition settled_only :: "string \<Rightarrow> db \<Rightarrow> db \<Rightarrow> bool" where
  "settled_only i d d' \<longleftrightarrow> status_at d i = Some FUNDED \<and> status_at d' i = Some SETTLED \<and>
     (\<forall>j. j \<noteq> i \<longrightarrow> invoices d' j = invoices d j) \<and> keyed d'"

lemma settle_tx_moves:
  assumes "settle_tx D distr cfg inp n payload h now ref d c = (Inr ((res, tr), d'), c')" "keyed d"
  shows "settled_only (si_invoiceId inp) d d'"
proof -
  obtain v ms h' where chk: "settle_checks inp payload d = Inr (v, ms)"
    and w: "settle_writes D cfg inp n h' now ref v ms d = Inr ((res, tr), d')"
    using settle_tx_success [OF assms(1)] by blast
  note f = checks_found [OF chk]
  then have id: "iv_id v = si_invoiceId inp" using assms(2) by (auto simp: keyed_def)
  obtain t fee p where am: "settle_amounts D cfg (si_proceeds inp) ms = (t, fee, p)" using prod_cases3 by blast
  obtain d3 where e: "complete_intent n h' d3 = Inr d'" "invoices d3 = (invoices d)(iv_id v \<mapsto> t_invoice tr)"
    "iv_status (t_invoice tr) = SETTLED" "iv_id (t_invoice tr) = iv_id v"
    using settle_writes_effect [OF w am] by blast
  obtain ns where "d' = d3\<lparr>intents := ns\<rparr>" using complete_intent_frame [OF e(1)] by auto
  then have "invoices d' = (invoices d)(si_invoiceId inp \<mapsto> t_invoice tr)" using e(2) id by simp
  then show ?thesis using f e id assms(2) by (auto simp: settled_only_def status_at_def keyed_def)
qed

lemma only_intents_rows: "only_intents d d' \<Longrightarrow> invoices d' = invoices d"
  unfolding only_intents_def by (metis db.ext_inject db.surjective db.update_convs(5))

lemma settlement_tx:
  assumes "settleInvoice D distr cfg inp x now ref d c = (Inr (res, tr), d', c')"
  obtains n pl h d1 c1 where "only_intents d d1" "settle_tx D distr cfg inp n pl h now ref d1 c1 = (Inr ((res, tr), d'), c')"
proof (cases distr)
  case None
  then have "settle_tx D distr cfg inp None None None now ref d c = (Inr ((res, tr), d'), c')"
    using assms by (simp add: settleInvoice_def run_settle_tx_def split: if_splits sum.splits prod.splits)
  then show ?thesis using that only_intents_refl by blast
next
  case (Some send)
  then obtain k where k: "cfg = Some k" using assms by (cases cfg) (auto simp: settleInvoice_def split: if_splits)
  obtain r d1 c1 where p: "pay_out D send k inp x d c = (r, d1, c1)" using prod_cases3 by blast
  have d1: "only_intents d d1" using pay_out_frame [of d D send k inp x c] p by simp
  obtain n pl h where r: "r = Inr (n, pl, h)"
    using assms Some k p by (cases r) (auto simp: settleInvoice_def split: if_splits)
  then have "settle_tx D distr cfg inp (Some n) (Some pl) (Some h) now ref d1 c1 = (Inr ((res, tr), d'), c')"
    using assms Some k p by (auto simp: settleInvoice_def run_settle_tx_def split: if_splits sum.splits prod.splits)
  then show ?thesis using that d1 by blast
qed

lemma settlement_moves:
  assumes "settleInvoice D distr cfg inp x now ref d c = (Inr (res, tr), d', c')" "keyed d"
  shows "settled_only (si_invoiceId inp) d d'"
proof -
  obtain n pl h d1 c1 where d1: "only_intents d d1"
    and tx: "settle_tx D distr cfg inp n pl h now ref d1 c1 = (Inr ((res, tr), d'), c')"
    using settlement_tx [OF assms(1)] .
  have rows: "invoices d1 = invoices d" by (rule only_intents_rows [OF d1])
  then have "keyed d1" using assms(2) by (simp add: keyed_def)
  from settle_tx_moves [OF tx this] rows show ?thesis by (simp add: settled_only_def status_at_def)
qed

lemma job_settles_cases:
  assumes "job_settles E inp now s = (r, s')" "keyed (jb_db s)"
  shows "(\<exists>e. r = Inl e) \<and> invoices (jb_db s') = invoices (jb_db s) \<or>
     (\<exists>res. r = Inr res) \<and> settled_only (si_invoiceId inp) (jb_db s) (jb_db s')"
proof -
  obtain y d' c' where y: "settleInvoice (je_lib E) (je_distributor E) (je_config E) inp (je_intent_id E (si_invoiceId inp)) now
      (je_ref E (si_invoiceId inp)) (jb_db s) (jb_chain s) = (y, d', c')" using prod_cases3 by blast
  show ?thesis
  proof (cases y)
    case (Inl e)
    then have "only_intents (jb_db s) d'" using failed_settlement_frame [OF y [unfolded Inl]] by (simp add: only_intents_def)
    then show ?thesis using assms y Inl by (auto simp: job_settles_def only_intents_rows)
  next
    case (Inr p)
    then obtain res tr where p: "y = Inr (res, tr)" by (cases p) auto
    from settlement_moves [OF y [unfolded p] assms(2)] show ?thesis
      using assms y p by (auto simp: job_settles_def)
  qed
qed

lemma emit_keeps_db: "emit_event E ev s = (x, s') \<Longrightarrow> jb_db s' = jb_db s"
  by (auto simp: emit_event_def Let_def split: prod.splits)

subsection \<open>A tick\<close>

definition underfunded_only :: "string \<Rightarrow> db \<Rightarrow> db \<Rightarrow> bool" where
  "underfunded_only i d d' \<longleftrightarrow> (\<exists>v. invoices d i = Some v \<and> iv_status v = PUBLISHED \<and> iv_fundedAmount v < iv_netAmount v) \<and>
     status_at d' i = Some FAILED \<and> (\<forall>j. j \<noteq> i \<longrightarrow> invoices d' j = invoices d j) \<and> keyed d'"

lemma dec_less_iff [simp]: "dec a < dec b \<longleftrightarrow> a < b" "dec a \<le> dec b \<longleftrightarrow> a \<le> b"
  by (simp_all add: dec_def divide_less_cancel divide_le_cancel)

lemma underfunded_marked:
  assumes "invoices d i = Some v" "keyed d" "iv_status v = PUBLISHED" "iv_fundedAmount v < iv_netAmount v"
  shows "\<exists>t d'. markUnderfunded i now ref d = Inr (Some t, d') \<and> underfunded_only i d d'"
proof -
  have id: "iv_id v = i" using assms(1,2) by (auto simp: keyed_def)
  have "assertTransition v FAILED maturity_actor maturity_context now = Inr ()" using assms(3)
    by (simp add: assertTransition_def findRule_def rule_table guard_holds_def maturity_actor_def Let_def)
  then obtain t d' where t: "transition entityManagerTransitionStore v FAILED maturity_actor ''maturity_underfunded''
      maturity_context now ref d = Inr (t, d')"
    using store_saves [of FAILED v maturity_actor maturity_context now "''maturity_underfunded''" ref d] by auto
  note e = transition_effect(3,4) [OF t]
  have inv: "invoices d' = (invoices d)(i \<mapsto> t_invoice t)" using e(1) id by simp
  have "iv_status (t_invoice t) = FAILED" "iv_id (t_invoice t) = i" using e(2) id by (simp_all add: apply_status_def)
  then have "underfunded_only i d d'" using inv assms by (auto simp: underfunded_only_def status_at_def keyed_def)
  moreover have "markUnderfunded i now ref d = Inr (Some t, d')" using assms t
    by (simp add: markUnderfunded_def not_le [symmetric])
  ultimately show ?thesis by blast
qed

lemma mark_cases:
  assumes "markUnderfunded i now ref d = r" "keyed d"
  shows "r = Inr (None, d) \<or> (\<exists>t d'. r = Inr (Some t, d') \<and> underfunded_only i d d')"
proof (cases "\<exists>v. invoices d i = Some v \<and> iv_status v = PUBLISHED \<and> iv_fundedAmount v < iv_netAmount v")
  case True
  then show ?thesis using underfunded_marked assms by metis
next
  case False
  then show ?thesis using assms(1) by (auto simp: markUnderfunded_def not_less split: option.splits)
qed

text \<open>What one row adds to the result of a tick and does to the invoices.\<close>

lemma tick_row_cases:
  assumes "tick_row E now m (r, s) = (r', s')" "keyed (jb_db s)"
  obtains (settled) "settled_only (mi_id m) (jb_db s) (jb_db s')"
      "r' = r\<lparr>tk_settled := tk_settled r @ [mi_id m], tk_errored := tk_errored r'\<rparr>"
      "set (tk_errored r') \<subseteq> insert (mi_id m) (set (tk_errored r))" "set (tk_errored r) \<subseteq> set (tk_errored r')"
      "(\<forall>ev l. fst (je_emit E ev l) = None) \<Longrightarrow> tk_errored r' = tk_errored r"
  | (failed) "underfunded_only (mi_id m) (jb_db s) (jb_db s')"
      "r' = r\<lparr>tk_failed := tk_failed r @ [mi_id m], tk_errored := tk_errored r'\<rparr>"
      "set (tk_errored r') \<subseteq> insert (mi_id m) (set (tk_errored r))" "set (tk_errored r) \<subseteq> set (tk_errored r')"
      "(\<forall>ev l. fst (je_emit E ev l) = None) \<Longrightarrow> tk_errored r' = tk_errored r"
  | (skipped) "invoices (jb_db s') = invoices (jb_db s)" "r' = r\<lparr>tk_skipped := tk_skipped r @ [mi_id m]\<rparr>"
  | (errored) "invoices (jb_db s') = invoices (jb_db s)" "r' = r\<lparr>tk_errored := tk_errored r @ [mi_id m]\<rparr>"
proof (cases "mi_status m = FUNDED")
  case True
  obtain x s1 where x: "job_settles E (maturity_input m) now s = (x, s1)" by force
  have i: "si_invoiceId (maturity_input m) = mi_id m" by (simp add: maturity_input_def)
  note c = job_settles_cases [OF x assms(2), unfolded i]
  show ?thesis
  proof (cases x)
    case (Inl e)
    then show ?thesis using c x True assms(1) errored by (auto simp: tick_row_def tick_settle_def)
  next
    case (Inr res)
    obtain y s2 where y: "emit_event E (InvoiceSettled res now) s1 = (y, s2)" by force
    have "s' = s2" and r': "r' = (case y of Inl e \<Rightarrow> r\<lparr>tk_settled := tk_settled r @ [mi_id m], tk_errored := tk_errored r @ [mi_id m]\<rparr>
        | Inr u \<Rightarrow> r\<lparr>tk_settled := tk_settled r @ [mi_id m]\<rparr>)"
      using x Inr y True assms(1) by (auto simp: tick_row_def tick_settle_def split: sum.splits)
    moreover have "settled_only (mi_id m) (jb_db s) (jb_db s2)" using c Inr emit_keeps_db [OF y] by auto
    moreover have "y = Inr ()" if "\<forall>ev l. fst (je_emit E ev l) = None"
      using y that by (auto simp: emit_event_def Let_def split: prod.splits option.splits) (metis fst_conv option.distinct(1))
    ultimately show ?thesis by (intro settled) (auto split: sum.splits)
  qed
next
  case False
  let ?f = "markUnderfunded (mi_id m) now (je_ref E (mi_id m))"
  consider (none) "?f (jb_db s) = Inr (None, jb_db s)"
    | (some) t d' where "?f (jb_db s) = Inr (Some t, d')" "underfunded_only (mi_id m) (jb_db s) d'"
    using mark_cases [OF refl assms(2)] by blast
  then show ?thesis
  proof cases
    case none
    then show ?thesis using False assms(1) skipped by (auto simp: tick_row_def tick_fail_def run_tx_def)
  next
    case (some t d')
    let ?s1 = "s\<lparr>jb_db := d', jb_machine := dispatch (je_effects E) t (jb_machine s)\<rparr>"
    obtain y s2 where y: "emit_event E (MaturityFailed (mi_id m) now) ?s1 = (y, s2)" by force
    have "s' = s2" and r': "r' = (case y of Inl e \<Rightarrow> r\<lparr>tk_failed := tk_failed r @ [mi_id m], tk_errored := tk_errored r @ [mi_id m]\<rparr>
        | Inr u \<Rightarrow> r\<lparr>tk_failed := tk_failed r @ [mi_id m]\<rparr>)"
      using some(1) y False assms(1) by (auto simp: tick_row_def tick_fail_def run_tx_def split: sum.splits)
    moreover have "underfunded_only (mi_id m) (jb_db s) (jb_db s2)" using some(2) emit_keeps_db [OF y] by simp
    moreover have "y = Inr ()" if "\<forall>ev l. fst (je_emit E ev l) = None"
      using y that by (auto simp: emit_event_def Let_def split: prod.splits option.splits) (metis fst_conv option.distinct(1))
    ultimately show ?thesis by (intro failed) (auto split: sum.splits)
  qed
qed

text \<open>What holds after the rows \<open>seen\<close> of a tick that started on \<open>d0\<close>: \<open>S\<close>, \<open>F\<close>, \<open>K\<close> and \<open>X\<close> are the
  settled, failed, skipped and errored ones, \<open>quiet\<close> says that no listener raises.\<close>

definition was_underfunded :: "db \<Rightarrow> string \<Rightarrow> bool" where
  "was_underfunded d i \<longleftrightarrow> (\<exists>v. invoices d i = Some v \<and> iv_status v = PUBLISHED \<and> iv_fundedAmount v < iv_netAmount v)"

definition outcome :: "db \<Rightarrow> bool \<Rightarrow> string set \<Rightarrow> string set \<Rightarrow> string set \<Rightarrow> string set \<Rightarrow> string set \<Rightarrow> db \<Rightarrow> bool" where
  "outcome d0 quiet seen S F K X d \<longleftrightarrow> keyed d \<and> S \<union> F \<union> K \<union> X = seen \<and> S \<inter> F = {} \<and> S \<inter> K = {} \<and> F \<inter> K = {} \<and>
     (quiet \<longrightarrow> X \<inter> (S \<union> F \<union> K) = {}) \<and>
     (\<forall>i \<in> S. status_at d0 i = Some FUNDED \<and> status_at d i = Some SETTLED) \<and>
     (\<forall>i \<in> F. was_underfunded d0 i \<and> status_at d i = Some FAILED) \<and>
     (\<forall>i. i \<notin> S \<union> F \<longrightarrow> invoices d i = invoices d0 i)"

lemma outcome_settled:
  assumes "outcome d0 q seen S F K X d" "i \<notin> seen" "settled_only i d d'" "X' \<subseteq> insert i X" "X \<subseteq> X'" "q \<Longrightarrow> X' = X"
  shows "outcome d0 q (insert i seen) (insert i S) F K X' d'"
proof -
  have i: "i \<notin> S" "i \<notin> F" "i \<notin> K" "i \<notin> X" using assms(1,2) by (auto simp: outcome_def)
  have row: "status_at d0 i = Some FUNDED" using assms(1,3) i by (simp add: outcome_def settled_only_def status_at_def)
  have other: "j \<noteq> i \<Longrightarrow> invoices d' j = invoices d j" for j using assms(3) by (simp add: settled_only_def)
  then have st: "j \<noteq> i \<Longrightarrow> status_at d' j = status_at d j" for j by (simp add: status_at_def)
  have now: "status_at d' i = Some SETTLED" "keyed d'" using assms(3) by (simp_all add: settled_only_def)
  show ?thesis unfolding outcome_def
  proof (intro conjI)
    show "insert i S \<union> F \<union> K \<union> X' = insert i seen" using assms(1,4,5) by (auto simp: outcome_def)
    show "q \<longrightarrow> X' \<inter> (insert i S \<union> F \<union> K) = {}" using assms(1,6) i by (auto simp: outcome_def)
    show "\<forall>j \<in> insert i S. status_at d0 j = Some FUNDED \<and> status_at d' j = Some SETTLED"
      using assms(1) row now st i by (metis insertE outcome_def)
    show "\<forall>j \<in> F. was_underfunded d0 j \<and> status_at d' j = Some FAILED"
      using assms(1) st i by (metis outcome_def)
    show "\<forall>j. j \<notin> insert i S \<union> F \<longrightarrow> invoices d' j = invoices d0 j" using assms(1) other by (simp add: outcome_def)
  qed (use assms(1) i now in \<open>auto simp: outcome_def\<close>)
qed

lemma outcome_failed:
  assumes "outcome d0 q seen S F K X d" "i \<notin> seen" "underfunded_only i d d'" "X' \<subseteq> insert i X" "X \<subseteq> X'" "q \<Longrightarrow> X' = X"
  shows "outcome d0 q (insert i seen) S (insert i F) K X' d'"
proof -
  have i: "i \<notin> S" "i \<notin> F" "i \<notin> K" "i \<notin> X" using assms(1,2) by (auto simp: outcome_def)
  have row: "was_underfunded d0 i" using assms(1,3) i by (simp add: outcome_def underfunded_only_def was_underfunded_def)
  have other: "j \<noteq> i \<Longrightarrow> invoices d' j = invoices d j" for j using assms(3) by (simp add: underfunded_only_def)
  then have st: "j \<noteq> i \<Longrightarrow> status_at d' j = status_at d j" for j by (simp add: status_at_def)
  have now: "status_at d' i = Some FAILED" "keyed d'" using assms(3) by (simp_all add: underfunded_only_def)
  show ?thesis unfolding outcome_def
  proof (intro conjI)
    show "S \<union> insert i F \<union> K \<union> X' = insert i seen" using assms(1,4,5) by (auto simp: outcome_def)
    show "q \<longrightarrow> X' \<inter> (S \<union> insert i F \<union> K) = {}" using assms(1,6) i by (auto simp: outcome_def)
    show "\<forall>j \<in> S. status_at d0 j = Some FUNDED \<and> status_at d' j = Some SETTLED"
      using assms(1) st i by (metis outcome_def)
    show "\<forall>j \<in> insert i F. was_underfunded d0 j \<and> status_at d' j = Some FAILED"
      using assms(1) row now st i by (metis insertE outcome_def)
    show "\<forall>j. j \<notin> S \<union> insert i F \<longrightarrow> invoices d' j = invoices d0 j" using assms(1) other by (simp add: outcome_def)
  qed (use assms(1) i now in \<open>auto simp: outcome_def\<close>)
qed

lemma outcome_same:
  assumes "outcome d0 q seen S F K X d" "i \<notin> seen" "invoices d' = invoices d"
  shows "outcome d0 q (insert i seen) S F (insert i K) X d'" "outcome d0 q (insert i seen) S F K (insert i X) d'"
proof -
  have i: "i \<notin> S" "i \<notin> F" "i \<notin> K" "i \<notin> X" using assms(1,2) by (auto simp: outcome_def)
  have st: "status_at d' j = status_at d j" "keyed d' = keyed d" for j using assms(3) by (simp_all add: status_at_def keyed_def)
  show "outcome d0 q (insert i seen) S F (insert i K) X d'" "outcome d0 q (insert i seen) S F K (insert i X) d'"
    using assms(1,3) i st by (auto simp: outcome_def)
qed

definition tick_ok :: "db \<Rightarrow> bool \<Rightarrow> string set \<Rightarrow> tick_result \<Rightarrow> db \<Rightarrow> bool" where
  "tick_ok d0 quiet seen r d \<longleftrightarrow>
     outcome d0 quiet seen (set (tk_settled r)) (set (tk_failed r)) (set (tk_skipped r)) (set (tk_errored r)) d"

lemma tick_row_ok:
  assumes "tick_ok d0 (\<forall>ev l. fst (je_emit E ev l) = None) seen r (jb_db s)" "mi_id m \<notin> seen"
    and row: "tick_row E now m (r, s) = (r', s')"
  shows "tick_ok d0 (\<forall>ev l. fst (je_emit E ev l) = None) (insert (mi_id m) seen) r' (jb_db s')"
proof -
  have k: "keyed (jb_db s)" using assms(1) by (simp add: tick_ok_def outcome_def)
  note ok = assms(1,2) [unfolded tick_ok_def]
  from row k show ?thesis
  proof (cases rule: tick_row_cases)
    case settled
    have r': "tk_settled r' = tk_settled r @ [mi_id m]" "tk_failed r' = tk_failed r" "tk_skipped r' = tk_skipped r"
      by (subst settled(2), simp)+
    show ?thesis using outcome_settled [OF ok settled(1,3,4)] settled(5) by (simp add: tick_ok_def r')
  next
    case failed
    have r': "tk_settled r' = tk_settled r" "tk_failed r' = tk_failed r @ [mi_id m]" "tk_skipped r' = tk_skipped r"
      by (subst failed(2), simp)+
    show ?thesis using outcome_failed [OF ok failed(1,3,4)] failed(5) by (simp add: tick_ok_def r')
  next
    case skipped
    then show ?thesis using outcome_same(1) [OF ok skipped(1)] by (simp add: tick_ok_def)
  next
    case errored
    then show ?thesis using outcome_same(2) [OF ok errored(1)] by (simp add: tick_ok_def)
  qed
qed

lemma tick_rows_ok:
  assumes "tick_ok d0 (\<forall>ev l. fst (je_emit E ev l) = None) seen r (jb_db s)" "mi_id ` set ms \<inter> seen = {}" "distinct (map mi_id ms)"
    "fold (tick_row E now) ms (r, s) = (r', s')"
  shows "tick_ok d0 (\<forall>ev l. fst (je_emit E ev l) = None) (seen \<union> mi_id ` set ms) r' (jb_db s')"
  using assms
proof (induction ms arbitrary: seen r s)
  case (Cons m ms)
  obtain r1 s1 where r1: "tick_row E now m (r, s) = (r1, s1)" by force
  have "tick_ok d0 (\<forall>ev l. fst (je_emit E ev l) = None) (insert (mi_id m) seen) r1 (jb_db s1)"
    using tick_row_ok [OF Cons.prems(1) _ r1] Cons.prems(2) by auto
  then have "tick_ok d0 (\<forall>ev l. fst (je_emit E ev l) = None) (insert (mi_id m) seen \<union> mi_id ` set ms) r' (jb_db s')"
    by (rule Cons.IH) (use Cons.prems r1 in auto)
  then show ?case by simp
qed simp

lemma detected_kept: "tk_detected (fst (fold (tick_row E now) ms (r, s))) = tk_detected r"
proof (induction ms arbitrary: r s)
  case (Cons m ms)
  obtain r1 s1 where r1: "tick_row E now m (r, s) = (r1, s1)" by force
  then have "tk_detected r1 = tk_detected r"
    by (auto simp: tick_row_def tick_settle_def tick_fail_def Let_def split: if_splits sum.splits prod.splits option.splits)
  then show ?case using Cons.IH [of r1 s1] r1 by simp
qed simp

lemma rows_distinct: "keyed d \<Longrightarrow> distinct ids \<Longrightarrow> distinct (map iv_id (rows_of ids d))"
proof (induction ids)
  case (Cons i ids)
  have "iv_id ` set (rows_of ids d) \<subseteq> set ids" using Cons.prems(1)
    by (auto simp: rows_of_def List.map_filter_def keyed_def)
  then show ?case using Cons by (auto simp: rows_of_def List.map_filter_simps keyed_def split: option.splits)
qed (simp add: rows_of_def List.map_filter_simps)

lemma found_rows:
  assumes "keyed d" "distinct ids"
  shows "distinct (map mi_id (findMaturedInvoices ids now limit d))"
    and "i \<in> mi_id ` set (findMaturedInvoices ids now limit d) \<Longrightarrow> \<exists>v. invoices d i = Some v \<and> is_matured now v"
    and "length (findMaturedInvoices ids now limit d) \<le> limit"
proof -
  let ?rows = "isort_by due_before (filter (is_matured now) (rows_of ids d))"
  have "mset (map iv_id ?rows) = mset (map iv_id (filter (is_matured now) (rows_of ids d)))" by (simp only: mset_map mset_isort_by)
  then have "distinct (map iv_id ?rows)"
    using distinct_map_filter [OF rows_distinct [OF assms]] mset_eq_imp_distinct_iff by blast
  then have "distinct (map iv_id (take limit ?rows))" by (simp add: take_map [symmetric])
  then show "distinct (map mi_id (findMaturedInvoices ids now limit d))" by (simp add: findMaturedInvoices_def o_def)
  assume "i \<in> mi_id ` set (findMaturedInvoices ids now limit d)"
  then obtain v where "v \<in> set (take limit ?rows)" "i = iv_id v" by (auto simp: findMaturedInvoices_def)
  then have "v \<in> set (rows_of ids d)" "is_matured now v" "i = iv_id v" by (auto dest: in_set_takeD)
  then show "\<exists>v. invoices d i = Some v \<and> is_matured now v" using assms(1)
    by (auto simp: rows_of_def List.map_filter_def keyed_def)
qed (simp add: findMaturedInvoices_def)


definition due_invoice :: invoice where "due_invoice = sample_invoice\<lparr>iv_status := PUBLISHED\<rparr>"

definition quiet_env :: "(unit, unit, job_event list) job_env" where
  "quiet_env = \<lparr>je_lib = exact_decimal, je_distributor = None, je_config = None, je_effects = [],
     je_emit = (\<lambda>ev l. (None, l @ [ev])), je_intent_id = (\<lambda>i. i), je_ref = (\<lambda>i. 0)\<rparr>"

definition due_state :: "(unit, unit, job_event list) job_state" where
  "due_state = \<lparr>jb_db = fresh_db [due_invoice], jb_chain = (),
     jb_machine = \<lparr>m_dispatched = {}, m_world = (), m_warnings = []\<rparr>, jb_listeners = []\<rparr>"

lemma due_facts:
  "invoices (jb_db due_state) ''i1'' = Some due_invoice" "keyed (jb_db due_state)" "iv_id due_invoice = ''i1''"
  "iv_status due_invoice = PUBLISHED" "due_day due_invoice = Some 20000" "iv_fundedAmount due_invoice < iv_netAmount due_invoice"
  by (auto simp: due_state_def fresh_db_def due_invoice_def sample_invoice_def keyed_def due_day_def date_value_def DAY_MS_def)

lemma due_found: "20000 * DAY_MS \<le> now \<Longrightarrow>
   findMaturedInvoices [''i1''] now 10 (jb_db due_state) = [\<lparr>mi_id = ''i1'', mi_status = PUBLISHED, mi_amount = iv_amount due_invoice\<rparr>]"
proof -
  assume "20000 * DAY_MS \<le> now"
  then have "20000 \<le> now div DAY_MS" by (simp add: DAY_MS_def)
  then have "is_matured now due_invoice" by (simp add: is_matured_def due_facts)
  then show ?thesis by (simp add: findMaturedInvoices_def rows_of_def List.map_filter_simps due_facts)
qed


subsection \<open>Rows a tick cannot move\<close>

text \<open>Published invoices that hold their net amount are skipped at every tick. They keep their
  place at the front of the batch, so once they fill it no later invoice is looked at.\<close>

lemma full_rows_skipped:
  assumes "\<forall>m \<in> set ms. mi_status m \<noteq> FUNDED \<and>
      (\<exists>v. invoices (jb_db s) (mi_id m) = Some v \<and> iv_netAmount v \<le> iv_fundedAmount v)"
  shows "fold (tick_row E now) ms (r, s) = (r\<lparr>tk_skipped := tk_skipped r @ map mi_id ms\<rparr>, s)"
  using assms
proof (induction ms arbitrary: r)
  case (Cons m ms)
  then have "markUnderfunded (mi_id m) now (je_ref E (mi_id m)) (jb_db s) = Inr (None, jb_db s)"
    by (auto simp: markUnderfunded_def)
  then have "tick_row E now m (r, s) = (r\<lparr>tk_skipped := tk_skipped r @ [mi_id m]\<rparr>, s)"
    using Cons.prems by (simp add: tick_row_def tick_fail_def run_tx_def)
  then show ?case using Cons by simp
qed simp

lemma full_batch_blocks_the_worker:
  assumes "\<forall>m \<in> set (findMaturedInvoices ids now limit (jb_db s)). mi_status m \<noteq> FUNDED \<and>
      (\<exists>v. invoices (jb_db s) (mi_id m) = Some v \<and> iv_netAmount v \<le> iv_fundedAmount v)"
  shows "((\<lambda>s. snd (runTick E ids limit now s)) ^^ n) s = s"
proof -
  have "snd (runTick E ids limit now s) = s"
    using full_rows_skipped [OF assms] by (simp add: runTick_def Let_def)
  then show ?thesis by (induction n) simp_all
qed

text \<open>The job compares calendar days, an investment the end of the due day: from the start of
  that day on the job fails an underfunded invoice investors may still put money in.\<close>

lemma failed_while_open_for_investing:
  assumes "iv_dueDate v = DateOnly n" "iv_status v = PUBLISHED" "n * DAY_MS \<le> now" "now < (n + 1) * DAY_MS"
  shows "is_matured now v \<and> \<not> isPastDueDate (iv_dueDate v) now"
proof -
  have "now div DAY_MS = n" using assms(3,4) by (intro int_div_pos_eq [of now DAY_MS n "now - n * DAY_MS"])
      (simp_all add: DAY_MS_def algebra_simps)
  then show ?thesis using assms by (simp add: is_matured_def due_day_def date_value_def isPastDueDate_def endOfDayUTC_def
      DAY_MS_def algebra_simps)
qed

subsection \<open>A cycle of the settlement worker\<close>

lemma cycle_counts:
  "fold (settle_matured E now) vs ((p, f), s) = ((p', f'), s') \<Longrightarrow> p' + f' = p + f + length vs"
proof (induction vs arbitrary: p f s)
  case (Cons v vs)
  obtain x s1 where "job_settles E (matured_input v) now s = (x, s1)" by force
  then show ?case using Cons.IH [of p "f + 1" s1] Cons.IH [of "p + 1" f s1] Cons.prems
    by (cases x) (auto simp: settle_matured_def)
qed simp

lemma settle_investments_history: "settle_investments t p i ms d = Inr (rows, d') \<Longrightarrow> history d' = history d"
  using settle_investments_effect [of t p i ms d rows d'] by simp

text \<open>The entry a settlement appends to the status history.\<close>

lemma settle_writes_history:
  assumes "settle_writes D cfg inp n h now ref v ms d = Inr ((res, tr), d')"
  shows "\<exists>e. history d' = history d @ [e] \<and> h_invoiceId e = iv_id v \<and> h_from e = iv_status v \<and> h_to e = SETTLED \<and>
     h_role e = System \<and> h_actorId e = Some (si_actorWallet inp) \<and>
     h_trigger e = (case si_trigger inp of None \<Rightarrow> ''admin_settled''
                    | Some tr \<Rightarrow> if tr = ''system_matured'' then ''maturity_settled'' else tr)"
proof -
  obtain t fee p where am: "settle_amounts D cfg (si_proceeds inp) ms = (t, fee, p)" using prod_cases3 by blast
  define d0 where "d0 = (if truthy h then d\<lparr>payments := payments d @ [\<lparr>tx_userId = iv_sellerId v, tx_invoiceId = iv_id v,
     tx_investmentId = None, tx_amount = toFixed4 D (si_proceeds inp), tx_hash = (case h of None \<Rightarrow> [] | Some x \<Rightarrow> x)\<rparr>]\<rparr> else d)"
  obtain rows d1 where s: "settle_investments t p (iv_id v) ms d0 = Inr (rows, d1)"
    using assms am by (auto simp: settle_writes_def Let_def result_simps d0_def)
  let ?w = "v\<lparr>iv_settlementRemainder := p - sum_list (map rr_return rows)\<rparr>"
  let ?reason = "case si_trigger inp of None \<Rightarrow> ''admin_settled''
      | Some tr \<Rightarrow> if tr = ''system_matured'' then ''maturity_settled'' else tr"
  let ?actor = "\<lparr>a_role = System, a_id = None, a_wallet = Some (si_actorWallet inp)\<rparr>"
  let ?d2 = "d1\<lparr>remainders := remainders d1 @ [\<lparr>sr_invoiceId = iv_id v, sr_remainder = p - sum_list (map rr_return rows),
      sr_total = toFixed4 D (si_proceeds inp), sr_distributed = sum_list (map rr_return rows)\<rparr>]\<rparr>"
  obtain d3 where t: "transition entityManagerTransitionStore ?w SETTLED ?actor
      ?reason empty_context now ref ?d2 = Inr (tr, d3)" and c: "complete_intent n h d3 = Inr d'"
    using assms am s unfolding settle_writes_def d0_def [symmetric]
    by (auto simp: Let_def result_simps d0_def [symmetric])
  have "history d1 = history d" using settle_investments_history [OF s] by (simp add: d0_def)
  moreover obtain ns where "d' = d3\<lparr>intents := ns\<rparr>" using complete_intent_frame [OF c] by auto
  ultimately have "history d' = history d @ [history_entry ?w SETTLED ?actor ?reason (trimmed_reason empty_context)]"
    using transition_effect(3) [OF t] by simp
  then show ?thesis by (simp add: history_entry_def or_else_def)
qed

text \<open>The settlement worker names itself in \<open>systemTrigger\<close>, which only widens the authorization; the
  history of its settlements says that an administrator settled the invoice.\<close>

lemma scheduled_settlement_recorded_as_admin:
  assumes "job_settles E (matured_input v) now s = (Inr res, s')" "keyed (jb_db s)"
  shows "\<exists>e. history (jb_db s') = history (jb_db s) @ [e] \<and> h_invoiceId e = iv_id v \<and> h_to e = SETTLED \<and>
     h_role e = System \<and> h_trigger e = ''admin_settled''"
proof -
  obtain tr d' c' where "settleInvoice (je_lib E) (je_distributor E) (je_config E) (matured_input v) (je_intent_id E (iv_id v)) now
      (je_ref E (iv_id v)) (jb_db s) (jb_chain s) = (Inr (res, tr), d', c')" and d': "jb_db s' = d'"
    using assms(1) by (auto simp: job_settles_def matured_input_def split: prod.splits sum.splits)
  from settlement_tx [OF this(1)] obtain n pl h d1 c1 where d1: "only_intents (jb_db s) d1"
    and tx: "settle_tx (je_lib E) (je_distributor E) (je_config E) (matured_input v) n pl h now (je_ref E (iv_id v)) d1 c1 =
      (Inr ((res, tr), d'), c')" .
  obtain w ms h' where chk: "settle_checks (matured_input v) pl d1 = Inr (w, ms)"
    and w: "settle_writes (je_lib E) (je_config E) (matured_input v) n h' now (je_ref E (iv_id v)) w ms d1 = Inr ((res, tr), d')"
    using settle_tx_success [OF tx] by blast
  have "invoices d1 = invoices (jb_db s)" by (rule only_intents_rows [OF d1])
  then have "iv_id w = iv_id v" using checks_found [OF chk] assms(2) by (simp add: keyed_def matured_input_def)
  moreover have "history d1 = history (jb_db s)" using d1 unfolding only_intents_def
    by (metis db.ext_inject db.surjective db.update_convs(5))
  ultimately show ?thesis using settle_writes_history [OF w] d' by (auto simp: matured_input_def)
qed

lemma settlement_worker_accounts:
  assumes "processMaturedInvoices E ids now s = ((p, f), s')"
  shows "p + f = length (eligible_invoices ids now (jb_db s))"
  using cycle_counts [OF assms [unfolded processMaturedInvoices_def]] by simp

subsection \<open>Ticks do not overlap\<close>

lemma runs_wait_for_the_last:
  assumes "sd_runs s = 0" "\<not> sd_running s"
  shows "sd_runs (foldl sched_step s es) \<le> length (filter (\<lambda>e. e = SchedFinished) es) +
     (if sd_running (foldl sched_step s es) then 1 else 0)"
proof (induction es rule: rev_induct)
  case (snoc e es)
  then show ?case by (cases e) (auto simp: schedule_tick_def split: if_split_asm)
qed (use assms in simp)

end
