(* ===== verification/Invoice_Extension.thy ===== *)
theory Invoice_Extension
  imports Maturity_Steps
begin

section \<open>Extending a funding deadline\<close>

text \<open>
  \<open>src/services/invoice-extension.service.ts\<close>. Neither call takes a row lock: a request and a
  review each read first and write later, and other transactions may commit in between, so each
  is two steps here. Saving an entity writes all of it. The clock, the identifier of a new row and
  the text of a date are arguments; \<open>fault\<close> is what the notification service raises, if anything.
\<close>

datatype extension_status = ExtPENDING | ExtAPPROVED | ExtREJECTED

record extension_request =
  xr_id :: string
  xr_invoiceId :: string
  xr_requestedBy :: string
  xr_proposedDeadline :: int
  xr_previousDeadline :: "int option"
  xr_reason :: "string option"
  xr_status :: extension_status
  xr_reviewedBy :: "string option"
  xr_reviewedAt :: "int option"
  xr_reviewNote :: "string option"

record deadline_notice =
  dn_userId :: string
  dn_title :: string
  dn_message :: string

record ext_state =
  ex_db :: db
  ex_requests :: "extension_request list"
  ex_notices :: "deadline_notice list"

definition EXTENSION_BLOCKED_STATUSES :: "invoice_status set" where
  "EXTENSION_BLOCKED_STATUSES = {FUNDED, SETTLED, CANCELLED, REJECTED}"

record extension_input =
  xi_invoiceId :: string
  xi_sellerId :: string
  xi_proposedDeadline :: "int option"
  xi_reason :: "string option"

record review_input =
  vi_invoiceId :: string
  vi_requestId :: string
  vi_approve :: bool
  vi_reviewedBy :: string
  vi_reviewNote :: "string option"

subsection \<open>Requests\<close>

text \<open>The reads and checks of \<open>requestExtension\<close>, up to the row that is then saved.\<close>

definition request_check :: "extension_input \<Rightarrow> string \<Rightarrow> int \<Rightarrow> ext_state \<Rightarrow> extension_request result" where
  "request_check inp new_id now s =
     (case invoices (ex_db s) (xi_invoiceId inp) of
        None \<Rightarrow> Inl (ServiceError ''INVOICE_NOT_FOUND'' 404)
      | Some v \<Rightarrow>
          if iv_sellerId v \<noteq> xi_sellerId inp then Inl (ServiceError ''FORBIDDEN'' 403)
          else if iv_status v \<in> EXTENSION_BLOCKED_STATUSES then Inl (ServiceError ''EXTENSION_NOT_ALLOWED'' 422)
          else case xi_proposedDeadline inp of
                 None \<Rightarrow> Inl (ServiceError ''INVALID_DEADLINE'' 400)
               | Some proposed \<Rightarrow>
                   if proposed \<le> now then Inl (ServiceError ''INVALID_DEADLINE'' 400)
                   else if (\<exists>r \<in> set (ex_requests s). xr_invoiceId r = xi_invoiceId inp \<and> xr_status r = ExtPENDING)
                   then Inl (ServiceError ''EXTENSION_PENDING'' 409)
                   else Inr \<lparr>xr_id = new_id, xr_invoiceId = xi_invoiceId inp, xr_requestedBy = xi_sellerId inp,
                             xr_proposedDeadline = proposed, xr_previousDeadline = iv_fundingDeadline v,
                             xr_reason = xi_reason inp, xr_status = ExtPENDING, xr_reviewedBy = None,
                             xr_reviewedAt = None, xr_reviewNote = None\<rparr>)"

definition save_request :: "extension_request \<Rightarrow> ext_state \<Rightarrow> ext_state" where
  "save_request r s = s\<lparr>ex_requests := upsert xr_id r (ex_requests s)\<rparr>"

definition requestExtension :: "extension_input \<Rightarrow> string \<Rightarrow> int \<Rightarrow> ext_state \<Rightarrow> extension_request result \<times> ext_state" where
  "requestExtension inp new_id now s =
     (case request_check inp new_id now s of
        Inl e \<Rightarrow> (Inl e, s)
      | Inr r \<Rightarrow> (Inr r, save_request r s))"

subsection \<open>Reviews\<close>

definition review_read :: "review_input \<Rightarrow> ext_state \<Rightarrow> (extension_request \<times> invoice) result" where
  "review_read inp s =
     (case find (\<lambda>r. xr_id r = vi_requestId inp \<and> xr_invoiceId r = vi_invoiceId inp) (ex_requests s) of
        None \<Rightarrow> Inl (ServiceError ''EXTENSION_NOT_FOUND'' 404)
      | Some r \<Rightarrow>
          if xr_status r \<noteq> ExtPENDING then Inl (ServiceError ''EXTENSION_NOT_PENDING'' 409)
          else case invoices (ex_db s) (vi_invoiceId inp) of
                 None \<Rightarrow> Inl (ServiceError ''INVOICE_NOT_FOUND'' 404)
               | Some v \<Rightarrow>
                   if vi_approve inp \<and> iv_status v \<in> EXTENSION_BLOCKED_STATUSES
                   then Inl (ServiceError ''EXTENSION_NOT_ALLOWED'' 422)
                   else Inr (r, v))"

definition reviewed :: "extension_status \<Rightarrow> review_input \<Rightarrow> int \<Rightarrow> extension_request \<Rightarrow> extension_request" where
  "reviewed st inp now r =
     r\<lparr>xr_status := st, xr_reviewedBy := Some (vi_reviewedBy inp), xr_reviewedAt := Some now,
       xr_reviewNote := vi_reviewNote inp\<rparr>"

text \<open>What the transaction writes, with the entities it has read.\<close>

definition review_write ::
    "review_input \<Rightarrow> int \<Rightarrow> extension_request \<times> invoice \<Rightarrow> ext_state \<Rightarrow> (extension_request \<times> invoice) \<times> ext_state" where
  "review_write inp now p s =
     (let (r, v) = p
      in if \<not> vi_approve inp
         then let r' = reviewed ExtREJECTED inp now r in ((r', v), save_request r' s)
         else let r1 = r\<lparr>xr_previousDeadline :=
                          (case iv_fundingDeadline v of None \<Rightarrow> xr_previousDeadline r | Some t \<Rightarrow> Some t)\<rparr>;
                  (v', d') = orm_save_invoice (v\<lparr>iv_fundingDeadline := Some (xr_proposedDeadline r1)\<rparr>) (ex_db s);
                  r' = reviewed ExtAPPROVED inp now r1
              in ((r', v'), save_request r' (s\<lparr>ex_db := d'\<rparr>)))"

definition notice_of :: "(int \<Rightarrow> string) \<Rightarrow> extension_request \<Rightarrow> invoice \<Rightarrow> string \<Rightarrow> deadline_notice" where
  "notice_of show_date r v userId =
     \<lparr>dn_userId = userId, dn_title = ''Funding deadline extended'',
      dn_message = ''Invoice '' @ iv_invoiceNumber v @ '' funding deadline was extended to '' @
        show_date (xr_proposedDeadline r) @ ''.''\<rparr>"

definition notifyInvestors ::
    "(int \<Rightarrow> string) \<Rightarrow> error option \<Rightarrow> extension_request \<Rightarrow> invoice \<Rightarrow> ext_state \<Rightarrow> unit result \<times> ext_state" where
  "notifyInvestors show_date fault r v s =
     (let us = unique (map im_investorId (filter (\<lambda>m. im_invoiceId m = iv_id v) (investments (ex_db s))))
      in if us = [] then (Inr (), s)
         else case fault of
                Some e \<Rightarrow> (Inl e, s)
              | None \<Rightarrow> (Inr (), s\<lparr>ex_notices := ex_notices s @ map (notice_of show_date r v) us\<rparr>))"

text \<open>The transaction followed by what runs after its commit.\<close>

definition review_finish ::
    "(int \<Rightarrow> string) \<Rightarrow> error option \<Rightarrow> review_input \<Rightarrow> int \<Rightarrow> extension_request \<times> invoice \<Rightarrow> ext_state \<Rightarrow>
     (extension_request \<times> invoice) result \<times> ext_state" where
  "review_finish show_date fault inp now p s =
     (let ((r, v), s1) = review_write inp now p s
      in if xr_status r \<noteq> ExtAPPROVED then (Inr (r, v), s1)
         else case notifyInvestors show_date fault r v s1 of
                (Inl e, s2) \<Rightarrow> (Inl e, s2)
              | (Inr u, s2) \<Rightarrow> (Inr (r, v), s2))"

definition reviewExtension ::
    "(int \<Rightarrow> string) \<Rightarrow> error option \<Rightarrow> review_input \<Rightarrow> int \<Rightarrow> ext_state \<Rightarrow> (extension_request \<times> invoice) result \<times> ext_state" where
  "reviewExtension show_date fault inp now s =
     (case review_read inp s of
        Inl e \<Rightarrow> (Inl e, s)
      | Inr p \<Rightarrow> review_finish show_date fault inp now p s)"

subsection \<open>What a review leaves behind\<close>

lemma review_read_found:
  assumes "review_read inp s = Inr (r, v)"
  shows "r \<in> set (ex_requests s)" "xr_id r = vi_requestId inp" "xr_invoiceId r = vi_invoiceId inp" "xr_status r = ExtPENDING"
    "invoices (ex_db s) (vi_invoiceId inp) = Some v" "vi_approve inp \<Longrightarrow> iv_status v \<notin> EXTENSION_BLOCKED_STATUSES"
  using assms by (auto simp: review_read_def dest!: find_SomeD split: option.splits if_splits)

lemma notify_frame: "notifyInvestors show_date fault r v s = (x, s') \<Longrightarrow> ex_db s' = ex_db s \<and> ex_requests s' = ex_requests s"
  by (auto simp: notifyInvestors_def Let_def split: if_splits option.splits)

lemma approval_writes:
  assumes "vi_approve inp" "review_finish show_date fault inp now (r, v) s = (x, s')"
  shows "ex_db s' = save_invoice (v\<lparr>iv_fundingDeadline := Some (xr_proposedDeadline r), iv_version := iv_version v + 1\<rparr>) (ex_db s)"
    and "\<exists>r'. xr_id r' = xr_id r \<and> xr_invoiceId r' = xr_invoiceId r \<and> xr_status r' = ExtAPPROVED \<and>
           ex_requests s' = upsert xr_id r' (ex_requests s)"
proof -
  let ?v = "v\<lparr>iv_fundingDeadline := Some (xr_proposedDeadline r), iv_version := iv_version v + 1\<rparr>"
  let ?r = "reviewed ExtAPPROVED inp now (r\<lparr>xr_previousDeadline :=
      (case iv_fundingDeadline v of None \<Rightarrow> xr_previousDeadline r | Some t \<Rightarrow> Some t)\<rparr>)"
  let ?s = "save_request ?r (s\<lparr>ex_db := save_invoice ?v (ex_db s)\<rparr>)"
  have st: "xr_status ?r = ExtAPPROVED" "xr_id ?r = xr_id r" "xr_invoiceId ?r = xr_invoiceId r" by (simp_all add: reviewed_def)
  have w: "review_write inp now (r, v) s = ((?r, ?v), ?s)"
    using assms(1) by (simp add: review_write_def orm_save_invoice_def Let_def)
  obtain y s2 where y: "notifyInvestors show_date fault ?r ?v ?s = (y, s2)" by force
  have "s' = s2" using assms(2) y st(1) by (auto simp: review_finish_def w Let_def split: sum.splits)
  then have s': "ex_db s' = ex_db ?s" "ex_requests s' = ex_requests ?s" using notify_frame [OF y] by auto
  then show "ex_db s' = save_invoice ?v (ex_db s)" by (simp add: save_request_def)
  have "ex_requests s' = upsert xr_id ?r (ex_requests s)" using s'(2) by (simp add: save_request_def)
  then show "\<exists>r'. xr_id r' = xr_id r \<and> xr_invoiceId r' = xr_invoiceId r \<and> xr_status r' = ExtAPPROVED \<and>
           ex_requests s' = upsert xr_id r' (ex_requests s)" using st by blast
qed

lemma rejection_writes:
  assumes "\<not> vi_approve inp" "review_finish show_date fault inp now (r, v) s = (x, s')"
  shows "ex_db s' = ex_db s" "ex_requests s' = upsert xr_id (reviewed ExtREJECTED inp now r) (ex_requests s)"
  using assms by (auto simp: review_finish_def review_write_def reviewed_def save_request_def Let_def)

subsection \<open>Pending requests\<close>

text \<open>Calls that do not overlap; a new row has an unused identifier.\<close>

datatype extension_call =
    Ask extension_input string int
  | Review "int \<Rightarrow> string" "error option" review_input int

fun extension_step :: "ext_state \<Rightarrow> extension_call \<Rightarrow> ext_state" where
  "extension_step s (Ask inp x now) =
     (if x \<in> xr_id ` set (ex_requests s) then s else snd (requestExtension inp x now s))"
| "extension_step s (Review show_date fault inp now) = snd (reviewExtension show_date fault inp now s)"

definition one_pending :: "ext_state \<Rightarrow> bool" where
  "one_pending s \<longleftrightarrow> distinct (map xr_id (ex_requests s)) \<and>
     (\<forall>r \<in> set (ex_requests s). \<forall>r' \<in> set (ex_requests s).
        xr_status r = ExtPENDING \<and> xr_status r' = ExtPENDING \<and> xr_invoiceId r = xr_invoiceId r' \<longrightarrow> r = r')"

lemma one_pending_decided:
  assumes "one_pending s" "ex_requests s' = upsert xr_id r (ex_requests s)" "xr_status r \<noteq> ExtPENDING"
  shows "one_pending s'"
proof -
  have "r' \<in> set (ex_requests s) \<or> r' = r" if "r' \<in> set (ex_requests s')" for r'
    using that assms(2) in_upsertD [of r' xr_id r "ex_requests s"] by auto
  then show ?thesis using assms distinct_upsert [of xr_id "ex_requests s" r]
    unfolding one_pending_def assms(2) by metis
qed

lemma one_pending_step: "one_pending s \<Longrightarrow> one_pending (extension_step s c)"
proof (cases c)
  case (Ask inp x now)
  assume p: "one_pending s"
  show ?thesis
  proof (cases "x \<in> xr_id ` set (ex_requests s)")
    case False
    show ?thesis
    proof (cases "request_check inp x now s")
      case (Inr r)
      then have r: "xr_id r = x" "xr_invoiceId r = xi_invoiceId inp"
        "\<not> (\<exists>r' \<in> set (ex_requests s). xr_invoiceId r' = xi_invoiceId inp \<and> xr_status r' = ExtPENDING)"
        by (auto simp: request_check_def split: option.splits if_splits)
      have "ex_requests (extension_step s c) = ex_requests s @ [r]"
        using Ask Inr r(1) False upsert_new [of xr_id r "ex_requests s"]
        by (simp add: requestExtension_def save_request_def)
      then show ?thesis using p r False by (auto simp: one_pending_def)
    qed (use Ask p in \<open>simp add: requestExtension_def\<close>)
  qed (use Ask p in simp)
next
  case (Review show_date fault inp now)
  assume p: "one_pending s"
  show ?thesis
  proof (cases "review_read inp s")
    case (Inr q)
    obtain r v where q: "q = (r, v)" by (cases q)
    obtain x s' where x: "review_finish show_date fault inp now (r, v) s = (x, s')" by force
    have s': "extension_step s c = s'" using Review Inr q x by (simp add: reviewExtension_def)
    show ?thesis
    proof (cases "vi_approve inp")
      case True
      then show ?thesis using approval_writes(2) [OF True x] one_pending_decided [OF p] s' by force
    next
      case False
      then show ?thesis using rejection_writes(2) [OF False x] one_pending_decided [OF p] s' by (force simp: reviewed_def)
    qed
  qed (use Review p in \<open>simp add: reviewExtension_def\<close>)
qed

interpretation extension: step_invariant extension_step one_pending
  by unfold_locales (rule one_pending_step)

text \<open>As long as calls to request and to review an extension do not overlap, no invoice has
  two pending requests, and no request identifier is used twice.\<close>

theorem one_pending_request_per_invoice:
  assumes "one_pending s"
  shows "one_pending (foldl extension_step s calls)"
  by (rule extension.run_inv [OF assms])

definition ask_sample :: extension_input where
  "ask_sample = \<lparr>xi_invoiceId = ''i1'', xi_sellerId = ''s1'', xi_proposedDeadline = Some 9000, xi_reason = None\<rparr>"

definition ext_start :: ext_state where
  "ext_start = \<lparr>ex_db = fresh_db [due_invoice], ex_requests = [], ex_notices = []\<rparr>"

theorem one_pending_request_per_invoice_witness:
  "length (ex_requests (foldl extension_step ext_start [Ask ask_sample ''x1'' 10, Ask ask_sample ''x2'' 20])) = 1 \<and>
   one_pending (foldl extension_step ext_start [Ask ask_sample ''x1'' 10, Ask ask_sample ''x2'' 20])"
proof -
  have "one_pending ext_start" by (simp add: one_pending_def ext_start_def)
  from one_pending_request_per_invoice [OF this]
  have p: "one_pending (foldl extension_step ext_start [Ask ask_sample ''x1'' 10, Ask ask_sample ''x2'' 20])" .
  have "length (ex_requests (foldl extension_step ext_start [Ask ask_sample ''x1'' 10, Ask ask_sample ''x2'' 20])) = 1"
    by (simp add: ext_start_def requestExtension_def request_check_def save_request_def ask_sample_def fresh_db_def
        due_invoice_def sample_invoice_def EXTENSION_BLOCKED_STATUSES_def)
  with p show ?thesis by blast
qed

end
