(* ===== verification/Extension_Steps.thy ===== *)
theory Extension_Steps
  imports Invoice_Extension
begin

section \<open>Where extensions and the maturity job cross\<close>

text \<open>
  A review reads the invoice and saves all of it later; the maturity job reads the deadlines when
  it looks for matured invoices and does not read them again when it fails one. Both orders of the
  two lose something.
\<close>

subsection \<open>An approval saves a stale invoice\<close>

text \<open>What the approval leaves of an invoice that another transaction has changed in between: the
  row as it was read, with the new deadline.\<close>

lemma approval_overwrites:
  assumes "review_read inp s = Inr (r, v)" "vi_approve inp" "keyed (ex_db s)"
    and "review_finish show_date fault inp now (r, v) (s\<lparr>ex_db := d\<rparr>) = (x, s')"
  shows "invoices (ex_db s') (vi_invoiceId inp) =
     Some (v\<lparr>iv_fundingDeadline := Some (xr_proposedDeadline r), iv_version := iv_version v + 1\<rparr>)"
    and "history (ex_db s') = history d"
proof -
  have "iv_id v = vi_invoiceId inp" using review_read_found(5) [OF assms(1)] assms(3) by (auto simp: keyed_def)
  then show "invoices (ex_db s') (vi_invoiceId inp) =
     Some (v\<lparr>iv_fundingDeadline := Some (xr_proposedDeadline r), iv_version := iv_version v + 1\<rparr>)"
    "history (ex_db s') = history d"
    using approval_writes(1) [OF assms(2,4)] by (simp_all add: frame_simps)
qed

lemma mark_history:
  assumes "markUnderfunded i now ref d = Inr (Some t, d')"
  shows "\<exists>v. invoices d i = Some v \<and> iv_status v = PUBLISHED \<and>
     history d' = history d @ [history_entry v FAILED maturity_actor ''maturity_underfunded'' (trimmed_reason maturity_context)]"
proof (cases "invoices d i")
  case (Some v)
  then obtain t' d2 where "iv_status v = PUBLISHED" and t: "transition entityManagerTransitionStore v FAILED maturity_actor
      ''maturity_underfunded'' maturity_context now ref d = Inr (t', d2)" "d2 = d'"
    using assms by (auto simp: markUnderfunded_def result_simps split: if_splits)
  have "history d2 = history d @ [history_entry v FAILED maturity_actor ''maturity_underfunded'' (trimmed_reason maturity_context)]"
    by (subst transition_effect(3) [OF t(1)]) simp
  then show ?thesis using Some t(2) \<open>iv_status v = PUBLISHED\<close> by simp
qed (use assms in \<open>simp add: markUnderfunded_def\<close>)

text \<open>C24: an approval that crosses a tick of the maturity job brings a failed invoice back: the
  review has read the published row, the job fails the invoice, and the approval saves the row it
  has read. The invoice is published again with the new deadline, its seller and its history have
  been told that it failed, and the history no longer leads to the status of the row.\<close>

theorem approval_revives_failed_invoice:
  assumes "review_read inp s = Inr (r, v)" "vi_approve inp" "trail_ok (ex_db s)" "iv_status v = PUBLISHED"
    and "markUnderfunded (vi_invoiceId inp) t0 ref (ex_db s) = Inr (Some t, d)"
    and "review_finish show_date fault inp now (r, v) (s\<lparr>ex_db := d\<rparr>) = (x, s')"
  shows "status_at d (vi_invoiceId inp) = Some FAILED \<and> status_at (ex_db s') (vi_invoiceId inp) = Some PUBLISHED \<and>
     map_option iv_fundingDeadline (invoices (ex_db s') (vi_invoiceId inp)) = Some (Some (xr_proposedDeadline r)) \<and>
     h_to (last (history (ex_db s'))) = FAILED \<and> \<not> trail_ok (ex_db s')"
proof -
  let ?i = "vi_invoiceId inp"
  have k: "keyed (ex_db s)" by (rule trail_keyed [OF assms(3)])
  have row: "invoices (ex_db s) ?i = Some v" "iv_id v = ?i"
    using review_read_found(5) [OF assms(1)] k by (auto simp: keyed_def)
  have failed: "status_at d ?i = Some FAILED"
    using mark_cases [OF assms(5) k] by (auto simp: underfunded_only_def)
  have h: "history d = history (ex_db s) @ [history_entry v FAILED maturity_actor ''maturity_underfunded'' (trimmed_reason maturity_context)]"
    using mark_history [OF assms(5)] row by simp
  note w = approval_overwrites [OF assms(1,2) k assms(6)]
  have "entries_of ?i (ex_db s') = entries_of ?i (ex_db s) @ [history_entry v FAILED maturity_actor ''maturity_underfunded'' (trimmed_reason maturity_context)]"
    using h w(2) row(2) by (simp add: entries_of_def history_entry_def)
  moreover have "follow DRAFT (entries_of ?i (ex_db s)) = Some PUBLISHED" using assms(3,4) row by (simp add: trail_ok_def)
  ultimately have "follow DRAFT (entries_of ?i (ex_db s')) \<noteq> Some PUBLISHED"
    by (simp add: follow_append history_entry_def)
  then have "\<not> trail_ok (ex_db s')" using w(1) assms(4) unfolding trail_ok_def by fastforce
  then show ?thesis using failed w h assms(4) by (simp add: status_at_def history_entry_def)
qed

definition published_entry :: status_history where
  "published_entry = \<lparr>h_invoiceId = ''i1'', h_from = DRAFT, h_to = PUBLISHED, h_role = Seller, h_actorId = Some ''s1'',
     h_trigger = ''seller_published'', h_reason = None\<rparr>"

definition pending_request :: extension_request where
  "pending_request = \<lparr>xr_id = ''x1'', xr_invoiceId = ''i1'', xr_requestedBy = ''s1'', xr_proposedDeadline = 5000,
     xr_previousDeadline = None, xr_reason = None, xr_status = ExtPENDING, xr_reviewedBy = None, xr_reviewedAt = None,
     xr_reviewNote = None\<rparr>"

definition extension_sample :: ext_state where
  "extension_sample = \<lparr>ex_db = (fresh_db [due_invoice])\<lparr>history := [published_entry]\<rparr>,
     ex_requests = [pending_request], ex_notices = []\<rparr>"

definition approve_sample :: review_input where
  "approve_sample = \<lparr>vi_invoiceId = ''i1'', vi_requestId = ''x1'', vi_approve = True, vi_reviewedBy = ''adm'', vi_reviewNote = None\<rparr>"

lemma extension_facts:
  "review_read approve_sample extension_sample = Inr (pending_request, due_invoice)"
  "trail_ok (ex_db extension_sample)" "invoices (ex_db extension_sample) ''i1'' = Some due_invoice"
  "vi_approve approve_sample" "vi_invoiceId approve_sample = ''i1''"
proof -
  show i: "invoices (ex_db extension_sample) ''i1'' = Some due_invoice"
    by (simp add: extension_sample_def fresh_db_def due_facts)
  then show "review_read approve_sample extension_sample = Inr (pending_request, due_invoice)"
    by (simp add: review_read_def approve_sample_def extension_sample_def pending_request_def EXTENSION_BLOCKED_STATUSES_def due_facts)
  have "findRule DRAFT PUBLISHED \<noteq> None" by (simp add: findRule_def rule_table)
  then show "trail_ok (ex_db extension_sample)"
    by (auto simp: trail_ok_def extension_sample_def fresh_db_def due_facts entries_of_def published_entry_def split: if_splits)
qed (simp_all add: approve_sample_def)

theorem approval_revives_failed_invoice_witness:
  "\<exists>t d s'. markUnderfunded ''i1'' 0 0 (ex_db extension_sample) = Inr (Some t, d) \<and>
     s' = snd (review_finish (\<lambda>t. []) None approve_sample 3000 (pending_request, due_invoice) (extension_sample\<lparr>ex_db := d\<rparr>)) \<and>
     status_at d ''i1'' = Some FAILED \<and> status_at (ex_db s') ''i1'' = Some PUBLISHED"
proof -
  obtain t d where t: "markUnderfunded ''i1'' 0 0 (ex_db extension_sample) = Inr (Some t, d)"
    using underfunded_marked [OF extension_facts(3) trail_keyed [OF extension_facts(2)] due_facts(4,6)] by blast
  obtain x s' where x: "review_finish (\<lambda>t. []) None approve_sample 3000 (pending_request, due_invoice) (extension_sample\<lparr>ex_db := d\<rparr>) = (x, s')"
    by force
  from approval_revives_failed_invoice [OF extension_facts(1,4,2) due_facts(4) _ x, unfolded extension_facts(5), OF t] t x
  show ?thesis by auto
qed

subsection \<open>An approval the job does not see\<close>

text \<open>A row the tick has found is failed even when its deadline has been extended since.\<close>

lemma approved_deadline_is_overruled:
  assumes "reviewExtension show_date fault inp now s = (Inr (r, w), s')" "vi_approve inp" "keyed (ex_db s)"
    and "invoices (ex_db s) (vi_invoiceId inp) = Some v" "iv_status v = PUBLISHED" "iv_fundedAmount v < iv_netAmount v"
  shows "\<exists>t d. markUnderfunded (vi_invoiceId inp) t0 ref (ex_db s') = Inr (Some t, d) \<and>
     status_at d (vi_invoiceId inp) = Some FAILED"
proof -
  obtain p where p: "review_read inp s = Inr p" and f: "review_finish show_date fault inp now p s = (Inr (r, w), s')"
    using assms(1) by (auto simp: reviewExtension_def split: sum.splits)
  obtain q u where q: "p = (q, u)" by (cases p)
  have u: "u = v" using review_read_found(5) [OF p [unfolded q]] assms(4) by simp
  have id: "iv_id v = vi_invoiceId inp" using assms(3,4) by (auto simp: keyed_def)
  have d: "ex_db s' = save_invoice (v\<lparr>iv_fundingDeadline := Some (xr_proposedDeadline q), iv_version := iv_version v + 1\<rparr>) (ex_db s)"
    using approval_writes(1) [OF assms(2) f [unfolded q u]] .
  have "keyed (ex_db s')" using assms(3) id by (auto simp: d keyed_def frame_simps)
  moreover have "invoices (ex_db s') (vi_invoiceId inp) =
      Some (v\<lparr>iv_fundingDeadline := Some (xr_proposedDeadline q), iv_version := iv_version v + 1\<rparr>)"
    using id by (simp add: d frame_simps)
  ultimately show ?thesis using underfunded_marked [of "ex_db s'" "vi_invoiceId inp" _ t0 ref] assms(5,6)
    unfolding underfunded_only_def by fastforce
qed

text \<open>An invoice that has failed is not among the blocked statuses: its extension is approved and
  its investors are told of a new deadline.\<close>

lemma failed_invoice_is_extended:
  assumes "review_read (inp\<lparr>vi_approve := False\<rparr>) s = Inr (r, v)" "vi_approve inp" "iv_status v = FAILED"
    and "unique (map im_investorId (filter (\<lambda>m. im_invoiceId m = iv_id v) (investments (ex_db s)))) = us" "us \<noteq> []"
  shows "\<exists>r' v' s'. reviewExtension show_date None inp now s = (Inr (r', v'), s') \<and> xr_status r' = ExtAPPROVED \<and>
     iv_status v' = FAILED \<and> ex_notices s' = ex_notices s @ map (notice_of show_date r' v') us"
proof -
  have "review_read inp s = Inr (r, v)" using assms(1-3)
    by (auto simp: review_read_def EXTENSION_BLOCKED_STATUSES_def split: option.splits if_splits)
  then show ?thesis using assms(2-5)
    by (auto simp: reviewExtension_def review_finish_def review_write_def notifyInvestors_def reviewed_def save_request_def
        orm_save_invoice_def frame_simps Let_def)
qed

subsection \<open>Requests that overlap\<close>

text \<open>Two requests that both read before either has saved leave two pending rows.\<close>

lemma racing_requests_leave_two_pending:
  assumes "request_check inp x now s = Inr r" "request_check inp' y now' s = Inr r'"
    and "xi_invoiceId inp' = xi_invoiceId inp" "x \<noteq> y"
  shows "\<not> one_pending (save_request r' (save_request r s))"
proof -
  have r: "xr_id r = x" "xr_invoiceId r = xi_invoiceId inp" "xr_status r = ExtPENDING"
    and r': "xr_id r' = y" "xr_invoiceId r' = xi_invoiceId inp'" "xr_status r' = ExtPENDING"
    using assms(1,2) by (auto simp: request_check_def split: option.splits if_splits)
  have "r \<in> set (upsert xr_id r (ex_requests s))" by (rule set_upsert)
  then have m: "r \<in> set (upsert xr_id r' (upsert xr_id r (ex_requests s)))"
    using r(1) r'(1) assms(4) by (simp add: kept_in_upsert)
  show ?thesis
  proof
    assume "one_pending (save_request r' (save_request r s))"
    then have "r = r'" using m set_upsert [of r' xr_id "upsert xr_id r (ex_requests s)"] r r' assms(3)
      unfolding one_pending_def save_request_def by simp
    then show False using r(1) r'(1) assms(4) by simp
  qed
qed

end
