(* ===== verification/Funding.thy ===== *)
theory Funding
  imports Payment_Steps Keyset
begin

section \<open>Preparing the funding of an investment\<close>

text \<open>
  \<open>src/services/stellar/orchestrate-investment-funding.service.ts\<close>: a draft transaction is prepared
  by the escrow client, which is an argument, and a pending transaction row is recorded. The readers
  named \<open>ForUpdate\<close> are plain \<open>findOne\<close> calls, so the recording is a read step and a save step, between
  which other transactions may commit.
\<close>

record funding_draft =
  fd_contractId :: string
  fd_xdr :: string
  fd_expiresAt :: string
  fd_txHash :: string

record funding_input =
  fi_investmentId :: string
  fi_invoiceId :: string
  fi_investorId :: string
  fi_amount :: amt

record funding_config =
  fc_enabled :: bool
  fc_contractId :: "string option"

type_synonym escrow_client = "funding_input \<Rightarrow> funding_draft result"

datatype funding_result =
    FundingDisabled string string
  | WalletXdr string string string funding_draft string

text \<open>The checks before the client is asked: an investment to prepare, or the answer when funding
  through the contract is disabled.\<close>

definition funding_check :: "funding_config \<Rightarrow> string \<Rightarrow> pay_db \<Rightarrow> (funding_result + investment \<times> string) result" where
  "funding_check cfg i d =
     and_then (find_held i d) (\<lambda>m.
       if im_status m \<noteq> InvPENDING then Inl (ServiceError ''invalid_investment_state'' 409)
       else if im_invoiceId m = [] then Inl (ServiceError ''invoice_not_found'' 409)
       else if \<not> fc_enabled cfg then Inr (Inl (FundingDisabled (im_id m) (im_invoiceId m)))
       else (case fc_contractId cfg of
               None \<Rightarrow> Inl (ServiceError ''soroban_contract_not_configured'' 500)
             | Some c \<Rightarrow> if c = [] then Inl (ServiceError ''soroban_contract_not_configured'' 500)
                         else Inr (Inr (m, c))))"

definition draft_input :: "investment \<Rightarrow> funding_input" where
  "draft_input m = \<lparr>fi_investmentId = im_id m, fi_invoiceId = im_invoiceId m, fi_investorId = im_investorId m,
     fi_amount = im_amount m\<rparr>"

text \<open>The newest transaction row of the investment.\<close>

definition newest_row :: "string \<Rightarrow> tx_row list \<Rightarrow> tx_row option" where
  "newest_row i rows =
     (case isort_by (\<lambda>a b. tr_timestamp b < tr_timestamp a)
             (filter (\<lambda>r. tr_investmentId r = Some i \<and> tr_type r = TxINVESTMENT) rows) of
        [] \<Rightarrow> None | r # rs \<Rightarrow> Some r)"

definition funding_load :: "string \<Rightarrow> pay_db \<Rightarrow> (investment \<times> tx_row option) result" where
  "funding_load i d = and_then (find_held i d) (\<lambda>m. Inr (m, newest_row (im_id m) (py_rows d)))"

definition pending_row :: "string \<Rightarrow> int \<Rightarrow> investment \<Rightarrow> tx_row option \<Rightarrow> tx_row" where
  "pending_row new_id now m row =
     (let r = (case row of
                 Some r \<Rightarrow> r
               | None \<Rightarrow> \<lparr>tr_id = new_id, tr_userId = im_investorId m, tr_investmentId = Some (im_id m),
                          tr_invoiceId = Some (im_invoiceId m), tr_type = TxINVESTMENT, tr_amount = im_amount m,
                          tr_hash = None, tr_op = None, tr_status = TxPENDING, tr_timestamp = now\<rparr>)
      in r\<lparr>tr_userId := im_investorId m, tr_invoiceId := Some (im_invoiceId m), tr_investmentId := Some (im_id m),
           tr_type := TxINVESTMENT, tr_amount := im_amount m, tr_status := TxPENDING\<rparr>)"

definition funding_save ::
    "string \<Rightarrow> int \<Rightarrow> string \<Rightarrow> funding_draft \<Rightarrow> investment \<Rightarrow> tx_row option \<Rightarrow> pay_db \<Rightarrow> error + (funding_result \<times> pay_db)" where
  "funding_save new_id now contract draft m row d =
     and_then (sanitizeTransactionData (pending_row new_id now m row)) (\<lambda>r.
       Inr (WalletXdr (im_id m) (im_invoiceId m) (tr_id r) draft contract, d\<lparr>py_rows := upsert tr_id r (py_rows d)\<rparr>))"

definition orchestrateFunding ::
    "funding_config \<Rightarrow> escrow_client \<Rightarrow> string \<Rightarrow> int \<Rightarrow> string \<Rightarrow> pay_db \<Rightarrow> funding_result result \<times> pay_db" where
  "orchestrateFunding cfg client new_id now i d =
     (case funding_check cfg i d of
        Inl e \<Rightarrow> (Inl e, d)
      | Inr (Inl r) \<Rightarrow> (Inr r, d)
      | Inr (Inr (m, contract)) \<Rightarrow>
          (case client (draft_input m) of
             Inl e \<Rightarrow> (Inl e, d)
           | Inr draft \<Rightarrow>
               run_tx (\<lambda>d. and_then (funding_load (im_id m) d) (\<lambda>(m', row). funding_save new_id now contract draft m' row d)) d))"

subsection \<open>One row per investment\<close>

definition linked_rows :: "string \<Rightarrow> pay_db \<Rightarrow> tx_row list" where
  "linked_rows i d = filter (\<lambda>r. tr_investmentId r = Some i) (py_rows d)"

lemma first_of_sorted:
  "(case isort_by lt xs of [] \<Rightarrow> None | r # rs \<Rightarrow> Some r) = Some x \<Longrightarrow> x \<in> set xs"
  "(case isort_by lt xs of [] \<Rightarrow> None | r # rs \<Rightarrow> Some r) = None \<longleftrightarrow> xs = []"
proof -
  have s: "set (isort_by lt xs) = set xs" by simp
  show "(case isort_by lt xs of [] \<Rightarrow> None | r # rs \<Rightarrow> Some r) = Some x \<Longrightarrow> x \<in> set xs"
    unfolding s [symmetric] by (auto split: list.splits simp del: set_isort_by)
  show "(case isort_by lt xs of [] \<Rightarrow> None | r # rs \<Rightarrow> Some r) = None \<longleftrightarrow> xs = []"
    using s by (cases "isort_by lt xs") auto
qed

lemma newest_row_mem: "newest_row i rows = Some r \<Longrightarrow> r \<in> set rows \<and> tr_investmentId r = Some i \<and> tr_type r = TxINVESTMENT"
  unfolding newest_row_def by (drule first_of_sorted(1)) simp

lemma newest_row_none: "newest_row i rows = None \<longleftrightarrow> (\<forall>r \<in> set rows. tr_investmentId r = Some i \<longrightarrow> tr_type r \<noteq> TxINVESTMENT)"
  by (simp add: newest_row_def first_of_sorted(2) filter_empty_conv)

lemma pending_row_facts:
  "tr_investmentId (pending_row x now m row) = Some (im_id m)" "tr_type (pending_row x now m row) = TxINVESTMENT"
  "tr_status (pending_row x now m row) = TxPENDING" "tr_amount (pending_row x now m row) = im_amount m"
  "tr_id (pending_row x now m row) = (case row of None \<Rightarrow> x | Some r \<Rightarrow> tr_id r)"
  by (simp_all add: pending_row_def Let_def split: option.splits)

lemma saved_row:
  assumes "funding_save x now c draft m row d = Inr (res, d')"
  shows "\<exists>r. tr_id r = (case row of None \<Rightarrow> x | Some r \<Rightarrow> tr_id r) \<and> tr_investmentId r = Some (im_id m) \<and> tr_status r = TxPENDING \<and>
     tr_amount r = im_amount m \<and> tr_type r = TxINVESTMENT \<and> d' = d\<lparr>py_rows := upsert tr_id r (py_rows d)\<rparr>"
proof -
  obtain r where r: "sanitizeTransactionData (pending_row x now m row) = Inr r" "d' = d\<lparr>py_rows := upsert tr_id r (py_rows d)\<rparr>"
    using assms by (auto simp: funding_save_def result_simps)
  then obtain h where "r = (pending_row x now m row)\<lparr>tr_hash := h\<rparr>"
    by (auto simp: sanitizeTransactionData_def split: if_splits)
  then show ?thesis using r(2) by (intro exI [of _ r]) (simp add: pending_row_facts)
qed

lemma upsert_linked:
  assumes "distinct (map tr_id rows)" "tr_investmentId r = Some i"
  shows "{t \<in> set (upsert tr_id r rows). tr_investmentId t = Some i} =
     insert r {t \<in> set rows. tr_investmentId t = Some i \<and> tr_id t \<noteq> tr_id r}"
  using assms by (auto simp: set_upsert_distinct)

subsection \<open>Funding and verification together\<close>

text \<open>A verification that commits while the escrow client is being asked is undone in the
  transactions: the recording does not look at the status of the investment again and sets the newest
  row back to pending, so the investment is confirmed while every transaction of it is pending.\<close>

theorem funding_reopens_completed_transaction:
  assumes "verify_load inp p d = Inr (Inr (m, row))" "verify_commit x now inp p m row d = Inr (r, d1)"
    and "distinct (map tr_id (py_rows d))" "x \<notin> tr_id ` set (py_rows d)"
    and "run_tx (\<lambda>d. and_then (funding_load (im_id m) d) (\<lambda>(m', row). funding_save y now' c draft m' row d)) d1 = (Inr res, d2)"
  shows "(\<exists>t \<in> set (linked_rows (im_id m) d1). tr_status t = TxCOMPLETED) \<and>
     (\<exists>h. find_held (im_id m) d2 = Inr h \<and> im_status h = InvCONFIRMED) \<and>
     linked_rows (im_id m) d2 \<noteq> [] \<and> (\<forall>t \<in> set (linked_rows (im_id m) d2). tr_status t = TxPENDING)"
proof -
  note l = loaded [OF assms(1)] and w = committed [OF assms(2)]
  obtain t where t: "sanitizeTransactionData (completed_row x now inp p m row) = Inr t" and d1: "py_rows d1 = upsert tr_id t (py_rows d)"
    using assms(2) by (auto simp: verify_commit_def claimPayment_def result_simps split: option.splits if_splits)
  have tf: "tr_investmentId t = Some (im_id m)" "tr_type t = TxINVESTMENT" "tr_status t = TxCOMPLETED"
    "tr_id t = (case row of None \<Rightarrow> x | Some r \<Rightarrow> tr_id r)"
    using t by (auto simp: sanitizeTransactionData_def completed_row_def split: if_splits option.splits)
  have old: "u \<in> set (py_rows d) \<Longrightarrow> tr_investmentId u = Some (im_id m) \<Longrightarrow> tr_id u = tr_id t" for u
  proof -
    assume u: "u \<in> set (py_rows d)" "tr_investmentId u = Some (im_id m)"
    then have "u \<in> set (filter (\<lambda>r. tr_investmentId r = Some (im_id m)) (py_rows d))" by simp
    then have "linked_rows (im_id m) d \<noteq> []" "u \<in> set (linked_rows (im_id m) d)" by (auto simp: linked_rows_def filter_empty_conv)
    then obtain a where "row = Some a" "linked_rows (im_id m) d = [a]" using l(5,6) unfolding linked_rows_def by blast
    then show "tr_id u = tr_id t" using tf(4) \<open>u \<in> set (linked_rows (im_id m) d)\<close> by simp
  qed
  have dist1: "distinct (map tr_id (py_rows d1))" unfolding d1 by (rule distinct_upsert [OF assms(3)])
  have only: "{u \<in> set (py_rows d1). tr_investmentId u = Some (im_id m)} = {t}"
    unfolding d1 upsert_linked [OF assms(3) tf(1)] using old by auto
  obtain m' row' where f: "funding_load (im_id m) d1 = Inr (m', row')" "funding_save y now' c draft m' row' d1 = Inr (res, d2)"
    using assms(5) by (auto simp: result_simps)
  have held: "find_held (im_id m) d1 = Inr (confirmed inp p m)"
    using find_saved_row [of im_id "confirmed inp p m" "im_id m" "investments (py_db d)"] w(4)
    by (simp add: find_held_def frame_simps confirmed_def)
  have m': "m' = confirmed inp p m" "row' = newest_row (im_id m) (py_rows d1)"
    using f(1) held by (auto simp: funding_load_def confirmed_def)
  have "row' = Some t"
  proof (cases row')
    case None
    then show ?thesis using m'(2) newest_row_none [of "im_id m" "py_rows d1"] only tf(2) by auto
  next
    case (Some u)
    then show ?thesis using m'(2) newest_row_mem [of "im_id m" "py_rows d1" u] only by auto
  qed
  then obtain r' where r': "tr_id r' = tr_id t" "tr_investmentId r' = Some (im_id m)" "tr_status r' = TxPENDING"
    "d2 = d1\<lparr>py_rows := upsert tr_id r' (py_rows d1)\<rparr>"
    using saved_row [OF f(2)] m'(1) by (auto simp: confirmed_def)
  have "{u \<in> set (py_rows d2). tr_investmentId u = Some (im_id m)} = insert r' {u \<in> set (py_rows d1). tr_investmentId u = Some (im_id m) \<and> tr_id u \<noteq> tr_id r'}"
    using upsert_linked [OF dist1 r'(2)] r'(4) by simp
  also have "\<dots> = {r'}" using only r'(1) by auto
  finally have rows2: "set (linked_rows (im_id m) d2) = {r'}" by (simp add: linked_rows_def)
  have "set (linked_rows (im_id m) d1) = {t}" using only by (simp add: linked_rows_def)
  moreover have "find_held (im_id m) d2 = Inr (confirmed inp p m)" using held r'(4) by (simp add: find_held_def)
  moreover have "linked_rows (im_id m) d2 \<noteq> []" using rows2 by auto
  ultimately show ?thesis using rows2 r'(3) tf(3) by (auto simp: confirmed_def)
qed

lemma two_rows_refused:
  assumes "find_held i d = Inr m" "im_id m = i" "vi_investmentId inp = i" "length (linked_rows i d) > 1"
  shows "\<exists>e. verify_load inp p d = Inl e"
  using assms by (simp add: verify_load_def linked_rows_def Let_def)

lemma refused_load_fails_verification:
  assumes "verify_check inp d = Inr (Inr m)" "\<And>p. \<exists>e. verify_load inp p d = Inl e"
  shows "\<exists>e. verifyPayment cfg ta oa z t inp d = (Inl e, d)"
proof (cases "fetchAndValidatePayment cfg ta oa (im_amount m) (im_wallet m) (vi_op inp)")
  case (Inl e)
  then show ?thesis using assms(1) by (simp add: verifyPayment_def run_tx_def)
next
  case (Inr p)
  obtain e where "verify_load inp p d = Inl e" using assms(2) by blast
  then show ?thesis using assms(1) Inr by (simp add: verifyPayment_def run_tx_def)
qed

text \<open>C20: two fundings of one investment that both look for a row before either has saved one leave
  two rows, and from then on no verification of the investment succeeds, whatever was paid.\<close>

theorem racing_fundings_block_verification:
  assumes "funding_load i d = Inr (m, None)" "linked_rows i d = []" "im_status m = InvPENDING" "0 \<le> im_amount m"
    and "x \<noteq> y" "x \<notin> tr_id ` set (py_rows d)" "y \<notin> tr_id ` set (py_rows d)" "vi_investmentId inp = i"
  shows "\<exists>r1 d1 r2 d2. funding_save x now c draft m None d = Inr (r1, d1) \<and> funding_save y now' c' draft' m None d1 = Inr (r2, d2) \<and>
     length (linked_rows i d2) = 2 \<and> (\<exists>e. verifyPayment cfg ta oa z t inp d2 = (Inl e, d2))"
proof -
  have held: "find_held i d = Inr m" using assms(1) by (auto simp: funding_load_def result_simps)
  then have id: "im_id m = i" by (auto simp: find_held_def split: option.splits dest!: find_SomeD)
  obtain r1 where r1: "funding_save x now c draft m None d = Inr (r1, d\<lparr>py_rows := py_rows d @ [pending_row x now m None]\<rparr>)"
    using assms(4,6) by (simp add: funding_save_def sanitizeTransactionData_def pending_row_def Let_def upsert_new)
  let ?d1 = "d\<lparr>py_rows := py_rows d @ [pending_row x now m None]\<rparr>"
  have "y \<notin> tr_id ` set (py_rows ?d1)" using assms(5,7) by (auto simp: pending_row_facts)
  then obtain r2 where r2: "funding_save y now' c' draft' m None ?d1 = Inr (r2, ?d1\<lparr>py_rows := py_rows ?d1 @ [pending_row y now' m None]\<rparr>)"
    using assms(4) by (simp add: funding_save_def sanitizeTransactionData_def pending_row_def Let_def upsert_new)
  let ?d2 = "?d1\<lparr>py_rows := py_rows ?d1 @ [pending_row y now' m None]\<rparr>"
  have two: "linked_rows i ?d2 = [pending_row x now m None, pending_row y now' m None]"
    using assms(2) id by (simp add: linked_rows_def pending_row_facts)
  have held2: "find_held i ?d2 = Inr m" using held by (simp add: find_held_def)
  have "verify_check inp ?d2 = Inr (Inr m)" using held2 assms(3,8) by (simp add: verify_check_def)
  moreover have "\<exists>e. verify_load inp p ?d2 = Inl e" for p
    by (rule two_rows_refused [OF held2 id assms(8)], subst two, simp)
  ultimately have "\<exists>e. verifyPayment cfg ta oa z t inp ?d2 = (Inl e, ?d2)" by (rule refused_load_fails_verification)
  then show ?thesis using r1 r2 two by fastforce
qed

definition sample_draft :: funding_draft where
  "sample_draft = \<lparr>fd_contractId = ''C'', fd_xdr = ''AAAA'', fd_expiresAt = ''2026'', fd_txHash = ''h''\<rparr>"

theorem racing_fundings_block_verification_witness:
  "\<exists>r1 d1 r2 d2. funding_save ''t1'' 1 ''C'' sample_draft sample_waiting None (waiting_db InvPENDING) = Inr (r1, d1) \<and>
     funding_save ''t2'' 2 ''C'' sample_draft sample_waiting None d1 = Inr (r2, d2) \<and> length (linked_rows ''m1'' d2) = 2 \<and>
     (\<exists>e. verifyPayment sample_config (always sample_tx) (always sample_ops) ''t3'' 5 sample_verify d2 = (Inl e, d2))"
proof -
  have "funding_load ''m1'' (waiting_db InvPENDING) = Inr (sample_waiting, None)"
    by (simp add: funding_load_def find_held_def waiting_db_def holding_def sample_waiting_def newest_row_def)
  from racing_fundings_block_verification [OF this] show ?thesis
    by (simp add: linked_rows_def waiting_db_def sample_waiting_def holding_def sample_verify_def)
qed

theorem funding_reopens_completed_transaction_witness:
  "\<exists>r d1 res d2. verify_commit ''t1'' 5 sample_verify (sample_paid ''100'') sample_waiting None (waiting_db InvPENDING) = Inr (r, d1) \<and>
     run_tx (\<lambda>d. and_then (funding_load ''m1'' d) (\<lambda>(m', row). funding_save ''t2'' 6 ''C'' sample_draft m' row d)) d1 = (Inr res, d2) \<and>
     (\<forall>t \<in> set (linked_rows ''m1'' d2). tr_status t = TxPENDING)"
proof -
  have ld: "verify_load sample_verify (sample_paid ''100'') (waiting_db InvPENDING) = Inr (Inr (sample_waiting, None))"
    using sample_loads [of "''ab''" "''100''"] by (simp add: sample_verify_def)
  obtain r d1 where cm: "verify_commit ''t1'' 5 sample_verify (sample_paid ''100'') sample_waiting None (waiting_db InvPENDING) = Inr (r, d1)"
    by (simp add: verify_commit_def claimPayment_def waiting_db_def sanitizeTransactionData_def completed_row_def sample_waiting_def holding_def)
  have i: "im_id sample_waiting = ''m1''" by (simp add: sample_waiting_def holding_def)
  have h: "find_held ''m1'' d1 = Inr (confirmed sample_verify (sample_paid ''100'') sample_waiting)"
    using find_saved_row [of im_id "confirmed sample_verify (sample_paid ''100'') sample_waiting" "''m1''"] committed(4) [OF cm]
    by (simp add: find_held_def frame_simps confirmed_def i)
  have a: "im_amount (confirmed sample_verify (sample_paid ''100'') sample_waiting) = 1000000"
    by (simp add: confirmed_def sample_waiting_def holding_def)
  obtain row where ld1: "funding_load ''m1'' d1 = Inr (confirmed sample_verify (sample_paid ''100'') sample_waiting, row)"
    using h by (auto simp: funding_load_def)
  have "\<exists>p. funding_save ''t2'' 6 ''C'' sample_draft (confirmed sample_verify (sample_paid ''100'') sample_waiting) row d1 = Inr p"
    by (simp add: funding_save_def sanitizeTransactionData_def pending_row_facts a)
  then obtain res d2 where rn: "run_tx (\<lambda>d. and_then (funding_load ''m1'' d) (\<lambda>(m', row). funding_save ''t2'' 6 ''C'' sample_draft m' row d)) d1 = (Inr res, d2)"
    using ld1 by (auto simp: run_tx_def)
  from funding_reopens_completed_transaction [OF ld cm _ _ rn [folded i]] show ?thesis
    using cm rn i by (auto simp: waiting_db_def)
qed

end
