(* ===== verification/Auctions.thy ===== *)
theory Auctions
  imports Domain Keyset Ttl_Cache
begin

section \<open>Auctions of invoice fractions\<close>

text \<open>
  \<open>src/services/secondary-auction.service.ts\<close> with its two entities and its two in-process caches
  (\<open>Ttl_Cache.thy\<close>, without Redis). Event amounts are ten-thousandths, as the columns hold them;
  \<open>Number\<close> of such a text is the argument \<open>nu\<close>. The insert of a bid and the update of its auction are
  separate statements without a transaction. Instants stand for their ISO texts.
\<close>

datatype auction_status = AuctionACTIVE | AuctionSETTLED | AuctionCANCELLED

record auction =
  ac_auctionId :: string
  ac_seller :: string
  ac_invoiceId :: "string option"
  ac_status :: auction_status
  ac_highestBid :: amt
  ac_highestBidder :: "string option"
  ac_reservePrice :: amt
  ac_bidCount :: int
  ac_startsAt :: "int option"
  ac_endsAt :: "int option"
  ac_settledAt :: "int option"
  ac_winner :: "string option"
  ac_settlementAmount :: "amt option"
  ac_createdEventId :: "string option"
  ac_updatedAt :: int

record bid =
  bd_auctionId :: string
  bd_bidder :: string
  bd_amount :: amt
  bd_eventId :: "string option"
  bd_placedAt :: int
  bd_createdAt :: int

record auction_view =
  aw_auctionId :: string
  aw_status :: auction_status
  aw_seller :: string
  aw_invoiceId :: "string option"
  aw_highestBid :: amt
  aw_highestBidder :: "string option"
  aw_reservePrice :: amt
  aw_reserveMet :: bool
  aw_bidCount :: int
  aw_startsAt :: "int option"
  aw_endsAt :: "int option"
  aw_settledAt :: "int option"
  aw_winner :: "string option"
  aw_settlementAmount :: "amt option"
  aw_countdownSeconds :: "int option"

record auction_state =
  au_rows :: "auction list"
  au_bids :: "bid list"
  au_active :: "auction_view cache"
  au_settled :: "auction_view cache"

record created_event =
  ce_auctionId :: string
  ce_seller :: string
  ce_invoiceId :: "string option"
  ce_reservePrice :: amt
  ce_startsAt :: "int option"
  ce_endsAt :: "int option"
  ce_eventId :: "string option"
  ce_occurredAt :: "int option"

record bid_event =
  be_auctionId :: string
  be_bidder :: string
  be_amount :: amt
  be_eventId :: "string option"
  be_occurredAt :: "int option"

record settled_event =
  se_auctionId :: string
  se_winner :: "string option"
  se_settlementAmount :: "amt option"
  se_occurredAt :: "int option"

definition ACTIVE_CACHE_TTL_MS :: int where "ACTIVE_CACHE_TTL_MS = 10000"
definition SETTLED_CACHE_TTL_MS :: int where "SETTLED_CACHE_TTL_MS = 300000"

definition view_cache_options :: "string \<Rightarrow> int \<Rightarrow> cache_options" where
  "view_cache_options ns ttl_ms = \<lparr>ttlSeconds = ttl_ms div 1000, maxEntries = DEFAULT_MAX_ENTRIES, namespace = ns,
     enabled = True, sweepIntervalMs = defaultSweepIntervalMs (ttl_ms div 1000)\<rparr>"

definition active_cache :: cache_options where
  "active_cache = view_cache_options ''secondary-auction-active'' ACTIVE_CACHE_TTL_MS"

definition settled_cache :: cache_options where
  "settled_cache = view_cache_options ''secondary-auction-settled'' SETTLED_CACHE_TTL_MS"

definition invalidate :: "string \<Rightarrow> auction_state \<Rightarrow> auction_state" where
  "invalidate i s = s\<lparr>au_active := cache_delete active_cache i (au_active s),
     au_settled := cache_delete settled_cache i (au_settled s)\<rparr>"

definition find_auction :: "string \<Rightarrow> auction_state \<Rightarrow> auction option" where
  "find_auction i s = find (\<lambda>a. ac_auctionId a = i) (au_rows s)"

definition save_auction :: "int \<Rightarrow> auction \<Rightarrow> auction_state \<Rightarrow> auction_state" where
  "save_auction now a s = s\<lparr>au_rows := upsert ac_auctionId (a\<lparr>ac_updatedAt := now\<rparr>) (au_rows s)\<rparr>"

definition auction_not_found :: error where
  "auction_not_found = ServiceError ''AUCTION_NOT_FOUND'' 404"

subsection \<open>Indexing events\<close>

definition new_auction :: "string \<Rightarrow> auction" where
  "new_auction i = \<lparr>ac_auctionId = i, ac_seller = [], ac_invoiceId = None, ac_status = AuctionACTIVE, ac_highestBid = 0,
     ac_highestBidder = None, ac_reservePrice = 0, ac_bidCount = 0, ac_startsAt = None, ac_endsAt = None,
     ac_settledAt = None, ac_winner = None, ac_settlementAmount = None, ac_createdEventId = None, ac_updatedAt = 0\<rparr>"

definition or_default :: "'a option \<Rightarrow> 'a \<Rightarrow> 'a" where
  "or_default x y = (case x of None \<Rightarrow> y | Some z \<Rightarrow> z)"

definition ingestAuctionCreated :: "created_event \<Rightarrow> int \<Rightarrow> auction_state \<Rightarrow> auction_state" where
  "ingestAuctionCreated ev now s =
     (let row = (case find_auction (ce_auctionId ev) s of None \<Rightarrow> new_auction (ce_auctionId ev) | Some a \<Rightarrow> a);
          row' = row\<lparr>ac_seller := ce_seller ev, ac_invoiceId := ce_invoiceId ev, ac_reservePrice := ce_reservePrice ev,
                     ac_startsAt := Some (or_default (ce_startsAt ev) (or_default (ce_occurredAt ev) now)),
                     ac_endsAt := ce_endsAt ev,
                     ac_createdEventId := (if truthy (ce_eventId ev) then ce_eventId ev else ac_createdEventId row)\<rparr>
      in invalidate (ce_auctionId ev) (save_auction now row' s))"

text \<open>The insert of the bid, which the unique index on the event identifier may refuse, and the
  auction as it is to be saved.\<close>

definition raised_bid :: "(amt \<Rightarrow> rat) \<Rightarrow> bid_event \<Rightarrow> auction \<Rightarrow> auction" where
  "raised_bid nu ev a =
     (let n = ac_bidCount a + 1
      in if n = 1 \<or> nu (be_amount ev) > nu (ac_highestBid a)
         then a\<lparr>ac_bidCount := n, ac_highestBid := be_amount ev, ac_highestBidder := Some (be_bidder ev)\<rparr>
         else a\<lparr>ac_bidCount := n\<rparr>)"

definition bid_of :: "bid_event \<Rightarrow> int \<Rightarrow> bid" where
  "bid_of ev now = \<lparr>bd_auctionId = be_auctionId ev, bd_bidder = be_bidder ev, bd_amount = be_amount ev,
     bd_eventId = be_eventId ev, bd_placedAt = or_default (be_occurredAt ev) now, bd_createdAt = now\<rparr>"

definition insert_bid :: "bid \<Rightarrow> auction_state \<Rightarrow> auction_state result" where
  "insert_bid b s =
     (if bd_eventId b \<noteq> None \<and> (\<exists>c \<in> set (au_bids s). bd_eventId c = bd_eventId b)
      then Inl (JsError ''QueryFailedError'')
      else Inr (s\<lparr>au_bids := au_bids s @ [b]\<rparr>))"

definition bid_start :: "(amt \<Rightarrow> rat) \<Rightarrow> bid_event \<Rightarrow> int \<Rightarrow> auction_state \<Rightarrow> error + (auction \<times> auction_state)" where
  "bid_start nu ev now s =
     (case find_auction (be_auctionId ev) s of
        None \<Rightarrow> Inl auction_not_found
      | Some a \<Rightarrow> and_then (insert_bid (bid_of ev now) s) (\<lambda>s'. Inr (raised_bid nu ev a, s')))"

definition bid_finish :: "int \<Rightarrow> auction \<Rightarrow> auction_state \<Rightarrow> auction_state" where
  "bid_finish now a s = invalidate (ac_auctionId a) (save_auction now a s)"

definition ingestBidPlaced :: "(amt \<Rightarrow> rat) \<Rightarrow> bid_event \<Rightarrow> int \<Rightarrow> auction_state \<Rightarrow> unit result \<times> auction_state" where
  "ingestBidPlaced nu ev now s =
     (case bid_start nu ev now s of
        Inl e \<Rightarrow> (Inl e, s)
      | Inr (a, s') \<Rightarrow> (Inr (), bid_finish now a s'))"

definition ingestAuctionSettled :: "settled_event \<Rightarrow> int \<Rightarrow> auction_state \<Rightarrow> unit result \<times> auction_state" where
  "ingestAuctionSettled ev now s =
     (case find_auction (se_auctionId ev) s of
        None \<Rightarrow> (Inl auction_not_found, s)
      | Some a \<Rightarrow>
          (Inr (), invalidate (se_auctionId ev) (save_auction now
             (a\<lparr>ac_status := AuctionSETTLED, ac_settledAt := Some (or_default (se_occurredAt ev) now),
                ac_winner := (case se_winner ev of None \<Rightarrow> ac_highestBidder a | Some w \<Rightarrow> Some w),
                ac_settlementAmount := Some (or_default (se_settlementAmount ev) (ac_highestBid a))\<rparr>) s)))"

subsection \<open>Views\<close>

definition toView :: "(amt \<Rightarrow> rat) \<Rightarrow> auction \<Rightarrow> int \<Rightarrow> auction_view" where
  "toView nu row now =
     \<lparr>aw_auctionId = ac_auctionId row, aw_status = ac_status row, aw_seller = ac_seller row,
      aw_invoiceId = ac_invoiceId row, aw_highestBid = ac_highestBid row, aw_highestBidder = ac_highestBidder row,
      aw_reservePrice = ac_reservePrice row,
      aw_reserveMet = (nu (ac_highestBid row) \<ge> nu (ac_reservePrice row) \<and> nu (ac_reservePrice row) > 0),
      aw_bidCount = ac_bidCount row, aw_startsAt = ac_startsAt row, aw_endsAt = ac_endsAt row,
      aw_settledAt = ac_settledAt row, aw_winner = ac_winner row, aw_settlementAmount = ac_settlementAmount row,
      aw_countdownSeconds = (if ac_status row = AuctionACTIVE
        then map_option (\<lambda>e. max 0 ((e - now + 500) div 1000)) (ac_endsAt row) else None)\<rparr>"

definition cache_view :: "auction_view \<Rightarrow> int \<Rightarrow> auction_state \<Rightarrow> auction_state" where
  "cache_view v now s =
     (if aw_status v = AuctionACTIVE then s\<lparr>au_active := cache_set active_cache (aw_auctionId v) v None now (au_active s)\<rparr>
      else s\<lparr>au_settled := cache_set settled_cache (aw_auctionId v) v None now (au_settled s)\<rparr>)"

definition getAuction :: "(amt \<Rightarrow> rat) \<Rightarrow> string \<Rightarrow> int \<Rightarrow> auction_state \<Rightarrow> auction_view result \<times> auction_state" where
  "getAuction nu i now s =
     (let (hit, c) = cache_get active_cache NoRedis i now (au_active s); s1 = s\<lparr>au_active := c\<rparr>
      in case hit of
           Some v \<Rightarrow> (Inr v, s1)
         | None \<Rightarrow>
             let (hit2, c2) = cache_get settled_cache NoRedis i now (au_settled s1); s2 = s1\<lparr>au_settled := c2\<rparr>
             in case hit2 of
                  Some v \<Rightarrow> (Inr v, s2)
                | None \<Rightarrow>
                    (case find_auction i s2 of
                       None \<Rightarrow> (Inl auction_not_found, s2)
                     | Some a \<Rightarrow> (Inr (toView nu a now), cache_view (toView nu a now) now s2)))"

definition getAuctionsForInvoice :: "(amt \<Rightarrow> rat) \<Rightarrow> string \<Rightarrow> int \<Rightarrow> auction_state \<Rightarrow> auction_view list" where
  "getAuctionsForInvoice nu invoiceId now s =
     map (\<lambda>a. toView nu a now) (isort_by (\<lambda>a b. ac_updatedAt b < ac_updatedAt a)
       (filter (\<lambda>a. ac_invoiceId a = Some invoiceId) (au_rows s)))"

record bid_page =
  bp_data :: "(string \<times> amt \<times> int) list"
  bp_page :: int
  bp_limit :: int
  bp_total :: int
  bp_totalPages :: int

definition later_bid :: "bid \<Rightarrow> bid \<Rightarrow> bool" where
  "later_bid a b \<longleftrightarrow> bd_placedAt b < bd_placedAt a \<or> (bd_placedAt a = bd_placedAt b \<and> bd_createdAt b < bd_createdAt a)"

definition bids_of :: "string \<Rightarrow> auction_state \<Rightarrow> bid list" where
  "bids_of i s = filter (\<lambda>b. bd_auctionId b = i) (au_bids s)"

definition getBids :: "string \<Rightarrow> int \<Rightarrow> int \<Rightarrow> auction_state \<Rightarrow> bid_page result" where
  "getBids i page limit s =
     (case find_auction i s of
        None \<Rightarrow> Inl auction_not_found
      | Some a \<Rightarrow>
          let safePage = max 1 page; safeLimit = min 100 (max 1 limit);
              rows = isort_by later_bid (bids_of i s); n = int (length rows)
          in Inr \<lparr>bp_data = map (\<lambda>b. (bd_bidder b, bd_amount b, bd_placedAt b))
                              (take (nat safeLimit) (drop (nat ((safePage - 1) * safeLimit)) rows)),
                  bp_page = safePage, bp_limit = safeLimit, bp_total = n,
                  bp_totalPages = max 1 ((n + safeLimit - 1) div safeLimit)\<rparr>)"

end
