(* ===== verification/Auction_Steps.thy ===== *)
theory Auction_Steps
  imports Auctions
begin

section \<open>What the auction index shows\<close>

text \<open>
  Rows stay well formed under any events that do not overlap, a view that comes out of a cache is the
  present row, the pages of bids are the bids, and what bids that overlap or a late bid do.
\<close>

subsection \<open>Rows\<close>

definition highest_ok :: "(amt \<Rightarrow> rat) \<Rightarrow> bid list \<Rightarrow> auction \<Rightarrow> bool" where
  "highest_ok nu bs a \<longleftrightarrow> ac_bidCount a = int (length bs) \<and>
     (bs = [] \<longrightarrow> ac_highestBid a = 0 \<and> ac_highestBidder a = None) \<and>
     (bs \<noteq> [] \<longrightarrow> (\<exists>b \<in> set bs. ac_highestBid a = bd_amount b \<and> ac_highestBidder a = Some (bd_bidder b)) \<and>
        (\<forall>b \<in> set bs. nu (bd_amount b) \<le> nu (ac_highestBid a)))"

definition settled_ok :: "auction \<Rightarrow> bool" where
  "settled_ok a \<longleftrightarrow> (ac_status a = AuctionSETTLED \<longleftrightarrow> ac_settledAt a \<noteq> None) \<and>
     (ac_status a = AuctionSETTLED \<longleftrightarrow> ac_settlementAmount a \<noteq> None) \<and> (ac_winner a \<noteq> None \<longrightarrow> ac_status a = AuctionSETTLED)"

definition well_formed :: "(amt \<Rightarrow> rat) \<Rightarrow> auction_state \<Rightarrow> bool" where
  "well_formed nu s \<longleftrightarrow> distinct (map ac_auctionId (au_rows s)) \<and>
     (\<forall>a \<in> set (au_rows s). highest_ok nu (bids_of (ac_auctionId a) s) a \<and> settled_ok a) \<and>
     (\<forall>b \<in> set (au_bids s). bd_auctionId b \<in> ac_auctionId ` set (au_rows s))"

lemma invalidate_simps [simp]: "au_rows (invalidate i s) = au_rows s" "au_bids (invalidate i s) = au_bids s"
  "bids_of j (invalidate i s) = bids_of j s"
  by (simp_all add: invalidate_def bids_of_def)

lemma save_auction_simps [simp]:
  "au_rows (save_auction now a s) = upsert ac_auctionId (a\<lparr>ac_updatedAt := now\<rparr>) (au_rows s)"
  "au_bids (save_auction now a s) = au_bids s" "bids_of j (save_auction now a s) = bids_of j s"
  by (simp_all add: save_auction_def bids_of_def)

lemma touched_ok: "highest_ok nu bs (a\<lparr>ac_updatedAt := now\<rparr>) = highest_ok nu bs a" "settled_ok (a\<lparr>ac_updatedAt := now\<rparr>) = settled_ok a"
  by (simp_all add: highest_ok_def settled_ok_def)

lemma found_auction: "find_auction i s = Some a \<Longrightarrow> a \<in> set (au_rows s) \<and> ac_auctionId a = i"
  by (auto simp: find_auction_def dest!: find_SomeD)

lemma not_found_auction: "find_auction i s = None \<Longrightarrow> i \<notin> ac_auctionId ` set (au_rows s)"
  by (auto simp: find_auction_def find_None_iff)

text \<open>Saving a row that is well formed for the bids there are.\<close>

lemma well_formed_save:
  assumes "distinct (map ac_auctionId (au_rows s))" "highest_ok nu (bids_of (ac_auctionId a) s) a" "settled_ok a"
    and "\<forall>x \<in> set (au_rows s). ac_auctionId x \<noteq> ac_auctionId a \<longrightarrow> highest_ok nu (bids_of (ac_auctionId x) s) x \<and> settled_ok x"
    and "\<forall>b \<in> set (au_bids s). bd_auctionId b \<in> insert (ac_auctionId a) (ac_auctionId ` set (au_rows s))"
  shows "well_formed nu (save_auction now a s)"
proof -
  let ?a = "a\<lparr>ac_updatedAt := now\<rparr>"
  have rows: "set (upsert ac_auctionId ?a (au_rows s)) = insert ?a {x \<in> set (au_rows s). ac_auctionId x \<noteq> ac_auctionId ?a}"
    by (rule set_upsert_distinct [OF assms(1)])
  show ?thesis unfolding well_formed_def save_auction_simps
  proof (intro conjI)
    show "distinct (map ac_auctionId (upsert ac_auctionId ?a (au_rows s)))" by (rule distinct_upsert [OF assms(1)])
    show "\<forall>x \<in> set (upsert ac_auctionId ?a (au_rows s)). highest_ok nu (bids_of (ac_auctionId x) s) x \<and> settled_ok x"
      using assms(2-4) by (simp add: rows touched_ok)
    show "\<forall>b \<in> set (au_bids s). bd_auctionId b \<in> ac_auctionId ` set (upsert ac_auctionId ?a (au_rows s))"
      using assms(5) by (simp add: upsert_keys)
  qed
qed

lemmas well_formed_parts = well_formed_def [THEN iffD1, THEN conjunct1]
  well_formed_def [THEN iffD1, THEN conjunct2, THEN conjunct1] well_formed_def [THEN iffD1, THEN conjunct2, THEN conjunct2]

lemma well_formed_invalidate [simp]: "well_formed nu (invalidate i s) = well_formed nu s"
  by (simp add: well_formed_def)

lemma raised_bid_ok:
  assumes "highest_ok nu bs a"
  shows "highest_ok nu (bs @ [bid_of ev now]) (raised_bid nu ev a)"
proof (cases "bs = []")
  case True
  then show ?thesis using assms by (simp add: highest_ok_def raised_bid_def bid_of_def Let_def)
next
  case False
  then obtain b where b: "b \<in> set bs" "ac_highestBid a = bd_amount b" "ac_highestBidder a = Some (bd_bidder b)"
    "\<forall>c \<in> set bs. nu (bd_amount c) \<le> nu (ac_highestBid a)" "ac_bidCount a = int (length bs)" "0 < length bs"
    using assms by (auto simp: highest_ok_def)
  show ?thesis
  proof (cases "nu (be_amount ev) > nu (ac_highestBid a)")
    case True
    then show ?thesis using b by (force simp: highest_ok_def raised_bid_def bid_of_def Let_def)
  next
    case neq: False
    then show ?thesis using b by (auto simp: highest_ok_def raised_bid_def bid_of_def Let_def)
  qed
qed

lemma created_keeps: "well_formed nu s \<Longrightarrow> well_formed nu (ingestAuctionCreated ev now s)"
proof -
  assume w: "well_formed nu s"
  let ?row = "case find_auction (ce_auctionId ev) s of None \<Rightarrow> new_auction (ce_auctionId ev) | Some a \<Rightarrow> a"
  have r: "ac_auctionId ?row = ce_auctionId ev \<and> highest_ok nu (bids_of (ce_auctionId ev) s) ?row \<and> settled_ok ?row"
  proof (cases "find_auction (ce_auctionId ev) s")
    case None
    have "bids_of (ce_auctionId ev) s = []" using well_formed_parts(3) [OF w] not_found_auction [OF None]
      unfolding bids_of_def filter_empty_conv by metis
    then show "ac_auctionId ?row = ce_auctionId ev \<and> highest_ok nu (bids_of (ce_auctionId ev) s) ?row \<and> settled_ok ?row"
      using None by (simp_all add: new_auction_def highest_ok_def settled_ok_def)
  next
    case (Some a)
    then show "ac_auctionId ?row = ce_auctionId ev \<and> highest_ok nu (bids_of (ce_auctionId ev) s) ?row \<and> settled_ok ?row"
      using w found_auction [OF Some] by (auto simp: well_formed_def)
  qed
  show ?thesis unfolding ingestAuctionCreated_def Let_def well_formed_invalidate
    by (rule well_formed_save) (use r well_formed_parts [OF w] in \<open>auto simp: highest_ok_def settled_ok_def\<close>)
qed

lemma bid_keeps:
  assumes "well_formed nu s"
  shows "well_formed nu (snd (ingestBidPlaced nu ev now s))"
proof (cases "bid_start nu ev now s")
  case (Inr p)
  obtain a' s' where p: "p = (a', s')" by (cases p)
  then obtain a where f: "find_auction (be_auctionId ev) s = Some a" and a': "a' = raised_bid nu ev a"
    and s': "s' = s\<lparr>au_bids := au_bids s @ [bid_of ev now]\<rparr>"
    using Inr by (auto simp: bid_start_def insert_bid_def result_simps split: option.splits if_splits)
  note fa = found_auction [OF f]
  have id: "ac_auctionId a' = be_auctionId ev" using fa a' by (simp add: raised_bid_def Let_def)
  have bids: "bids_of j s' = bids_of j s @ (if j = be_auctionId ev then [bid_of ev now] else [])" for j
    by (simp add: s' bids_of_def bid_of_def)
  have ok: "highest_ok nu (bids_of (be_auctionId ev) s') a'" "settled_ok a'"
    using assms fa raised_bid_ok [of nu "bids_of (be_auctionId ev) s" a ev now]
    by (auto simp: bids a' well_formed_def settled_ok_def raised_bid_def Let_def)
  note w = well_formed_parts [OF assms]
  have "well_formed nu (save_auction now a' s')"
  proof (rule well_formed_save)
    show "distinct (map ac_auctionId (au_rows s'))" using w(1) by (simp add: s')
    show "highest_ok nu (bids_of (ac_auctionId a') s') a'" "settled_ok a'" using ok id by simp_all
    show "\<forall>x \<in> set (au_rows s'). ac_auctionId x \<noteq> ac_auctionId a' \<longrightarrow> highest_ok nu (bids_of (ac_auctionId x) s') x \<and> settled_ok x"
      using w(2) id by (simp add: bids) (simp add: s')
    show "\<forall>b \<in> set (au_bids s'). bd_auctionId b \<in> insert (ac_auctionId a') (ac_auctionId ` set (au_rows s'))"
      using w(3) id by (simp add: s' bid_of_def)
  qed
  then show ?thesis using Inr p by (simp add: ingestBidPlaced_def bid_finish_def)
qed (use assms in \<open>simp add: ingestBidPlaced_def\<close>)

lemma settled_keeps:
  assumes "well_formed nu s"
  shows "well_formed nu (snd (ingestAuctionSettled ev now s))"
proof (cases "find_auction (se_auctionId ev) s")
  case (Some a)
  then have "highest_ok nu (bids_of (ac_auctionId a) s) a" using assms found_auction [OF Some] by (auto simp: well_formed_def)
  then show ?thesis unfolding ingestAuctionSettled_def Some option.case snd_conv well_formed_invalidate
    by (intro well_formed_save) (use well_formed_parts [OF assms] in \<open>auto simp: highest_ok_def settled_ok_def\<close>)
qed (use assms in \<open>simp add: ingestAuctionSettled_def\<close>)

datatype auction_call =
    Created created_event int
  | Bid bid_event int
  | Settled settled_event int
  | Look string int

fun auction_step :: "(amt \<Rightarrow> rat) \<Rightarrow> auction_state \<Rightarrow> auction_call \<Rightarrow> auction_state" where
  "auction_step nu s (Created ev now) = ingestAuctionCreated ev now s"
| "auction_step nu s (Bid ev now) = snd (ingestBidPlaced nu ev now s)"
| "auction_step nu s (Settled ev now) = snd (ingestAuctionSettled ev now s)"
| "auction_step nu s (Look i now) = snd (getAuction nu i now s)"

lemma look_rows [simp]:
  "au_rows (snd (getAuction nu i now s)) = au_rows s" "au_bids (snd (getAuction nu i now s)) = au_bids s"
  by (auto simp: getAuction_def cache_view_def Let_def split: prod.splits option.splits)

lemma look_keeps: "well_formed nu (snd (getAuction nu i now s)) = well_formed nu s"
  by (simp add: well_formed_def bids_of_def)

lemma well_formed_step: "well_formed nu s \<Longrightarrow> well_formed nu (auction_step nu s c)"
  by (cases c) (simp_all add: created_keeps bid_keeps settled_keeps look_keeps)

interpretation auctions: step_invariant "auction_step nu" "well_formed nu" for nu
  by unfold_locales (rule well_formed_step)

definition no_auctions :: auction_state where
  "no_auctions = \<lparr>au_rows = [], au_bids = [], au_active = \<lparr>memory = [], sweeping = False\<rparr>,
     au_settled = \<lparr>memory = [], sweeping = False\<rparr>\<rparr>"

lemma no_auctions_well_formed: "well_formed nu no_auctions"
  by (simp add: well_formed_def no_auctions_def)

text \<open>C29: as long as events are indexed one after the other, in any order and with any refusals,
  every auction row is well formed: the identifier is unique, the bid count is the number of bids
  recorded, the highest bid is the amount and bidder of one of them and no other bid is higher as a
  number, and a settlement time and amount are there exactly when the auction is settled, a winner
  only then.\<close>

theorem auction_rows_are_well_formed:
  "well_formed nu (foldl (auction_step nu) no_auctions calls)"
  by (rule auctions.run_inv [OF no_auctions_well_formed])

subsection \<open>Views\<close>

definition shown :: "(amt \<Rightarrow> rat) \<Rightarrow> cache_options \<Rightarrow> int \<Rightarrow> bool \<Rightarrow> auction list \<Rightarrow> auction_view cache \<Rightarrow> bool" where
  "shown nu o' life active rows c \<longleftrightarrow> (\<forall>(k, e) \<in> set (memory c). \<exists>a \<in> set rows. \<exists>t.
     k = buildKey o' (ac_auctionId a) \<and> (ac_status a = AuctionACTIVE) = active \<and>
     e_value e = Some (toView nu a t) \<and> expiresAt e = t + life)"

definition views_ok :: "(amt \<Rightarrow> rat) \<Rightarrow> auction_state \<Rightarrow> bool" where
  "views_ok nu s \<longleftrightarrow> well_formed nu s \<and> shown nu active_cache ACTIVE_CACHE_TTL_MS True (au_rows s) (au_active s) \<and>
     shown nu settled_cache SETTLED_CACHE_TTL_MS False (au_rows s) (au_settled s)"

lemma cache_options_facts:
  "enabled active_cache" "enabled settled_cache" "ttlSeconds active_cache * 1000 = ACTIVE_CACHE_TTL_MS"
  "ttlSeconds settled_cache * 1000 = SETTLED_CACHE_TTL_MS" "0 \<le> maxEntries active_cache" "0 \<le> maxEntries settled_cache"
  by (simp_all add: active_cache_def settled_cache_def view_cache_options_def ACTIVE_CACHE_TTL_MS_def SETTLED_CACHE_TTL_MS_def
      DEFAULT_MAX_ENTRIES_def)

lemma shown_subset: "shown nu o' life b rows c \<Longrightarrow> set (memory c') \<subseteq> set (memory c) \<Longrightarrow> shown nu o' life b rows c'"
  unfolding shown_def by blast

text \<open>After the row of \<open>i\<close> has changed and its views are gone, the others are still shown.\<close>

lemma shown_changed:
  assumes "shown nu o' life b rows c" "enabled o'" "distinct (map ac_auctionId rows)"
  shows "shown nu o' life b (upsert ac_auctionId a rows) (cache_delete o' (ac_auctionId a) c)"
  unfolding shown_def
proof clarify
  fix k e
  assume "(k, e) \<in> set (memory (cache_delete o' (ac_auctionId a) c))"
  then have ke: "(k, e) \<in> set (memory c)" "k \<noteq> buildKey o' (ac_auctionId a)"
    using assms(2) by (auto simp: cache_delete_def map_delete_def)
  then obtain x t where x: "x \<in> set rows" "k = buildKey o' (ac_auctionId x)" "(ac_status x = AuctionACTIVE) = b"
    "e_value e = Some (toView nu x t)" "expiresAt e = t + life"
    using assms(1) by (fastforce simp: shown_def)
  then have "x \<in> set (upsert ac_auctionId a rows)" using ke(2) kept_in_upsert [of x rows ac_auctionId a] by (auto simp: buildKey_inj)
  then show "\<exists>a\<in>set (upsert ac_auctionId a rows). \<exists>t. k = buildKey o' (ac_auctionId a) \<and> (ac_status a = AuctionACTIVE) = b \<and>
      e_value e = Some (toView nu a t) \<and> expiresAt e = t + life"
    using x by blast
qed

lemma views_changed:
  assumes "shown nu active_cache ACTIVE_CACHE_TTL_MS True (au_rows s) (au_active s)"
    "shown nu settled_cache SETTLED_CACHE_TTL_MS False (au_rows s) (au_settled s)"
    "distinct (map ac_auctionId (au_rows s))" "ac_auctionId a = i" "well_formed nu (invalidate i (save_auction now a s))"
  shows "views_ok nu (invalidate i (save_auction now a s))"
proof -
  have "ac_auctionId (a\<lparr>ac_updatedAt := now\<rparr>) = i" using assms(4) by simp
  note c = shown_changed [OF assms(1) cache_options_facts(1) assms(3), of "a\<lparr>ac_updatedAt := now\<rparr>", unfolded this]
    shown_changed [OF assms(2) cache_options_facts(2) assms(3), of "a\<lparr>ac_updatedAt := now\<rparr>", unfolded this]
  have "au_active (invalidate i (save_auction now a s)) = cache_delete active_cache i (au_active s)"
    "au_settled (invalidate i (save_auction now a s)) = cache_delete settled_cache i (au_settled s)"
    by (simp_all add: invalidate_def save_auction_def)
  then show ?thesis using c assms(5) by (simp add: views_ok_def)
qed

lemma active_read_frame:
  "shown nu active_cache ACTIVE_CACHE_TTL_MS True rows c \<Longrightarrow>
     shown nu active_cache ACTIVE_CACHE_TTL_MS True rows (snd (cache_get active_cache NoRedis i now c))"
  "shown nu settled_cache SETTLED_CACHE_TTL_MS False rows c \<Longrightarrow>
     shown nu settled_cache SETTLED_CACHE_TTL_MS False rows (snd (cache_get settled_cache NoRedis i now c))"
  by (erule shown_subset, rule get_subset)+

lemma shown_set:
  assumes "shown nu o' (ttlSeconds o' * 1000) b rows c" "0 \<le> maxEntries o'" "a \<in> set rows" "(ac_status a = AuctionACTIVE) = b"
  shows "shown nu o' (ttlSeconds o' * 1000) b rows (cache_set o' (ac_auctionId a) (toView nu a now) None now c)"
  unfolding shown_def
proof clarify
  fix k e
  assume "(k, e) \<in> set (memory (cache_set o' (ac_auctionId a) (toView nu a now) None now c))"
  then consider "k = buildKey o' (ac_auctionId a)" "e = \<lparr>e_value = Some (toView nu a now), expiresAt = now + ttlSeconds o' * 1000\<rparr>"
    | "(k, e) \<in> set (memory c)"
    using set_subset [OF assms(2), of "ac_auctionId a" "toView nu a now" now c] by blast
  then show "\<exists>a\<in>set rows. \<exists>t. k = buildKey o' (ac_auctionId a) \<and> (ac_status a = AuctionACTIVE) = b \<and>
      e_value e = Some (toView nu a t) \<and> expiresAt e = t + ttlSeconds o' * 1000"
  proof cases
    case 1
    then show ?thesis using assms(3,4) by (intro bexI [of _ a] exI [of _ now]) simp_all
  next
    case 2
    then show ?thesis using assms(1) unfolding shown_def by blast
  qed
qed

lemma cache_view_ok:
  assumes "views_ok nu s" "a \<in> set (au_rows s)"
  shows "views_ok nu (cache_view (toView nu a now) now s)"
proof -
  have id: "aw_auctionId (toView nu a now) = ac_auctionId a" "aw_status (toView nu a now) = ac_status a" by (simp_all add: toView_def)
  have w: "well_formed nu (cache_view (toView nu a now) now s)"
    using assms(1) by (simp add: views_ok_def well_formed_def cache_view_def bids_of_def)
  show ?thesis
  proof (cases "ac_status a = AuctionACTIVE")
    case True
    have "shown nu active_cache (ttlSeconds active_cache * 1000) True (au_rows s) (au_active s)"
      using assms(1) by (simp add: views_ok_def cache_options_facts)
    from shown_set [OF this cache_options_facts(5) assms(2), of now] True show ?thesis
      using assms(1) w by (simp add: views_ok_def cache_view_def id cache_options_facts)
  next
    case False
    have "shown nu settled_cache (ttlSeconds settled_cache * 1000) False (au_rows s) (au_settled s)"
      using assms(1) by (simp add: views_ok_def cache_options_facts)
    from shown_set [OF this cache_options_facts(6) assms(2), of now] False show ?thesis
      using assms(1) w by (simp add: views_ok_def cache_view_def id cache_options_facts)
  qed
qed

lemma look_ok:
  assumes "views_ok nu s"
  shows "views_ok nu (snd (getAuction nu i now s))"
proof -
  let ?s1 = "s\<lparr>au_active := snd (cache_get active_cache NoRedis i now (au_active s))\<rparr>"
  let ?s2 = "?s1\<lparr>au_settled := snd (cache_get settled_cache NoRedis i now (au_settled ?s1))\<rparr>"
  have s2: "views_ok nu ?s1" "views_ok nu ?s2" using assms active_read_frame
    by (simp_all add: views_ok_def well_formed_def bids_of_def)
  have "views_ok nu (cache_view (toView nu a now) now ?s2)" if "find_auction i ?s2 = Some a" for a
    using cache_view_ok [OF s2(2)] found_auction [OF that] by blast
  then show ?thesis using s2 by (auto simp: getAuction_def Let_def case_prod_beta split: option.splits)
qed

lemma views_step:
  assumes "views_ok nu s"
  shows "views_ok nu (auction_step nu s c)"
proof -
  have w: "well_formed nu (auction_step nu s c)" using assms well_formed_step by (simp add: views_ok_def)
  have p: "shown nu active_cache ACTIVE_CACHE_TTL_MS True (au_rows s) (au_active s)"
    "shown nu settled_cache SETTLED_CACHE_TTL_MS False (au_rows s) (au_settled s)" "distinct (map ac_auctionId (au_rows s))"
    using assms by (simp_all add: views_ok_def well_formed_def)
  show ?thesis
  proof (cases c)
    case (Created ev now)
    then show ?thesis using w unfolding Created auction_step.simps ingestAuctionCreated_def Let_def
      by (elim views_changed [OF p, rotated]) (auto simp: new_auction_def dest: found_auction split: option.splits)
  next
    case (Bid ev now)
    show ?thesis
    proof (cases "bid_start nu ev now s")
      case (Inr q)
      obtain a' s' where q: "q = (a', s')" by (cases q)
      have s': "au_rows s' = au_rows s" "au_active s' = au_active s" "au_settled s' = au_settled s"
        using Inr q by (auto simp: bid_start_def insert_bid_def result_simps split: option.splits if_splits)
      have st: "auction_step nu s c = invalidate (ac_auctionId a') (save_auction now a' s')"
        using Bid Inr q by (simp add: ingestBidPlaced_def bid_finish_def)
      show ?thesis using w p s' unfolding st by (intro views_changed) simp_all
    qed (use Bid assms in \<open>simp add: ingestBidPlaced_def\<close>)
  next
    case (Settled ev now)
    show ?thesis
    proof (cases "find_auction (se_auctionId ev) s")
      case (Some a)
      then show ?thesis using w unfolding Settled auction_step.simps ingestAuctionSettled_def Some option.case snd_conv
        by (elim views_changed [OF p, rotated]) (use found_auction [OF Some] in simp)
    qed (use Settled assms in \<open>simp add: ingestAuctionSettled_def\<close>)
  next
    case (Look i now)
    then show ?thesis using look_ok [OF assms] by simp
  qed
qed

interpretation views: step_invariant "auction_step nu" "views_ok nu" for nu
  by unfold_locales (rule views_step)

lemma shown_hit:
  assumes "shown nu o' life b rows c" "fst (cache_get o' NoRedis i now c) = Some v"
  shows "\<exists>a \<in> set rows. \<exists>t. ac_auctionId a = i \<and> (ac_status a = AuctionACTIVE) = b \<and> v = toView nu a t \<and> now \<le> t + life"
proof -
  obtain e where e: "(buildKey o' i, e) \<in> set (memory c)" "e_value e = Some v" "now \<le> expiresAt e"
    using get_hit [OF assms(2)] by blast
  obtain a t where "a \<in> set rows" "buildKey o' i = buildKey o' (ac_auctionId a)" "(ac_status a = AuctionACTIVE) = b"
    "e_value e = Some (toView nu a t)" "expiresAt e = t + life"
    using assms(1) e(1) unfolding shown_def by blast
  then show ?thesis using e(2,3) by (auto simp: buildKey_inj)
qed

lemma find_auction_mem: "distinct (map ac_auctionId (au_rows s)) \<Longrightarrow> a \<in> set (au_rows s) \<Longrightarrow> find_auction (ac_auctionId a) s = Some a"
proof -
  have "distinct (map ac_auctionId xs) \<Longrightarrow> a \<in> set xs \<Longrightarrow> find (\<lambda>y. ac_auctionId y = ac_auctionId a) xs = Some a" for xs
    by (induction xs) (auto simp: image_iff)
  then show "distinct (map ac_auctionId (au_rows s)) \<Longrightarrow> a \<in> set (au_rows s) \<Longrightarrow> find_auction (ac_auctionId a) s = Some a"
    by (simp add: find_auction_def)
qed

text \<open>In a process through which all events of an auction go, one after the other, a view is always
  of the auction as it is: the caches only make the countdown of an active auction up to ten seconds
  old, and a view of an auction that is not active is exact.\<close>

theorem auction_views_are_current:
  assumes "getAuction nu i now (foldl (auction_step nu) no_auctions calls) = (Inr v, s')"
  shows "\<exists>a t. find_auction i (foldl (auction_step nu) no_auctions calls) = Some a \<and> v = toView nu a t \<and>
     now \<le> t + ACTIVE_CACHE_TTL_MS \<or>
     find_auction i (foldl (auction_step nu) no_auctions calls) = Some a \<and> ac_status a \<noteq> AuctionACTIVE \<and> v = toView nu a now"
proof -
  let ?s = "foldl (auction_step nu) no_auctions calls"
  have "views_ok nu no_auctions" using no_auctions_well_formed by (simp add: views_ok_def shown_def no_auctions_def)
  then have ok: "views_ok nu ?s" by (rule views.run_inv)
  then have d: "distinct (map ac_auctionId (au_rows ?s))" by (simp add: views_ok_def well_formed_def)
  let ?c1 = "cache_get active_cache NoRedis i now (au_active ?s)" and ?c2 = "cache_get settled_cache NoRedis i now (au_settled ?s)"
  consider (active) "fst ?c1 = Some v" | (settled) "fst ?c2 = Some v"
    | (row) a where "find_auction i ?s = Some a" "v = toView nu a now"
    using assms by (auto simp: getAuction_def Let_def case_prod_beta find_auction_def split: option.splits)
  then show ?thesis
  proof cases
    case active
    then obtain a t where "a \<in> set (au_rows ?s)" "ac_auctionId a = i" "v = toView nu a t" "now \<le> t + ACTIVE_CACHE_TTL_MS"
      using shown_hit ok unfolding views_ok_def by blast
    then show ?thesis using find_auction_mem [OF d] by blast
  next
    case settled
    then obtain a t where a: "a \<in> set (au_rows ?s)" "ac_auctionId a = i" "ac_status a \<noteq> AuctionACTIVE" "v = toView nu a t"
      using shown_hit ok unfolding views_ok_def by blast
    have "toView nu a t = toView nu a now" using a(3) by (simp add: toView_def)
    then show ?thesis using a find_auction_mem [OF d] by metis
  next
    case row
    then show ?thesis by (intro exI [of _ a] exI [of _ now]) (simp add: ACTIVE_CACHE_TTL_MS_def)
  qed
qed

definition ev_created :: created_event where
  "ev_created = \<lparr>ce_auctionId = ''A'', ce_seller = ''GS'', ce_invoiceId = None, ce_reservePrice = 50, ce_startsAt = None,
     ce_endsAt = Some 90000, ce_eventId = Some ''e1'', ce_occurredAt = Some 1000\<rparr>"

definition ev_bid :: "string \<Rightarrow> amt \<Rightarrow> string \<Rightarrow> bid_event" where
  "ev_bid who x e = \<lparr>be_auctionId = ''A'', be_bidder = who, be_amount = x, be_eventId = Some e, be_occurredAt = None\<rparr>"

theorem auction_views_are_current_witness:
  "\<exists>v s'. getAuction rat_of_int ''A'' 4000 (foldl (auction_step rat_of_int) no_auctions [Created ev_created 1000]) = (Inr v, s') \<and>
     aw_countdownSeconds v = Some 86 \<and> (\<exists>a t. v = toView rat_of_int a t)"
proof -
  let ?s = "foldl (auction_step rat_of_int) no_auctions [Created ev_created 1000]"
  obtain v s' where v: "getAuction rat_of_int ''A'' 4000 ?s = (Inr v, s')" "aw_countdownSeconds v = Some 86"
    by (simp add: no_auctions_def ingestAuctionCreated_def ev_created_def find_auction_def new_auction_def save_auction_def
      invalidate_def cache_delete_def map_delete_def cache_options_facts getAuction_def cache_get_def get_memory_def toView_def)
  then show ?thesis using auction_views_are_current [OF v(1)] by blast
qed

subsection \<open>Pages of bids\<close>

lemma taken_in_steps: "concat (map (\<lambda>p. take l (drop (p * l) xs)) [0..<n]) = take (n * l) xs"
  by (induction n) (simp_all add: take_add [symmetric] add.commute)

text \<open>The pages of an auction's bids, one after the other, are its bids from the latest on.\<close>

lemma bid_pages_are_the_bids:
  assumes "find_auction i s = Some a" "1 \<le> l" "l \<le> 100"
  shows "concat (map (\<lambda>p. bp_data (projr (getBids i (int p + 1) l s))) [0..<nat (bp_totalPages (projr (getBids i 1 l s)))]) =
     map (\<lambda>b. (bd_bidder b, bd_amount b, bd_placedAt b)) (isort_by later_bid (bids_of i s))"
proof -
  let ?rows = "isort_by later_bid (bids_of i s)" and ?f = "\<lambda>b. (bd_bidder b, bd_amount b, bd_placedAt b)"
  let ?n = "nat (max 1 ((int (length ?rows) + l - 1) div l))"
  have page: "bp_data (projr (getBids i (int p + 1) l s)) = take (nat l) (drop (p * nat l) (map ?f ?rows))" for p
    using assms by (simp add: getBids_def Let_def take_map drop_map nat_mult_distrib)
  have "int (length ?rows) \<le> int ?n * l"
  proof -
    let ?x = "int (length ?rows) + l - 1"
    have "?x = ?x div l * l + ?x mod l" "?x mod l < l" using assms(2) by simp_all
    then have "int (length ?rows) \<le> (?x div l) * l" by linarith
    also have "\<dots> \<le> int ?n * l" using assms(2) by (intro mult_right_mono) auto
    finally show ?thesis .
  qed
  then have "length ?rows \<le> ?n * nat l" using assms(2) by (metis int_nat_eq nat_int_comparison(3) of_nat_mult zero_le_one order_trans)
  moreover have "nat (bp_totalPages (projr (getBids i 1 l s))) = ?n" using assms by (simp add: getBids_def Let_def)
  ultimately show ?thesis by (simp add: page taken_in_steps)
qed

lemma find_in_upsert: "k r = x \<Longrightarrow> find (\<lambda>y. k y = x) (upsert k r xs) = Some r"
  by (induction xs) auto

subsection \<open>Bids that overlap, and late ones\<close>

text \<open>When two bids read the auction before either has saved it, the one saved last wins: both are
  recorded, one is counted, and the highest bid is the lower one when that is saved last, although a
  higher bid of another bidder is on record.\<close>

theorem racing_bids_lose_the_highest:
  assumes "find_auction (be_auctionId ev) s = Some a" "be_auctionId ev' = be_auctionId ev"
    and "bid_start nu ev now s = Inr (a1, s1)" "insert_bid (bid_of ev' now') s1 = Inr s2"
    and "nu (ac_highestBid a) < nu (be_amount ev')" "nu (be_amount ev') < nu (be_amount ev)" "be_bidder ev \<noteq> be_bidder ev'"
  shows "\<exists>b. find_auction (be_auctionId ev) (bid_finish t2 (raised_bid nu ev' a) (bid_finish t1 a1 s2)) = Some b \<and>
     ac_highestBid b = be_amount ev' \<and> ac_highestBidder b = Some (be_bidder ev') \<and> ac_bidCount b = ac_bidCount a + 1 \<and>
     bids_of (be_auctionId ev) (bid_finish t2 (raised_bid nu ev' a) (bid_finish t1 a1 s2)) =
       bids_of (be_auctionId ev) s @ [bid_of ev now, bid_of ev' now'] \<and>
     \<not> well_formed nu (bid_finish t2 (raised_bid nu ev' a) (bid_finish t1 a1 s2))"
proof -
  let ?i = "be_auctionId ev" and ?a = "(raised_bid nu ev' a)\<lparr>ac_updatedAt := t2\<rparr>"
  let ?s = "bid_finish t2 (raised_bid nu ev' a) (bid_finish t1 a1 s2)"
  have id: "ac_auctionId (raised_bid nu ev' a) = ?i" using found_auction [OF assms(1)] by (simp add: raised_bid_def Let_def)
  have s1: "au_bids s1 = au_bids s @ [bid_of ev now]"
    using assms(1,3) by (auto simp: bid_start_def insert_bid_def result_simps split: if_splits)
  have s2: "au_bids s2 = au_bids s @ [bid_of ev now, bid_of ev' now']" using assms(4) s1 by (auto simp: insert_bid_def split: if_splits)
  have "au_rows ?s = upsert ac_auctionId ?a (au_rows (bid_finish t1 a1 s2))" by (simp add: bid_finish_def)
  then have f: "find_auction ?i ?s = Some ?a" using id by (simp add: find_auction_def find_in_upsert)
  have b: "bids_of ?i ?s = bids_of ?i s @ [bid_of ev now, bid_of ev' now']"
    using assms(2) s2 by (simp add: bid_finish_def bids_of_def bid_of_def)
  have h: "ac_highestBid ?a = be_amount ev'" "ac_highestBidder ?a = Some (be_bidder ev')" "ac_bidCount ?a = ac_bidCount a + 1"
    using assms(5) by (simp_all add: raised_bid_def Let_def)
  have "\<not> well_formed nu ?s"
  proof
    assume "well_formed nu ?s"
    then have "highest_ok nu (bids_of (ac_auctionId ?a) ?s) ?a" using found_auction [OF f] unfolding well_formed_def by blast
    then have "\<forall>c \<in> set (bids_of ?i ?s). nu (bd_amount c) \<le> nu (be_amount ev')" using id b h(1) by (simp add: highest_ok_def)
    then have "nu (bd_amount (bid_of ev now)) \<le> nu (be_amount ev')" unfolding b by simp
    then show False using assms(6) by (simp add: bid_of_def)
  qed
  then show ?thesis using f h b by blast
qed

definition racing_start :: auction_state where
  "racing_start = no_auctions\<lparr>au_rows := [new_auction ''A'']\<rparr>"

theorem racing_bids_lose_the_highest_witness:
  "\<exists>b. find_auction ''A'' (bid_finish 4 (raised_bid rat_of_int (ev_bid ''GB'' 55 ''e3'') (new_auction ''A''))
      (bid_finish 3 (raised_bid rat_of_int (ev_bid ''GA'' 60 ''e2'') (new_auction ''A''))
        (racing_start\<lparr>au_bids := [bid_of (ev_bid ''GA'' 60 ''e2'') 1, bid_of (ev_bid ''GB'' 55 ''e3'') 2]\<rparr>))) = Some b \<and>
     ac_highestBid b = 55 \<and> ac_highestBidder b = Some ''GB'' \<and> ac_bidCount b = 1"
proof -
  let ?a = "new_auction ''A''" and ?ev = "ev_bid ''GA'' 60 ''e2''" and ?ev' = "ev_bid ''GB'' 55 ''e3''"
  have f: "find_auction (be_auctionId ?ev) racing_start = Some ?a"
    by (simp add: find_auction_def racing_start_def new_auction_def ev_bid_def)
  have s1: "bid_start rat_of_int ?ev 1 racing_start = Inr (raised_bid rat_of_int ?ev ?a, racing_start\<lparr>au_bids := [bid_of ?ev 1]\<rparr>)"
    using f by (simp add: bid_start_def insert_bid_def racing_start_def no_auctions_def)
  have s2: "insert_bid (bid_of ?ev' 2) (racing_start\<lparr>au_bids := [bid_of ?ev 1]\<rparr>) =
      Inr (racing_start\<lparr>au_bids := [bid_of ?ev 1, bid_of ?ev' 2]\<rparr>)"
    by (simp add: insert_bid_def bid_of_def ev_bid_def)
  have c: "be_auctionId ?ev = ''A''" "be_auctionId ?ev' = be_auctionId ?ev" "ac_bidCount ?a = 0" "be_amount ?ev' = 55" "be_bidder ?ev' = ''GB''"
    "rat_of_int (ac_highestBid ?a) < rat_of_int (be_amount ?ev')" "rat_of_int (be_amount ?ev') < rat_of_int (be_amount ?ev)"
    "be_bidder ?ev \<noteq> be_bidder ?ev'" by (simp_all add: ev_bid_def new_auction_def)
  from racing_bids_lose_the_highest [OF f c(2) s1 s2 c(6-8), of 4 3] c(1,3-5) show ?thesis by auto
qed

text \<open>Nothing keeps a bid from being indexed after the settlement: the auction then shows another
  highest bidder than its winner.\<close>

lemma late_bid_contradicts_the_winner:
  assumes "find_auction (be_auctionId ev) s = Some a" "ac_status a = AuctionSETTLED" "ac_winner a = Some w"
    and "nu (ac_highestBid a) < nu (be_amount ev)" "be_bidder ev \<noteq> w" "be_eventId ev = None"
  shows "\<exists>b. find_auction (be_auctionId ev) (snd (ingestBidPlaced nu ev now s)) = Some b \<and> ac_status b = AuctionSETTLED \<and>
     ac_winner b = Some w \<and> ac_highestBidder b = Some (be_bidder ev)"
proof -
  have id: "ac_auctionId (raised_bid nu ev a) = be_auctionId ev" using found_auction [OF assms(1)] by (simp add: raised_bid_def Let_def)
  have "snd (ingestBidPlaced nu ev now s) = bid_finish now (raised_bid nu ev a) (s\<lparr>au_bids := au_bids s @ [bid_of ev now]\<rparr>)"
    using assms(1,6) by (simp add: ingestBidPlaced_def bid_start_def insert_bid_def bid_of_def)
  then have "find_auction (be_auctionId ev) (snd (ingestBidPlaced nu ev now s)) = Some ((raised_bid nu ev a)\<lparr>ac_updatedAt := now\<rparr>)"
    using id by (simp add: bid_finish_def find_auction_def find_in_upsert)
  then show ?thesis using assms(2-4) by (simp add: raised_bid_def Let_def)
qed

text \<open>A failure between the insert of a bid and the save of the auction is final: the bid is on record
  but not counted, and its event is refused when it is delivered again.\<close>

lemma interrupted_bid_is_never_counted:
  assumes "bid_start nu ev now s = Inr (a', s')" "be_eventId ev \<noteq> None"
  shows "ingestBidPlaced nu ev now' s' = (Inl (JsError ''QueryFailedError''), s') \<and> au_rows s' = au_rows s"
proof -
  have "s' = s\<lparr>au_bids := au_bids s @ [bid_of ev now]\<rparr>" "find_auction (be_auctionId ev) s \<noteq> None"
    using assms(1) by (auto simp: bid_start_def insert_bid_def result_simps split: option.splits if_splits)
  then show ?thesis using assms(2)
    by (auto simp: ingestBidPlaced_def bid_start_def insert_bid_def bid_of_def find_auction_def)
qed

end
