(* ===== verification/Admin_Settlement.thy ===== *)
theory Admin_Settlement
  imports Maturity_Steps
begin

section \<open>Settlement by an administrator\<close>

text \<open>
  \<open>src/services/admin-settlement.service.ts\<close> with \<open>src/models/InvestorPayout.model.ts\<close>: a second way to
  settle a funded invoice. The escrow contract is outside the program: \<open>escrow\<close> answers the settlement
  of an invoice on the chain and changes its own state \<open>'c\<close>. It is called before the database is read.
  The identifier of the payout of an investment is an argument.
\<close>

type_synonym 'c escrow = "string \<Rightarrow> 'c \<Rightarrow> string result \<times> 'c"

datatype payout_status = PayoutPENDING | PayoutCOMPLETED | PayoutFAILED

record investor_payout =
  pr_id :: string
  pr_invoiceId :: string
  pr_investorId :: string
  pr_investmentId :: string
  pr_amount :: amt
  pr_txHash :: "string option"
  pr_status :: payout_status

record admin_db =
  ad_db :: db
  ad_payouts :: "investor_payout list"

record admin_settle_input =
  asi_invoiceId :: string
  asi_repaymentAmount :: decimal
  asi_actorWallet :: string

record admin_settle_result =
  asr_invoiceId :: string
  asr_repaymentAmount :: amt
  asr_payouts :: "investor_payout list"
  asr_txHash :: string

definition payout_of :: "(string \<Rightarrow> string) \<Rightarrow> string \<Rightarrow> string \<Rightarrow> investment \<Rightarrow> amt \<Rightarrow> investor_payout" where
  "payout_of new_id i h m r =
     \<lparr>pr_id = new_id (im_id m), pr_invoiceId = i, pr_investorId = im_investorId m, pr_investmentId = im_id m,
      pr_amount = r, pr_txHash = Some h, pr_status = PayoutCOMPLETED\<rparr>"

text \<open>The loop over the confirmed investments.\<close>

fun admin_payouts ::
    "(string \<Rightarrow> string) \<Rightarrow> int \<Rightarrow> int \<Rightarrow> string \<Rightarrow> string \<Rightarrow> investment list \<Rightarrow> admin_db \<Rightarrow> error + (investor_payout list \<times> admin_db)" where
  "admin_payouts new_id t p i h [] s = Inr ([], s)"
| "admin_payouts new_id t p i h (m # ms) s =
     and_then (computeInvestorReturn (im_amount m) t p) (\<lambda>r.
       let q = payout_of new_id i h m r;
           s1 = s\<lparr>ad_payouts := ad_payouts s @ [q],
                  ad_db := save_investment (m\<lparr>im_actualReturn := Some r, im_status := InvSETTLED\<rparr>) (ad_db s)\<rparr>
       in and_then (admin_payouts new_id t p i h ms s1) (\<lambda>(qs, s2). Inr (q # qs, s2)))"

definition admin_actor_of :: "string \<Rightarrow> transition_actor" where
  "admin_actor_of wallet = \<lparr>a_role = Admin, a_id = None, a_wallet = Some wallet\<rparr>"

text \<open>The database transaction that follows the settlement on the chain.\<close>

definition admin_settle_tx ::
    "decimal_lib \<Rightarrow> (string \<Rightarrow> string) \<Rightarrow> admin_settle_input \<Rightarrow> string \<Rightarrow> int \<Rightarrow> nat \<Rightarrow> admin_db \<Rightarrow>
     error + ((admin_settle_result \<times> invoice_transition) \<times> admin_db)" where
  "admin_settle_tx D new_id inp h now ref s =
     (case invoices (ad_db s) (asi_invoiceId inp) of
        None \<Rightarrow> Inl (ServiceError ''INVOICE_NOT_FOUND'' 404)
      | Some v \<Rightarrow>
          if iv_status v \<noteq> FUNDED then Inl (ServiceError ''INVALID_INVOICE_STATUS'' 400)
          else let ms = confirmed_investments (iv_id v) (ad_db s)
               in if ms = [] then Inl (ServiceError ''NO_CONFIRMED_INVESTMENTS'' 400)
               else let amount = toFixed4 D (asi_repaymentAmount inp);
                        d0 = (ad_db s)\<lparr>payments := payments (ad_db s) @ [\<lparr>tx_userId = iv_sellerId v, tx_invoiceId = iv_id v,
                               tx_investmentId = None, tx_amount = amount, tx_hash = h\<rparr>]\<rparr>
                    in and_then (admin_payouts new_id (toFixed4 D (total_invested D ms)) amount (iv_id v) h ms (s\<lparr>ad_db := d0\<rparr>)) (\<lambda>(qs, s1).
                       and_then (transition entityManagerTransitionStore v SETTLED (admin_actor_of (asi_actorWallet inp))
                                   ''admin_settled'' empty_context now ref (ad_db s1)) (\<lambda>(tr, d2).
                         Inr ((\<lparr>asr_invoiceId = iv_id v, asr_repaymentAmount = amount, asr_payouts = qs, asr_txHash = h\<rparr>, tr),
                              s1\<lparr>ad_db := d2\<rparr>))))"

definition ON_CHAIN_SETTLEMENT_ERROR :: error where
  "ON_CHAIN_SETTLEMENT_ERROR = ServiceError ''ON_CHAIN_SETTLEMENT_ERROR'' 502"

definition adminSettleInvoice ::
    "decimal_lib \<Rightarrow> 'c escrow \<Rightarrow> (string \<Rightarrow> string) \<Rightarrow> admin_settle_input \<Rightarrow> int \<Rightarrow> nat \<Rightarrow> admin_db \<Rightarrow> 'c \<Rightarrow>
     (admin_settle_result \<times> invoice_transition) result \<times> admin_db \<times> 'c" where
  "adminSettleInvoice D escrow new_id inp now ref s c =
     (if asi_repaymentAmount inp \<le> 0 then (Inl (ServiceError ''INVALID_REPAYMENT_AMOUNT'' 400), s, c)
      else case escrow (asi_invoiceId inp) c of
             (Inl (ServiceError code st), c') \<Rightarrow> (Inl (ServiceError code st), s, c')
           | (Inl (JsError e), c') \<Rightarrow> (Inl ON_CHAIN_SETTLEMENT_ERROR, s, c')
           | (Inr h, c') \<Rightarrow>
               (case run_tx (admin_settle_tx D new_id inp h now ref) s of (r, s') \<Rightarrow> (r, s', c')))"

record payout_notice =
  pn_userId :: string
  pn_invoiceId :: string
  pn_amount :: amt

text \<open>What the investors are told once the transaction has committed.\<close>

definition payout_notices :: "admin_settle_result \<Rightarrow> payout_notice list" where
  "payout_notices r = map (\<lambda>q. \<lparr>pn_userId = pr_investorId q, pn_invoiceId = asr_invoiceId r, pn_amount = pr_amount q\<rparr>) (asr_payouts r)"

subsection \<open>What a settlement leaves\<close>

lemma admin_payouts_effect:
  assumes "admin_payouts new_id t p i h ms s = Inr (qs, s')"
  shows "qs = map (\<lambda>m. payout_of new_id i h m ((im_amount m * p) div t)) ms \<and> ad_payouts s' = ad_payouts s @ qs \<and>
     ad_db s' = (ad_db s)\<lparr>investments := foldl (\<lambda>xs m. upsert im_id (settled_row t p m) xs) (investments (ad_db s)) ms\<rparr>"
  using assms
proof (induction ms arbitrary: s qs)
  case (Cons m ms)
  let ?s1 = "\<lambda>r. s\<lparr>ad_payouts := ad_payouts s @ [payout_of new_id i h m r],
      ad_db := save_investment (m\<lparr>im_actualReturn := Some r, im_status := InvSETTLED\<rparr>) (ad_db s)\<rparr>"
  obtain r qs' where r: "computeInvestorReturn (im_amount m) t p = Inr r" "admin_payouts new_id t p i h ms (?s1 r) = Inr (qs', s')"
    "qs = payout_of new_id i h m r # qs'"
    using Cons.prems by (auto simp: result_simps Let_def)
  show ?case using Cons.IH [OF r(2)] investor_return_Inr [OF r(1)] r(3)
    by (simp add: save_investment_def settled_row_def)
qed simp

lemma admin_tx_parts:
  assumes "admin_settle_tx D new_id inp h now ref s = Inr ((res, tr), s')" "keyed (ad_db s)"
  obtains v t ms where "invoices (ad_db s) (asi_invoiceId inp) = Some v" "iv_status v = FUNDED" "iv_id v = asi_invoiceId inp"
    "ms = confirmed_investments (asi_invoiceId inp) (ad_db s)" "ms \<noteq> []" "t = toFixed4 D (total_invested D ms)"
    "asr_payouts res = map (\<lambda>m. payout_of new_id (asi_invoiceId inp) h m ((im_amount m * toFixed4 D (asi_repaymentAmount inp)) div t)) ms"
    "ad_payouts s' = ad_payouts s @ asr_payouts res" "asr_repaymentAmount res = toFixed4 D (asi_repaymentAmount inp)"
    "investments (ad_db s') = foldl (\<lambda>xs m. upsert im_id (settled_row t (toFixed4 D (asi_repaymentAmount inp)) m) xs) (investments (ad_db s)) ms"
    "invoices (ad_db s') = (invoices (ad_db s))(asi_invoiceId inp \<mapsto> t_invoice tr)" "iv_status (t_invoice tr) = SETTLED"
    "intents (ad_db s') = intents (ad_db s)" "iv_settlementRemainder (t_invoice tr) = iv_settlementRemainder v"
proof -
  let ?i = "asi_invoiceId inp" and ?p = "toFixed4 D (asi_repaymentAmount inp)"
  obtain v where v: "invoices (ad_db s) ?i = Some v" "iv_status v = FUNDED"
    using assms(1) by (auto simp: admin_settle_tx_def split: option.splits if_splits)
  have id: "iv_id v = ?i" using v(1) assms(2) by (auto simp: keyed_def)
  let ?ms = "confirmed_investments ?i (ad_db s)"
  let ?t = "toFixed4 D (total_invested D ?ms)"
  let ?d0 = "(ad_db s)\<lparr>payments := payments (ad_db s) @ [\<lparr>tx_userId = iv_sellerId v, tx_invoiceId = ?i,
      tx_investmentId = None, tx_amount = ?p, tx_hash = h\<rparr>]\<rparr>"
  obtain qs s1 d2 where e: "?ms \<noteq> []" "admin_payouts new_id ?t ?p ?i h ?ms (s\<lparr>ad_db := ?d0\<rparr>) = Inr (qs, s1)"
    "transition entityManagerTransitionStore v SETTLED (admin_actor_of (asi_actorWallet inp)) ''admin_settled'' empty_context now ref (ad_db s1) = Inr (tr, d2)"
    "res = \<lparr>asr_invoiceId = ?i, asr_repaymentAmount = ?p, asr_payouts = qs, asr_txHash = h\<rparr>" "s' = s1\<lparr>ad_db := d2\<rparr>"
    using assms(1) v id by (auto simp: admin_settle_tx_def Let_def result_simps split: if_splits)
  note a = admin_payouts_effect [OF e(2)] and t = transition_effect(3,4) [OF e(3)]
  have "invoices (ad_db s') = (invoices (ad_db s))(?i \<mapsto> t_invoice tr)" "intents (ad_db s') = intents (ad_db s)"
    "investments (ad_db s') = foldl (\<lambda>xs m. upsert im_id (settled_row ?t ?p m) xs) (investments (ad_db s)) ?ms"
    using t(1) a id e(5) by simp_all
  moreover have "iv_status (t_invoice tr) = SETTLED" "iv_settlementRemainder (t_invoice tr) = iv_settlementRemainder v"
    using t(2) by (simp_all add: apply_status_def)
  ultimately show ?thesis using that [of v ?ms ?t] v id e a by auto
qed

text \<open>A settlement by an administrator that succeeds moves a funded invoice to settled, settles
  every confirmed investment of it and no other, records one completed payout per investment, each
  the investor's share rounded down, which leave less than one unit per investor of the repayment
  undistributed, and the invoice cannot be settled a second time.\<close>

theorem admin_settlement_settles_once:
  assumes "admin_settle_tx D new_id inp h now ref s = Inr ((res, tr), s')" "keyed (ad_db s)"
    and "distinct (map im_id (investments (ad_db s)))"
    and "t = toFixed4 D (total_invested D (confirmed_investments (asi_invoiceId inp) (ad_db s)))"
    and "t = sum_list (map im_amount (confirmed_investments (asi_invoiceId inp) (ad_db s)))" "0 < t"
  shows "status_at (ad_db s) (asi_invoiceId inp) = Some FUNDED \<and> status_at (ad_db s') (asi_invoiceId inp) = Some SETTLED \<and>
     investments (ad_db s') = map (\<lambda>m. if im_invoiceId m = asi_invoiceId inp \<and> im_status m = InvCONFIRMED
       then settled_row t (asr_repaymentAmount res) m else m) (investments (ad_db s)) \<and>
     ad_payouts s' = ad_payouts s @ asr_payouts res \<and>
     map pr_investmentId (asr_payouts res) = map im_id (confirmed_investments (asi_invoiceId inp) (ad_db s)) \<and>
     (0 \<le> asr_repaymentAmount res \<longrightarrow>
        (let left_over = asr_repaymentAmount res - sum_list (map pr_amount (asr_payouts res))
         in 0 \<le> left_over \<and> left_over < int (length (asr_payouts res)))) \<and>
     admin_settle_tx D' new_id' (inp\<lparr>asi_repaymentAmount := x\<rparr>) h' now' ref' s' = Inl (ServiceError ''INVALID_INVOICE_STATUS'' 400)"
proof -
  obtain v t' ms where p: "invoices (ad_db s) (asi_invoiceId inp) = Some v" "iv_status v = FUNDED" "iv_id v = asi_invoiceId inp"
    "ms = confirmed_investments (asi_invoiceId inp) (ad_db s)" "ms \<noteq> []" "t' = toFixed4 D (total_invested D ms)"
    "asr_payouts res = map (\<lambda>m. payout_of new_id (asi_invoiceId inp) h m ((im_amount m * toFixed4 D (asi_repaymentAmount inp)) div t')) ms"
    "ad_payouts s' = ad_payouts s @ asr_payouts res" "asr_repaymentAmount res = toFixed4 D (asi_repaymentAmount inp)"
    "investments (ad_db s') = foldl (\<lambda>xs m. upsert im_id (settled_row t' (toFixed4 D (asi_repaymentAmount inp)) m) xs) (investments (ad_db s)) ms"
    "invoices (ad_db s') = (invoices (ad_db s))(asi_invoiceId inp \<mapsto> t_invoice tr)" "iv_status (t_invoice tr) = SETTLED"
    "intents (ad_db s') = intents (ad_db s)" "iv_settlementRemainder (t_invoice tr) = iv_settlementRemainder v"
    by (rule admin_tx_parts [OF assms(1,2)])
  have t: "t' = t" using p(4,6) assms(4) by simp
  let ?p = "asr_repaymentAmount res"
  have inv: "investments (ad_db s') = map (\<lambda>m. if im_invoiceId m = asi_invoiceId inp \<and> im_status m = InvCONFIRMED
       then settled_row t ?p m else m) (investments (ad_db s))"
    using p(9,10) t settled_investments [OF assms(3) p(4), of t ?p] p(4) by (auto simp: confirmed_investments_def)
  have pay: "map pr_amount (asr_payouts res) = map (\<lambda>a. (a * ?p) div t) (map im_amount ms)"
    "map pr_investmentId (asr_payouts res) = map im_id ms" "length (asr_payouts res) = length (map im_amount ms)"
    using p(7,9) t by (simp_all add: payout_of_def o_def)
  have ms: "t = sum_list (map im_amount ms)" using assms(5) p(4) by simp
  have "let left_over = ?p - sum_list (map pr_amount (asr_payouts res)) in 0 \<le> left_over \<and> left_over < int (length (asr_payouts res))"
    if "0 \<le> ?p"
    using pro_rata_books [of "map im_amount ms" ?p] that assms(6) ms unfolding pay Let_def by simp
  moreover have "admin_settle_tx D' new_id' (inp\<lparr>asi_repaymentAmount := x\<rparr>) h' now' ref' s' = Inl (ServiceError ''INVALID_INVOICE_STATUS'' 400)"
    using p(11,12) by (simp add: admin_settle_tx_def)
  ultimately show ?thesis using p inv pay by (simp add: status_at_def)
qed

lemma admin_payouts_total:
  assumes "0 < t" "0 \<le> p" "\<forall>m \<in> set ms. 0 \<le> im_amount m"
  shows "\<exists>x. admin_payouts new_id t p i h ms s = Inr x"
  using assms(3)
proof (induction ms arbitrary: s)
  case (Cons m ms)
  have r: "computeInvestorReturn (im_amount m) t p = Inr ((im_amount m * p) div t)"
    using assms(1,2) Cons.prems by (simp add: computeInvestorReturn_def)
  let ?r = "(im_amount m * p) div t"
  let ?s = "s\<lparr>ad_payouts := ad_payouts s @ [payout_of new_id i h m ?r],
      ad_db := save_investment (m\<lparr>im_actualReturn := Some ?r, im_status := InvSETTLED\<rparr>) (ad_db s)\<rparr>"
  obtain qs s2 where "admin_payouts new_id t p i h ms ?s = Inr (qs, s2)" using Cons.IH [of ?s] Cons.prems by auto
  then show ?case using r by (simp add: Let_def)
qed simp

lemma admin_may_settle: "iv_status v = FUNDED \<Longrightarrow>
   \<exists>tr d'. transition entityManagerTransitionStore v SETTLED (admin_actor_of w) reason empty_context now ref d = Inr (tr, d')"
  using store_saves [of SETTLED v "admin_actor_of w" empty_context now reason ref d]
  by (simp add: assertTransition_def findRule_def rule_table guard_holds_def admin_actor_of_def Let_def)

lemma admin_settle_total:
  assumes "invoices (ad_db s) (asi_invoiceId inp) = Some v" "iv_status v = FUNDED" "iv_id v = asi_invoiceId inp"
    and "ms = confirmed_investments (asi_invoiceId inp) (ad_db s)" "ms \<noteq> []" "\<forall>m \<in> set ms. 0 \<le> im_amount m"
    and "0 < toFixed4 D (total_invested D ms)" "0 \<le> toFixed4 D (asi_repaymentAmount inp)"
  shows "\<exists>res tr s'. admin_settle_tx D new_id inp h now ref s = Inr ((res, tr), s')"
proof -
  let ?p = "toFixed4 D (asi_repaymentAmount inp)" and ?i = "asi_invoiceId inp"
  let ?d0 = "(ad_db s)\<lparr>payments := payments (ad_db s) @ [\<lparr>tx_userId = iv_sellerId v, tx_invoiceId = ?i,
      tx_investmentId = None, tx_amount = ?p, tx_hash = h\<rparr>]\<rparr>"
  obtain qs s1 where a: "admin_payouts new_id (toFixed4 D (total_invested D ms)) ?p ?i h ms (s\<lparr>ad_db := ?d0\<rparr>) = Inr (qs, s1)"
    using admin_payouts_total [OF assms(7,8,6)] by fastforce
  obtain tr d2 where "transition entityManagerTransitionStore v SETTLED (admin_actor_of (asi_actorWallet inp)) ''admin_settled''
      empty_context now ref (ad_db s1) = Inr (tr, d2)" using admin_may_settle [OF assms(2)] by blast
  then show ?thesis using assms(1-5) a by (simp add: admin_settle_tx_def Let_def)
qed

definition sample_repayment :: admin_settle_input where
  "sample_repayment = \<lparr>asi_invoiceId = ''i1'', asi_repaymentAmount = 1000, asi_actorWallet = ''GADM''\<rparr>"

lemma sample_repayment_facts: "asi_invoiceId sample_repayment = ''i1''" "asi_repaymentAmount sample_repayment = 1000"
  by (simp_all add: sample_repayment_def)

lemma sample_admin_settles:
  assumes "invoices d = invoices funded_db" "investments d = investments funded_db"
  shows "\<exists>res tr s'. admin_settle_tx exact_decimal (\<lambda>i. ''p'' @ i) sample_repayment ''H'' 5 0 \<lparr>ad_db = d, ad_payouts = []\<rparr> = Inr ((res, tr), s')"
proof -
  have c: "confirmed_investments ''i1'' d = investments funded_db"
    using funded_facts(5) assms(2) by (simp add: confirmed_investments_def)
  show ?thesis
    by (rule admin_settle_total [where v = funded_invoice and ms = "investments funded_db"])
       (use funded_facts assms(1) c in \<open>simp_all add: sample_repayment_facts funded_total exact_values\<close>)
qed

theorem admin_settlement_settles_once_witness:
  "\<exists>res tr s'. admin_settle_tx exact_decimal (\<lambda>i. ''p'' @ i) sample_repayment ''H'' 5 0 \<lparr>ad_db = funded_db, ad_payouts = []\<rparr> = Inr ((res, tr), s') \<and>
     status_at (ad_db s') ''i1'' = Some SETTLED \<and> map pr_investmentId (ad_payouts s') = [''m1'']"
proof -
  let ?s = "\<lparr>ad_db = funded_db, ad_payouts = []\<rparr>"
  obtain res tr s' where r: "admin_settle_tx exact_decimal (\<lambda>i. ''p'' @ i) sample_repayment ''H'' 5 0 ?s = Inr ((res, tr), s')"
    using sample_admin_settles [OF refl refl] by blast
  have k: "keyed (ad_db ?s)" "distinct (map im_id (investments (ad_db ?s)))" using funded_keyed funded_facts(7) by simp_all
  have t: "9500000 = toFixed4 exact_decimal (total_invested exact_decimal (confirmed_investments (asi_invoiceId sample_repayment) (ad_db ?s)))"
    "9500000 = sum_list (map im_amount (confirmed_investments (asi_invoiceId sample_repayment) (ad_db ?s)))"
    using funded_facts(5) by (simp_all add: sample_repayment_facts funded_total exact_values) (simp add: funded_db_def)
  have i: "map im_id (investments funded_db) = [''m1'']" by (simp add: funded_db_def)
  from admin_settlement_settles_once [OF r k t] show ?thesis
    using r funded_facts(5) i by (auto simp: sample_repayment_facts)
qed

subsection \<open>Two services, one invoice\<close>

text \<open>The contract is called before anything is checked: when the invoice is unknown, not funded or
  without investments, the chain has settled it although the call fails.\<close>

lemma refused_settlement_is_on_the_chain:
  assumes "0 < asi_repaymentAmount inp" "escrow (asi_invoiceId inp) c = (Inr h, c')"
    and "status_at (ad_db s) (asi_invoiceId inp) \<noteq> Some FUNDED"
  shows "\<exists>e. adminSettleInvoice D escrow new_id inp now ref s c = (Inl e, s, c')"
  using assms by (auto simp: adminSettleInvoice_def run_tx_def admin_settle_tx_def status_at_def split: option.splits)

lemma settled_is_not_prepared:
  assumes "status_at d i = Some SETTLED"
  shows "\<exists>e. prepareSettlementIntent D i terms x d = Inl e"
  using assms by (auto simp: prepareSettlementIntent_def status_at_def)

text \<open>C16: the settlement by an administrator does not look at the settlement intents. While a payout of
  the settlement service is being submitted or has reached the chain, it settles the invoice on the
  chain a second time; the intent stays as it is, and every later call of the settlement service for
  the invoice fails without completing it.\<close>

theorem admin_settles_over_a_payout:
  assumes "adminSettleInvoice D escrow new_id inp now ref s c = (Inr (res, tr), s', c')" "keyed (ad_db s)"
    and "n \<in> set (intents (ad_db s))" "in_invoiceId n = asi_invoiceId inp" "in_status n \<in> {SUBMITTING, DISTRIBUTED}"
    and "si_invoiceId again = asi_invoiceId inp"
  shows "(\<exists>h. escrow (asi_invoiceId inp) c = (Inr h, c')) \<and> n \<in> set (intents (ad_db s')) \<and>
     status_at (ad_db s') (asi_invoiceId inp) = Some SETTLED \<and> settlement_in_progress (ad_db s') (asi_invoiceId inp) \<and>
     (\<exists>e. settleInvoice D' (Some send) cfg again x now' ref' (ad_db s') c2 = (Inl e, ad_db s', c2))"
proof -
  obtain h where h: "escrow (asi_invoiceId inp) c = (Inr h, c')" and tx: "admin_settle_tx D new_id inp h now ref s = Inr ((res, tr), s')"
    using assms(1) by (auto simp: adminSettleInvoice_def run_tx_def split: if_splits sum.splits prod.splits error.splits)
  from admin_tx_parts [OF tx assms(2)] have st: "status_at (ad_db s') (asi_invoiceId inp) = Some SETTLED"
    and ints: "intents (ad_db s') = intents (ad_db s)" unfolding status_at_def by (metis fun_upd_same option.map(2))+
  have "settlement_in_progress (ad_db s') (asi_invoiceId inp)"
    using assms(3-5) unfolding settlement_in_progress_def intent_pending_def ints by blast
  moreover have "\<exists>e. settleInvoice D' (Some send) cfg again x now' ref' (ad_db s') c2 = (Inl e, ad_db s', c2)"
  proof (cases "si_proceeds again \<le> 0 \<or> cfg = None")
    case False
    then obtain k where k: "cfg = Some k" by auto
    obtain e where "prepareSettlementIntent D' (si_invoiceId again) (intent_terms D' again k) x (ad_db s') = Inl e"
      using settled_is_not_prepared [OF st] assms(6) by metis
    then have "pay_out D' send k again x (ad_db s') c2 = (Inl e, ad_db s', c2)" by (simp add: pay_out_def run_tx_def)
    then show ?thesis using False k by (simp add: settleInvoice_def)
  qed (auto simp: settleInvoice_def)
  ultimately show ?thesis using h ints st assms(3) by simp
qed

definition answering :: "nat escrow" where
  "answering i n = (Inr ''H'', n + 1)"

definition paid_intent :: intent where
  "paid_intent = \<lparr>in_id = ''n1'', in_invoiceId = ''i1'', in_status = DISTRIBUTED, in_payload = sample_payload, in_transactionHash = Some ''HASH''\<rparr>"

theorem admin_settles_over_a_payout_witness:
  "\<exists>res tr s'. adminSettleInvoice exact_decimal answering (\<lambda>i. ''p'' @ i) sample_repayment 5 0
       \<lparr>ad_db = funded_db\<lparr>intents := [paid_intent]\<rparr>, ad_payouts = []\<rparr> 0 = (Inr (res, tr), s', 1) \<and>
     status_at (ad_db s') ''i1'' = Some SETTLED \<and> settlement_in_progress (ad_db s') ''i1'' \<and>
     (\<exists>e. settleInvoice exact_decimal (Some accepting) (Some sample_config) sample_settlement ''n2'' 9 0 (ad_db s') [] = (Inl e, ad_db s', []))"
proof -
  let ?s = "\<lparr>ad_db = funded_db\<lparr>intents := [paid_intent]\<rparr>, ad_payouts = []\<rparr>"
  obtain res tr s' where r: "admin_settle_tx exact_decimal (\<lambda>i. ''p'' @ i) sample_repayment ''H'' 5 0 ?s = Inr ((res, tr), s')"
    using sample_admin_settles [of "funded_db\<lparr>intents := [paid_intent]\<rparr>"] by auto
  have a: "adminSettleInvoice exact_decimal answering (\<lambda>i. ''p'' @ i) sample_repayment 5 0 ?s 0 = (Inr (res, tr), s', 1)"
    using r by (simp add: adminSettleInvoice_def answering_def run_tx_def sample_repayment_facts)
  have k: "keyed (ad_db ?s)" using funded_keyed by (simp add: keyed_def)
  have "si_invoiceId sample_settlement = asi_invoiceId sample_repayment" by (simp add: sample_settlement_def sample_repayment_facts)
  from admin_settles_over_a_payout [OF a k _ _ _ this, of paid_intent exact_decimal accepting "Some sample_config" "''n2''" 9 0 "[]"]
  show ?thesis using a by (simp add: paid_intent_def sample_repayment_facts)
qed

end
