(* ===== verification/Auto_Invest.thy ===== *)
theory Auto_Invest
  imports Investing_Steps
begin

section \<open>Investing by rule\<close>

text \<open>
  \<open>src/services/auto-invest-rules.service.ts\<close> and \<open>src/services/auto-invest-rule-engine.service.ts\<close>:
  an investor keeps rules, and a published invoice is run past all of them. The invoice is the entity
  object the caller has; investing itself is \<open>createInvestment\<close> of \<open>Investing.thy\<close>. The environment
  gives the Horizon balance, the identifiers the database makes up, and which saves of an execution
  row raise.
\<close>

datatype risk_tier = TierLOW | TierMEDIUM | TierHIGH

datatype execution_status = EXECUTED | SKIPPED_INSUFFICIENT_BALANCE | ExecutionFAILED

text \<open>The texts an execution row gives as its reason; \<open>Raised\<close> is the message of an error.\<close>

datatype execution_reason = InvestorNotFound | BelowMinimum | Raised error

record auto_rule =
  ru_id :: string
  ru_investorId :: string
  ru_category :: "string option"
  ru_minYield :: int
  ru_maxFaceValue :: amt
  ru_riskTier :: "risk_tier option"
  ru_maxPerInvoice :: amt
  ru_minWalletBalance :: amt
  ru_enabled :: bool

record execution =
  ee_ruleId :: string
  ee_investorId :: string
  ee_invoiceId :: string
  ee_investmentId :: "string option"
  ee_amount :: amt
  ee_status :: execution_status
  ee_reason :: "execution_reason option"

text \<open>The invoice with the column only the rules read.\<close>

record rated_invoice = invoice +
  rv_category :: "string option"

record auto_state =
  au_db :: db
  au_rules :: "auto_rule list"
  au_executions :: "execution list"
  au_saves :: nat

record auto_env =
  ae_decimal :: decimal_lib
  ae_terms :: string
  ae_suitability :: "(string \<Rightarrow> risk_category \<Rightarrow> bool option) option"
  ae_riskScore :: "string \<Rightarrow> decimal option"
  ae_score :: "string \<Rightarrow> decimal"
  ae_balance :: "nat \<Rightarrow> string option \<Rightarrow> decimal result"
  ae_new_id :: "db \<Rightarrow> string"
  ae_save_fault :: "nat \<Rightarrow> error option"
  ae_now :: int
  ae_ref :: nat

subsection \<open>The rules of an investor\<close>

record rule_input =
  rq_investorId :: string
  rq_category :: "string option"
  rq_minYield :: num_input
  rq_maxFaceValue :: num_input
  rq_riskTier :: "risk_tier option"
  rq_maxPerInvoice :: num_input
  rq_minWalletBalance :: "num_input option"

definition is_negative :: "num_input \<Rightarrow> bool" where
  "is_negative x \<longleftrightarrow> (case x of NegInf \<Rightarrow> True | Num a \<Rightarrow> a < 0 | _ \<Rightarrow> False)"

definition is_zero :: "num_input \<Rightarrow> bool" where
  "is_zero x \<longleftrightarrow> x = Num 0"

definition rule_check :: "rule_input \<Rightarrow> unit result" where
  "rule_check q =
     (let least = (case rq_minWalletBalance q of None \<Rightarrow> Num 0 | Some b \<Rightarrow> b)
      in if Malformed \<in> {rq_minYield q, rq_maxFaceValue q, rq_maxPerInvoice q, least} then Inl (JsError ''DecimalError'')
      else if is_negative (rq_minYield q) then Inl (service_error ''INVALID_MIN_YIELD'')
      else if is_negative (rq_maxFaceValue q) \<or> is_zero (rq_maxFaceValue q) then Inl (service_error ''INVALID_MAX_FACE_VALUE'')
      else if is_negative (rq_maxPerInvoice q) \<or> is_zero (rq_maxPerInvoice q) then Inl (service_error ''INVALID_MAX_PER_INVOICE'')
      else if is_negative least then Inl (service_error ''INVALID_MIN_WALLET_BALANCE'')
      else Inr ())"

text \<open>The insert of the four columns: \<open>NaN\<close> and the infinities, and a yield of four digits or more
  before the point, are not values of them.\<close>

definition rule_columns :: "decimal_lib \<Rightarrow> rule_input \<Rightarrow> (int \<times> amt \<times> amt \<times> amt) option" where
  "rule_columns D q =
     (case (rq_minYield q, rq_maxFaceValue q, rq_maxPerInvoice q,
            case rq_minWalletBalance q of None \<Rightarrow> Num 0 | Some b \<Rightarrow> b) of
        (Num y, Num f, Num p, Num b) \<Rightarrow>
          if \<bar>toFixed2 D y\<bar> < 100000 \<and> (\<forall>a \<in> {toFixed4 D f, toFixed4 D p, toFixed4 D b}. \<bar>a\<bar> < 10 ^ 18)
          then Some (toFixed2 D y, toFixed4 D f, toFixed4 D p, toFixed4 D b) else None
      | _ \<Rightarrow> None)"

definition createRule :: "decimal_lib \<Rightarrow> string \<Rightarrow> rule_input \<Rightarrow> auto_state \<Rightarrow> auto_rule result \<times> auto_state" where
  "createRule D x q s =
     (case rule_check q of
        Inl e \<Rightarrow> (Inl e, s)
      | Inr _ \<Rightarrow>
          (case rule_columns D q of
             None \<Rightarrow> (Inl (JsError ''QueryFailedError''), s)
           | Some (y, f, p, b) \<Rightarrow>
               let r = \<lparr>ru_id = x, ru_investorId = rq_investorId q, ru_category = rq_category q, ru_minYield = y,
                        ru_maxFaceValue = f, ru_riskTier = rq_riskTier q, ru_maxPerInvoice = p,
                        ru_minWalletBalance = b, ru_enabled = True\<rparr>
               in (Inr r, s\<lparr>au_rules := au_rules s @ [r]\<rparr>)))"

definition listRules :: "string \<Rightarrow> auto_state \<Rightarrow> auto_rule list" where
  "listRules investorId s = filter (\<lambda>r. ru_investorId r = investorId) (au_rules s)"

definition deleteRule :: "string \<Rightarrow> string \<Rightarrow> auto_state \<Rightarrow> unit result \<times> auto_state" where
  "deleteRule investorId ruleId s =
     (case find (\<lambda>r. ru_id r = ruleId) (au_rules s) of
        None \<Rightarrow> (Inl (ServiceError ''RULE_NOT_FOUND'' 404), s)
      | Some r \<Rightarrow>
          if ru_investorId r \<noteq> investorId then (Inl (ServiceError ''RULE_FORBIDDEN'' 403), s)
          else (Inr (), s\<lparr>au_rules := filter (\<lambda>x. ru_id x \<noteq> ruleId) (au_rules s)\<rparr>))"

subsection \<open>The engine\<close>

definition riskTierFor :: "decimal option \<Rightarrow> risk_tier option" where
  "riskTierFor riskScore =
     (case riskScore of None \<Rightarrow> None
      | Some score \<Rightarrow> Some (if score \<le> 30 then TierLOW else if score \<le> 70 then TierMEDIUM else TierHIGH))"

definition rule_matches :: "(string \<Rightarrow> decimal) \<Rightarrow> auto_rule \<Rightarrow> rated_invoice \<Rightarrow> bool" where
  "rule_matches score r v \<longleftrightarrow>
     (if ru_category r \<noteq> None \<and> ru_category r \<noteq> rv_category v then False
      else if iv_discountRate v < ru_minYield r then False
      else if iv_amount v > ru_maxFaceValue r then False
      else if ru_riskTier r \<noteq> None \<and> ru_riskTier r \<noteq> riskTierFor (map_option score (iv_riskScore v)) then False
      else True)"

definition rule_amount :: "auto_rule \<Rightarrow> rated_invoice \<Rightarrow> amt" where
  "rule_amount r v = min (ru_maxPerInvoice r) (iv_netAmount v)"

definition recordExecution ::
    "auto_env \<Rightarrow> auto_rule \<Rightarrow> rated_invoice \<Rightarrow> amt \<Rightarrow> execution_status \<Rightarrow> execution_reason option \<Rightarrow> string option \<Rightarrow> auto_state \<Rightarrow>
     unit result \<times> auto_state" where
  "recordExecution E r v amount status reason investmentId s =
     (case ae_save_fault E (au_saves s) of
        Some e \<Rightarrow> (Inl e, s\<lparr>au_saves := au_saves s + 1\<rparr>)
      | None \<Rightarrow>
          (Inr (), s\<lparr>au_saves := au_saves s + 1, au_executions := au_executions s @
             [\<lparr>ee_ruleId = ru_id r, ee_investorId = ru_investorId r, ee_invoiceId = iv_id v, ee_investmentId = investmentId,
               ee_amount = amount, ee_status = status, ee_reason = reason\<rparr>]\<rparr>))"

definition wallet_text :: "string option \<Rightarrow> string" where
  "wallet_text w = (case w of None \<Rightarrow> [] | Some a \<Rightarrow> a)"

definition rule_investment :: "auto_rule \<Rightarrow> rated_invoice \<Rightarrow> user \<Rightarrow> invest_input" where
  "rule_investment r v u = \<lparr>nv_invoiceId = iv_id v, nv_investorId = ru_investorId r, nv_wallet = wallet_text (us_stellarAddress u),
     nv_amount = Num (dec (rule_amount r v)), nv_ledger = None\<rparr>"

text \<open>The body of the \<open>try\<close>.\<close>

definition try_rule :: "auto_env \<Rightarrow> rated_invoice \<Rightarrow> auto_rule \<Rightarrow> auto_state \<Rightarrow> unit result \<times> auto_state" where
  "try_rule E v r s =
     (case users (au_db s) (ru_investorId r) of
        None \<Rightarrow> recordExecution E r v (rule_amount r v) ExecutionFAILED (Some InvestorNotFound) None s
      | Some u \<Rightarrow>
          (case ae_balance E (au_saves s) (us_stellarAddress u) of
             Inl e \<Rightarrow> (Inl e, s)
           | Inr balance \<Rightarrow>
               if balance < dec (ru_minWalletBalance r)
               then recordExecution E r v (rule_amount r v) SKIPPED_INSUFFICIENT_BALANCE (Some BelowMinimum) None s
               else (case createInvestment (ae_decimal E) (ae_terms E) (ae_suitability E) (ae_riskScore E) (rule_investment r v u)
                            (ae_new_id E (au_db s)) (ae_now E) (ae_ref E) (au_db s) of
                       (Inl e, d') \<Rightarrow> (Inl e, s\<lparr>au_db := d'\<rparr>)
                     | (Inr (m, t), d') \<Rightarrow>
                         recordExecution E r v (rule_amount r v) EXECUTED None (Some (im_id m)) (s\<lparr>au_db := d'\<rparr>))))"

definition executeRule :: "auto_env \<Rightarrow> rated_invoice \<Rightarrow> auto_rule \<Rightarrow> auto_state \<Rightarrow> unit result \<times> auto_state" where
  "executeRule E v r s =
     (case try_rule E v r s of
        (Inr u, s') \<Rightarrow> (Inr u, s')
      | (Inl e, s') \<Rightarrow> recordExecution E r v (rule_amount r v) ExecutionFAILED (Some (Raised e)) None s')"

fun execute_rules :: "auto_env \<Rightarrow> rated_invoice \<Rightarrow> auto_rule list \<Rightarrow> auto_state \<Rightarrow> unit result \<times> auto_state" where
  "execute_rules E v [] s = (Inr (), s)"
| "execute_rules E v (r # rs) s =
     (case executeRule E v r s of
        (Inl e, s') \<Rightarrow> (Inl e, s')
      | (Inr _, s') \<Rightarrow> execute_rules E v rs s')"

definition matching_rules :: "auto_env \<Rightarrow> rated_invoice \<Rightarrow> auto_state \<Rightarrow> auto_rule list" where
  "matching_rules E v s = filter (\<lambda>r. rule_matches (ae_score E) r v) (filter ru_enabled (au_rules s))"

definition evaluateInvoice :: "auto_env \<Rightarrow> rated_invoice \<Rightarrow> auto_state \<Rightarrow> unit result \<times> auto_state" where
  "evaluateInvoice E v s = execute_rules E v (matching_rules E v s) s"

subsection \<open>One investment\<close>

lemma four_places_dec_amt: "four_places (dec a)"
  by (simp add: four_places_def dec_def)

lemma create_tx_invests:
  assumes "create_tx D inp (Num amount) x now ref d = Inr ((m, t), d')"
  shows "investments d' = investments (save_investment m d) \<and> im_id m = x \<and> im_amount m = toFixed4 D amount \<and>
     im_status m = InvPENDING \<and> im_invoiceId m = nv_invoiceId inp \<and> im_investorId m = nv_investorId inp"
proof -
  obtain v where v: "invoices d (nv_invoiceId inp) = Some v" "iv_status v = PUBLISHED"
    using assms by (auto simp: create_tx_def split: option.splits if_splits)
  let ?m = "new_investment D inp x None amount v"
  let ?f = "dplus D (total_active D (active_investments (nv_invoiceId inp) d)) amount"
  let ?v = "v\<lparr>iv_fundedAmount := toFixed4 D ?f\<rparr>"
  have "m = ?m \<and> investments d' = investments (save_investment ?m d)"
  proof (cases "?f \<ge> dec (iv_netAmount v)")
    case True
    then obtain t' where "fund_transition D ?v (nv_wallet inp) ?f now ref (save_investment ?m d) = Inr (t', d')" "m = ?m"
      using assms v by (auto simp: create_tx_def Let_def result_simps split: if_splits)
    then show ?thesis using fund_transition_effect(2) by blast
  next
    case False
    then show ?thesis using assms v
      by (auto simp: create_tx_def Let_def orm_save_invoice_def frame_simps split: if_splits)
  qed
  then show ?thesis by (simp add: new_investment_def)
qed

lemma create_effects:
  assumes "decimal_ok D" "funding_ok d" "x \<notin> im_id ` set (investments d)" "nv_amount inp = Num (dec a)"
    "createInvestment D terms service risk inp x now ref d = (res, d')"
  shows "case res of Inl e \<Rightarrow> d' = d
     | Inr (m, t) \<Rightarrow> funding_ok d' \<and> investments d' = investments d @ [m] \<and> im_id m = x \<and> im_amount m = a \<and> 0 < a \<and>
         im_invoiceId m = nv_invoiceId inp \<and> im_investorId m = nv_investorId inp \<and>
         (\<forall>i. active_sum i d' = active_sum i d + (if nv_invoiceId inp = i then a else 0))"
proof (cases res)
  case (Inl e)
  then show ?thesis using assms(4,5) by (auto simp: createInvestment_def run_tx_def split: sum.splits if_splits)
next
  case (Inr r)
  obtain m t where r: "r = (m, t)" by (cases r)
  have tx: "create_tx D inp (Num (dec a)) x now ref d = Inr ((m, t), d')" and pos: "\<not> dec a \<le> 0"
    using assms(4,5) Inr r by (auto simp: createInvestment_def run_tx_def split: sum.splits if_splits)
  have p: "0 < dec a" using pos by simp
  note ok = create_effect [OF assms(1,2) p four_places_dec_amt assms(3) tx] and e = create_tx_invests [OF tx]
  have a: "toFixed4 D (dec a) = a" by (rule toFixed4_dec [OF assms(1)])
  have new: "im_id m \<notin> im_id ` set (investments d)" using e assms(3) by simp
  have "active_sum i d' = active_sum i d + (if nv_invoiceId inp = i then a else 0)" for i
    using active_sum_frame [of d' "save_investment m d" i] active_sum_save [OF new, of i] e a by auto
  moreover have "investments d' = investments d @ [m]"
    using e upsert_new [OF new] by (simp add: frame_simps)
  moreover have "0 < a" using p by (metis dec_simps(8))
  ultimately show ?thesis using Inr r ok e a by simp
qed

subsection \<open>One row per rule\<close>

definition executed_amount :: "execution \<Rightarrow> amt" where
  "executed_amount x = (if ee_status x = EXECUTED then ee_amount x else 0)"

text \<open>What the engine leaves when every row is recorded: the rows \<open>xs\<close> and the investments \<open>ms\<close>.\<close>

definition rule_run :: "rated_invoice \<Rightarrow> auto_state \<Rightarrow> auto_state \<Rightarrow> execution list \<Rightarrow> investment list \<Rightarrow> bool" where
  "rule_run v s s' xs ms \<longleftrightarrow> au_executions s' = au_executions s @ xs \<and> au_rules s' = au_rules s \<and>
     investments (au_db s') = investments (au_db s) @ ms \<and> funding_ok (au_db s') \<and>
     (\<forall>m \<in> set ms. im_invoiceId m = iv_id v) \<and>
     map (\<lambda>x. (ee_investmentId x, ee_investorId x, ee_amount x)) (filter (\<lambda>x. ee_status x = EXECUTED) xs) =
       map (\<lambda>m. (Some (im_id m), im_investorId m, im_amount m)) ms \<and>
     (ms = [] \<longrightarrow> au_db s' = au_db s) \<and>
     active_sum (iv_id v) (au_db s') = active_sum (iv_id v) (au_db s) + sum_list (map executed_amount xs)"

lemma rule_run_append:
  "rule_run v s s1 xs ms \<Longrightarrow> rule_run v s1 s2 ys ns \<Longrightarrow> rule_run v s s2 (xs @ ys) (ms @ ns)"
  by (auto simp: rule_run_def)

lemma execute_one:
  assumes "decimal_ok (ae_decimal E)" "\<forall>d. ae_new_id E d \<notin> im_id ` set (investments d)" "\<forall>k. ae_save_fault E k = None"
    and "funding_ok (au_db s)"
  shows "\<exists>s' x ms. executeRule E v r s = (Inr (), s') \<and> rule_run v s s' [x] ms \<and> ee_ruleId x = ru_id r \<and>
     ee_amount x = rule_amount r v \<and> ee_invoiceId x = iv_id v"
proof (cases "users (au_db s) (ru_investorId r)")
  case None
  then show ?thesis using assms(3,4)
    by (auto simp: executeRule_def try_rule_def recordExecution_def rule_run_def executed_amount_def)
next
  case (Some u)
  show ?thesis
  proof (cases "ae_balance E (au_saves s) (us_stellarAddress u)")
    case (Inl e)
    then show ?thesis using Some assms(3,4)
      by (auto simp: executeRule_def try_rule_def recordExecution_def rule_run_def executed_amount_def)
  next
    case (Inr b)
    show ?thesis
    proof (cases "b < dec (ru_minWalletBalance r)")
      case True
      then show ?thesis using Some Inr assms(3,4)
        by (auto simp: executeRule_def try_rule_def recordExecution_def rule_run_def executed_amount_def)
    next
      case False
      let ?q = "rule_investment r v u"
      obtain res d' where c: "createInvestment (ae_decimal E) (ae_terms E) (ae_suitability E) (ae_riskScore E) ?q
          (ae_new_id E (au_db s)) (ae_now E) (ae_ref E) (au_db s) = (res, d')" by fastforce
      have q: "nv_amount ?q = Num (dec (rule_amount r v))" "nv_invoiceId ?q = iv_id v" "nv_investorId ?q = ru_investorId r"
        by (simp_all add: rule_investment_def)
      note e = create_effects [OF assms(1,4) assms(2) [rule_format] q(1) c]
      show ?thesis
      proof (cases res)
        case (Inl err)
        then have "d' = au_db s" using e by simp
        then show ?thesis using Some Inr False c Inl assms(3,4)
          by (auto simp: executeRule_def try_rule_def recordExecution_def rule_run_def executed_amount_def)
      next
        case (Inr p)
        obtain m t where p: "p = (m, t)" by (cases p)
        have f: "funding_ok d'" "investments d' = investments (au_db s) @ [m]" "im_amount m = rule_amount r v"
          "im_invoiceId m = iv_id v" "im_investorId m = ru_investorId r"
          "active_sum (iv_id v) d' = active_sum (iv_id v) (au_db s) + rule_amount r v"
          using e Inr p q by simp_all
        let ?x = "\<lparr>ee_ruleId = ru_id r, ee_investorId = ru_investorId r, ee_invoiceId = iv_id v, ee_investmentId = Some (im_id m),
          ee_amount = rule_amount r v, ee_status = EXECUTED, ee_reason = None\<rparr>"
        let ?s = "s\<lparr>au_db := d', au_saves := au_saves s + 1, au_executions := au_executions s @ [?x]\<rparr>"
        have "executeRule E v r s = (Inr (), ?s)"
          using Some \<open>ae_balance E (au_saves s) (us_stellarAddress u) = Inr b\<close> False c Inr p assms(3)
          by (simp add: executeRule_def try_rule_def recordExecution_def)
        moreover have "rule_run v s ?s [?x] [m]" using f by (simp add: rule_run_def executed_amount_def)
        ultimately show ?thesis by (intro exI [of _ ?s] exI [of _ ?x] exI [of _ "[m]"]) simp
      qed
    qed
  qed
qed

lemma execute_all:
  assumes "decimal_ok (ae_decimal E)" "\<forall>d. ae_new_id E d \<notin> im_id ` set (investments d)" "\<forall>k. ae_save_fault E k = None"
    and "funding_ok (au_db s)"
  shows "\<exists>s' xs ms. execute_rules E v rs s = (Inr (), s') \<and> rule_run v s s' xs ms \<and> map ee_ruleId xs = map ru_id rs \<and>
     map ee_amount xs = map (\<lambda>r. rule_amount r v) rs \<and> (\<forall>x \<in> set xs. ee_invoiceId x = iv_id v)"
  using assms(4)
proof (induction rs arbitrary: s)
  case Nil
  then show ?case by (intro exI [of _ s] exI [of _ "[]"]) (simp add: rule_run_def)
next
  case (Cons r rs)
  obtain s1 x ms where x: "executeRule E v r s = (Inr (), s1)" "rule_run v s s1 [x] ms" "ee_ruleId x = ru_id r"
    "ee_amount x = rule_amount r v" "ee_invoiceId x = iv_id v"
    using execute_one [OF assms(1-3) Cons.prems] by metis
  then have "funding_ok (au_db s1)" by (simp add: rule_run_def)
  from Cons.IH [OF this] obtain s' xs ns where r: "execute_rules E v rs s1 = (Inr (), s')" "rule_run v s1 s' xs ns"
    "map ee_ruleId xs = map ru_id rs" "map ee_amount xs = map (\<lambda>r. rule_amount r v) rs" "\<forall>x \<in> set xs. ee_invoiceId x = iv_id v"
    by metis
  have "rule_run v s s' ([x] @ xs) (ms @ ns)" by (rule rule_run_append [OF x(2) r(2)])
  then show ?case using x r by (intro exI [of _ s'] exI [of _ "x # xs"] exI [of _ "ms @ ns"]) simp
qed


subsection \<open>What a rule asks for\<close>

text \<open>Nothing but the amount stands between the rule and its investment.\<close>

definition ready_to_invest :: "auto_env \<Rightarrow> rated_invoice \<Rightarrow> auto_rule \<Rightarrow> auto_state \<Rightarrow> invoice \<Rightarrow> bool" where
  "ready_to_invest E v r s w \<longleftrightarrow>
     (case users (au_db s) (ru_investorId r) of None \<Rightarrow> False
      | Some u \<Rightarrow>
          (case ae_balance E (au_saves s) (us_stellarAddress u) of Inl e \<Rightarrow> False | Inr b \<Rightarrow> dec (ru_minWalletBalance r) \<le> b) \<and>
          assertAccreditationAcknowledged (ae_terms E) (Some (wallet_text (us_stellarAddress u))) (au_db s) = Inr () \<and>
          check_suitability (ae_suitability E) (ae_riskScore E) (rule_investment r v u) (au_db s) = Inr ()) \<and>
     invoices (au_db s) (iv_id v) = Some w \<and> iv_status w = PUBLISHED \<and> \<not> isPastDueDate (iv_dueDate w) (ae_now E) \<and>
     \<not> deadline_passed w (ae_now E) \<and> iv_sellerId w \<noteq> ru_investorId r \<and> 0 < ru_maxPerInvoice r"

lemma amount_above_capacity:
  assumes "decimal_ok D" "funding_ok d" "invoices d (nv_invoiceId inp) = Some w" "iv_status w = PUBLISHED"
    and "\<not> isPastDueDate (iv_dueDate w) now" "\<not> deadline_passed w now" "iv_sellerId w \<noteq> nv_investorId inp"
    and "iv_netAmount w - active_sum (nv_invoiceId inp) d < a"
  shows "create_tx D inp (Num (dec a)) x now ref d = Inl (service_error ''INSUFFICIENT_CAPACITY'')"
proof -
  have row: "row_ok d (nv_invoiceId inp) w" using assms(2,3) by (simp add: funding_ok_def)
  have "dminus D (dec (iv_netAmount w)) (dec (active_sum (nv_invoiceId inp) d)) = dec (iv_netAmount w - active_sum (nv_invoiceId inp) d)"
    by (rule dminus_dec [OF assms(1)]) (use row active_sum_nonneg [OF assms(2), of "nv_invoiceId inp"] in \<open>auto simp: row_ok_def amt_ok_def\<close>)
  then show ?thesis using assms(3-8) total_active_dec [OF assms(1,2) row]
    by (simp add: create_tx_def Let_def)
qed

text \<open>A rule asks for the smaller of its limit and the invoice's net amount, not of its limit and what
  is still open: when less is left than it asks for, an investor for whom nothing else is in the way
  gets a failed execution and no investment, although the invoice has room.\<close>

theorem rule_above_capacity_invests_nothing:
  assumes "decimal_ok (ae_decimal E)" "funding_ok (au_db s)" "ready_to_invest E v r s w"
    and "left = iv_netAmount w - active_sum (iv_id v) (au_db s)" "left < rule_amount r v" "ae_save_fault E (au_saves s) = None"
  shows "0 < min (ru_maxPerInvoice r) left \<and>
     executeRule E v r s = (Inr (), s\<lparr>au_saves := au_saves s + 1, au_executions := au_executions s @
       [\<lparr>ee_ruleId = ru_id r, ee_investorId = ru_investorId r, ee_invoiceId = iv_id v, ee_investmentId = None,
         ee_amount = rule_amount r v, ee_status = ExecutionFAILED,
         ee_reason = Some (Raised (service_error ''INSUFFICIENT_CAPACITY''))\<rparr>]\<rparr>)"
proof -
  obtain u b where u: "users (au_db s) (ru_investorId r) = Some u" "ae_balance E (au_saves s) (us_stellarAddress u) = Inr b"
    "\<not> b < dec (ru_minWalletBalance r)"
    "assertAccreditationAcknowledged (ae_terms E) (Some (wallet_text (us_stellarAddress u))) (au_db s) = Inr ()"
    "check_suitability (ae_suitability E) (ae_riskScore E) (rule_investment r v u) (au_db s) = Inr ()"
    using assms(3) by (auto simp: ready_to_invest_def split: option.splits sum.splits)
  have w: "invoices (au_db s) (iv_id v) = Some w" "iv_status w = PUBLISHED" "\<not> isPastDueDate (iv_dueDate w) (ae_now E)"
    "\<not> deadline_passed w (ae_now E)" "iv_sellerId w \<noteq> ru_investorId r" "0 < ru_maxPerInvoice r"
    using assms(3) by (simp_all add: ready_to_invest_def)
  let ?q = "rule_investment r v u"
  have q: "nv_amount ?q = Num (dec (rule_amount r v))" "nv_invoiceId ?q = iv_id v" "nv_investorId ?q = ru_investorId r"
    "nv_wallet ?q = wallet_text (us_stellarAddress u)"
    by (simp_all add: rule_investment_def)
  have "row_ok (au_db s) (iv_id v) w" using assms(2) w(1) by (simp add: funding_ok_def)
  then have l: "0 < left" using w(2) assms(4) by (simp add: row_ok_def)
  then have a: "\<not> dec (rule_amount r v) \<le> 0" using assms(5) dec_simps(8) by (metis less_trans not_le)
  have "create_tx (ae_decimal E) ?q (Num (dec (rule_amount r v))) (ae_new_id E (au_db s)) (ae_now E) (ae_ref E) (au_db s) =
      Inl (service_error ''INSUFFICIENT_CAPACITY'')"
    by (rule amount_above_capacity [OF assms(1,2)]) (use w q assms(4,5) in simp_all)
  then have "createInvestment (ae_decimal E) (ae_terms E) (ae_suitability E) (ae_riskScore E) ?q (ae_new_id E (au_db s)) (ae_now E)
      (ae_ref E) (au_db s) = (Inl (service_error ''INSUFFICIENT_CAPACITY''), au_db s)"
    using u(4,5) q a by (simp add: createInvestment_def run_tx_def)
  then show ?thesis using u(1-3) l w(6) assms(6)
    by (simp add: executeRule_def try_rule_def recordExecution_def)
qed

text \<open>When saving the row of an executed rule raises, the error is caught by the handler of a failed
  investment: the row then says failed and names no investment, while the investment stands.\<close>

theorem unrecorded_investment_is_reported_failed:
  assumes "users (au_db s) (ru_investorId r) = Some u" "ae_balance E (au_saves s) (us_stellarAddress u) = Inr b"
    and "dec (ru_minWalletBalance r) \<le> b"
    and "createInvestment (ae_decimal E) (ae_terms E) (ae_suitability E) (ae_riskScore E) (rule_investment r v u)
           (ae_new_id E (au_db s)) (ae_now E) (ae_ref E) (au_db s) = (Inr (m, t), d')"
    and "decimal_ok (ae_decimal E)" "funding_ok (au_db s)" "ae_new_id E (au_db s) \<notin> im_id ` set (investments (au_db s))"
    and "ae_save_fault E (au_saves s) = Some e" "ae_save_fault E (Suc (au_saves s)) = None"
  shows "\<exists>s' x. executeRule E v r s = (Inr (), s') \<and> au_executions s' = au_executions s @ [x] \<and>
     ee_status x = ExecutionFAILED \<and> ee_investmentId x = None \<and> ee_reason x = Some (Raised e) \<and>
     investments (au_db s') = investments (au_db s) @ [m] \<and> im_investorId m = ru_investorId r \<and> im_amount m = rule_amount r v"
proof -
  have q: "nv_amount (rule_investment r v u) = Num (dec (rule_amount r v))" "nv_investorId (rule_investment r v u) = ru_investorId r"
    by (simp_all add: rule_investment_def)
  have f: "investments d' = investments (au_db s) @ [m]" "im_investorId m = ru_investorId r" "im_amount m = rule_amount r v"
    using create_effects [OF assms(5-7) q(1) assms(4)] q(2) by simp_all
  show ?thesis using assms(1-4,8,9) f
    by (auto simp: executeRule_def try_rule_def recordExecution_def)
qed

lemma unsaved_failure_stops_the_engine:
  assumes "try_rule E v r s = (Inl e, s1)" "ae_save_fault E (au_saves s1) = Some e'"
  shows "execute_rules E v (r # rs) s = (Inl e', s1\<lparr>au_saves := au_saves s1 + 1\<rparr>)"
  using assms by (simp add: executeRule_def recordExecution_def)

text \<open>The limits of a rule are checked before they are rounded: a rule whose limit rounds to zero is
  stored, and every invoice it matches gives a failed execution.\<close>

lemma tiny_limit_is_stored:
  assumes "rule_check q = Inr ()" "rule_columns D q = Some (y, f, 0, b)"
  shows "\<exists>r. createRule D x q s = (Inr r, s\<lparr>au_rules := au_rules s @ [r]\<rparr>) \<and> ru_maxPerInvoice r = 0 \<and> rule_amount r v \<le> 0"
  using assms by (auto simp: createRule_def rule_amount_def Let_def)

lemma some_limit_rounds_to_zero: "\<exists>q. rule_check q = Inr () \<and> rule_columns exact_decimal q = Some (0, 10000, 0, 0)"
proof -
  let ?q = "\<lparr>rq_investorId = [], rq_category = None, rq_minYield = Num 0, rq_maxFaceValue = Num 1, rq_riskTier = None,
    rq_maxPerInvoice = Num (1 / 100000), rq_minWalletBalance = None\<rparr>"
  have "toFixed4 exact_decimal (1 / 100000) = 0" "toFixed4 exact_decimal 1 = 10000" "toFixed4 exact_decimal 0 = 0" "toFixed2 exact_decimal 0 = 0"
    by (simp_all add: toFixed4_def toFixed2_def exact_decimal_def floor_unique)
  then show ?thesis by (intro exI [of _ ?q]) (simp add: rule_check_def rule_columns_def is_negative_def is_zero_def)
qed

subsection \<open>Examples\<close>

text \<open>An investor with a rule of at most 950 per invoice, on an invoice of 950 of which 100 are taken;
  and the same rule on the untouched invoice.\<close>

definition rule_user :: user where
  "rule_user = \<lparr>us_id = ''u1'', us_stellarAddress = Some ''GINV'', us_userType = INVESTOR, us_kycStatus = KycAPPROVED,
     us_isKycVerified = True, us_isSuspended = False\<rparr>"

definition sample_rule :: auto_rule where
  "sample_rule = \<lparr>ru_id = ''r1'', ru_investorId = ''u1'', ru_category = None, ru_minYield = 0, ru_maxFaceValue = 10 ^ 9,
     ru_riskTier = None, ru_maxPerInvoice = 9500000, ru_minWalletBalance = 0, ru_enabled = True\<rparr>"

definition sample_rated :: rated_invoice where
  "sample_rated = invoice.extend open_invoice \<lparr>rv_category = None\<rparr>"

definition sample_engine :: "(nat \<Rightarrow> error option) \<Rightarrow> auto_env" where
  "sample_engine f = \<lparr>ae_decimal = exact_decimal, ae_terms = ''v1'', ae_suitability = None, ae_riskScore = (\<lambda>_. None), ae_score = (\<lambda>_. 0),
     ae_balance = (\<lambda>_ _. Inr 1000), ae_new_id = (\<lambda>d. ''m'' @ concat (map im_id (investments d))), ae_save_fault = f,
     ae_now = 19990 * 86400000, ae_ref = 0\<rparr>"

definition auto_start :: "db \<Rightarrow> auto_state" where
  "auto_start d = \<lparr>au_db = d\<lparr>users := [''u1'' \<mapsto> rule_user]\<rparr>, au_rules = [sample_rule\<lparr>ru_maxPerInvoice := 1000000\<rparr>], au_executions = [], au_saves = 0\<rparr>"

definition taken_db :: db where
  "taken_db = open_db\<lparr>invoices := [''i1'' \<mapsto> open_invoice\<lparr>iv_fundedAmount := 1000000\<rparr>], investments := [holding ''m2'' 1000000 None InvPENDING]\<rparr>"

lemma fresh_sample: "''m'' @ concat (map im_id ms) \<notin> im_id ` set ms"
proof
  assume "''m'' @ concat (map im_id ms) \<in> im_id ` set ms"
  then obtain m where m: "m \<in> set ms" "''m'' @ concat (map im_id ms) = im_id m" by auto
  have "length (im_id m) \<le> length (concat (map im_id ms))" using m(1) by (induction ms) auto
  then show False using arg_cong [OF m(2), of length] by simp
qed

lemma sample_engine_simps [simp]:
  "ae_decimal (sample_engine f) = exact_decimal" "ae_terms (sample_engine f) = ''v1''" "ae_suitability (sample_engine f) = None"
  "ae_balance (sample_engine f) k w = Inr 1000" "ae_new_id (sample_engine f) d = ''m'' @ concat (map im_id (investments d))"
  "ae_save_fault (sample_engine f) = f" "ae_now (sample_engine f) = 19990 * 86400000" "ae_ref (sample_engine f) = 0"
  by (simp_all add: sample_engine_def)

lemma sample_rated_simps [simp]: "iv_id sample_rated = ''i1''" "iv_netAmount sample_rated = 9500000" "iv_discountRate sample_rated = iv_discountRate open_invoice"
  "iv_amount sample_rated = iv_amount open_invoice"
  by (simp_all add: sample_rated_def invoice.extend_def open_facts)

lemma sample_rule_simps [simp]: "ru_id sample_rule = ''r1''" "ru_investorId sample_rule = ''u1''" "ru_minWalletBalance sample_rule = 0"
  "ru_maxPerInvoice sample_rule = 9500000" "rule_amount sample_rule sample_rated = 9500000"
  by (simp_all add: sample_rule_def rule_amount_def)

lemma funding_ok_users: "funding_ok (d\<lparr>users := u\<rparr>) = funding_ok d"
  by (simp add: funding_ok_def row_ok_def active_sum_def active_investments_def)

lemma taken_ok: "funding_ok taken_db"
  using open_facts by (auto simp: funding_ok_def row_ok_def active_sum_def active_investments_def amt_ok_def taken_db_def holding_def)

lemma sample_ready:
  assumes "d \<in> {open_db, taken_db}" "w = the (invoices d ''i1'')"
  shows "ready_to_invest (sample_engine f) sample_rated sample_rule (auto_start d) w"
proof -
  have w: "invoices d ''i1'' = Some w" "iv_status w = PUBLISHED" "iv_dueDate w = iv_dueDate open_invoice"
    "iv_fundingDeadline w = iv_fundingDeadline open_invoice" "iv_sellerId w = iv_sellerId open_invoice"
    using assms open_facts by (auto simp: taken_db_def)
  have a: "acknowledgements d = [(''GINV'', ''v1'')]" using assms(1) by (auto simp: open_db_def taken_db_def)
  have t: "js_trim ''GINV'' = ''GINV''" by (simp add: js_trim_def is_ws_def)
  have o: "\<not> isPastDueDate (iv_dueDate open_invoice) (19990 * 86400000)" "iv_fundingDeadline open_invoice = None" "iv_sellerId open_invoice \<noteq> ''u1''"
    by (simp_all add: isPastDueDate_def open_invoice_def sample_invoice_def endOfDayUTC_def date_value_def DAY_MS_def)
  show ?thesis using w a t o
    by (simp add: ready_to_invest_def auto_start_def rule_user_def wallet_text_def assertAccreditationAcknowledged_def
        check_suitability_def deadline_passed_def)
qed

theorem rule_above_capacity_invests_nothing_witness:
  "\<exists>s'. executeRule (sample_engine (\<lambda>_. None)) sample_rated sample_rule (auto_start taken_db) = (Inr (), s') \<and>
     map ee_status (au_executions s') = [ExecutionFAILED] \<and> au_db s' = au_db (auto_start taken_db) \<and> 0 < min (9500000 :: int) 8500000"
proof -
  let ?s = "auto_start taken_db" and ?E = "sample_engine (\<lambda>_. None)" and ?w = "the (invoices taken_db ''i1'')"
  have k: "decimal_ok (ae_decimal ?E)" "funding_ok (au_db ?s)" "ae_save_fault ?E (au_saves ?s) = None"
    using exact_decimal_ok taken_ok by (simp_all add: auto_start_def funding_ok_users)
  have r: "ready_to_invest ?E sample_rated sample_rule ?s ?w" by (rule sample_ready) simp_all
  have l: "8500000 = iv_netAmount ?w - active_sum (iv_id sample_rated) (au_db ?s)" "8500000 < rule_amount sample_rule sample_rated"
    by (simp_all add: taken_db_def auto_start_def active_sum_def active_investments_def holding_def open_facts)
  from rule_above_capacity_invests_nothing [OF k(1,2) r l k(3)] show ?thesis by (simp add: auto_start_def)
qed

abbreviation small_rule :: auto_rule where
  "small_rule \<equiv> sample_rule\<lparr>ru_maxPerInvoice := 1000000\<rparr>"

lemma small_rule_amount: "rule_amount small_rule sample_rated = 1000000"
  by (simp add: rule_amount_def)

lemma small_investment:
  "\<exists>m t d'. createInvestment exact_decimal ''v1'' None (ae_riskScore (sample_engine f)) (rule_investment small_rule sample_rated rule_user)
     ''m'' (19990 * 86400000) 0 (au_db (auto_start open_db)) = (Inr (m, t), d') \<and> im_id m = ''m''"
proof -
  let ?q = "rule_investment small_rule sample_rated rule_user" and ?d = "au_db (auto_start open_db)"
  have q: "nv_amount ?q = Num 100" "nv_invoiceId ?q = ''i1''" "nv_investorId ?q = ''u1''" "nv_wallet ?q = ''GINV''"
    by (simp_all add: rule_investment_def small_rule_amount rule_user_def wallet_text_def dec_def)
  have d: "invoices ?d ''i1'' = Some open_invoice" "investments ?d = []" "acknowledgements ?d = [(''GINV'', ''v1'')]"
    using open_facts by (simp_all add: auto_start_def) (simp add: open_db_def)
  have o: "\<not> isPastDueDate (iv_dueDate open_invoice) (19990 * 86400000)" "\<not> deadline_passed open_invoice (19990 * 86400000)"
    "iv_sellerId open_invoice \<noteq> ''u1''" "js_trim ''GINV'' = ''GINV''"
    by (simp_all add: isPastDueDate_def deadline_passed_def open_invoice_def sample_invoice_def endOfDayUTC_def date_value_def
        DAY_MS_def js_trim_def is_ws_def)
  have act: "active_investments ''i1'' ?d = []" by (simp add: active_investments_def d)
  have z: "total_active exact_decimal [] = 0" by (simp add: total_active_def dsum_def)
  have s: "dminus exact_decimal (dec 9500000) 0 = 950" "dplus exact_decimal 0 100 = 100" "dec 9500000 = 950"
    by (simp_all add: dminus_def dplus_def exact_decimal_def dec_def)
  have tx: "create_tx exact_decimal ?q (Num 100) ''m'' (19990 * 86400000) 0 ?d =
      Inr ((new_investment exact_decimal ?q ''m'' None 100 open_invoice, None),
        snd (orm_save_invoice (open_invoice\<lparr>iv_fundedAmount := toFixed4 exact_decimal 100\<rparr>)
          (save_investment (new_investment exact_decimal ?q ''m'' None 100 open_invoice) ?d)))"
    using d q o(1-3) act z s open_facts by (simp add: create_tx_def Let_def)
  show ?thesis using tx d q o(4)
    by (simp add: createInvestment_def assertAccreditationAcknowledged_def check_suitability_def run_tx_def new_investment_def)
qed

theorem unrecorded_investment_is_reported_failed_witness:
  "\<exists>s' m. executeRule (sample_engine (\<lambda>k. if k = 0 then Some (JsError ''lost'') else None)) sample_rated small_rule (auto_start open_db) = (Inr (), s') \<and>
     map ee_status (au_executions s') = [ExecutionFAILED] \<and> investments (au_db s') = [m] \<and> im_amount m = 1000000"
proof -
  let ?f = "\<lambda>k :: nat. if k = 0 then Some (JsError ''lost'') else None"
  let ?E = "sample_engine ?f" and ?s = "auto_start open_db"
  obtain m t d' where c: "createInvestment exact_decimal ''v1'' None (ae_riskScore ?E) (rule_investment small_rule sample_rated rule_user)
     ''m'' (19990 * 86400000) 0 (au_db ?s) = (Inr (m, t), d')" using small_investment by blast
  have c': "createInvestment (ae_decimal ?E) (ae_terms ?E) (ae_suitability ?E) (ae_riskScore ?E) (rule_investment small_rule sample_rated rule_user)
     (ae_new_id ?E (au_db ?s)) (ae_now ?E) (ae_ref ?E) (au_db ?s) = (Inr (m, t), d')"
    using c open_facts by (simp add: auto_start_def)
  have u: "users (au_db ?s) (ru_investorId small_rule) = Some rule_user" by (simp add: auto_start_def)
  have b: "ae_balance ?E (au_saves ?s) (us_stellarAddress rule_user) = Inr 1000" "dec (ru_minWalletBalance small_rule) \<le> 1000" by simp_all
  have k: "decimal_ok (ae_decimal ?E)" "funding_ok (au_db ?s)" "ae_new_id ?E (au_db ?s) \<notin> im_id ` set (investments (au_db ?s))"
    "ae_save_fault ?E (au_saves ?s) = Some (JsError ''lost'')" "ae_save_fault ?E (Suc (au_saves ?s)) = None"
    using exact_decimal_ok open_ok open_facts by (simp_all add: auto_start_def funding_ok_users)
  from unrecorded_investment_is_reported_failed [OF u b c' k] show ?thesis
    using open_facts by (auto simp: auto_start_def small_rule_amount)
qed


end
