(* ===== verification/Refunds.thy ===== *)
theory Refunds
  imports Investing_Steps
begin

section \<open>Refunds\<close>

text \<open>
  \<open>src/services/invoice-refund.service.ts\<close>. There is no transaction: the call reads the invoice and
  the investment, removes the investment, counts what is left and saves the invoice it read at the
  start. \<open>refund_read\<close> is what comes before the removal, \<open>refund_close\<close> what follows it; other calls
  may commit in between. The order in which \<open>findOne\<close> finds an investment is that of the table.
\<close>

datatype refund_refusal = InvoiceNotFound | InvoiceFunded | InvoiceSettled | DeadlineNotReached

definition canRefund :: "string \<Rightarrow> int \<Rightarrow> db \<Rightarrow> refund_refusal option" where
  "canRefund i now d =
     (case invoices d i of
        None \<Rightarrow> Some InvoiceNotFound
      | Some v \<Rightarrow>
          if iv_status v = FUNDED then Some InvoiceFunded
          else if iv_status v = SETTLED then Some InvoiceSettled
          else if (case iv_fundingDeadline v of None \<Rightarrow> False | Some t \<Rightarrow> now < t) then Some DeadlineNotReached
          else None)"

definition wallet_investment :: "string \<Rightarrow> string \<Rightarrow> db \<Rightarrow> investment option" where
  "wallet_investment i wallet d = find (\<lambda>m. im_invoiceId m = i \<and> im_wallet m = Some wallet) (investments d)"

definition refund_read :: "string \<Rightarrow> string \<Rightarrow> int \<Rightarrow> db \<Rightarrow> error + (invoice \<times> investment)" where
  "refund_read i wallet now d =
     (case invoices d i of
        None \<Rightarrow> Inl (ServiceError ''INVOICE_NOT_FOUND'' 404)
      | Some v \<Rightarrow>
          (case wallet_investment i wallet d of
             None \<Rightarrow> Inl (ServiceError ''investment_not_found'' 404)
           | Some m \<Rightarrow> if canRefund i now d \<noteq> None then Inl (ServiceError ''REFUND_NOT_ALLOWED'' 400) else Inr (v, m)))"

definition remove_investment :: "investment \<Rightarrow> db \<Rightarrow> db" where
  "remove_investment m d = d\<lparr>investments := filter (\<lambda>x. im_id x \<noteq> im_id m) (investments d)\<rparr>"

definition refund_close :: "string \<Rightarrow> invoice \<Rightarrow> db \<Rightarrow> db" where
  "refund_close i v d =
     (if filter (\<lambda>m. im_invoiceId m = i) (investments d) = [] then snd (orm_save_invoice (v\<lparr>iv_status := CANCELLED\<rparr>) d) else d)"

definition refundInvestment :: "string \<Rightarrow> string \<Rightarrow> int \<Rightarrow> db \<Rightarrow> unit result \<times> db" where
  "refundInvestment i wallet now d =
     (case refund_read i wallet now d of
        Inl e \<Rightarrow> (Inl e, d)
      | Inr (v, m) \<Rightarrow> (Inr (), refund_close i v (remove_investment m d)))"

definition getRefundableInvoices :: "string \<Rightarrow> int \<Rightarrow> db \<Rightarrow> invoice list" where
  "getRefundableInvoices wallet now d =
     map (\<lambda>i. the (invoices d i))
       (filter (\<lambda>i. case invoices d i of None \<Rightarrow> False
                    | Some v \<Rightarrow> (case iv_fundingDeadline v of None \<Rightarrow> False | Some t \<Rightarrow> t < now) \<and> iv_status v = PUBLISHED)
          (remdups (map im_invoiceId (filter (\<lambda>m. im_wallet m = Some wallet) (investments d)))))"

subsection \<open>What a refund leaves\<close>

lemma refund_cases:
  assumes "refundInvestment i wallet now d = (res, d')"
  obtains e where "res = Inl e" "d' = d"
  | v m where "res = Inr ()" "invoices d i = Some v" "wallet_investment i wallet d = Some m" "canRefund i now d = None"
      "d' = refund_close i v (remove_investment m d)"
proof (cases "refund_read i wallet now d")
  case (Inl e)
  then show thesis using assms that(1) [of e] by (simp add: refundInvestment_def)
next
  case (Inr p)
  obtain v m where p: "p = (v, m)" by (cases p)
  have "invoices d i = Some v" "wallet_investment i wallet d = Some m" "canRefund i now d = None"
    using Inr p by (auto simp: refund_read_def split: option.splits if_splits)
  then show thesis using assms that(2) Inr p by (simp add: refundInvestment_def)
qed

lemma wallet_investment_Some:
  "wallet_investment i wallet d = Some m \<Longrightarrow> m \<in> set (investments d) \<and> im_invoiceId m = i \<and> im_wallet m = Some wallet"
  by (auto simp: wallet_investment_def find_Some_iff)

lemma refund_close_simps:
  "investments (refund_close i v d) = investments d" "history (refund_close i v d) = history d"
  "intents (refund_close i v d) = intents d"
  by (simp_all add: refund_close_def orm_save_invoice_def Let_def frame_simps)

lemma removed_sum:
  assumes "m \<in> set ms" "distinct (map im_id ms)"
  shows "sum_list (map f (filter P (filter (\<lambda>x. im_id x \<noteq> im_id m) ms))) = sum_list (map f (filter P ms)) - (if P m then f m else (0 :: int))"
  using assms
proof (induction ms)
  case (Cons x ms)
  have f: "filter (\<lambda>y. im_id y \<noteq> im_id x) ms = ms" if "im_id x \<notin> im_id ` set ms"
    by (rule filter_True) (metis image_eqI that)
  show ?case
  proof (cases "x = m")
    case True
    then show ?thesis using Cons.prems f by simp
  next
    case False
    then have "m \<in> set ms" "im_id x \<noteq> im_id m" using Cons.prems by auto
    then show ?thesis using Cons by simp
  qed
qed simp

text \<open>C18: a refund removes the investment whatever its status, confirmed ones included, and leaves the
  amount the invoice records as funded as it is: if others have invested too, an open invoice from then
  on records more than its investments add up to, by what was refunded.\<close>

theorem refund_leaves_the_funded_amount:
  assumes "refundInvestment i wallet now d = (Inr (), d')" "funding_ok d" "distinct (map im_id (investments d))"
    and "invoices d i = Some v" "iv_status v = PUBLISHED"
    and "other \<in> set (investments d)" "im_invoiceId other = i" "wallet_investment i wallet d \<noteq> Some other"
  shows "\<exists>m. wallet_investment i wallet d = Some m \<and> m \<notin> set (investments d') \<and> invoices d' i = Some v \<and>
     iv_fundedAmount v = active_sum i d' + (if is_active m then im_amount m else 0) \<and>
     (is_active m \<and> 0 < im_amount m \<longrightarrow> \<not> funding_ok d')"
proof -
  obtain m where m: "wallet_investment i wallet d = Some m" "d' = refund_close i v (remove_investment m d)"
    using assms(1,4) by (cases rule: refund_cases) auto
  note in_m = wallet_investment_Some [OF m(1)]
  have ne: "im_id other \<noteq> im_id m" using assms(3,6,8) in_m m(1) by (auto simp: distinct_map inj_on_def)
  have "filter (\<lambda>m. im_invoiceId m = i) (investments (remove_investment m d)) \<noteq> []"
    using assms(6,7) ne by (auto simp: remove_investment_def filter_empty_conv)
  then have d': "d' = remove_investment m d" using m(2) by (simp add: refund_close_def)
  have row: "row_ok d i v" using assms(2,4) by (simp add: funding_ok_def)
  have s: "active_sum i d' = active_sum i d - (if is_active m then im_amount m else 0)"
    using removed_sum [of m "investments d" im_amount "\<lambda>m. im_invoiceId m = i \<and> is_active m"] in_m assms(3)
    unfolding d' remove_investment_def active_sum_def active_investments_def is_active_def by simp
  have f: "iv_fundedAmount v = active_sum i d" using row assms(5) by (simp add: row_ok_def)
  have inv: "invoices d' i = Some v" using assms(4) d' by (simp add: remove_investment_def)
  have "\<not> row_ok d' i v" if "is_active m \<and> 0 < im_amount m" using that s f assms(5) by (simp add: row_ok_def)
  then have "\<not> funding_ok d'" if "is_active m \<and> 0 < im_amount m" using that inv by (auto simp: funding_ok_def)
  then show ?thesis using m(1) inv f s d' by (intro exI [of _ m]) (simp add: remove_investment_def)
qed

text \<open>The refund of the last investment cancels the invoice by saving the row directly: no history is
  written and no rule is asked, so the history no longer explains the status.\<close>

theorem last_refund_bypasses_the_state_machine:
  assumes "refundInvestment i wallet now d = (Inr (), d')" "trail_ok d" "status_at d i \<noteq> Some CANCELLED"
    and "\<forall>m \<in> set (investments d). im_invoiceId m = i \<longrightarrow> wallet_investment i wallet d = Some m"
  shows "status_at d' i = Some CANCELLED \<and> history d' = history d \<and> \<not> trail_ok d'"
proof -
  obtain v m where m: "invoices d i = Some v" "wallet_investment i wallet d = Some m" "d' = refund_close i v (remove_investment m d)"
    using assms(1) by (cases rule: refund_cases) auto
  have id: "iv_id v = i" and tr: "follow DRAFT (entries_of i d) = Some (iv_status v)" using assms(2) m(1) by (auto simp: trail_ok_def)
  have "filter (\<lambda>m. im_invoiceId m = i) (investments (remove_investment m d)) = []"
    using assms(4) m(2) by (auto simp: remove_investment_def filter_empty_conv)
  then have st: "status_at d' i = Some CANCELLED" and h: "history d' = history d"
    using m(3) id by (simp_all add: refund_close_def orm_save_invoice_def Let_def frame_simps status_at_def remove_investment_def)
  have "iv_status v \<noteq> CANCELLED" using assms(3) m(1) by (simp add: status_at_def)
  then have "iv_status w \<noteq> CANCELLED" if "follow DRAFT (entries_of i d') = Some (iv_status w)" for w
    using that h tr by (simp add: entries_of_def)
  then have "\<not> trail_ok d'" using st unfolding trail_ok_def status_at_def by fastforce
  then show ?thesis using st h by simp
qed

text \<open>What the list offers can be refunded; the reverse fails: without a deadline a refund is possible at
  once, and an invoice in any other status than funded or settled qualifies.\<close>

lemma listed_invoices_are_refundable:
  assumes "keyed d" "v \<in> set (getRefundableInvoices wallet now d)"
  shows "canRefund (iv_id v) now d = None \<and> (\<exists>m. wallet_investment (iv_id v) wallet d = Some m)"
proof -
  let ?ok = "\<lambda>i. case invoices d i of None \<Rightarrow> False
      | Some v \<Rightarrow> (case iv_fundingDeadline v of None \<Rightarrow> False | Some t \<Rightarrow> t < now) \<and> iv_status v = PUBLISHED"
  obtain i where a: "v = the (invoices d i)" "?ok i" "i \<in> im_invoiceId ` {m \<in> set (investments d). im_wallet m = Some wallet}"
    using assms(2) unfolding getRefundableInvoices_def by auto
  obtain m where m: "m \<in> set (investments d)" "im_invoiceId m = i" "im_wallet m = Some wallet" using a(3) by auto
  have i: "invoices d i = Some v" "iv_status v = PUBLISHED" "m \<in> set (investments d)" "im_invoiceId m = i" "im_wallet m = Some wallet"
    "case iv_fundingDeadline v of None \<Rightarrow> False | Some t \<Rightarrow> t < now"
    using a(1,2) m by (cases "invoices d i"; simp)+
  have id: "iv_id v = i" using assms(1) i(1) by (auto simp: keyed_def)
  have "wallet_investment i wallet d \<noteq> None"
    using i(3-5) by (auto simp: wallet_investment_def find_None_iff)
  then show ?thesis using i(1,2,6) id by (auto simp: canRefund_def split: option.splits)
qed

lemma no_deadline_is_refundable:
  "invoices d i = Some v \<Longrightarrow> iv_status v = PUBLISHED \<Longrightarrow> iv_fundingDeadline v = None \<Longrightarrow> canRefund i now d = None"
  by (simp add: canRefund_def)

text \<open>The invoice saved at the end is the one read at the start, with whatever others have written to the
  row since undone.\<close>

lemma refund_saves_what_it_read:
  assumes "filter (\<lambda>m. im_invoiceId m = i) (investments d) = []" "iv_id v = i"
  shows "invoices (refund_close i v d) i = Some (v\<lparr>iv_status := CANCELLED, iv_version := iv_version v + 1\<rparr>)"
  using assms by (simp add: refund_close_def orm_save_invoice_def Let_def frame_simps)

subsection \<open>Examples\<close>

text \<open>Two investors, the first one with a confirmed payment; and the same invoice with the second alone.\<close>

definition first_holding :: investment where
  "first_holding = (holding ''m1'' 1000000 None InvCONFIRMED)\<lparr>im_wallet := Some ''GINV''\<rparr>"

definition second_holding :: investment where
  "second_holding = (holding ''m2'' 500000 None InvPENDING)\<lparr>im_wallet := Some ''GTWO''\<rparr>"

definition shared_db :: db where
  "shared_db = open_db\<lparr>invoices := [''i1'' \<mapsto> open_invoice\<lparr>iv_fundedAmount := 1500000\<rparr>], investments := [first_holding, second_holding]\<rparr>"

definition single_db :: db where
  "single_db = (fresh_db [sample_invoice])\<lparr>investments := [second_holding]\<rparr>"

lemma holding_fields [simp]:
  "im_id first_holding = ''m1''" "im_wallet first_holding = Some ''GINV''" "im_invoiceId first_holding = ''i1''"
  "im_amount first_holding = 1000000" "im_status first_holding = InvCONFIRMED"
  "im_id second_holding = ''m2''" "im_wallet second_holding = Some ''GTWO''" "im_invoiceId second_holding = ''i1''"
  "im_amount second_holding = 500000" "im_status second_holding = InvPENDING"
  by (simp_all add: first_holding_def second_holding_def holding_def)

lemma shared_ok: "funding_ok shared_db"
  using open_facts by (auto simp: funding_ok_def row_ok_def active_sum_def active_investments_def amt_ok_def shared_db_def)

theorem refund_leaves_the_funded_amount_witness:
  "\<exists>d'. refundInvestment ''i1'' ''GINV'' 0 shared_db = (Inr (), d') \<and> first_holding \<notin> set (investments d') \<and> \<not> funding_ok d'"
proof -
  have w: "wallet_investment ''i1'' ''GINV'' shared_db = Some first_holding" by (simp add: wallet_investment_def shared_db_def)
  have v: "invoices shared_db ''i1'' = Some (open_invoice\<lparr>iv_fundedAmount := 1500000\<rparr>)"
    "iv_status (open_invoice\<lparr>iv_fundedAmount := 1500000\<rparr>) = PUBLISHED" by (simp_all add: shared_db_def open_facts)
  have c: "canRefund ''i1'' 0 shared_db = None"
    using v open_facts by (simp add: canRefund_def) (simp add: open_invoice_def sample_invoice_def)
  obtain d' where r: "refundInvestment ''i1'' ''GINV'' 0 shared_db = (Inr (), d')"
    using w v c by (simp add: refundInvestment_def refund_read_def)
  have d: "distinct (map im_id (investments shared_db))" by (simp add: shared_db_def)
  have ne: "first_holding \<noteq> second_holding"
  proof
    assume "first_holding = second_holding"
    from arg_cong [OF this, of im_id] show False by simp
  qed
  have o: "second_holding \<in> set (investments shared_db)" "im_invoiceId second_holding = ''i1''"
    "wallet_investment ''i1'' ''GINV'' shared_db \<noteq> Some second_holding"
    using w ne by (simp_all add: shared_db_def)
  from refund_leaves_the_funded_amount [OF r shared_ok d v o] show ?thesis
    using r w by (auto simp: is_active_def)
qed

theorem last_refund_bypasses_the_state_machine_witness:
  "\<exists>d'. refundInvestment ''i1'' ''GTWO'' 0 single_db = (Inr (), d') \<and> status_at d' ''i1'' = Some CANCELLED \<and> history d' = []"
proof -
  have w: "wallet_investment ''i1'' ''GTWO'' single_db = Some second_holding" by (simp add: wallet_investment_def single_db_def)
  have v: "invoices single_db ''i1'' = Some sample_invoice" "iv_status sample_invoice = DRAFT" "iv_fundingDeadline sample_invoice = None"
    by (simp_all add: single_db_def fresh_db_def sample_invoice_def)
  obtain d' where r: "refundInvestment ''i1'' ''GTWO'' 0 single_db = (Inr (), d')"
    using w v by (simp add: refundInvestment_def refund_read_def canRefund_def)
  have t: "trail_ok single_db" using fresh_trail_ok [of "[sample_invoice]"] v
    by (simp add: trail_ok_def single_db_def entries_of_def)
  have "status_at single_db ''i1'' \<noteq> Some CANCELLED" using v by (simp add: status_at_def)
  moreover have "\<forall>m \<in> set (investments single_db). im_invoiceId m = ''i1'' \<longrightarrow> wallet_investment ''i1'' ''GTWO'' single_db = Some m"
    using w by (simp add: single_db_def)
  ultimately show ?thesis using last_refund_bypasses_the_state_machine [OF r t] r
    by (auto simp: single_db_def fresh_db_def)
qed

end
