(* ===== verification/Royalties.thy ===== *)
theory Royalties
  imports Dividends Ttl_Cache
begin

section \<open>Royalty earnings\<close>

text \<open>
  \<open>src/services/royalty-earnings.service.ts\<close> over its repository in
  \<open>services/onchain-projection-repositories.ts\<close>: royalty events become rows of two tables, and a
  creator reads the totals with every transfer, and the claims by page, through a cache. The readers of
  event fields are those of \<open>Contract_Events.thy\<close>; amounts are read as \<open>Dividends.thy\<close> reads them, \<open>parse\<close>
  being what decimal.js makes of a text. Both writers give a row its time, so the nullable columns hold
  one. A cursor is the time and the row id it prints, \<open>None\<close> when it is missing or malformed. Instants of
  a view are kept as they are.
\<close>

record royalty =
  ry_id :: string
  ry_key :: string
  ry_creator :: string
  ry_buyer :: "string option"
  ry_amount :: amt
  ry_txHash :: string
  ry_ledger :: string
  ry_paidAt :: int

record royalty_claim =
  rc_id :: string
  rc_claimId :: string
  rc_key :: "string option"
  rc_creator :: string
  rc_amount :: amt
  rc_txHash :: string
  rc_ledger :: string
  rc_claimedAt :: int

record earnings_view =
  rw_creator :: string
  rw_totalEarned :: amt
  rw_totalClaimed :: amt
  rw_pending :: amt
  rw_transferCount :: nat
  rw_claimCount :: nat
  rw_transfers :: "royalty list"
  rw_computedAt :: int

record royalty_page =
  rp_items :: "royalty_claim list"
  rp_hasMore :: bool
  rp_nextCursor :: "(int \<times> string) option"

datatype royalty_cached = CachedEarnings earnings_view | CachedHistory royalty_page

record royalty_state =
  rs_events :: "royalty list"
  rs_claims :: "royalty_claim list"
  rs_cache :: "royalty_cached cache"
  rs_keys :: "(string \<times> string list) list"

definition ROYALTY_EARNINGS_CACHE_TTL_SECONDS :: int where "ROYALTY_EARNINGS_CACHE_TTL_SECONDS = 30"
definition DEFAULT_TRANSFER_PAGE_SIZE :: int where "DEFAULT_TRANSFER_PAGE_SIZE = 100"
definition MAX_TRANSFER_PAGE_SIZE :: int where "MAX_TRANSFER_PAGE_SIZE = 200"
definition MAX_TRANSFER_PAGES :: nat where "MAX_TRANSFER_PAGES = 20"

definition royalty_cache :: cache_options where
  "royalty_cache = \<lparr>ttlSeconds = ROYALTY_EARNINGS_CACHE_TTL_SECONDS, maxEntries = DEFAULT_MAX_ENTRIES, namespace = ''royalties'',
     enabled = True, sweepIntervalMs = defaultSweepIntervalMs ROYALTY_EARNINGS_CACHE_TTL_SECONDS\<rparr>"

subsection \<open>The repository\<close>

definition royalties_of :: "string \<Rightarrow> royalty_state \<Rightarrow> royalty list" where
  "royalties_of w s = filter (\<lambda>r. ry_creator r = w) (rs_events s)"

definition royalty_claims_of :: "string \<Rightarrow> royalty_state \<Rightarrow> royalty_claim list" where
  "royalty_claims_of w s = filter (\<lambda>c. rc_creator c = w) (rs_claims s)"

definition totalsByCreator :: "string \<Rightarrow> royalty_state \<Rightarrow> amt \<times> nat" where
  "totalsByCreator w s = (sum_list (map ry_amount (royalties_of w s)), length (royalties_of w s))"

definition claimTotalsByCreator :: "string \<Rightarrow> royalty_state \<Rightarrow> amt \<times> nat" where
  "claimTotalsByCreator w s = (sum_list (map rc_amount (royalty_claims_of w s)), length (royalty_claims_of w s))"

definition royalty_key :: "royalty \<Rightarrow> int \<times> string" where
  "royalty_key r = (ry_paidAt r, ry_id r)"

definition royalty_claim_key :: "royalty_claim \<Rightarrow> int \<times> string" where
  "royalty_claim_key c = (rc_claimedAt c, rc_id c)"

definition newest_royalties :: "string \<Rightarrow> royalty_state \<Rightarrow> royalty list" where
  "newest_royalties w s = isort_by (\<lambda>a b. desc_desc (royalty_key a) (royalty_key b)) (royalties_of w s)"

definition listTransfers :: "string \<Rightarrow> nat \<Rightarrow> nat \<Rightarrow> royalty_state \<Rightarrow> royalty list" where
  "listTransfers w limit offset s = take limit (drop offset (newest_royalties w s))"

definition past_claim :: "(int \<times> string) option \<Rightarrow> royalty_claim \<Rightarrow> bool" where
  "past_claim cursor c \<longleftrightarrow> (case cursor of None \<Rightarrow> True
     | Some (t, i) \<Rightarrow> rc_claimedAt c < t \<or> (rc_claimedAt c = t \<and> rc_id c < i))"

definition listClaims :: "string \<Rightarrow> nat \<Rightarrow> (int \<times> string) option \<Rightarrow> royalty_state \<Rightarrow> royalty_claim list" where
  "listClaims w limit cursor s =
     take limit (isort_by (\<lambda>a b. desc_desc (royalty_claim_key a) (royalty_claim_key b)) (filter (past_claim cursor) (royalty_claims_of w s)))"

definition recordRoyaltyPaid :: "royalty \<Rightarrow> royalty_state \<Rightarrow> royalty_state" where
  "recordRoyaltyPaid r s =
     (if \<exists>x \<in> set (rs_events s). ry_txHash x = ry_txHash r \<and> ry_ledger x = ry_ledger r then s
      else s\<lparr>rs_events := rs_events s @ [r]\<rparr>)"

definition recordRoyaltyClaim :: "royalty_claim \<Rightarrow> royalty_state \<Rightarrow> royalty_state" where
  "recordRoyaltyClaim c s =
     (if \<exists>x \<in> set (rs_claims s). rc_claimId x = rc_claimId c then s else s\<lparr>rs_claims := rs_claims s @ [c]\<rparr>)"

subsection \<open>Reading earnings and history\<close>

definition royaltyLimit :: "int option \<Rightarrow> int \<Rightarrow> int \<Rightarrow> nat" where
  "royaltyLimit v fallback mx = nat (case v of None \<Rightarrow> fallback | Some n \<Rightarrow> if n \<le> 0 then fallback else min mx n)"

text \<open>\<open>pages\<close> counts down from \<open>MAX_TRANSFER_PAGES\<close>.\<close>

fun collect_transfers :: "nat \<Rightarrow> string \<Rightarrow> nat \<Rightarrow> nat \<Rightarrow> royalty_state \<Rightarrow> royalty list \<Rightarrow> royalty list" where
  "collect_transfers 0 w expected psize s collected = collected"
| "collect_transfers (Suc pages) w expected psize s collected =
     (let batch = listTransfers w psize (length collected) s;
          collected' = collected @ batch
      in if length batch < psize \<or> length collected' \<ge> expected then collected'
         else collect_transfers pages w expected psize s collected')"

definition listAllTransfers :: "string \<Rightarrow> nat \<Rightarrow> nat \<Rightarrow> royalty_state \<Rightarrow> royalty list" where
  "listAllTransfers w expected psize s = collect_transfers MAX_TRANSFER_PAGES w expected psize s []"

definition royalty_subtract :: "decimal_lib \<Rightarrow> amt \<Rightarrow> amt \<Rightarrow> amt" where
  "royalty_subtract D a b = (let result = dminus D (dec a) (dec b) in toFixed4 D (if result < 0 then 0 else result))"

definition rememberCacheKey :: "string \<Rightarrow> string \<Rightarrow> royalty_state \<Rightarrow> royalty_state" where
  "rememberCacheKey w k s =
     (let ks = (case map_of (rs_keys s) w of None \<Rightarrow> [] | Some ks \<Rightarrow> ks)
      in s\<lparr>rs_keys := map_set w (if k \<in> set ks then ks else ks @ [k]) (rs_keys s)\<rparr>)"

definition royalty_invalidate :: "string \<Rightarrow> royalty_state \<Rightarrow> royalty_state" where
  "royalty_invalidate w s =
     (case map_of (rs_keys s) w of
        None \<Rightarrow> s
      | Some ks \<Rightarrow> s\<lparr>rs_keys := map_delete w (rs_keys s), rs_cache := foldl (\<lambda>c k. cache_delete royalty_cache k c) (rs_cache s) ks\<rparr>)"

definition earnings_view_of :: "decimal_lib \<Rightarrow> string \<Rightarrow> nat \<Rightarrow> int \<Rightarrow> royalty_state \<Rightarrow> earnings_view" where
  "earnings_view_of D w psize now s =
     (case (totalsByCreator w s, claimTotalsByCreator w s) of
        ((earned, paid_count), (claimed, n)) \<Rightarrow>
          \<lparr>rw_creator = w, rw_totalEarned = earned, rw_totalClaimed = claimed, rw_pending = royalty_subtract D earned claimed,
           rw_transferCount = paid_count, rw_claimCount = n, rw_transfers = listAllTransfers w paid_count psize s, rw_computedAt = now\<rparr>)"

definition earnings_cache_key :: "string \<Rightarrow> nat \<Rightarrow> string" where
  "earnings_cache_key w psize = ''earnings:'' @ w @ '':'' @ int_str (int psize)"

definition getEarnings ::
    "decimal_lib \<Rightarrow> royalty_cached redis_reply \<Rightarrow> string \<Rightarrow> int option \<Rightarrow> int \<Rightarrow> royalty_state \<Rightarrow> earnings_view \<times> royalty_state" where
  "getEarnings D reply w transferLimit now s =
     (let psize = royaltyLimit transferLimit DEFAULT_TRANSFER_PAGE_SIZE MAX_TRANSFER_PAGE_SIZE;
          k = earnings_cache_key w psize;
          s1 = s\<lparr>rs_cache := snd (cache_get royalty_cache reply k now (rs_cache s))\<rparr>;
          v = earnings_view_of D w psize now s1
      in case fst (cache_get royalty_cache reply k now (rs_cache s)) of
           Some (CachedEarnings cached) \<Rightarrow> (cached, s1)
         | _ \<Rightarrow> (v, rememberCacheKey w k
                      (s1\<lparr>rs_cache := cache_set royalty_cache k (CachedEarnings v) (Some ROYALTY_EARNINGS_CACHE_TTL_SECONDS) now (rs_cache s1)\<rparr>)))"

definition history_page_of :: "string \<Rightarrow> nat \<Rightarrow> (int \<times> string) option \<Rightarrow> royalty_state \<Rightarrow> royalty_page" where
  "history_page_of w limit cursor s =
     (let rows = listClaims w (limit + 1) cursor s;
          more = length rows > limit
      in \<lparr>rp_items = (if more then take limit rows else rows), rp_hasMore = more,
          rp_nextCursor = (if more then Some (royalty_claim_key (rows ! (limit - 1))) else None)\<rparr>)"

text \<open>\<open>given\<close> is the text of the cursor as the caller passed it, which the key of the cache keeps.\<close>

definition history_cache_key :: "string \<Rightarrow> nat \<Rightarrow> string option \<Rightarrow> string" where
  "history_cache_key w limit given = ''history:'' @ w @ '':'' @ int_str (int limit) @ '':'' @ (case given of None \<Rightarrow> [] | Some t \<Rightarrow> t)"

definition getRoyaltyHistory ::
    "royalty_cached redis_reply \<Rightarrow> (string \<Rightarrow> (int \<times> string) option) \<Rightarrow> string \<Rightarrow> int option \<Rightarrow> string option \<Rightarrow> int \<Rightarrow> royalty_state \<Rightarrow>
     royalty_page \<times> royalty_state" where
  "getRoyaltyHistory reply parseCursor w limit_opt given now s =
     (let limit = royaltyLimit limit_opt 20 100;
          cursor = (case given of None \<Rightarrow> None | Some t \<Rightarrow> if t = [] then None else parseCursor t);
          k = history_cache_key w limit given;
          s1 = s\<lparr>rs_cache := snd (cache_get royalty_cache reply k now (rs_cache s))\<rparr>;
          p = history_page_of w limit cursor s1
      in case fst (cache_get royalty_cache reply k now (rs_cache s)) of
           Some (CachedHistory cached) \<Rightarrow> (cached, s1)
         | _ \<Rightarrow> (p, rememberCacheKey w k
                      (s1\<lparr>rs_cache := cache_set royalty_cache k (CachedHistory p) (Some ROYALTY_EARNINGS_CACHE_TTL_SECONDS) now (rs_cache s1)\<rparr>)))"

subsection \<open>Projecting events\<close>

definition amount_candidates :: "native \<Rightarrow> string list \<Rightarrow> native option list" where
  "amount_candidates data keys =
     (case data of
        NObj o' \<Rightarrow> map (\<lambda>k. map_of o' k) keys
      | NArr xs \<Rightarrow> map (\<lambda>k. Some (xs ! key_index k)) (filter (\<lambda>k. key_index k < length xs) keys)
      | _ \<Rightarrow> [])"

definition readAmount :: "decimal_lib \<Rightarrow> parse \<Rightarrow> chain_event \<Rightarrow> string list \<Rightarrow> amt option" where
  "readAmount D parse e keys = map_option (toFixed4 D) (first_some (tryDecimal parse) (amount_candidates (ev_data e) keys))"

definition handleRoyaltyPaid :: "decimal_lib \<Rightarrow> parse \<Rightarrow> (nat \<Rightarrow> string) \<Rightarrow> int \<Rightarrow> chain_event \<Rightarrow> royalty_state \<Rightarrow> royalty_state" where
  "handleRoyaltyPaid D parse gen now e s =
     (case (readEventString e [''key_address'', ''keyAddress'', ''key'', ''0''] (Some 1),
            readEventString e [''creator_wallet'', ''creatorWallet'', ''creator'', ''rights_holder'', ''1''] (Some 2)) of
        (Some key, Some creator) \<Rightarrow>
          (case readAmount D parse e [''amount'', ''royalty'', ''royalty_amount'', ''2''] of
             None \<Rightarrow> s
           | Some a \<Rightarrow>
               royalty_invalidate creator
                 (recordRoyaltyPaid \<lparr>ry_id = gen (length (rs_events s)), ry_key = key, ry_creator = creator,
                    ry_buyer = readEventString e [''buyer_wallet'', ''buyerWallet'', ''buyer'', ''payer'', ''3''] None, ry_amount = a,
                    ry_txHash = ev_txHash e, ry_ledger = int_str (ev_ledger e), ry_paidAt = eventTimestamp e now\<rparr> s))
      | _ \<Rightarrow> s)"

definition handleRoyaltyClaimed :: "decimal_lib \<Rightarrow> parse \<Rightarrow> (nat \<Rightarrow> string) \<Rightarrow> int \<Rightarrow> chain_event \<Rightarrow> royalty_state \<Rightarrow> royalty_state" where
  "handleRoyaltyClaimed D parse gen now e s =
     (case readEventString e [''creator_wallet'', ''creatorWallet'', ''creator'', ''claimer'', ''0''] (Some 1) of
        None \<Rightarrow> s
      | Some creator \<Rightarrow>
          (case readAmount D parse e [''amount'', ''claimed'', ''claim_amount'', ''1''] of
             None \<Rightarrow> s
           | Some a \<Rightarrow>
               let claimId = (case readEventString e [''claim_id'', ''claimId'', ''claim'', ''2''] None of
                                Some i \<Rightarrow> i
                              | None \<Rightarrow> ''claim:'' @ (if ev_txHash e \<noteq> [] then ev_txHash e else ev_id e))
               in royalty_invalidate creator
                    (recordRoyaltyClaim \<lparr>rc_id = gen (length (rs_claims s)), rc_claimId = claimId,
                       rc_key = readEventString e [''key_address'', ''keyAddress'', ''key''] None, rc_creator = creator, rc_amount = a,
                       rc_txHash = ev_txHash e, rc_ledger = int_str (ev_ledger e), rc_claimedAt = eventTimestamp e now\<rparr> s)))"

definition royalty_handle :: "decimal_lib \<Rightarrow> parse \<Rightarrow> (nat \<Rightarrow> string) \<Rightarrow> int \<Rightarrow> chain_event \<Rightarrow> royalty_state \<Rightarrow> royalty_state" where
  "royalty_handle D parse gen now e s =
     (let topic = normalizeTopic (ev_topic e)
      in if topic = ''royalty_paid'' then handleRoyaltyPaid D parse gen now e s
         else if topic = ''royalty_claimed'' then handleRoyaltyClaimed D parse gen now e s
         else s)"

subsection \<open>The breakdown\<close>

lemma length_newest: "length (newest_royalties w s) = length (royalties_of w s)"
  by (simp add: newest_royalties_def)

lemma collect_more: "psize \<le> length (listTransfers w psize (length xs) s) \<Longrightarrow>
   length (xs @ listTransfers w psize (length xs) s) < expected \<Longrightarrow>
   collect_transfers (Suc pages) w expected psize s xs = collect_transfers pages w expected psize s (xs @ listTransfers w psize (length xs) s)"
  by (simp add: Let_def)

lemma collect_stop: "expected \<le> length (xs @ listTransfers w psize (length xs) s) \<Longrightarrow>
   collect_transfers (Suc pages) w expected psize s xs = xs @ listTransfers w psize (length xs) s"
  by (simp add: Let_def)

lemma collect_pages:
  assumes "m \<le> length (newest_royalties w s)" "expected = length (newest_royalties w s)"
  shows "collect_transfers pages w expected psize s (take m (newest_royalties w s)) = take (m + pages * psize) (newest_royalties w s)"
  using assms(1)
proof (induction pages arbitrary: m)
  case (Suc pages)
  let ?L = "newest_royalties w s"
  have len: "length (take m ?L) = m" using Suc.prems by simp
  have next': "take m ?L @ listTransfers w psize (length (take m ?L)) s = take (m + psize) ?L"
    unfolding len listTransfers_def by (simp add: take_add)
  show ?case
  proof (cases "m + psize < length ?L")
    case True
    have "length (listTransfers w psize (length (take m ?L)) s) = psize"
      unfolding len using True by (simp add: listTransfers_def)
    moreover have "length (take (m + psize) ?L) < expected" using True assms(2) by simp
    ultimately have "collect_transfers (Suc pages) w expected psize s (take m ?L) =
        collect_transfers pages w expected psize s (take (m + psize) ?L)"
      unfolding next' [symmetric] by (intro collect_more) simp_all
    then show ?thesis using Suc.IH [of "m + psize"] True by (simp add: add.assoc)
  next
    case False
    then have "take (m + psize) ?L = ?L" "take (m + Suc pages * psize) ?L = ?L" by simp_all
    moreover have "expected \<le> length (take m ?L @ listTransfers w psize (length (take m ?L)) s)"
      unfolding next' using assms(2) calculation(1) by simp
    ultimately show ?thesis using collect_stop [of expected "take m ?L"] next' by metis
  qed
qed simp

lemma all_transfers: "listAllTransfers w (length (royalties_of w s)) psize s = take (MAX_TRANSFER_PAGES * psize) (newest_royalties w s)"
  unfolding listAllTransfers_def length_newest [symmetric]
  using collect_pages [of 0 w s "length (newest_royalties w s)" MAX_TRANSFER_PAGES psize] by (simp only: take_0 le0 simp_thms add_0)

lemma royaltyLimit_pos: "0 < mx \<Longrightarrow> 0 < fallback \<Longrightarrow> 0 < royaltyLimit v fallback mx"
  by (auto simp: royaltyLimit_def split: option.split)

text \<open>What a creator reads when nothing is cached: the exact sums of the creator's royalties and
  claims, their difference as pending and never below zero, their numbers, and the transfers newest
  first, all of them as long as twenty pages of the chosen length hold them and otherwise the newest
  that do.\<close>

theorem earnings_are_exact:
  assumes "decimal_ok D" "\<forall>r \<in> set (royalties_of w s). 0 \<le> ry_amount r" "\<forall>c \<in> set (royalty_claims_of w s). 0 \<le> rc_amount c"
    and "earned = sum_list (map ry_amount (royalties_of w s))" "claimed = sum_list (map rc_amount (royalty_claims_of w s))"
    and "amt_ok earned" "amt_ok claimed" "v = earnings_view_of D w psize now s"
  shows "rw_totalEarned v = earned \<and> rw_totalClaimed v = claimed \<and> rw_pending v = max 0 (earned - claimed) \<and>
     rw_transferCount v = length (royalties_of w s) \<and> rw_claimCount v = length (royalty_claims_of w s) \<and>
     rw_transfers v = take (20 * psize) (newest_royalties w s) \<and>
     (rw_transferCount v \<le> 20 * psize \<longrightarrow> mset (rw_transfers v) = mset (royalties_of w s))"
proof -
  have n: "0 \<le> earned" "0 \<le> claimed" unfolding assms(4,5) using assms(2,3) by (auto intro!: sum_list_nonneg)
  then have "amt_ok (earned - claimed)" using assms(6,7) by (auto simp: amt_ok_def)
  then have "dminus D (dec earned) (dec claimed) = dec (earned - claimed)" by (rule dminus_dec [OF assms(1)])
  then have p: "royalty_subtract D earned claimed = max 0 (earned - claimed)"
    using toFixed4_dec [OF assms(1)] toFixed4_dec [OF assms(1), of 0] by (auto simp: royalty_subtract_def max_def)
  have t: "rw_transfers v = take (20 * psize) (newest_royalties w s)"
    unfolding assms(8) by (simp add: earnings_view_of_def totalsByCreator_def claimTotalsByCreator_def all_transfers MAX_TRANSFER_PAGES_def)
  have "mset (take (20 * psize) (newest_royalties w s)) = mset (royalties_of w s)" if "length (royalties_of w s) \<le> 20 * psize"
    using that length_newest [of w s] by (simp add: newest_royalties_def)
  then show ?thesis using p t assms(4,5,8)
    by (simp add: earnings_view_of_def totalsByCreator_def claimTotalsByCreator_def)
qed

subsection \<open>Served from the cache\<close>

lemma royalty_cache_facts: "enabled royalty_cache" "0 \<le> maxEntries royalty_cache"
  by (simp_all add: royalty_cache_def DEFAULT_MAX_ENTRIES_def)

lemma no_colon: "CHR '':'' \<notin> set (nat_str n)"
  using nat_str_digits [of n] by (auto simp: Units.is_digit_def)

lemma nat_str_inj: "nat_str m = nat_str n \<Longrightarrow> m = n"
  by (metis add_0 digits_val_nat_str mult_zero_left option.inject)

lemma last_field:
  assumes "u @ CHR '':'' # a = v @ CHR '':'' # b" "CHR '':'' \<notin> set a" "CHR '':'' \<notin> set b"
  shows "u = v \<and> a = b"
proof -
  have t: "takeWhile (\<lambda>c. c \<noteq> CHR '':'') (rev (x @ CHR '':'' # y)) = rev y" if "CHR '':'' \<notin> set y" for x y
    using that by (auto simp: takeWhile_append)
  have "rev a = rev b"
    unfolding t [OF assms(2), of u, symmetric] t [OF assms(3), of v, symmetric] assms(1) ..
  then show ?thesis using assms(1) by simp
qed

lemma earnings_key_inj: "earnings_cache_key w m = earnings_cache_key v n \<Longrightarrow> w = v \<and> m = n"
  using last_field [of w "nat_str m" v "nat_str n"] no_colon nat_str_inj
  by (simp add: earnings_cache_key_def int_str_nonneg)

lemma collect_frame: "newest_royalties w s = newest_royalties w s' \<Longrightarrow>
   collect_transfers pages w expected psize s xs = collect_transfers pages w expected psize s' xs"
  by (induction pages arbitrary: xs) (simp_all add: listTransfers_def Let_def)

lemma view_frame:
  assumes "royalties_of w s = royalties_of w s'" "royalty_claims_of w s = royalty_claims_of w s'"
  shows "earnings_view_of D w psize t s = earnings_view_of D w psize t s'"
proof -
  have "newest_royalties w s = newest_royalties w s'" using assms(1) by (simp add: newest_royalties_def)
  then show ?thesis using collect_frame [of w s s'] assms
    by (simp add: earnings_view_of_def totalsByCreator_def claimTotalsByCreator_def listAllTransfers_def)
qed

text \<open>Every entry of the earnings of a creator is what the tables give now, and its key is remembered for
  that creator.\<close>

definition known_key :: "string \<Rightarrow> string \<Rightarrow> royalty_state \<Rightarrow> bool" where
  "known_key w k s \<longleftrightarrow> (case map_of (rs_keys s) w of None \<Rightarrow> False | Some ks \<Rightarrow> k \<in> set ks)"

definition entry_ok :: "decimal_lib \<Rightarrow> royalty_state \<Rightarrow> string \<times> royalty_cached entry \<Rightarrow> bool" where
  "entry_ok D s p \<longleftrightarrow> (\<forall>v. e_value (snd p) = Some (CachedEarnings v) \<longrightarrow>
     (\<exists>w n t. fst p = buildKey royalty_cache (earnings_cache_key w n) \<and> v = earnings_view_of D w n t s \<and>
        known_key w (earnings_cache_key w n) s))"

definition earnings_ok :: "decimal_lib \<Rightarrow> royalty_state \<Rightarrow> bool" where
  "earnings_ok D s \<longleftrightarrow> (\<forall>p \<in> set (memory (rs_cache s)). entry_ok D s p)"

lemma known_remembered: "known_key w k (rememberCacheKey v j s) \<longleftrightarrow> known_key w k s \<or> (w = v \<and> k = j)"
  by (auto simp: known_key_def rememberCacheKey_def map_of_map_set Let_def split: option.splits)

lemma remember_simps [simp]:
  "rs_cache (rememberCacheKey w k s) = rs_cache s" "rs_events (rememberCacheKey w k s) = rs_events s"
  "rs_claims (rememberCacheKey w k s) = rs_claims s"
  by (simp_all add: rememberCacheKey_def Let_def)

lemma rows_frame:
  assumes "rs_events s' = rs_events s" "rs_claims s' = rs_claims s"
  shows "earnings_view_of D w n t s' = earnings_view_of D w n t s"
  by (rule view_frame) (simp_all add: royalties_of_def royalty_claims_of_def assms)

lemma entry_frame:
  assumes "entry_ok D s p" "rs_events s' = rs_events s" "rs_claims s' = rs_claims s"
    and "\<And>w k. known_key w k s \<Longrightarrow> known_key w k s'"
  shows "entry_ok D s' p"
  using assms(1,4) unfolding entry_ok_def rows_frame [OF assms(2,3)] by blast

lemma deleted_entries: "set (memory (foldl (\<lambda>c k. cache_delete royalty_cache k c) c ks)) =
   {p \<in> set (memory c). \<forall>k \<in> set ks. fst p \<noteq> buildKey royalty_cache k}"
  by (induction ks arbitrary: c) (auto simp: cache_delete_entries royalty_cache_facts)

lemma invalidated:
  assumes "earnings_ok D s" "\<And>w. w \<noteq> creator \<Longrightarrow> royalties_of w s' = royalties_of w s \<and> royalty_claims_of w s' = royalty_claims_of w s"
    and "rs_cache s' = rs_cache s" "rs_keys s' = rs_keys s"
  shows "earnings_ok D (royalty_invalidate creator s')"
  unfolding earnings_ok_def
proof
  fix p
  let ?s = "royalty_invalidate creator s'"
  have rows: "royalties_of w ?s = royalties_of w s'" "royalty_claims_of w ?s = royalty_claims_of w s'" for w
    by (simp_all add: royalty_invalidate_def royalties_of_def royalty_claims_of_def split: option.split)
  assume p: "p \<in> set (memory (rs_cache ?s))"
  then have old: "p \<in> set (memory (rs_cache s))"
    and gone: "\<And>ks k. map_of (rs_keys s) creator = Some ks \<Longrightarrow> k \<in> set ks \<Longrightarrow> fst p \<noteq> buildKey royalty_cache k"
    using assms(3,4) by (auto simp: royalty_invalidate_def deleted_entries split: option.splits)
  show "entry_ok D ?s p"
    unfolding entry_ok_def
  proof (intro allI impI)
    fix v assume "e_value (snd p) = Some (CachedEarnings v)"
    then obtain w n t where w: "fst p = buildKey royalty_cache (earnings_cache_key w n)" "v = earnings_view_of D w n t s"
      "known_key w (earnings_cache_key w n) s"
      using assms(1) old unfolding earnings_ok_def entry_ok_def by blast
    have ne: "w \<noteq> creator" using w(1,3) gone by (auto simp: known_key_def split: option.splits)
    have "v = earnings_view_of D w n t ?s" unfolding w(2) by (rule view_frame) (use rows assms(2) [OF ne] in simp_all)
    moreover have "known_key w (earnings_cache_key w n) ?s"
      using w(3) ne assms(4) by (simp add: known_key_def royalty_invalidate_def map_of_map_delete split: option.splits)
    ultimately show "\<exists>w n t. fst p = buildKey royalty_cache (earnings_cache_key w n) \<and> v = earnings_view_of D w n t ?s \<and>
        known_key w (earnings_cache_key w n) ?s" using w(1) by blast
  qed
qed

lemma handled_paid:
  obtains "\<And>t s. handleRoyaltyPaid D parse gen t e s = s"
  | creator row where "\<And>t s. handleRoyaltyPaid D parse gen t e s = royalty_invalidate creator (recordRoyaltyPaid (row t s) s)"
      "\<And>t s. ry_txHash (row t s) = ev_txHash e" "\<And>t s. ry_ledger (row t s) = int_str (ev_ledger e)"
      "\<And>t s. ry_creator (row t s) = creator"
proof -
  let ?k = "readEventString e [''key_address'', ''keyAddress'', ''key'', ''0''] (Some 1)"
  let ?c = "readEventString e [''creator_wallet'', ''creatorWallet'', ''creator'', ''rights_holder'', ''1''] (Some 2)"
  let ?a = "readAmount D parse e [''amount'', ''royalty'', ''royalty_amount'', ''2'']"
  let ?row = "\<lambda>t s. \<lparr>ry_id = gen (length (rs_events s)), ry_key = the ?k, ry_creator = the ?c,
     ry_buyer = readEventString e [''buyer_wallet'', ''buyerWallet'', ''buyer'', ''payer'', ''3''] None, ry_amount = the ?a,
     ry_txHash = ev_txHash e, ry_ledger = int_str (ev_ledger e), ry_paidAt = eventTimestamp e t\<rparr>"
  show thesis
  proof (cases "?k = None \<or> ?c = None \<or> ?a = None")
    case True
    then have "handleRoyaltyPaid D parse gen t e s = s" for t s
      unfolding handleRoyaltyPaid_def by (cases ?k; cases ?c) (simp_all only: option.case prod.case, auto)
    then show thesis by (rule that(1))
  next
    case False
    then obtain k c a where eqs: "?k = Some k" "?c = Some c" "?a = Some a" by auto
    have "handleRoyaltyPaid D parse gen t e s = royalty_invalidate (the ?c) (recordRoyaltyPaid (?row t s) s)" for t s
      unfolding handleRoyaltyPaid_def eqs by simp
    then show thesis by (rule that(2)) simp_all
  qed
qed

lemma handled_claim:
  obtains "\<And>t s. handleRoyaltyClaimed D parse gen t e s = s"
  | creator row i where "\<And>t s. handleRoyaltyClaimed D parse gen t e s = royalty_invalidate creator (recordRoyaltyClaim (row t s) s)"
      "\<And>t s. rc_claimId (row t s) = i" "\<And>t s. rc_creator (row t s) = creator"
proof -
  let ?c = "readEventString e [''creator_wallet'', ''creatorWallet'', ''creator'', ''claimer'', ''0''] (Some 1)"
  let ?a = "readAmount D parse e [''amount'', ''claimed'', ''claim_amount'', ''1'']"
  let ?i = "case readEventString e [''claim_id'', ''claimId'', ''claim'', ''2''] None of
     Some i \<Rightarrow> i | None \<Rightarrow> ''claim:'' @ (if ev_txHash e \<noteq> [] then ev_txHash e else ev_id e)"
  let ?row = "\<lambda>t s. \<lparr>rc_id = gen (length (rs_claims s)), rc_claimId = ?i,
     rc_key = readEventString e [''key_address'', ''keyAddress'', ''key''] None, rc_creator = the ?c, rc_amount = the ?a,
     rc_txHash = ev_txHash e, rc_ledger = int_str (ev_ledger e), rc_claimedAt = eventTimestamp e t\<rparr>"
  show thesis
  proof (cases "?c = None \<or> ?a = None")
    case True
    then have "handleRoyaltyClaimed D parse gen t e s = s" for t s
      unfolding handleRoyaltyClaimed_def by (cases ?c) (simp_all only: option.case, auto)
    then show thesis by (rule that(1))
  next
    case False
    then obtain c a where eqs: "?c = Some c" "?a = Some a" by auto
    have "handleRoyaltyClaimed D parse gen t e s = royalty_invalidate (the ?c) (recordRoyaltyClaim (?row t s) s)" for t s
      unfolding handleRoyaltyClaimed_def eqs Let_def by simp
    then show thesis by (rule that(2)) simp_all
  qed
qed

lemma royalty_paid_keeps: "earnings_ok D s \<Longrightarrow> earnings_ok D (royalty_invalidate (ry_creator r) (recordRoyaltyPaid r s))"
  by (erule invalidated) (simp_all add: recordRoyaltyPaid_def royalties_of_def royalty_claims_of_def)

lemma royalty_claim_keeps: "earnings_ok D s \<Longrightarrow> earnings_ok D (royalty_invalidate (rc_creator c) (recordRoyaltyClaim c s))"
  by (erule invalidated) (simp_all add: recordRoyaltyClaim_def royalties_of_def royalty_claims_of_def)

lemma handle_keeps:
  assumes ok: "earnings_ok D s"
  shows "earnings_ok D (royalty_handle D parse gen now e s)"
proof -
  have "earnings_ok D (handleRoyaltyPaid D parse gen now e s)"
  proof (rule handled_paid [of D parse gen e])
    fix creator row
    assume "\<And>t s. handleRoyaltyPaid D parse gen t e s = royalty_invalidate creator (recordRoyaltyPaid (row t s) s)"
      "\<And>t s. ry_creator (row t s) = creator"
    then show ?thesis using royalty_paid_keeps [OF ok, of "row now s"] by simp
  qed (simp add: ok)
  moreover have "earnings_ok D (handleRoyaltyClaimed D parse gen now e s)"
  proof (rule handled_claim [of D parse gen e])
    fix creator row i
    assume "\<And>t s. handleRoyaltyClaimed D parse gen t e s = royalty_invalidate creator (recordRoyaltyClaim (row t s) s)"
      "\<And>t s. rc_creator (row t s) = creator"
    then show ?thesis using royalty_claim_keeps [OF ok, of "row now s"] by simp
  qed (simp add: ok)
  ultimately show ?thesis by (simp add: royalty_handle_def Let_def ok)
qed

lemma subset_keeps:
  assumes "earnings_ok D s" "set (memory c) \<subseteq> set (memory (rs_cache s))"
  shows "earnings_ok D (s\<lparr>rs_cache := c\<rparr>)"
proof -
  have "entry_ok D (s\<lparr>rs_cache := c\<rparr>) p" if "entry_ok D s p" for p
    using that by (rule entry_frame) (simp_all add: known_key_def)
  then show ?thesis using assms by (auto simp: earnings_ok_def)
qed

text \<open>An entry that is stored and whose key is remembered afterwards.\<close>

lemma stored_keeps:
  assumes "earnings_ok D s" "\<And>v. x = CachedEarnings v \<Longrightarrow> \<exists>n t. k = earnings_cache_key w n \<and> v = earnings_view_of D w n t s"
  shows "earnings_ok D (rememberCacheKey w k (s\<lparr>rs_cache := cache_set royalty_cache k x ttl now (rs_cache s)\<rparr>))"
  unfolding earnings_ok_def
proof
  fix p
  let ?s = "rememberCacheKey w k (s\<lparr>rs_cache := cache_set royalty_cache k x ttl now (rs_cache s)\<rparr>)"
  assume "p \<in> set (memory (rs_cache ?s))"
  then consider "p \<in> set (memory (rs_cache s))" | "fst p = buildKey royalty_cache k" "e_value (snd p) = Some x"
    using cache_set_subset [OF royalty_cache_facts(2), of k x ttl now "rs_cache s"] by auto
  then show "entry_ok D ?s p"
  proof cases
    case 1
    then have "entry_ok D s p" using assms(1) by (simp add: earnings_ok_def)
    then show ?thesis by (rule entry_frame) (simp_all add: known_remembered, simp add: known_key_def)
  next
    case 2
    have f: "earnings_view_of D u n t ?s = earnings_view_of D u n t s" for u n t by (rule rows_frame) simp_all
    show ?thesis unfolding entry_ok_def f
    proof (intro allI impI)
      fix v assume "e_value (snd p) = Some (CachedEarnings v)"
      then obtain n t where "k = earnings_cache_key w n" "v = earnings_view_of D w n t s" using 2(2) assms(2) by auto
      then show "\<exists>w n t. fst p = buildKey royalty_cache (earnings_cache_key w n) \<and> v = earnings_view_of D w n t s \<and>
          known_key w (earnings_cache_key w n) ?s" using 2(1) by (auto simp: known_remembered)
    qed
  qed
qed

lemma view_keeps: "earnings_ok D s \<Longrightarrow> earnings_ok D (snd (getEarnings D NoRedis w l now s))"
proof -
  assume ok: "earnings_ok D s"
  let ?n = "royaltyLimit l DEFAULT_TRANSFER_PAGE_SIZE MAX_TRANSFER_PAGE_SIZE"
  let ?k = "earnings_cache_key w ?n"
  let ?s1 = "s\<lparr>rs_cache := snd (cache_get royalty_cache NoRedis ?k now (rs_cache s))\<rparr>"
  have ok1: "earnings_ok D ?s1" by (rule subset_keeps [OF ok get_subset])
  have "earnings_ok D (rememberCacheKey w ?k (?s1\<lparr>rs_cache := cache_set royalty_cache ?k
      (CachedEarnings (earnings_view_of D w ?n now ?s1)) (Some ROYALTY_EARNINGS_CACHE_TTL_SECONDS) now (rs_cache ?s1)\<rparr>))"
    by (rule stored_keeps [OF ok1]) auto
  then show ?thesis using ok1 by (simp add: getEarnings_def Let_def split: option.split royalty_cached.split)
qed

lemma history_keeps: "earnings_ok D s \<Longrightarrow> earnings_ok D (snd (getRoyaltyHistory NoRedis pc w l given now s))"
proof -
  assume ok: "earnings_ok D s"
  let ?n = "royaltyLimit l 20 100"
  let ?k = "history_cache_key w ?n given" and ?c = "case given of None \<Rightarrow> None | Some t \<Rightarrow> if t = [] then None else pc t"
  let ?s1 = "s\<lparr>rs_cache := snd (cache_get royalty_cache NoRedis ?k now (rs_cache s))\<rparr>"
  have ok1: "earnings_ok D ?s1" by (rule subset_keeps [OF ok get_subset])
  have "earnings_ok D (rememberCacheKey w ?k (?s1\<lparr>rs_cache := cache_set royalty_cache ?k
      (CachedHistory (history_page_of w ?n ?c ?s1)) (Some ROYALTY_EARNINGS_CACHE_TTL_SECONDS) now (rs_cache ?s1)\<rparr>))"
    by (rule stored_keeps [OF ok1]) auto
  then show ?thesis using ok1
    by (cases "fst (cache_get royalty_cache NoRedis ?k now (rs_cache s))";
        cases "the (fst (cache_get royalty_cache NoRedis ?k now (rs_cache s)))")
       (simp_all add: getRoyaltyHistory_def Let_def)
qed

datatype royalty_call =
    Indexed chain_event int
  | ViewEarnings string "int option" int
  | ViewHistory string "int option" "string option" int

fun royalty_step ::
    "decimal_lib \<Rightarrow> parse \<Rightarrow> (nat \<Rightarrow> string) \<Rightarrow> (string \<Rightarrow> (int \<times> string) option) \<Rightarrow> royalty_state \<Rightarrow> royalty_call \<Rightarrow> royalty_state" where
  "royalty_step D parse gen pc s (Indexed e now) = royalty_handle D parse gen now e s"
| "royalty_step D parse gen pc s (ViewEarnings w l now) = snd (getEarnings D NoRedis w l now s)"
| "royalty_step D parse gen pc s (ViewHistory w l given now) = snd (getRoyaltyHistory NoRedis pc w l given now s)"

interpretation royalty_views: step_invariant "royalty_step D parse gen pc" "earnings_ok D" for D parse gen pc
proof unfold_locales
  fix s c assume "earnings_ok D s"
  then show "earnings_ok D (royalty_step D parse gen pc s c)"
    by (cases c) (simp_all add: handle_keeps view_keeps history_keeps)
qed

definition no_royalties :: royalty_state where
  "no_royalties = \<lparr>rs_events = [], rs_claims = [], rs_cache = \<lparr>memory = [], sweeping = False\<rparr>, rs_keys = []\<rparr>"

lemma served_view:
  assumes "earnings_ok D s"
  shows "\<exists>t. fst (getEarnings D NoRedis w l now s) =
    earnings_view_of D w (royaltyLimit l DEFAULT_TRANSFER_PAGE_SIZE MAX_TRANSFER_PAGE_SIZE) t s"
proof -
  let ?n = "royaltyLimit l DEFAULT_TRANSFER_PAGE_SIZE MAX_TRANSFER_PAGE_SIZE"
  let ?k = "earnings_cache_key w ?n"
  let ?g = "cache_get royalty_cache NoRedis ?k now (rs_cache s)"
  have "v = earnings_view_of D w ?n t s \<or> (\<exists>t. v = earnings_view_of D w ?n t s)" if hit: "fst ?g = Some (CachedEarnings v)" for v t
  proof -
    obtain e where e: "(buildKey royalty_cache ?k, e) \<in> set (memory (rs_cache s))" "e_value e = Some (CachedEarnings v)"
      using get_hit [OF hit] by blast
    then have "entry_ok D s (buildKey royalty_cache ?k, e)" using assms by (simp add: earnings_ok_def)
    then obtain w' n' t' where "buildKey royalty_cache ?k = buildKey royalty_cache (earnings_cache_key w' n')"
      "v = earnings_view_of D w' n' t' s" using e(2) by (auto simp: entry_ok_def)
    then have "w' = w" "n' = ?n" "v = earnings_view_of D w' n' t' s"
      using earnings_key_inj [of w ?n w' n'] by (simp_all add: buildKey_inj)
    then show ?thesis by blast
  qed
  moreover have "earnings_view_of D w ?n now (s\<lparr>rs_cache := c\<rparr>) = earnings_view_of D w ?n now s" for c
    by (rule rows_frame) simp_all
  ultimately show ?thesis
    by (cases "fst ?g"; cases "the (fst ?g)") (auto simp: getEarnings_def Let_def)
qed


subsection \<open>What is lost and what is late\<close>

text \<open>C19: a royalty is recognised by its transaction and ledger only. Of two royalties one transaction
  pays, to whomever and however much, the second is never recorded.\<close>

theorem second_royalty_of_transaction_is_lost:
  assumes "normalizeTopic (ev_topic e) = ''royalty_paid''" "normalizeTopic (ev_topic f) = ''royalty_paid''"
    and "ev_txHash f = ev_txHash e" "ev_ledger f = ev_ledger e"
    and "rs_events (royalty_handle D parse gen now e s) \<noteq> rs_events s"
  shows "rs_events (royalty_handle D parse gen now' f (royalty_handle D parse gen now e s)) = rs_events (royalty_handle D parse gen now e s)"
proof -
  have inv: "rs_events (royalty_invalidate w t) = rs_events t" for w t by (simp add: royalty_invalidate_def split: option.split)
  have "\<exists>x \<in> set (rs_events (royalty_handle D parse gen now e s)). ry_txHash x = ev_txHash e \<and> ry_ledger x = int_str (ev_ledger e)"
    using assms(1,5) by (auto simp: royalty_handle_def handleRoyaltyPaid_def recordRoyaltyPaid_def inv split: option.splits if_splits)
  then show ?thesis using assms(2-4)
    by (auto simp: royalty_handle_def [of D parse gen now' f] handleRoyaltyPaid_def [of D parse gen now' f] recordRoyaltyPaid_def inv
        split: option.split)
qed

definition royalty_paid_event :: "string \<Rightarrow> string \<Rightarrow> chain_event" where
  "royalty_paid_event i creator = \<lparr>ev_id = i, ev_contract = ''c'', ev_ledger = 7, ev_txHash = ''t7'', ev_topic = ''royalty_paid'',
     ev_topics = [NStr ''royalty_paid''],
     ev_data = NObj [(''key'', NStr ''K''), (''creator'', NStr creator), (''amount'', NInt 5)], ev_occurredAt = Some 50\<rparr>"

lemma first_royalty: "map ry_creator (rs_events (royalty_handle exact_decimal (\<lambda>_. None) (\<lambda>n. ''r'') 9 (royalty_paid_event ''e1'' ''GA'') no_royalties)) = [''GA'']"
  by code_simp

theorem second_royalty_of_transaction_is_lost_witness:
  "map ry_creator (rs_events (royalty_handle exact_decimal (\<lambda>_. None) (\<lambda>n. ''r'') 9 (royalty_paid_event ''e2'' ''GB'')
     (royalty_handle exact_decimal (\<lambda>_. None) (\<lambda>n. ''r'') 9 (royalty_paid_event ''e1'' ''GA'') no_royalties))) = [''GA'']"
proof -
  have t: "normalizeTopic ''royalty_paid'' = ''royalty_paid''" by code_simp
  have n: "rs_events no_royalties = []" by (simp add: no_royalties_def)
  show ?thesis
    by (subst second_royalty_of_transaction_is_lost) (use first_royalty t n in \<open>auto simp: royalty_paid_event_def\<close>)
qed

text \<open>Handling an event once more, at any time, changes nothing but the cache.\<close>

lemma royalty_rows_replay:
  "rs_events (royalty_handle D parse gen now' e (royalty_handle D parse gen now e s)) = rs_events (royalty_handle D parse gen now e s) \<and>
   rs_claims (royalty_handle D parse gen now' e (royalty_handle D parse gen now e s)) = rs_claims (royalty_handle D parse gen now e s)"
proof -
  have inv: "rs_events (royalty_invalidate w t) = rs_events t" "rs_claims (royalty_invalidate w t) = rs_claims t" for w t
    by (simp_all add: royalty_invalidate_def split: option.split)
  have "rs_events (handleRoyaltyPaid D parse gen now' e (handleRoyaltyPaid D parse gen now e s)) = rs_events (handleRoyaltyPaid D parse gen now e s) \<and>
      rs_claims (handleRoyaltyPaid D parse gen now' e (handleRoyaltyPaid D parse gen now e s)) = rs_claims (handleRoyaltyPaid D parse gen now e s)"
    by (rule handled_paid [of D parse gen e]) (auto simp: recordRoyaltyPaid_def inv)
  moreover have "rs_events (handleRoyaltyClaimed D parse gen now' e (handleRoyaltyClaimed D parse gen now e s)) = rs_events (handleRoyaltyClaimed D parse gen now e s) \<and>
      rs_claims (handleRoyaltyClaimed D parse gen now' e (handleRoyaltyClaimed D parse gen now e s)) = rs_claims (handleRoyaltyClaimed D parse gen now e s)"
    by (rule handled_claim [of D parse gen e]) (auto simp: recordRoyaltyClaim_def inv)
  ultimately show ?thesis by (simp add: royalty_handle_def Let_def)
qed

text \<open>A view taken from Redis is kept in the process, but its key is not remembered for the creator. A
  process that serves a creator only such views does not drop them when a royalty of the creator comes
  in: asked again while Redis is away and the entry lives, it shows the earnings of before.\<close>

theorem view_from_redis_outlives_the_event:
  assumes "map_of (rs_keys s) w = None" "k = earnings_cache_key w (royaltyLimit l DEFAULT_TRANSFER_PAGE_SIZE MAX_TRANSFER_PAGE_SIZE)"
    and "s1 = snd (getEarnings D (RedisHit (Some (CachedEarnings v))) w l now s)"
    and "s2 = royalty_handle D parse gen t e s1"
    and "readEventString e [''creator_wallet'', ''creatorWallet'', ''creator'', ''rights_holder'', ''1''] (Some 2) = Some w"
    and "normalizeTopic (ev_topic e) = ''royalty_paid''" "now' \<le> now + 30000"
    and "map_of (memory (rs_cache s1)) (buildKey royalty_cache k) \<noteq> None"
  shows "fst (getEarnings D NoRedis w l now' s2) = v"
proof -
  let ?K = "buildKey royalty_cache k"
  let ?e = "\<lparr>e_value = Some (CachedEarnings v), expiresAt = now + ttlSeconds royalty_cache * 1000\<rparr>"
  have c1: "rs_cache s1 = remember royalty_cache ?K (Some (CachedEarnings v)) now (rs_cache s)" "rs_keys s1 = rs_keys s"
    unfolding assms(2,3) by (simp_all add: getEarnings_def cache_get_def royalty_cache_facts Let_def)
  have "map_of (memory (rs_cache s1)) ?K = Some ?e"
  proof -
    obtain x where x: "map_of (memory (rs_cache s1)) ?K = Some x" using assms(8) by auto
    then have "(?K, x) \<in> set (memory (rs_cache s1))" by (rule map_of_SomeD)
    then have "(?K, x) \<in> set (map_delete ?K (memory (rs_cache s)) @ [(?K, ?e)])"
      unfolding c1(1) remember_def set_after_delete cache.simps evict_drop [OF royalty_cache_facts(2)] by (meson in_set_dropD)
    then have "x = ?e" by (auto simp: map_delete_def)
    then show ?thesis using x by simp
  qed
  moreover have "rs_cache s2 = rs_cache s1"
  proof -
    have "rs_cache (royalty_invalidate w (recordRoyaltyPaid r s1)) = rs_cache s1" for r
      using assms(1) c1(2) by (simp add: royalty_invalidate_def recordRoyaltyPaid_def)
    then show ?thesis unfolding assms(4)
      by (simp add: royalty_handle_def handleRoyaltyPaid_def assms(5,6) split: option.split)
  qed
  moreover have "ttlSeconds royalty_cache = 30" by (simp add: royalty_cache_def ROYALTY_EARNINGS_CACHE_TTL_SECONDS_def)
  ultimately have "fst (cache_get royalty_cache NoRedis k now' (rs_cache s2)) = Some (CachedEarnings v)"
    using assms(7) by (simp add: cache_get_def royalty_cache_facts get_memory_def Let_def)
  then show ?thesis unfolding assms(2) by (simp add: getEarnings_def Let_def)
qed

text \<open>On an event whose data is a list the key and the creator are both its first element.\<close>

lemma listed_royalty_credits_the_key:
  assumes "ev_data e = NArr (NStr x # xs)" "js_trim x \<noteq> []"
  shows "readEventString e [''key_address'', ''keyAddress'', ''key'', ''0''] (Some 1) = Some (js_trim x)"
    and "readEventString e [''creator_wallet'', ''creatorWallet'', ''creator'', ''rights_holder'', ''1''] (Some 2) = Some (js_trim x)"
    and "readEventString e [''claim_id'', ''claimId'', ''claim'', ''2''] None = Some (js_trim x)"
proof -
  have "key_index ''key_address'' = 0" "key_index ''creator_wallet'' = 0" "key_index ''claim_id'' = 0" by code_simp+
  then show "readEventString e [''key_address'', ''keyAddress'', ''key'', ''0''] (Some 1) = Some (js_trim x)"
    "readEventString e [''creator_wallet'', ''creatorWallet'', ''creator'', ''rights_holder'', ''1''] (Some 2) = Some (js_trim x)"
    "readEventString e [''claim_id'', ''claimId'', ''claim'', ''2''] None = Some (js_trim x)"
    using assms by (simp_all add: readEventString_def text_of_def)
qed

definition old_view :: earnings_view where
  "old_view = \<lparr>rw_creator = ''GA'', rw_totalEarned = 0, rw_totalClaimed = 0, rw_pending = 0, rw_transferCount = 0, rw_claimCount = 0,
     rw_transfers = [], rw_computedAt = 0\<rparr>"

definition after_redis :: royalty_state where
  "after_redis = snd (getEarnings exact_decimal (RedisHit (Some (CachedEarnings old_view))) ''GA'' None 1000 no_royalties)"

theorem view_from_redis_outlives_the_event_witness:
  "rs_events (royalty_handle exact_decimal (\<lambda>_. None) (\<lambda>n. ''r'') 9 (royalty_paid_event ''e1'' ''GA'') after_redis) \<noteq> [] \<and>
   rw_totalEarned (fst (getEarnings exact_decimal NoRedis ''GA'' None 2000
     (royalty_handle exact_decimal (\<lambda>_. None) (\<lambda>n. ''r'') 9 (royalty_paid_event ''e1'' ''GA'') after_redis))) = 0"
proof -
  let ?k = "earnings_cache_key ''GA'' (royaltyLimit None DEFAULT_TRANSFER_PAGE_SIZE MAX_TRANSFER_PAGE_SIZE)"
  have m: "map_of (memory (rs_cache after_redis)) (buildKey royalty_cache ?k) \<noteq> None" by code_simp
  have r: "readEventString (royalty_paid_event ''e1'' ''GA'') [''creator_wallet'', ''creatorWallet'', ''creator'', ''rights_holder'', ''1''] (Some 2) = Some ''GA''"
    by code_simp
  have t: "normalizeTopic (ev_topic (royalty_paid_event ''e1'' ''GA'')) = ''royalty_paid''" by code_simp
  have n: "map_of (rs_keys no_royalties) ''GA'' = None" by (simp add: no_royalties_def)
  have "rs_events (royalty_handle exact_decimal (\<lambda>_. None) (\<lambda>n. ''r'') 9 (royalty_paid_event ''e1'' ''GA'') after_redis) \<noteq> []" by code_simp
  moreover have "fst (getEarnings exact_decimal NoRedis ''GA'' None 2000
     (royalty_handle exact_decimal (\<lambda>_. None) (\<lambda>n. ''r'') 9 (royalty_paid_event ''e1'' ''GA'') after_redis)) = old_view"
    by (rule view_from_redis_outlives_the_event [OF n refl after_redis_def refl r t _ m]) simp
  ultimately show ?thesis by (simp add: old_view_def)
qed

end
