(* ===== verification/Spec2Isabelle.thy ===== *)
theory Spec2Isabelle
  imports Prelude Circuit_Breaker Decimal_Lib Units Keyset Pagination Invoice_Pages Domain Publish_Rules
    Invoice_Machine Invoice_Model Ttl_Cache Sliding_Window Settlement Settlement_Steps Investing Investing_Steps
    Secondary_Market Market_Steps Event_Indexer Contract_Events Dividends
    Invoice_Service Invoice_Calls Payments Payment_Steps Auth Auth_Steps Access Reconcile Reconcile_Steps Kyc Kyc_Steps
    Fee_Schedule Fee_Steps Subscription_Expiry Subscription_Steps Maturity Maturity_Steps Invoice_Extension Extension_Steps Funding Auctions Auction_Steps Admin_Settlement
    Auto_Invest Refunds Royalties
begin

section \<open>StellarSettle backend: a verification development\<close>

text \<open>
  The program is the backend of an invoice marketplace (TypeScript, \<open>src/src/\<close>). A seller drafts an
  invoice, publishes it, investors buy shares of its discounted net amount, and when the customer
  pays, the proceeds are split among the investors; shares are traded on a secondary market in
  between, and an indexer copies what the contracts on the Stellar network report into the database.
  Controllers parse requests and call services; services read and write the database through TypeORM
  and call the network through clients; workers call services on timers.

  \<^bold>\<open>Theories and the code they model\<close>

  \<^item> \<open>Prelude\<close>: \<open>utils/service-error.ts\<close>, results, transactions, strings; the locales for machines that
    keep an invariant. \<open>Decimal_Lib\<close>: money columns and the decimal.js package as a parameter.
    \<open>Keyset\<close>: orders and paging shared by every list endpoint. \<open>Domain\<close>: \<open>types/enums.ts\<close>, the entities
    of \<open>models/\<close> and the database as a record of tables.
  \<^item> \<open>Units\<close>: \<open>lib/decimal-bigint.ts\<close>, \<open>lib/stellar-format.ts\<close>, the return and share calculators.
    \<open>Circuit_Breaker\<close>, \<open>Ttl_Cache\<close>, \<open>Sliding_Window\<close>: \<open>lib/circuit-breaker.ts\<close>, \<open>lib/ttl-cache.ts\<close>,
    \<open>lib/redis-sliding-window.ts\<close> with its Lua script.
  \<^item> \<open>Pagination\<close>, \<open>Invoice_Pages\<close>: \<open>utils/query-pagination.utils.ts\<close> and \<open>utils/pagination.ts\<close>.
  \<^item> \<open>Publish_Rules\<close>, \<open>Invoice_Machine\<close>, \<open>Invoice_Model\<close>: the publish checks, the status state machine of
    \<open>lib/invoice-state-machine.ts\<close> with its store and side effects, and the entity's own rules in
    \<open>models/Invoice.model.ts\<close>.
  \<^item> \<open>Invoice_Service\<close>: \<open>services/invoice.service.ts\<close> and \<open>utils/invoice-cursor.utils.ts\<close>; \<open>Invoice_Calls\<close>
    proves what its calls guarantee.
  \<^item> \<open>Investing\<close>: \<open>services/investment.service.ts\<close>; \<open>Investing_Steps\<close>: its interleavings.
    \<open>Auto_Invest\<close>: \<open>services/auto-invest-rules.service.ts\<close> and \<open>services/auto-invest-rule-engine.service.ts\<close>.
    \<open>Refunds\<close>: \<open>services/invoice-refund.service.ts\<close>.
  \<^item> \<open>Settlement\<close>: \<open>services/settlement.service.ts\<close>; \<open>Settlement_Steps\<close>: its interleavings and crashes.
    \<open>Maturity\<close>, \<open>Maturity_Steps\<close>: the two jobs that settle or fail invoices at their due date,
    \<open>workers/invoice-maturity.worker.ts\<close> and \<open>workers/settlement.worker.ts\<close>. \<open>Admin_Settlement\<close>:
    \<open>services/admin-settlement.service.ts\<close>.
  \<^item> \<open>Invoice_Extension\<close>, \<open>Extension_Steps\<close>: \<open>services/invoice-extension.service.ts\<close>, which moves deadlines.
  \<^item> \<open>Payments\<close>: \<open>services/stellar/verify-payment.service.ts\<close>; \<open>Payment_Steps\<close>: its interleavings.
    \<open>Reconcile\<close>, \<open>Reconcile_Steps\<close>: the workers that repeat it, as runs of the same steps. \<open>Funding\<close>:
    \<open>services/stellar/orchestrate-investment-funding.service.ts\<close>, which prepares the payment.
  \<^item> \<open>Auth\<close>, \<open>Auth_Steps\<close>: \<open>services/auth.service.ts\<close>. \<open>Access\<close>: the authentication, administrator and
    suspension middleware of \<open>middleware/\<close> in the order \<open>app.ts\<close> and the routers mount them. \<open>Kyc\<close>,
    \<open>Kyc_Steps\<close>: \<open>services/kyc.service.ts\<close> and the two administrator routes of \<open>routes/admin\<close>.
  \<^item> \<open>Secondary_Market\<close>: \<open>services/secondary-market.service.ts\<close>; \<open>Market_Steps\<close>: sequences of trades.
    \<open>Auctions\<close>, \<open>Auction_Steps\<close>: \<open>services/secondary-auction.service.ts\<close> with its two caches.
  \<^item> \<open>Fee_Schedule\<close>, \<open>Fee_Steps\<close>: \<open>services/fee-schedule.service.ts\<close> and its Redis script.
  \<^item> \<open>Subscription_Expiry\<close>, \<open>Subscription_Steps\<close>: \<open>services/subscription-expiry-notifier.service.ts\<close> and the
    schedule of its worker.
  \<^item> \<open>Event_Indexer\<close>, \<open>Contract_Events\<close>, \<open>Dividends\<close>: \<open>services/stellar/event-indexer.service.ts\<close>,
    \<open>services/contract-event-bus.service.ts\<close>, \<open>services/dividend-distribution.service.ts\<close>. \<open>Royalties\<close>:
    \<open>services/royalty-earnings.service.ts\<close>.

  \<^bold>\<open>How the model reads the code\<close>

  \<^item> A raise is a value \<open>Inl\<close> with the code and HTTP status of the error; texts of messages, logging and
    metrics are not kept. A DTO is the row it copies.
  \<^item> A database transaction is \<open>run_tx\<close>: its writes are dropped when its body raises. A transaction that
    holds a row lock from its read to its commit is one step; one that does not is given as a read
    step and a write step, between which others commit. Saving a loaded entity writes all its
    columns; a conditional \<open>UPDATE\<close> is atomic. A query is modelled by its meaning; \<open>orderBy\<close> replaces an
    earlier ordering, as in TypeORM. A soft-deleted invoice leaves the table that queries see.
  \<^item> Money columns are integers of ten-thousandths; working values are rationals rounded by the
    decimal package, whose documented behaviour is \<open>decimal_ok\<close>. Values a caller passes are what
    decimal.js makes of their text, \<open>NaN\<close> and infinities included.
  \<^item> Clocks, generated identifiers, the network, IPFS, Redis answers, base64 and JSON are arguments.

  \<^bold>\<open>What is shown\<close>

  \<^item> Settlement: fee, returns and remainder add up; a settlement settles once; at most one payout is
    submitted per invoice under every interleaving, crash and retry; a failing call leaves the books.
  \<^item> Investing: the investments of an invoice never exceed its net amount however investments
    interleave; the retry loop ends and reports a conflict only after three attempts; an undisturbed
    attempt succeeds. The other writers are held to \<open>others_ok\<close>: they change no funded amount and
    move no version back. The indexer (it writes the status itself), a refund and a stale upload break it:
    \<open>Refunds\<close> and \<open>Invoice_Calls\<close> show what follows.
  \<^item> Invoices: every successful transition is one edge of the rule table and one history row, the history
    explains the status after any calls, closed invoices stay closed, a batch publishes all or
    nothing, the list pages are complete.
  \<^item> Secondary market: trades conserve the holdings, under the assumption that a wallet belongs to one
    user and quantities have four decimals; a finer quantity creates holdings.
  \<^item> Indexer and dividends: events take effect once, the checkpoint never moves back, polling ends
    within one page more than the server has cursors, the claimable view is exact, replays change
    nothing.
  \<^item> Money in and out: a payment operation is credited to at most one investment under every
    interleaving of verifications, a verified payment is credited once, the reconciliation worker does
    nothing a verification could not do; two overlapping fundings, a funding that crosses a
    verification and an administrator's settlement that crosses a payout are the cases where the books
    and the chain part. A tick of the maturity job accounts for every invoice it finds.
  \<^item> Accounts: a login challenge logs in at most once and only against a signature over the issued
    message; the middleware admits exactly the accounts the text of each theorem says, the gate on
    verified identity and the suspension guard let through or refuse more than they should; identity
    decisions are told as made, and an accepted webhook message can be replayed.
  \<^item> Prices, fees and warnings: auction rows stay well formed and auction views current; a fee read
    through the cache is that of the current schedule, whoever refills it; every expiry meets a run in
    its last day, while a renewed subscription is not warned again. Earnings shown from the cache are those
    of the tables in one process without Redis; two royalties of one transaction are recorded as one.
  \<^item> Rules and refunds: every rule that matches a published invoice is accounted for by one row; a refund
    leaves the books of the invoice open.
  \<^item> Infrastructure: the cache stays within its bound and never serves an expired entry, the sliding
    window admits at most its maximum and its retry time suffices, the breaker's counters stay in
    bounds.
  \<^item> Where the code does not do what its comments say, the deviation is a theorem with a witness; the
    manifest lists them.

  \<^bold>\<open>Bounds and fuel\<close>: page walks take fuel, and the theorems ask for one unit more than there are rows;
  the optimistic loop is recursive with a measure of three attempts; polling takes fuel of the number
  of cursors plus one; everything else is structural.

  \<^bold>\<open>Not modelled\<close>: the HTTP layer apart from access control, migrations, configuration and observability
  (wiring and formats); the Stellar and Soroban clients (network, their answers are arguments); the
  reporting, search and export services (read-only queries that no other part relies on); and the
  smaller services the manifest lists, none of which moves the money of an invoice.
\<close>

end
